(* ===== verification/Prelude.thy ===== *)
theory Prelude
  imports Main "HOL-Library.Word"
begin

text \<open>
  Shared vocabulary of the development: the types that stand for Go's standard values,
  the parts of the Go standard library the modelled code uses, and the generic lemmas and
  lemma collections the component theories build on.

  \<^item> A Go \<open>time.Time\<close> is an \<open>instant\<close>: nanoseconds since Go's zero time, so that
    \<open>IsZero\<close> is equality with 0; \<open>UTC()\<close> keeps the instant and is the identity here.
    \<open>Sub\<close> saturates at the 64-bit range as Go's does.
  \<^item> A nullable pointer is an \<open>option\<close>; pointer equality helpers of the source compare
    the pointees, which is equality on \<open>option\<close>.
  \<^item> A Go string is a list of bytes. \<open>ToUpper\<close>, \<open>ToLower\<close> and \<open>TrimSpace\<close>
    are modelled on ASCII; a byte above 127 is left unchanged.
  \<^item> A UUID is a 128-bit word; the order of the canonical hexadecimal text is the
    unsigned order of the word, and \<open>uuid.Nil\<close> is 0.
\<close>

section \<open>Lemma collections\<close>

named_theorems policy_simps \<open>facts about mutation policies\<close>
named_theorems clock_simps \<open>facts about match clocks and instants\<close>
named_theorems step_simps \<open>facts about state transitions\<close>
named_theorems list_facts \<open>generic facts on lists\<close>

section \<open>Types\<close>

type_synonym instant = int
type_synonym duration = int
type_synonym uuid = "128 word"
type_synonym go_string = string

datatype 'a result = Ok (the_ok: 'a) | Err go_string

fun is_ok :: "'a result \<Rightarrow> bool" where
  "is_ok (Ok _) = True"
| "is_ok (Err _) = False"

fun bind_result :: "'a result \<Rightarrow> ('a \<Rightarrow> 'b result) \<Rightarrow> 'b result" where
  "bind_result (Ok x) f = f x"
| "bind_result (Err e) f = Err e"

lemma bind_result_Ok_iff: "bind_result r f = Ok y \<longleftrightarrow> (\<exists>x. r = Ok x \<and> f x = Ok y)"
  by (cases r) auto

lemma is_ok_iff: "is_ok r \<longleftrightarrow> (\<exists>x. r = Ok x)"
  by (cases r) auto

section \<open>Loops that stop at the first error\<close>

fun fold_result :: "('a \<Rightarrow> 's \<Rightarrow> 's result) \<Rightarrow> 'a list \<Rightarrow> 's \<Rightarrow> 's result" where
  "fold_result f [] s = Ok s"
| "fold_result f (x # xs) s = bind_result (f x s) (fold_result f xs)"

lemma fold_result_invariant:
  assumes "\<And>x s s'. P s \<Longrightarrow> f x s = Ok s' \<Longrightarrow> P s'"
  shows "P s \<Longrightarrow> fold_result f xs s = Ok s' \<Longrightarrow> P s'"
proof (induction xs arbitrary: s)
  case (Cons x xs)
  then obtain t where "f x s = Ok t" "fold_result f xs t = Ok s'" by (auto simp: bind_result_Ok_iff)
  with Cons assms show ?case by blast
qed simp

lemma fold_result_append:
  "fold_result f (xs @ ys) s = bind_result (fold_result f xs s) (fold_result f ys)"
proof (induction xs arbitrary: s)
  case (Cons x xs)
  then show ?case by (cases "f x s") simp_all
qed simp

text \<open>A loop that appends one item for each element and fails where there is none.\<close>

lemma fold_result_collect:
  assumes "\<And>x s. f x s = (case h x of None \<Rightarrow> Err e | Some y \<Rightarrow> Ok (s @ [y]))" and "fold_result f xs acc = Ok res"
  shows "res = acc @ map (\<lambda>x. the (h x)) xs \<and> (\<forall>x\<in>set xs. h x \<noteq> None)"
  using assms(2)
proof (induction xs arbitrary: acc)
  case (Cons x xs)
  then obtain y where "h x = Some y" by (cases "h x") (simp_all add: assms(1))
  then have "f x acc = Ok (acc @ [y])" by (simp add: assms(1))
  then show ?case using Cons.IH [of "acc @ [y]"] Cons.prems \<open>h x = Some y\<close> by simp
qed simp

section \<open>Instants and durations\<close>

definition max_duration :: duration where
  "max_duration = 9223372036854775807"

definition min_duration :: duration where
  "min_duration = -9223372036854775808"

definition time_sub :: "instant \<Rightarrow> instant \<Rightarrow> duration" where
  "time_sub a b = max min_duration (min max_duration (a - b))"

definition nanoseconds_per_second :: duration where
  "nanoseconds_per_second = 1000000000"

definition seconds :: "int \<Rightarrow> duration" where
  "seconds n = n * nanoseconds_per_second"

definition minutes :: "int \<Rightarrow> duration" where
  "minutes n = seconds (60 * n)"

definition hours :: "int \<Rightarrow> duration" where
  "hours n = minutes (60 * n)"

lemmas duration_defs = seconds_def minutes_def hours_def nanoseconds_per_second_def
  max_duration_def min_duration_def

lemma time_sub_le [clock_simps]:
  "min_duration \<le> d \<Longrightarrow> d < max_duration \<Longrightarrow> time_sub a b \<le> d \<longleftrightarrow> a - b \<le> d"
  by (auto simp: time_sub_def duration_defs)

lemma time_sub_less [clock_simps]:
  "min_duration < d \<Longrightarrow> d \<le> max_duration \<Longrightarrow> time_sub a b < d \<longleftrightarrow> a - b < d"
  by (auto simp: time_sub_def duration_defs)

lemma time_sub_nonneg: "0 \<le> time_sub a b \<longleftrightarrow> b \<le> a"
  by (auto simp: time_sub_def duration_defs)

lemma time_sub_bounds: "min_duration \<le> time_sub a b \<and> time_sub a b \<le> max_duration"
  by (auto simp: time_sub_def duration_defs)

section \<open>Optional integers\<close>

definition int_value :: "int option \<Rightarrow> int" where
  "int_value v = (case v of None \<Rightarrow> 0 | Some n \<Rightarrow> n)"

lemma int_value_simps [simp]: "int_value None = 0" "int_value (Some n) = n"
  by (simp_all add: int_value_def)

section \<open>Byte strings\<close>

abbreviation code_of :: "char \<Rightarrow> nat" where
  "code_of c \<equiv> of_char c"

definition byte :: "nat \<Rightarrow> char" where
  "byte n = char_of n"

definition is_space_char :: "char \<Rightarrow> bool" where
  "is_space_char c \<longleftrightarrow> code_of c \<in> {9, 10, 11, 12, 13, 32}"

definition is_digit_char :: "char \<Rightarrow> bool" where
  "is_digit_char c \<longleftrightarrow> 48 \<le> code_of c \<and> code_of c \<le> 57"

definition is_upper_char :: "char \<Rightarrow> bool" where
  "is_upper_char c \<longleftrightarrow> 65 \<le> code_of c \<and> code_of c \<le> 90"

definition is_lower_char :: "char \<Rightarrow> bool" where
  "is_lower_char c \<longleftrightarrow> 97 \<le> code_of c \<and> code_of c \<le> 122"

definition is_letter_char :: "char \<Rightarrow> bool" where
  "is_letter_char c \<longleftrightarrow> is_upper_char c \<or> is_lower_char c"

definition digit_value :: "char \<Rightarrow> int" where
  "digit_value c = int (code_of c) - 48"

definition upper_char :: "char \<Rightarrow> char" where
  "upper_char c = (if is_lower_char c then char_of (code_of c - 32) else c)"

definition lower_char :: "char \<Rightarrow> char" where
  "lower_char c = (if is_upper_char c then char_of (code_of c + 32) else c)"

definition to_upper :: "go_string \<Rightarrow> go_string" where
  "to_upper s = map upper_char s"

definition to_lower :: "go_string \<Rightarrow> go_string" where
  "to_lower s = map lower_char s"

definition trim_left_space :: "go_string \<Rightarrow> go_string" where
  "trim_left_space s = dropWhile is_space_char s"

definition trim_space :: "go_string \<Rightarrow> go_string" where
  "trim_space s = rev (dropWhile is_space_char (rev (dropWhile is_space_char s)))"

fun has_prefix :: "go_string \<Rightarrow> go_string \<Rightarrow> bool" where
  "has_prefix s [] = True"
| "has_prefix [] (_ # _) = False"
| "has_prefix (c # s) (p # ps) = (c = p \<and> has_prefix s ps)"

fun contains_substring :: "go_string \<Rightarrow> go_string \<Rightarrow> bool" where
  "contains_substring [] p = (p = [])"
| "contains_substring (c # s) p = (has_prefix (c # s) p \<or> contains_substring s p)"

lemma has_prefix_iff: "has_prefix s p \<longleftrightarrow> (\<exists>t. s = p @ t)"
  by (induction s p rule: has_prefix.induct) auto

lemma contains_substring_iff: "contains_substring s p \<longleftrightarrow> (\<exists>a b. s = a @ p @ b)"
proof (induction s)
  case Nil
  then show ?case by auto
next
  case (Cons c s)
  have "contains_substring (c # s) p \<longleftrightarrow> has_prefix (c # s) p \<or> (\<exists>a b. s = a @ p @ b)"
    using Cons.IH by simp
  also have "\<dots> \<longleftrightarrow> (\<exists>a b. c # s = a @ p @ b)" (is "?l \<longleftrightarrow> ?r")
  proof
    assume ?l
    then show ?r
      by (metis append_Cons append_Nil has_prefix_iff)
  next
    assume ?r
    then obtain a b where ab: "c # s = a @ p @ b" by blast
    show ?l
    proof (cases a)
      case Nil
      with ab show ?thesis by (auto simp: has_prefix_iff)
    next
      case (Cons d a')
      with ab show ?thesis by auto
    qed
  qed
  finally show ?case .
qed

section \<open>Decimal integers\<close>

text \<open>\<open>strconv.Itoa\<close>: the shortest decimal text, with a leading minus for a negative.\<close>

definition digit_char :: "nat \<Rightarrow> char" where
  "digit_char d = char_of (48 + d)"

fun nat_digits :: "nat \<Rightarrow> go_string" where
  "nat_digits n = (if n < 10 then [digit_char n] else nat_digits (n div 10) @ [digit_char (n mod 10)])"

declare nat_digits.simps [simp del]

definition itoa :: "int \<Rightarrow> go_string" where
  "itoa n = (if n < 0 then CHR ''-'' # nat_digits (nat (- n)) else nat_digits (nat n))"

text \<open>The value of a string of digits, as the source's accumulator loops compute it.\<close>

definition digits_value :: "go_string \<Rightarrow> int" where
  "digits_value s = foldl (\<lambda>n c. n * 10 + digit_value c) 0 s"

text \<open>
  \<open>strconv.Atoi\<close>: an optional sign, at least one digit, nothing else, and a value in the
  64-bit range; every other text is an error.
\<close>

definition strconv_atoi :: "go_string \<Rightarrow> int option" where
  "strconv_atoi s =
     (let (neg, ds) = (case s of [] \<Rightarrow> (False, [])
                       | c # cs \<Rightarrow> if c = CHR ''-'' then (True, cs)
                                  else if c = CHR ''+'' then (False, cs) else (False, c # cs))
      in if ds = [] \<or> \<not> list_all is_digit_char ds then None
         else let v = (if neg then - digits_value ds else digits_value ds)
              in if min_duration \<le> v \<and> v \<le> max_duration then Some v else None)"

lemma code_of_char_of_small: "n < 256 \<Longrightarrow> code_of (char_of n) = n"
  by (simp add: of_char_of)

lemma is_digit_digit_char: "d < 10 \<Longrightarrow> is_digit_char (digit_char d)"
  by (simp add: is_digit_char_def digit_char_def of_char_of)

lemma digit_value_digit_char: "d < 10 \<Longrightarrow> digit_value (digit_char d) = int d"
  by (simp add: digit_value_def digit_char_def of_char_of)

lemma nat_digits_nonempty: "nat_digits n \<noteq> []"
  by (subst nat_digits.simps) simp

lemma nat_digits_all_digits: "list_all is_digit_char (nat_digits n)"
proof (induction n rule: nat_digits.induct)
  case (1 n)
  then show ?case
    by (subst nat_digits.simps) (auto simp: is_digit_digit_char)
qed

lemma digits_value_append_one: "digits_value (s @ [c]) = digits_value s * 10 + digit_value c"
  by (simp add: digits_value_def)

lemma digits_value_nat_digits: "digits_value (nat_digits n) = int n"
proof (induction n rule: nat_digits.induct)
  case (1 n)
  show ?case
  proof (cases "n < 10")
    case True
    then show ?thesis
      by (subst nat_digits.simps) (simp add: digits_value_def digit_value_digit_char)
  next
    case False
    with "1.IH" have "digits_value (nat_digits (n div 10)) = int (n div 10)" by simp
    with False show ?thesis
      by (subst nat_digits.simps)
        (simp add: digits_value_append_one digit_value_digit_char, presburger)
  qed
qed

lemma nat_digits_inject: "nat_digits m = nat_digits n \<longleftrightarrow> m = n"
  by (metis digits_value_nat_digits of_nat_eq_iff)

lemma digit_not_sign: "is_digit_char c \<Longrightarrow> c \<noteq> CHR ''-'' \<and> c \<noteq> CHR ''+'' \<and> c \<noteq> CHR ''_''"
  by (auto simp: is_digit_char_def)

lemma itoa_inject: "itoa m = itoa n \<longleftrightarrow> m = n"
proof -
  have neg: "CHR ''-'' # s \<noteq> nat_digits k" for s k
  proof
    assume "CHR ''-'' # s = nat_digits k"
    then have "list_all is_digit_char (CHR ''-'' # s)"
      using nat_digits_all_digits [of k] by simp
    then show False by (simp add: is_digit_char_def)
  qed
  then have neg': "nat_digits k \<noteq> CHR ''-'' # s" for s k by metis
  show ?thesis
    by (auto simp: itoa_def nat_digits_inject neg neg')
qed

lemma strconv_atoi_itoa:
  assumes "0 \<le> n" "n \<le> max_duration"
  shows "strconv_atoi (itoa n) = Some n"
proof -
  let ?ds = "nat_digits (nat n)"
  have digits: "list_all is_digit_char ?ds" by (rule nat_digits_all_digits)
  obtain c cs where ds: "?ds = c # cs" by (cases ?ds) (auto simp: nat_digits_nonempty)
  with digits have "c \<noteq> CHR ''-''" "c \<noteq> CHR ''+''" using digit_not_sign by auto
  moreover have "digits_value (c # cs) = n"
    using ds digits_value_nat_digits [of "nat n"] assms(1) by simp
  ultimately show ?thesis
    using assms digits ds by (simp add: strconv_atoi_def itoa_def Let_def duration_defs)
qed

lemma itoa_no_underscore: "CHR ''_'' \<notin> set (itoa n)"
proof -
  have "CHR ''_'' \<notin> set (nat_digits k)" for k
    using nat_digits_all_digits [of k] by (auto simp: list_all_iff is_digit_char_def)
  then show ?thesis by (auto simp: itoa_def)
qed

section \<open>Transactions with receipts\<close>

text \<open>
  The interface of a store that makes its transactions safe to retry: a committed success leaves
  a receipt for its request, and a request with a receipt is answered from it without touching
  the tables. A store is valid when its rows are where their keys say. The environment carries what may differ between two attempts, such as the clock.
\<close>

locale receipted_transaction =
  fixes run :: "'env \<Rightarrow> 'req \<Rightarrow> 'db \<Rightarrow> 'db \<times> 'out result"
    and receipt :: "'req \<Rightarrow> 'db \<Rightarrow> 'out option"
    and valid :: "'db \<Rightarrow> bool"
  assumes replay: "receipt req db = Some out \<Longrightarrow> run env req db = (db, Ok out)"
    and recorded: "valid db \<Longrightarrow> run env req db = (db', Ok out) \<Longrightarrow> receipt req db' = Some out"
begin

lemma retry: "valid db \<Longrightarrow> run env req db = (db', Ok out) \<Longrightarrow> run env' req db' = (db', Ok out)"
  using recorded replay by blast

lemma retries:
  assumes "valid db" "run env req db = (db', Ok out)"
  shows "foldl (\<lambda>r e. run e req (fst r)) (run env req db) envs = (db', Ok out)"
proof -
  have "foldl (\<lambda>r e. run e req (fst r)) (db', Ok out) envs = (db', Ok out)"
    using retry [OF assms] by (induction envs) auto
  then show ?thesis using assms(2) by simp
qed

end

section \<open>Lists\<close>

text \<open>The first element a predicate accepts, as a \<open>for\<close> loop with an early return.\<close>

definition list_keep_last :: "nat \<Rightarrow> 'a list \<Rightarrow> 'a list" where
  "list_keep_last n xs = drop (length xs - n) xs"

lemma length_list_keep_last [simp]: "length (list_keep_last n xs) = min n (length xs)"
  by (auto simp: list_keep_last_def)

lemma set_list_keep_last: "set (list_keep_last n xs) \<subseteq> set xs"
  by (simp add: list_keep_last_def set_drop_subset)

lemma image_hits [list_facts]: "y \<in> f ` A \<longleftrightarrow> (\<exists>x\<in>A. f x = y)"
  by auto

lemma foldl_invariant [list_facts]:
  assumes "P s" and "\<And>s x. P s \<Longrightarrow> x \<in> set xs \<Longrightarrow> P (f s x)"
  shows "P (foldl f s xs)"
  using assms by (induction xs arbitrary: s) auto

end
