(* ===== verification/ApiFootball.thy ===== *)
theory ApiFootball
  imports Prelude
begin

text \<open>
  The provider's wire vocabulary (\<open>internal/infra/apifootball\<close>): the typed enumerations of
  \<open>enums.go\<close> with their parsers, and the decoded fixture payload of \<open>fixtures.go\<close>. An enum
  value is its canonical lower-case text, as in the code, because an unknown vendor value is kept
  as text. The error result of the parsers is always nil in the source and is dropped.
\<close>

section \<open>Enumerations\<close>

definition known_status_codes :: "(go_string \<times> go_string) list" where
  "known_status_codes = map (\<lambda>s. (s, s))
     [''tbd'', ''ns'', ''1h'', ''ht'', ''2h'', ''et'', ''bt'', ''p'', ''susp'', ''int'', ''live'',
      ''ft'', ''aet'', ''pen'', ''pst'', ''canc'', ''abd'', ''awd'', ''wo'']"

definition known_event_types :: "(go_string \<times> go_string) list" where
  "known_event_types = map (\<lambda>s. (s, s)) [''goal'', ''card'', ''subst'', ''var'']"

definition known_event_details :: "(go_string \<times> go_string) list" where
  "known_event_details = map (\<lambda>s. (s, s))
     [''normal goal'', ''own goal'', ''penalty'', ''missed penalty'', ''yellow card'', ''red card'',
      ''goal cancelled'', ''penalty confirmed'']"

definition known_card_comments :: "(go_string \<times> go_string) list" where
  "known_card_comments = map (\<lambda>s. (s, s))
     [''foul'', ''argument'', ''roughing'', ''unsportsmanlike conduct'', ''serious foul'']"

definition known_goal_comments :: "(go_string \<times> go_string) list" where
  "known_goal_comments = [(''penalty shootout'', ''penalty shootout'')]"

text \<open>The result of a parser is the canonical value and whether the vendor value was known.\<close>

definition parse_api_status_code :: "go_string \<Rightarrow> go_string \<times> bool" where
  "parse_api_status_code raw =
     (let trimmed = trim_space raw; lower = to_lower trimmed
      in if trimmed = '''' then ('''', False)
         else case map_of known_status_codes lower of Some v \<Rightarrow> (v, True) | None \<Rightarrow> (lower, False))"

definition parse_api_event_type :: "go_string \<Rightarrow> go_string \<times> bool" where
  "parse_api_event_type raw =
     (let trimmed = trim_space raw; lower = to_lower trimmed
      in if trimmed = '''' then ('''', False)
         else case map_of known_event_types lower of Some v \<Rightarrow> (v, True) | None \<Rightarrow> (lower, False))"

definition parse_api_event_detail :: "go_string \<Rightarrow> go_string \<times> bool" where
  "parse_api_event_detail raw =
     (let trimmed = trim_space raw; lower = to_lower trimmed
      in if trimmed = '''' then ('''', False)
         else if has_prefix lower ''substitution'' then (''substitution'', True)
         else case map_of known_event_details lower of Some v \<Rightarrow> (v, True) | None \<Rightarrow> (lower, False))"

definition parse_api_card_comment :: "go_string \<Rightarrow> go_string \<times> bool" where
  "parse_api_card_comment raw =
     (let trimmed = trim_space raw; lower = to_lower trimmed
      in if trimmed = '''' then ('''', False)
         else case map_of known_card_comments lower of Some v \<Rightarrow> (v, True) | None \<Rightarrow> (lower, False))"

definition parse_api_goal_comment :: "go_string \<Rightarrow> go_string \<times> bool" where
  "parse_api_goal_comment raw =
     (let trimmed = trim_space raw; lower = to_lower trimmed
      in if trimmed = '''' then ('''', False)
         else case map_of known_goal_comments lower of Some v \<Rightarrow> (v, True) | None \<Rightarrow> (lower, False))"

definition has_penalty_shootout_comment :: "go_string \<Rightarrow> bool" where
  "has_penalty_shootout_comment comments =
     contains_substring (to_lower comments) (to_lower ''penalty shootout'')"

section \<open>The decoded fixture\<close>

text \<open>The fields the modelled code reads; venue, referee, logo and flag are display only.\<close>

record api_status_block =
  afs_long :: go_string
  afs_short :: go_string
  afs_elapsed :: "int option"
  afs_extra :: "int option"

record api_team =
  aft_id :: int
  aft_name :: go_string
  aft_winner :: "bool option"

record api_league =
  afl_id :: int
  afl_name :: go_string
  afl_country :: go_string
  afl_season :: int
  afl_round :: go_string

record api_player_ref =
  afp_id :: "int option"
  afp_name :: "go_string option"

record api_event =
  afe_elapsed :: int
  afe_extra :: "int option"
  afe_team :: api_team
  afe_player :: api_player_ref
  afe_assist :: api_player_ref
  afe_type :: go_string
  afe_detail :: go_string
  afe_comments :: "go_string option"

record api_fixture =
  af_id :: int
  af_date :: instant
  af_status :: api_status_block
  af_league :: api_league
  af_home :: api_team
  af_away :: api_team
  af_goals_home :: "int option"
  af_goals_away :: "int option"
  af_penalty_home :: "int option"
  af_penalty_away :: "int option"
  af_events :: "api_event list"

section \<open>Facts about case folding and trimming\<close>

lemma lower_char_code:
  "code_of (lower_char c) = (if is_upper_char c then code_of c + 32 else code_of c)"
  by (simp add: lower_char_def is_upper_char_def of_char_of)

lemma code_of_inject: "code_of c = (code_of d :: nat) \<longleftrightarrow> c = d"
  by (rule of_char_eq_iff)

lemma lower_char_idem [simp]: "lower_char (lower_char c) = lower_char c"
  by (simp add: code_of_inject [symmetric] lower_char_code is_upper_char_def)

lemma is_space_lower_char [simp]: "is_space_char (lower_char c) = is_space_char c"
  by (auto simp: is_space_char_def lower_char_code is_upper_char_def)

lemma to_lower_idem [simp]: "to_lower (to_lower s) = to_lower s"
  by (simp add: to_lower_def)

lemma to_lower_empty [simp]: "to_lower s = [] \<longleftrightarrow> s = []"
  by (simp add: to_lower_def)

lemma dropWhile_space_lower: "dropWhile is_space_char (to_lower s) = to_lower (dropWhile is_space_char s)"
  by (induction s) (auto simp: to_lower_def)

lemma rev_to_lower: "rev (to_lower s) = to_lower (rev s)"
  by (simp add: to_lower_def rev_map)

lemma trim_space_lower: "trim_space (to_lower s) = to_lower (trim_space s)"
  by (simp add: trim_space_def dropWhile_space_lower rev_to_lower)

lemma dropWhile_idem: "dropWhile P (dropWhile P xs) = dropWhile P xs"
  by (induction xs) auto

lemma dropWhile_rev_keeps_head:
  assumes "dropWhile P xs = xs"
  shows "dropWhile P (rev (dropWhile P (rev xs))) = rev (dropWhile P (rev xs))"
proof (cases xs)
  case Nil
  then show ?thesis by simp
next
  case (Cons x ys)
  with assms have "\<not> P x" by (metis dropWhile.simps(2) dropWhile_eq_Cons_conv)
  then have "dropWhile P (rev ys @ [x]) = dropWhile P (rev ys) @ [x]"
    by (induction "rev ys") (auto simp: dropWhile_append)
  with Cons \<open>\<not> P x\<close> show ?thesis by simp
qed

lemma trim_space_idem [simp]: "trim_space (trim_space s) = trim_space s"
proof -
  let ?a = "dropWhile is_space_char s"
  have "dropWhile is_space_char ?a = ?a" by (rule dropWhile_idem)
  from dropWhile_rev_keeps_head [OF this] show ?thesis
    by (simp add: trim_space_def dropWhile_idem)
qed

text \<open>The normal form every parser looks up: the trimmed text in lower case.\<close>

definition vendor_normal :: "go_string \<Rightarrow> go_string" where
  "vendor_normal raw = to_lower (trim_space raw)"

lemma vendor_normal_idem [simp]: "vendor_normal (vendor_normal raw) = vendor_normal raw"
  by (simp add: vendor_normal_def trim_space_lower)

lemma map_of_identity: "map_of (map (\<lambda>s. (s, s)) xs) k = (if k \<in> set xs then Some k else None)"
  by (induction xs) auto

text \<open>The interface of the vendor parsers: a parser factors through the normal form, and returns a
  text that is its own normal form and parses to the same result.\<close>

locale vendor_enum =
  fixes parse :: "go_string \<Rightarrow> go_string \<times> bool"
  assumes parse_normal: "parse (vendor_normal raw) = parse raw"
    and parse_canonical: "parse (fst (parse raw)) = parse raw"
    and canonical_lower: "to_lower (fst (parse raw)) = fst (parse raw)"
begin

lemma spelling_irrelevant:
  assumes "vendor_normal a = vendor_normal b"
  shows "parse a = parse b"
  using assms parse_normal by metis

lemma reparse_stable: "fst (parse (fst (parse raw))) = fst (parse raw)"
  by (simp add: parse_canonical)

end

text \<open>Four of the parsers are a lookup of the normal form in a table of canonical texts.\<close>

definition table_parse :: "go_string list \<Rightarrow> go_string \<Rightarrow> go_string \<times> bool" where
  "table_parse canon raw =
     (let n = vendor_normal raw in if n = '''' then ('''', False) else (n, n \<in> set canon))"

lemma table_parse_lookup:
  "(let trimmed = trim_space raw; lower = to_lower trimmed
    in if trimmed = '''' then ('''', False)
       else case map_of (map (\<lambda>s. (s, s)) canon) lower of Some v \<Rightarrow> (v, True) | None \<Rightarrow> (lower, False))
   = table_parse canon raw"
  by (simp add: table_parse_def vendor_normal_def map_of_identity Let_def)

lemma status_is_table: "parse_api_status_code raw = table_parse (map fst known_status_codes) raw"
  unfolding parse_api_status_code_def known_status_codes_def table_parse_lookup by (simp add: comp_def)

lemma type_is_table: "parse_api_event_type raw = table_parse (map fst known_event_types) raw"
  unfolding parse_api_event_type_def known_event_types_def table_parse_lookup by (simp add: comp_def)

lemma card_is_table: "parse_api_card_comment raw = table_parse (map fst known_card_comments) raw"
  unfolding parse_api_card_comment_def known_card_comments_def table_parse_lookup by (simp add: comp_def)

lemma goal_is_table: "parse_api_goal_comment raw = table_parse [''penalty shootout''] raw"
proof -
  have table: "known_goal_comments = map (\<lambda>s. (s, s)) [''penalty shootout'']" by (simp add: known_goal_comments_def)
  show ?thesis unfolding parse_api_goal_comment_def table table_parse_lookup ..
qed

lemma table_parse_normal: "table_parse canon (vendor_normal raw) = table_parse canon raw"
  by (simp add: table_parse_def Let_def)

lemma table_parse_fst: "fst (table_parse canon raw) = vendor_normal raw"
  by (simp add: table_parse_def Let_def)

lemma vendor_normal_lower: "to_lower (vendor_normal raw) = vendor_normal raw"
  by (simp add: vendor_normal_def)

lemma table_parse_enum: "vendor_enum (table_parse canon)"
  by unfold_locales (simp_all add: table_parse_normal table_parse_fst vendor_normal_lower)

interpretation status_code: vendor_enum parse_api_status_code
  unfolding status_is_table [abs_def] by (rule table_parse_enum)

interpretation event_type: vendor_enum parse_api_event_type
  unfolding type_is_table [abs_def] by (rule table_parse_enum)

interpretation card_comment: vendor_enum parse_api_card_comment
  unfolding card_is_table [abs_def] by (rule table_parse_enum)

interpretation goal_comment: vendor_enum parse_api_goal_comment
  unfolding goal_is_table [abs_def] by (rule table_parse_enum)

lemma detail_parse_normal:
  "parse_api_event_detail raw =
     (let n = vendor_normal raw
      in if n = '''' then ('''', False)
         else if has_prefix n ''substitution'' then (''substitution'', True)
         else (n, n \<in> set (map fst known_event_details)))"
  unfolding parse_api_event_detail_def known_event_details_def
  by (simp add: map_of_identity vendor_normal_def Let_def comp_def del: list.map set_simps)

lemma detail_canonical:
  "parse_api_event_detail (fst (parse_api_event_detail raw)) = parse_api_event_detail raw"
proof (cases "vendor_normal raw \<noteq> '''' \<and> has_prefix (vendor_normal raw) ''substitution''")
  case True
  have "parse_api_event_detail ''substitution'' = (''substitution'', True)" by code_simp
  with True show ?thesis by (simp add: detail_parse_normal [of raw])
next
  case False
  then have "fst (parse_api_event_detail raw) = vendor_normal raw"
    by (auto simp: detail_parse_normal Let_def)
  then show ?thesis by (simp add: detail_parse_normal)
qed

interpretation event_detail: vendor_enum parse_api_event_detail
proof
  fix raw
  show "parse_api_event_detail (vendor_normal raw) = parse_api_event_detail raw"
    by (simp add: detail_parse_normal)
  show "parse_api_event_detail (fst (parse_api_event_detail raw)) = parse_api_event_detail raw"
    by (rule detail_canonical)
  have "to_lower ''substitution'' = ''substitution''" by code_simp
  then show "to_lower (fst (parse_api_event_detail raw)) = fst (parse_api_event_detail raw)"
    by (simp add: detail_parse_normal Let_def vendor_normal_lower)
qed

text \<open>every vendor spelling has one canonical value: for each of the five parsers the result
  depends only on the trimmed lower-case text, is itself in lower case, and parses to itself, so
  decoding an already canonical value, as a replay of stored data does, changes nothing.\<close>

theorem vendor_parsers_are_canonical:
  "parse \<in> {parse_api_status_code, parse_api_event_type, parse_api_event_detail,
            parse_api_card_comment, parse_api_goal_comment} \<longrightarrow>
   parse (fst (parse raw)) = parse raw \<and> to_lower (fst (parse raw)) = fst (parse raw) \<and>
   (trim_space (to_lower a) = trim_space (to_lower b) \<longrightarrow> parse a = parse b)"
proof (intro impI)
  assume "parse \<in> {parse_api_status_code, parse_api_event_type, parse_api_event_detail,
            parse_api_card_comment, parse_api_goal_comment}"
  then have enum: "vendor_enum parse"
    using status_code.vendor_enum_axioms event_type.vendor_enum_axioms event_detail.vendor_enum_axioms
      card_comment.vendor_enum_axioms goal_comment.vendor_enum_axioms by auto
  show "parse (fst (parse raw)) = parse raw \<and> to_lower (fst (parse raw)) = fst (parse raw) \<and>
   (trim_space (to_lower a) = trim_space (to_lower b) \<longrightarrow> parse a = parse b)"
    using vendor_enum.parse_canonical [OF enum] vendor_enum.canonical_lower [OF enum]
      vendor_enum.spelling_irrelevant [OF enum, of a b]
    by (simp add: vendor_normal_def trim_space_lower)
qed

theorem vendor_parsers_are_canonical_witness:
  "parse_api_status_code '' FT '' = parse_api_status_code ''ft'' \<and>
   parse_api_event_detail (fst (parse_api_event_detail ''Substitution 3'')) =
     parse_api_event_detail ''Substitution 3''"
proof
  have "trim_space (to_lower '' FT '') = trim_space (to_lower ''ft'')" by code_simp
  then show "parse_api_status_code '' FT '' = parse_api_status_code ''ft''"
    using vendor_parsers_are_canonical [of parse_api_status_code undefined "'' FT ''" "''ft''"] by blast
  show "parse_api_event_detail (fst (parse_api_event_detail ''Substitution 3'')) =
     parse_api_event_detail ''Substitution 3''"
    using vendor_parsers_are_canonical [of parse_api_event_detail "''Substitution 3''"] by blast
qed

end
