(* ===== verification/Event.thy ===== *)
theory Event
  imports ApiFootball
begin

text \<open>
  The event aggregate of \<open>internal/domain/event\<close>: the tracked types and the filter that decides
  them (\<open>event.go\<close>), the natural key, the lifecycle of removal and completion (\<open>state.go\<close>), the
  derived phase (\<open>phase.go\<close>) and the classification of downstream outcomes (\<open>outcome.go\<close>,
  \<open>downstream.go\<close>). A fresh UUID is an argument of \<open>New\<close>; the free-form telemetry column has no
  modelled reader and is left out.
\<close>

section \<open>Types\<close>

datatype event_type =
    TypeGoal
  | TypeCard
  | TypeSubst
  | TypeVar
  | TypeMissedPenalty
  | TypeOther go_string

fun event_type_valid :: "event_type \<Rightarrow> bool" where
  "event_type_valid (TypeOther _) = False"
| "event_type_valid _ = True"

fun type_text :: "event_type \<Rightarrow> go_string" where
  "type_text TypeGoal = ''goal''"
| "type_text TypeCard = ''card''"
| "type_text TypeSubst = ''subst''"
| "type_text TypeVar = ''var''"
| "type_text TypeMissedPenalty = ''missed penalty''"
| "type_text (TypeOther s) = s"

text \<open>\<open>None\<close> is the zero value with false.\<close>

definition trackable_event_type :: "go_string \<Rightarrow> go_string \<Rightarrow> go_string \<Rightarrow> event_type option" where
  "trackable_event_type api_type api_detail api_comments =
     (if api_type = ''goal'' then
        (if has_penalty_shootout_comment api_comments then None
         else if api_detail \<in> {''normal goal'', ''penalty'', ''own goal''} then Some TypeGoal
         else if api_detail = ''missed penalty'' then Some TypeMissedPenalty
         else None)
      else if api_type = ''card'' then
        (if api_detail = ''red card'' then Some TypeCard else None)
      else None)"

datatype removal_reason = RemovalVAR | RemovalPolicy | RemovalAssetGone | RemovalOther go_string

fun removal_reason_valid :: "removal_reason \<Rightarrow> bool" where
  "removal_reason_valid (RemovalOther _) = False"
| "removal_reason_valid _ = True"

record event_team =
  et_id :: int
  et_name :: go_string

record player =
  pl_id :: "int option"
  pl_name :: "go_string option"

definition player_known :: "player \<Rightarrow> bool" where
  "player_known p \<longleftrightarrow> pl_id p \<noteq> None \<and> pl_name p \<noteq> None"

definition no_player :: player where
  "no_player = \<lparr> pl_id = None, pl_name = None \<rparr>"

record event =
  ev_id :: uuid
  ev_fixture_id :: int
  ev_natural_key :: go_string
  ev_type :: event_type
  ev_detail :: go_string
  ev_team :: event_team
  ev_player :: player
  ev_assist :: player
  ev_minute :: int
  ev_extra :: "int option"
  ev_first_seen_at :: instant
  ev_debounce_count :: int
  ev_downstream_triggered :: bool
  ev_monitor_complete :: bool
  ev_download_complete :: bool
  ev_removed :: bool
  ev_removed_reason :: "removal_reason option"
  ev_removed_at :: "instant option"
  ev_created_at :: instant
  ev_updated_at :: instant

section \<open>Construction and identity\<close>

definition player_text :: "int option \<Rightarrow> go_string" where
  "player_text pid = (case pid of None \<Rightarrow> ''unknown'' | Some n \<Rightarrow> itoa n)"

definition compose_natural_key :: "int \<Rightarrow> int option \<Rightarrow> event_type \<Rightarrow> int \<Rightarrow> go_string" where
  "compose_natural_key team_id player_id t sequence =
     itoa team_id @ ''_'' @ player_text player_id @ ''_'' @ type_text t @ ''_'' @ itoa sequence"

definition new_event ::
  "uuid \<Rightarrow> int \<Rightarrow> event_team \<Rightarrow> player \<Rightarrow> event_type \<Rightarrow> go_string \<Rightarrow> int \<Rightarrow> int option \<Rightarrow> int \<Rightarrow> instant \<Rightarrow> event" where
  "new_event fresh fixture_id tm p t detail minute extra sequence at = \<lparr> ev_id = fresh,
     ev_fixture_id = fixture_id,
     ev_natural_key = compose_natural_key (et_id tm) (pl_id p) t sequence,
     ev_type = t, ev_detail = detail, ev_team = tm, ev_player = p, ev_assist = no_player,
     ev_minute = minute, ev_extra = extra, ev_first_seen_at = at, ev_debounce_count = 0,
     ev_downstream_triggered = False, ev_monitor_complete = False, ev_download_complete = False,
     ev_removed = False, ev_removed_reason = None, ev_removed_at = None,
     ev_created_at = at, ev_updated_at = at \<rparr>"

definition mutable_fields_changed :: "event \<Rightarrow> event \<Rightarrow> bool" where
  "mutable_fields_changed e fresh \<longleftrightarrow>
     pl_id (ev_assist e) \<noteq> pl_id (ev_assist fresh) \<or>
     pl_name (ev_assist e) \<noteq> pl_name (ev_assist fresh) \<or>
     ev_minute e \<noteq> ev_minute fresh \<or> ev_extra e \<noteq> ev_extra fresh \<or>
     ev_detail e \<noteq> ev_detail fresh"

section \<open>Lifecycle\<close>

definition err_removed_event :: go_string where
  "err_removed_event = ''event: transition not valid on removed event''"

definition err_already_removed :: go_string where
  "err_already_removed = ''event: already removed''"

definition err_invalid_removal_reason :: go_string where
  "err_invalid_removal_reason = ''event: unknown removal reason''"

definition err_event_timestamp_mismatch :: go_string where
  "err_event_timestamp_mismatch = ''event: state and timestamp fields inconsistent''"

definition mark_monitor_complete :: "event \<Rightarrow> instant \<Rightarrow> event result" where
  "mark_monitor_complete e at =
     (if ev_removed e then Err err_removed_event
      else if ev_monitor_complete e then Ok e
      else Ok (e\<lparr> ev_monitor_complete := True, ev_updated_at := at \<rparr>))"

definition mark_download_complete :: "event \<Rightarrow> instant \<Rightarrow> event result" where
  "mark_download_complete e at =
     (if ev_removed e then Err err_removed_event
      else if ev_download_complete e then Ok e
      else Ok (e\<lparr> ev_download_complete := True, ev_updated_at := at \<rparr>))"

definition remove_event :: "event \<Rightarrow> removal_reason \<Rightarrow> instant \<Rightarrow> event result" where
  "remove_event e reason at =
     (if \<not> removal_reason_valid reason then Err err_invalid_removal_reason
      else if ev_removed e
      then (if ev_removed_reason e = Some reason then Ok e else Err err_already_removed)
      else Ok (e\<lparr> ev_removed := True, ev_removed_reason := Some reason,
                  ev_removed_at := Some at, ev_updated_at := at \<rparr>))"

definition update_player :: "event \<Rightarrow> player \<Rightarrow> instant \<Rightarrow> event" where
  "update_player e p at = e\<lparr> ev_player := p, ev_updated_at := at \<rparr>"

definition update_minute :: "event \<Rightarrow> int \<Rightarrow> int option \<Rightarrow> instant \<Rightarrow> event" where
  "update_minute e minute extra at = e\<lparr> ev_minute := minute, ev_extra := extra, ev_updated_at := at \<rparr>"

definition validate_event :: "event \<Rightarrow> unit result" where
  "validate_event e =
     (if ev_removed e \<and> ev_removed_reason e = None then Err err_event_timestamp_mismatch
      else if ev_removed e \<and> ev_removed_at e = None then Err err_event_timestamp_mismatch
      else if \<not> ev_removed e \<and> (ev_removed_reason e \<noteq> None \<or> ev_removed_at e \<noteq> None)
      then Err err_event_timestamp_mismatch
      else if \<not> event_type_valid (ev_type e) then Err ''event: invalid Type'' else Ok ())"

datatype phase = PhaseDetected | PhaseSearching | PhaseComplete | PhaseRemoved

definition derive_phase :: "bool \<Rightarrow> bool \<Rightarrow> bool \<Rightarrow> phase" where
  "derive_phase removed downstream_triggered discovery_complete =
     (if removed then PhaseRemoved
      else if discovery_complete then PhaseComplete
      else if downstream_triggered then PhaseSearching
      else PhaseDetected)"

datatype downstream_outcome =
    OutcomeSuccess | OutcomeNoCandidates | OutcomeEventRemoved | OutcomeStubOK | OutcomeOther go_string

fun downstream_outcome_valid :: "downstream_outcome \<Rightarrow> bool" where
  "downstream_outcome_valid (OutcomeOther _) = False"
| "downstream_outcome_valid _ = True"

datatype event_op =
    OpMonitorComplete instant
  | OpDownloadComplete instant
  | OpRemove removal_reason instant
  | OpUpdatePlayer player instant
  | OpUpdateMinute int "int option" instant

fun apply_event_op :: "event_op \<Rightarrow> event \<Rightarrow> event result" where
  "apply_event_op (OpMonitorComplete at) e = mark_monitor_complete e at"
| "apply_event_op (OpDownloadComplete at) e = mark_download_complete e at"
| "apply_event_op (OpRemove r at) e = remove_event e r at"
| "apply_event_op (OpUpdatePlayer p at) e = Ok (update_player e p at)"
| "apply_event_op (OpUpdateMinute m x at) e = Ok (update_minute e m x at)"

inductive event_step :: "event \<Rightarrow> event \<Rightarrow> bool" where
  event_ok: "apply_event_op p e = Ok e' \<Longrightarrow> event_step e e'"
| event_refused: "apply_event_op p e = Err m \<Longrightarrow> event_step e e"

inductive_cases event_stepE: "event_step e e'"

lemma validate_event_iff:
  "is_ok (validate_event e) \<longleftrightarrow> event_type_valid (ev_type e) \<and>
     (ev_removed e \<longleftrightarrow> ev_removed_reason e \<noteq> None) \<and> (ev_removed e \<longleftrightarrow> ev_removed_at e \<noteq> None)"
  by (simp add: validate_event_def)

text \<open>What one operation leaves alone.\<close>

definition event_preserved :: "event \<Rightarrow> event \<Rightarrow> bool" where
  "event_preserved e e' \<longleftrightarrow>
     ev_id e' = ev_id e \<and> ev_natural_key e' = ev_natural_key e \<and>
     ev_fixture_id e' = ev_fixture_id e \<and> ev_type e' = ev_type e \<and>
     (is_ok (validate_event e) \<longrightarrow> is_ok (validate_event e')) \<and>
     (ev_removed e \<longrightarrow> ev_removed e' \<and> ev_removed_reason e' = ev_removed_reason e \<and>
        ev_removed_at e' = ev_removed_at e \<and> ev_monitor_complete e' = ev_monitor_complete e \<and>
        ev_download_complete e' = ev_download_complete e)"

lemma event_preserved_refl: "event_preserved e e"
  by (simp add: event_preserved_def)

lemma event_op_preserves:
  assumes "apply_event_op p e = Ok e'"
  shows "event_preserved e e'"
proof (cases p)
  case (OpMonitorComplete at)
  with assms show ?thesis
    by (simp add: event_preserved_def validate_event_iff mark_monitor_complete_def split: if_splits) auto
next
  case (OpDownloadComplete at)
  with assms show ?thesis
    by (simp add: event_preserved_def validate_event_iff mark_download_complete_def split: if_splits) auto
next
  case (OpRemove r at)
  with assms show ?thesis
    by (simp add: event_preserved_def validate_event_iff remove_event_def split: if_splits) auto
next
  case (OpUpdatePlayer q at)
  with assms show ?thesis
    by (simp add: event_preserved_def validate_event_iff update_player_def) auto
next
  case (OpUpdateMinute m x at)
  with assms show ?thesis
    by (simp add: event_preserved_def validate_event_iff update_minute_def) auto
qed

section \<open>Properties\<close>

text \<open>an event goes through its life without losing its identity: no operation, refused or not,
  changes the UUID, the fixture, the type or the natural key; the removal flag and its reason and
  time always agree; and a removed event stays removed with its first reason and time and can no
  longer be completed.\<close>

theorem event_lifecycle_keeps_identity:
  assumes "event_step\<^sup>*\<^sup>* e e'" "is_ok (validate_event e)"
  shows "ev_id e' = ev_id e \<and> ev_natural_key e' = ev_natural_key e \<and>
     ev_fixture_id e' = ev_fixture_id e \<and> ev_type e' = ev_type e \<and> is_ok (validate_event e') \<and>
     (ev_removed e \<longrightarrow> ev_removed e' \<and> ev_removed_reason e' = ev_removed_reason e \<and>
        ev_removed_at e' = ev_removed_at e \<and> ev_monitor_complete e' = ev_monitor_complete e \<and>
        ev_download_complete e' = ev_download_complete e)"
  using assms
proof (induction rule: rtranclp_induct)
  case base
  then show ?case by simp
next
  case (step f g)
  from step.hyps(2) have "event_preserved f g"
    by (elim event_stepE) (simp_all add: event_op_preserves event_preserved_refl)
  with step.IH step.prems show ?case by (simp add: event_preserved_def)
qed

definition sample_player :: player where
  "sample_player = \<lparr> pl_id = Some 7, pl_name = Some ''Kane'' \<rparr>"

definition sample_event :: "uuid \<Rightarrow> int \<Rightarrow> int \<Rightarrow> event" where
  "sample_event ident sequence minute = new_event ident 9 \<lparr> et_id = 1, et_name = ''H'' \<rparr> sample_player
     TypeGoal ''normal goal'' minute None sequence 1000"

theorem event_lifecycle_keeps_identity_witness:
  "ev_natural_key (the_ok (remove_event (sample_event 5 1 20) RemovalVAR 2000)) = ''1_7_goal_1''"
proof -
  let ?e = "sample_event 5 1 20"
  have "apply_event_op (OpRemove RemovalVAR 2000) ?e = Ok (the_ok (remove_event ?e RemovalVAR 2000))"
    by code_simp
  then have "event_step\<^sup>*\<^sup>* ?e (the_ok (remove_event ?e RemovalVAR 2000))"
    by (intro r_into_rtranclp event_step.event_ok)
  moreover have "is_ok (validate_event ?e)" by code_simp
  ultimately have "ev_natural_key (the_ok (remove_event ?e RemovalVAR 2000)) = ev_natural_key ?e"
    using event_lifecycle_keeps_identity by blast
  also have "\<dots> = ''1_7_goal_1''" by code_simp
  finally show ?thesis .
qed

text \<open>Composed keys split uniquely at the first separator.\<close>

lemma split_at_separator:
  "c \<notin> set a \<Longrightarrow> c \<notin> set b \<Longrightarrow> a @ c # s = b @ c # t \<longleftrightarrow> a = b \<and> s = t"
proof (induction a arbitrary: b)
  case Nil
  then show ?case by (cases b) auto
next
  case (Cons x a)
  then show ?case by (cases b) auto
qed

lemma itoa_not_unknown: "itoa n \<noteq> ''unknown''"
proof
  assume "itoa n = ''unknown''"
  then have "list_all is_digit_char ''unknown'' \<or> hd ''unknown'' = CHR ''-''"
    using nat_digits_all_digits by (metis itoa_def list.sel(1))
  then show False by (simp add: is_digit_char_def)
qed

lemma player_text_inject: "player_text p = player_text q \<longleftrightarrow> p = q"
  using itoa_not_unknown [symmetric] itoa_not_unknown
  by (auto simp: player_text_def itoa_inject split: option.split)

lemma player_text_no_separator: "CHR ''_'' \<notin> set (player_text p)"
  by (auto simp: player_text_def itoa_no_underscore split: option.split)

lemma type_text_no_separator: "event_type_valid t \<Longrightarrow> CHR ''_'' \<notin> set (type_text t)"
  by (cases t) auto

lemma type_text_inject: "event_type_valid s \<Longrightarrow> event_type_valid t \<Longrightarrow> type_text s = type_text t \<longleftrightarrow> s = t"
  by (cases s; cases t) auto

text \<open>the natural key identifies an event: for the known types two keys are equal exactly when
  team, player, type and sequence are equal, an unattributed player included, so the unique index
  on the key forbids exactly duplicate generations.\<close>

theorem natural_key_injective:
  assumes "event_type_valid s" "event_type_valid t"
  shows "compose_natural_key team p s m = compose_natural_key team' q t n \<longleftrightarrow>
     team = team' \<and> p = q \<and> s = t \<and> m = n"
  using assms
  by (simp add: compose_natural_key_def split_at_separator itoa_no_underscore player_text_no_separator
      type_text_no_separator itoa_inject player_text_inject type_text_inject)

theorem natural_key_injective_witness:
  "compose_natural_key 40 (Some 7) TypeGoal 1 \<noteq> compose_natural_key 40 None TypeGoal 1"
proof -
  have "event_type_valid TypeGoal" by simp
  from natural_key_injective [OF this this, of 40 "Some 7" 1 40 None 1] show ?thesis by simp
qed

lemma two_family_filter:
  assumes "g \<noteq> c" "d4 \<noteq> d1" "d4 \<noteq> d2" "d4 \<noteq> d3" and "x \<noteq> y" "x \<noteq> z" "y \<noteq> z"
  shows "(if ty = g then (if p then None else if d \<in> {d1, d2, d3} then Some x
            else if d = d4 then Some y else None)
          else if ty = c then (if d = r then Some z else None) else None) = Some t \<longleftrightarrow>
     (t = x \<and> ty = g \<and> d \<in> {d1, d2, d3} \<and> \<not> p) \<or> (t = y \<and> ty = g \<and> d = d4 \<and> \<not> p) \<or>
     (t = z \<and> ty = c \<and> d = r)"
  using assms by auto

text \<open>only three kinds of provider event are ever tracked, and nothing from a penalty shootout:
  a goal, a missed penalty in play, or a red card; every other type and detail is skipped, and the
  tracked type is always one the aggregate accepts.\<close>

theorem trackable_type_exact:
  "trackable_event_type ty detail comments = Some t \<longleftrightarrow>
     (t = TypeGoal \<and> ty = ''goal'' \<and> detail \<in> {''normal goal'', ''penalty'', ''own goal''} \<and>
        \<not> has_penalty_shootout_comment comments) \<or>
     (t = TypeMissedPenalty \<and> ty = ''goal'' \<and> detail = ''missed penalty'' \<and>
        \<not> has_penalty_shootout_comment comments) \<or>
     (t = TypeCard \<and> ty = ''card'' \<and> detail = ''red card'')"
  unfolding trackable_event_type_def
  by (rule two_family_filter) simp_all

end
