(* ===== verification/EventIdentity.thy ===== *)
theory EventIdentity
  imports Event "HOL-Library.AList" "HOL-Library.Product_Lexorder"
begin

text \<open>
  Event identity during reconciliation (\<open>internal/activity/monitor/event_identity.go\<close>) and the
  score inventory that guards it (\<open>score_consistency.go\<close>): provider events are matched to stored
  rows of the same team, player and type, unmatched ones get a fresh sequence above the whole
  history. The memo table of the dynamic program only caches its recursion and is left out; a map
  iterated by the code is a list of its entries, whose order the results do not depend on because
  the groups own disjoint provider indexes.
\<close>

section \<open>Score inventory\<close>

text \<open>\<open>reportedScore\<close> keeps the provider's aggregate per team, the away entry winning on equal keys;
  \<open>presentGoals\<close> is the list of the teams of the scoring events, counted on demand.\<close>

record score_inventory =
  si_reported :: "int \<Rightarrow> int option option"
  si_goal_teams :: "int list"

definition trackable_type :: "api_event \<Rightarrow> event_type option" where
  "trackable_type e = trackable_event_type (afe_type e) (afe_detail e)
     (case afe_comments e of None \<Rightarrow> '''' | Some c \<Rightarrow> c)"

definition new_score_inventory :: "api_fixture \<Rightarrow> score_inventory" where
  "new_score_inventory f =
     \<lparr> si_reported = [aft_id (af_home f) \<mapsto> af_goals_home f, aft_id (af_away f) \<mapsto> af_goals_away f],
       si_goal_teams = map (aft_id \<circ> afe_team)
         (filter (\<lambda>e. trackable_type e = Some TypeGoal) (af_events f)) \<rparr>"

definition present_goals :: "score_inventory \<Rightarrow> int \<Rightarrow> int" where
  "present_goals si team_id = int (count_list (si_goal_teams si) team_id)"

definition score_requires_missing_goal :: "score_inventory \<Rightarrow> int \<Rightarrow> bool" where
  "score_requires_missing_goal si team_id =
     (case si_reported si team_id of
        Some (Some reported) \<Rightarrow> reported > present_goals si team_id
      | _ \<Rightarrow> False)"

definition score_event_parity :: "score_inventory \<Rightarrow> int \<Rightarrow> int \<Rightarrow> bool" where
  "score_event_parity si home away =
     (case (si_reported si home, si_reported si away) of
        (Some (Some h), Some (Some a)) \<Rightarrow>
          if h \<noteq> present_goals si home \<or> a \<noteq> present_goals si away then False
          else int (length (si_goal_teams si)) = h + a
      | _ \<Rightarrow> False)"

definition terminal_score_event_parity :: "score_inventory \<Rightarrow> go_string \<Rightarrow> int \<Rightarrow> int \<Rightarrow> bool option" where
  "terminal_score_event_parity si status home away =
     (if status \<in> {''ft'', ''aet'', ''pen''} then Some (score_event_parity si home away) else None)"

section \<open>Keys and clocks\<close>

definition event_identity_clock_tolerance :: int where
  "event_identity_clock_tolerance = 5"

definition event_identity_group_key :: "int \<Rightarrow> int option \<Rightarrow> event_type \<Rightarrow> go_string" where
  "event_identity_group_key team_id player_id t =
     itoa team_id @ ''_'' @ player_text player_id @ ''_'' @ type_text t"

definition event_clock_minute :: "int \<Rightarrow> int option \<Rightarrow> int" where
  "event_clock_minute minute extra = (case extra of Some x \<Rightarrow> minute + x | None \<Rightarrow> minute)"

definition api_clock :: "api_event \<Rightarrow> int" where
  "api_clock e = event_clock_minute (afe_elapsed e) (afe_extra e)"

definition stored_clock :: "event \<Rightarrow> int" where
  "stored_clock e = event_clock_minute (ev_minute e) (ev_extra e)"

text \<open>The text after the last separator, when there is one.\<close>

fun after_last_separator :: "go_string \<Rightarrow> go_string option" where
  "after_last_separator [] = None"
| "after_last_separator (c # s) =
     (case after_last_separator s of
        Some t \<Rightarrow> Some t
      | None \<Rightarrow> if c = CHR ''_'' then Some s else None)"

definition sequence_from_natural_key :: "go_string \<Rightarrow> int result" where
  "sequence_from_natural_key key =
     (case after_last_separator key of
        None \<Rightarrow> Err ''monitor.assignEventSequences: invalid natural key''
      | Some s \<Rightarrow>
          if s = '''' then Err ''monitor.assignEventSequences: invalid natural key''
          else case strconv_atoi s of
                 None \<Rightarrow> Err ''monitor.assignEventSequences: invalid sequence in natural key''
               | Some n \<Rightarrow> if n < 1 then Err ''monitor.assignEventSequences: invalid sequence in natural key''
                           else Ok n)"

section \<open>The match plan\<close>

type_synonym stored_sequence = "event \<times> int"
type_synonym sequence_match = "nat \<times> stored_sequence"

record match_plan =
  mp_matches :: "sequence_match list"
  mp_distance :: int
  mp_detail_mismatches :: nat

definition empty_plan :: match_plan where
  "empty_plan = \<lparr> mp_matches = [], mp_distance = 0, mp_detail_mismatches = 0 \<rparr>"

fun earlier_matches :: "sequence_match list \<Rightarrow> sequence_match list \<Rightarrow> bool" where
  "earlier_matches ((i, _, s) # ms) ((j, _, t) # ns) =
     (if i \<noteq> j then i < j else if s \<noteq> t then s < t else earlier_matches ms ns)"
| "earlier_matches _ _ = True"

definition better_plan :: "match_plan \<Rightarrow> match_plan \<Rightarrow> match_plan" where
  "better_plan left right =
     (if length (mp_matches left) \<noteq> length (mp_matches right)
      then (if length (mp_matches left) > length (mp_matches right) then left else right)
      else if mp_distance left \<noteq> mp_distance right
      then (if mp_distance left < mp_distance right then left else right)
      else if mp_detail_mismatches left \<noteq> mp_detail_mismatches right
      then (if mp_detail_mismatches left < mp_detail_mismatches right then left else right)
      else if earlier_matches (mp_matches left) (mp_matches right) then left else right)"

definition pair_distance :: "api_event list \<Rightarrow> nat \<Rightarrow> stored_sequence \<Rightarrow> int" where
  "pair_distance api p s = \<bar>api_clock (api ! p) - stored_clock (fst s)\<bar>"

definition extend_plan :: "api_event list \<Rightarrow> nat \<Rightarrow> stored_sequence \<Rightarrow> match_plan \<Rightarrow> match_plan" where
  "extend_plan api p s tail =
     \<lparr> mp_matches = (p, s) # mp_matches tail,
       mp_distance = pair_distance api p s + mp_distance tail,
       mp_detail_mismatches = mp_detail_mismatches tail +
         (if afe_detail (api ! p) \<noteq> ev_detail (fst s) then 1 else 0) \<rparr>"

fun best_plan :: "api_event list \<Rightarrow> int \<Rightarrow> nat list \<Rightarrow> stored_sequence list \<Rightarrow> match_plan" where
  "best_plan api tolerance [] ss = empty_plan"
| "best_plan api tolerance (p # ps) [] = empty_plan"
| "best_plan api tolerance (p # ps) (s # ss) =
     (let plan = better_plan (best_plan api tolerance ps (s # ss)) (best_plan api tolerance (p # ps) ss)
      in if pair_distance api p s \<le> tolerance
         then better_plan plan (extend_plan api p s (best_plan api tolerance ps ss))
         else plan)"

definition match_event_sequences ::
  "api_event list \<Rightarrow> nat list \<Rightarrow> stored_sequence list \<Rightarrow> int \<Rightarrow> (nat \<Rightarrow> int option) \<Rightarrow> (nat \<Rightarrow> int option)" where
  "match_event_sequences api indexes stored tolerance assigned =
     (let providers = sort_key (\<lambda>i. (api_clock (api ! i), i)) (filter (\<lambda>i. assigned i = None) indexes);
          rows = sort_key (\<lambda>s. (stored_clock (fst s), snd s)) stored
      in foldl (\<lambda>a m. a(fst m \<mapsto> snd (snd m))) assigned
           (mp_matches (best_plan api tolerance providers rows)))"

section \<open>Groups\<close>

record sequence_group =
  sg_providers :: "nat list"
  sg_active :: "stored_sequence list"
  sg_max :: int
  sg_sequences :: "int list"
  sg_team :: int
  sg_type :: event_type

definition new_group :: "int \<Rightarrow> event_type \<Rightarrow> sequence_group" where
  "new_group team t = \<lparr> sg_providers = [], sg_active = [], sg_max = 0, sg_sequences = [],
     sg_team = team, sg_type = t \<rparr>"

type_synonym groups = "(go_string \<times> sequence_group) list"

definition stored_key :: "event \<Rightarrow> go_string" where
  "stored_key e = event_identity_group_key (et_id (ev_team e)) (pl_id (ev_player e)) (ev_type e)"

definition api_key :: "api_event \<Rightarrow> event_type \<Rightarrow> go_string" where
  "api_key e t = event_identity_group_key (aft_id (afe_team e)) (afp_id (afe_player e)) t"

definition group_or_new :: "groups \<Rightarrow> go_string \<Rightarrow> int \<Rightarrow> event_type \<Rightarrow> sequence_group" where
  "group_or_new gs key team t = (case map_of gs key of Some g \<Rightarrow> g | None \<Rightarrow> new_group team t)"

definition add_stored :: "event \<Rightarrow> int \<Rightarrow> sequence_group \<Rightarrow> sequence_group" where
  "add_stored e s g = g\<lparr> sg_sequences := s # sg_sequences g,
     sg_max := (if s > sg_max g then s else sg_max g),
     sg_active := (if \<not> ev_removed e then sg_active g @ [(e, s)] else sg_active g) \<rparr>"

fun collect_stored :: "groups \<Rightarrow> event list \<Rightarrow> groups result" where
  "collect_stored gs [] = Ok gs"
| "collect_stored gs (e # es) =
     bind_result (sequence_from_natural_key (ev_natural_key e)) (\<lambda>s.
       let key = stored_key e;
           g = group_or_new gs key (et_id (ev_team e)) (ev_type e)
       in if s \<in> set (sg_sequences g)
          then Err ''monitor.assignEventSequences: duplicate sequence in group''
          else collect_stored (AList.update key (add_stored e s g) gs) es)"

fun collect_providers :: "groups \<Rightarrow> nat \<Rightarrow> api_event list \<Rightarrow> groups" where
  "collect_providers gs index [] = gs"
| "collect_providers gs index (e # es) =
     (case trackable_type e of
        None \<Rightarrow> collect_providers gs (Suc index) es
      | Some t \<Rightarrow>
          let key = api_key e t;
              g = group_or_new gs key (aft_id (afe_team e)) t
          in collect_providers (AList.update key (g\<lparr> sg_providers := sg_providers g @ [index] \<rparr>) gs)
               (Suc index) es)"

definition group_tolerance :: "(int \<Rightarrow> bool) \<Rightarrow> sequence_group \<Rightarrow> int" where
  "group_tolerance incomplete g =
     (if sg_type g = TypeGoal \<and> incomplete (sg_team g) then 0 else event_identity_clock_tolerance)"

text \<open>The unmatched providers of a group take the next sequences in array order.\<close>

fun assign_fresh :: "nat list \<Rightarrow> int \<Rightarrow> (nat \<Rightarrow> int option) \<Rightarrow> (nat \<Rightarrow> int option)" where
  "assign_fresh [] mx assigned = assigned"
| "assign_fresh (i # is) mx assigned =
     (if assigned i \<noteq> None then assign_fresh is mx assigned
      else assign_fresh is (mx + 1) (assigned(i \<mapsto> mx + 1)))"

definition assign_group ::
  "api_event list \<Rightarrow> (int \<Rightarrow> bool) \<Rightarrow> (nat \<Rightarrow> int option) \<Rightarrow> sequence_group \<Rightarrow> (nat \<Rightarrow> int option)" where
  "assign_group api incomplete assigned g =
     assign_fresh (sg_providers g) (sg_max g)
       (match_event_sequences api (sg_providers g) (sg_active g) (group_tolerance incomplete g) assigned)"

definition assign_event_sequences ::
  "api_event list \<Rightarrow> event list \<Rightarrow> (int \<Rightarrow> bool) \<Rightarrow> (nat \<Rightarrow> int option) result" where
  "assign_event_sequences api stored incomplete =
     bind_result (collect_stored [] stored) (\<lambda>gs.
       Ok (foldl (assign_group api incomplete) Map.empty (map snd (collect_providers gs 0 api))))"

section \<open>The plan is optimal\<close>

text \<open>An order-preserving matching pairs providers with stored rows within the tolerance without
  crossing.\<close>

inductive ordered_matching ::
  "api_event list \<Rightarrow> int \<Rightarrow> nat list \<Rightarrow> stored_sequence list \<Rightarrow> sequence_match list \<Rightarrow> bool"
  for api :: "api_event list" and tolerance :: int where
  om_nil: "ordered_matching api tolerance ps ss []"
| om_skip_provider: "ordered_matching api tolerance ps ss m \<Longrightarrow> ordered_matching api tolerance (p # ps) ss m"
| om_skip_stored: "ordered_matching api tolerance ps ss m \<Longrightarrow> ordered_matching api tolerance ps (s # ss) m"
| om_pair: "ordered_matching api tolerance ps ss m \<Longrightarrow> pair_distance api p s \<le> tolerance \<Longrightarrow>
    ordered_matching api tolerance (p # ps) (s # ss) ((p, s) # m)"

definition matching_distance :: "api_event list \<Rightarrow> sequence_match list \<Rightarrow> int" where
  "matching_distance api m = sum_list (map (\<lambda>x. pair_distance api (fst x) (snd x)) m)"

text \<open>The order the plans are compared by, cardinality before distance.\<close>

definition no_better :: "nat \<Rightarrow> int \<Rightarrow> match_plan \<Rightarrow> bool" where
  "no_better n d plan \<longleftrightarrow> n < length (mp_matches plan) \<or>
     (n = length (mp_matches plan) \<and> mp_distance plan \<le> d)"

lemma better_plan_cases: "better_plan a b = a \<or> better_plan a b = b"
  by (simp add: better_plan_def)

lemma better_plan_no_better:
  "no_better n d a \<or> no_better n d b \<Longrightarrow> no_better n d (better_plan a b)"
  by (auto simp: no_better_def better_plan_def)

lemma no_better_extend:
  "no_better n d tail \<Longrightarrow> no_better (Suc n) (pair_distance api p s + d) (extend_plan api p s tail)"
  by (auto simp: no_better_def extend_plan_def)

lemma best_plan_distance:
  "mp_distance (best_plan api tol ps ss) = matching_distance api (mp_matches (best_plan api tol ps ss))"
proof (induction api tol ps ss rule: best_plan.induct)
  case (3 api tol p ps s ss)
  have pick: "mp_distance (better_plan a b) = matching_distance api (mp_matches (better_plan a b))"
    if "mp_distance a = matching_distance api (mp_matches a)"
       "mp_distance b = matching_distance api (mp_matches b)" for a b
    using that better_plan_cases [of a b] by auto
  have ext: "mp_distance (extend_plan api p s t) = matching_distance api (mp_matches (extend_plan api p s t))"
    if "mp_distance t = matching_distance api (mp_matches t)" for t
    using that by (simp add: extend_plan_def matching_distance_def)
  from 3 show ?case by (simp add: Let_def pick ext)
qed (simp_all add: empty_plan_def matching_distance_def)

lemma best_plan_ordered: "ordered_matching api tol ps ss (mp_matches (best_plan api tol ps ss))"
proof (induction api tol ps ss rule: best_plan.induct)
  case (3 api tol p ps s ss)
  have pick: "ordered_matching api tol qs ts (mp_matches (better_plan a b))"
    if "ordered_matching api tol qs ts (mp_matches a)" "ordered_matching api tol qs ts (mp_matches b)"
    for a b qs ts using that better_plan_cases [of a b] by metis
  have skip: "ordered_matching api tol (p # ps) (s # ss) (mp_matches (better_plan
      (best_plan api tol ps (s # ss)) (best_plan api tol (p # ps) ss)))"
    using "3.IH" by (intro pick) (auto intro: ordered_matching.intros)
  show ?case
  proof (cases "pair_distance api p s \<le> tol")
    case True
    then have "ordered_matching api tol (p # ps) (s # ss)
        (mp_matches (extend_plan api p s (best_plan api tol ps ss)))"
      using "3.IH" by (simp add: extend_plan_def ordered_matching.om_pair)
    with skip True show ?thesis by (simp add: Let_def pick)
  next
    case False
    with skip show ?thesis by (simp add: Let_def)
  qed
qed (simp_all add: empty_plan_def ordered_matching.om_nil)

lemma best_plan_nil [simp]: "best_plan api tol ps [] = empty_plan"
  by (cases ps) simp_all

lemma best_plan_skip:
  "no_better n d (best_plan api tol ps ss) \<Longrightarrow> no_better n d (best_plan api tol (p # ps) ss)"
  "no_better n d (best_plan api tol ps ss) \<Longrightarrow> no_better n d (best_plan api tol ps (s # ss))"
proof -
  assume a: "no_better n d (best_plan api tol ps ss)"
  show "no_better n d (best_plan api tol (p # ps) ss)"
  proof (cases ss)
    case Nil
    with a show ?thesis by simp
  next
    case (Cons t ts)
    with a show ?thesis by (simp add: Let_def better_plan_no_better)
  qed
  show "no_better n d (best_plan api tol ps (s # ss))"
  proof (cases ps)
    case Nil
    with a show ?thesis by simp
  next
    case (Cons q qs)
    with a show ?thesis by (simp add: Let_def better_plan_no_better)
  qed
qed

text \<open>C21: the identity matcher is optimal: its plan is an order-preserving matching within the clock
  tolerance, and no other such matching of the same rows pairs more events, or pairs as many with
  a smaller total clock correction; a greedy local choice can therefore never consume the wrong
  stored row.\<close>

theorem best_plan_is_optimal:
  assumes "ordered_matching api tol ps ss m"
  defines "plan \<equiv> best_plan api tol ps ss"
  shows "ordered_matching api tol ps ss (mp_matches plan) \<and>
     mp_distance plan = matching_distance api (mp_matches plan) \<and>
     (length m < length (mp_matches plan) \<or>
      length m = length (mp_matches plan) \<and> mp_distance plan \<le> matching_distance api m)"
proof -
  have "no_better (length m) (matching_distance api m) (best_plan api tol ps ss)"
    using assms(1)
  proof (induction rule: ordered_matching.induct)
    case (om_nil ps ss)
    show ?case
      using best_plan_distance [of api tol ps ss]
      by (cases "mp_matches (best_plan api tol ps ss)")
        (auto simp: no_better_def matching_distance_def)
  next
    case (om_pair ps ss m p s)
    then show ?case
      using no_better_extend [of "length m" "matching_distance api m" "best_plan api tol ps ss" api p s]
      by (simp add: Let_def better_plan_no_better matching_distance_def)
  qed (auto intro: best_plan_skip)
  then show ?thesis
    using best_plan_ordered [of api tol ps ss] best_plan_distance [of api tol ps ss]
    by (simp add: plan_def no_better_def)
qed

theorem best_plan_is_optimal_witness:
  "1 \<le> length (mp_matches (best_plan [\<lparr> afe_elapsed = 21, afe_extra = None,
      afe_team = \<lparr> aft_id = 1, aft_name = ''H'', aft_winner = None \<rparr>,
      afe_player = \<lparr> afp_id = Some 7, afp_name = Some ''Kane'' \<rparr>,
      afe_assist = \<lparr> afp_id = None, afp_name = None \<rparr>,
      afe_type = ''goal'', afe_detail = ''normal goal'', afe_comments = None \<rparr>] 5 [0]
      [(sample_event 5 1 20, 1)]))"
proof -
  let ?api = "[\<lparr> afe_elapsed = 21, afe_extra = None,
      afe_team = \<lparr> aft_id = 1, aft_name = ''H'', aft_winner = None \<rparr>,
      afe_player = \<lparr> afp_id = Some 7, afp_name = Some ''Kane'' \<rparr>,
      afe_assist = \<lparr> afp_id = None, afp_name = None \<rparr>,
      afe_type = ''goal'', afe_detail = ''normal goal'', afe_comments = None \<rparr>]"
  have "pair_distance ?api 0 (sample_event 5 1 20, 1) \<le> 5" by code_simp
  then have "ordered_matching ?api 5 [0] [(sample_event 5 1 20, 1)] [(0, (sample_event 5 1 20, 1))]"
    by (intro ordered_matching.intros)
  from best_plan_is_optimal [OF this] show ?thesis by auto
qed

section \<open>Sequences are read back from keys\<close>

lemma after_last_separator_append:
  "CHR ''_'' \<notin> set t \<Longrightarrow> after_last_separator (s @ CHR ''_'' # t) = Some t"
proof (induction s)
  case Nil
  have "CHR ''_'' \<notin> set t \<Longrightarrow> after_last_separator t = None"
    by (induction t) auto
  with Nil show ?case by simp
next
  case (Cons c s)
  then show ?case by simp
qed

text \<open>a stored key gives its sequence back: for every team, player and type and every positive
  sequence a Go integer can hold, parsing the composed natural key returns that sequence, even for
  a type whose text has separators of its own.\<close>

theorem sequence_roundtrip:
  assumes "1 \<le> n" "n \<le> max_duration"
  shows "sequence_from_natural_key (compose_natural_key team p t n) = Ok n"
proof -
  have "after_last_separator (compose_natural_key team p t n) = Some (itoa n)"
    using after_last_separator_append [OF itoa_no_underscore,
        of "itoa team @ ''_'' @ player_text p @ ''_'' @ type_text t" n]
    by (simp add: compose_natural_key_def)
  moreover have "itoa n \<noteq> ''''" by (simp add: itoa_def nat_digits_nonempty)
  moreover have "strconv_atoi (itoa n) = Some n" using assms by (intro strconv_atoi_itoa) auto
  ultimately show ?thesis using assms by (simp add: sequence_from_natural_key_def)
qed

theorem sequence_roundtrip_witness:
  "sequence_from_natural_key (compose_natural_key 40 None TypeGoal 12) = Ok 12"
proof -
  have "(1::int) \<le> 12" "(12::int) \<le> max_duration" by (simp_all add: duration_defs)
  then show ?thesis by (rule sequence_roundtrip)
qed

section \<open>What one group assigns\<close>

text \<open>The contract of a group: every provider index gets a sequence, different from its siblings',
  and it is either the sequence of an active stored row within the tolerance or a fresh one above
  the group's history.\<close>

definition group_result ::
  "api_event list \<Rightarrow> int \<Rightarrow> sequence_group \<Rightarrow> (nat \<Rightarrow> int option) \<Rightarrow> (nat \<Rightarrow> int option) \<Rightarrow> bool" where
  "group_result api tol g assigned assigned' \<longleftrightarrow>
     dom assigned' = dom assigned \<union> set (sg_providers g) \<and>
     (\<forall>i. i \<notin> set (sg_providers g) \<longrightarrow> assigned' i = assigned i) \<and>
     inj_on assigned' (set (sg_providers g)) \<and>
     (\<forall>i\<in>set (sg_providers g).
        (\<exists>s\<in>set (sg_active g). assigned' i = Some (snd s) \<and> pair_distance api i s \<le> tol) \<or>
        (\<exists>n. assigned' i = Some n \<and> sg_max g < n))"

lemma ordered_matching_facts:
  assumes "ordered_matching api tol ps ss m"
  shows "set (map fst m) \<subseteq> set ps \<and> set (map snd m) \<subseteq> set ss \<and>
     (distinct ps \<longrightarrow> distinct (map fst m)) \<and> (distinct (map snd ss) \<longrightarrow> distinct (map (snd \<circ> snd) m)) \<and>
     (\<forall>x\<in>set m. pair_distance api (fst x) (snd x) \<le> tol)"
  using assms
proof (induction rule: ordered_matching.induct)
  case (om_pair ps ss m p s)
  have "snd s \<notin> set (map (snd \<circ> snd) m)" if "snd s \<notin> set (map snd ss)"
    using that om_pair.IH by auto
  with om_pair show ?case by auto
qed auto

lemma foldl_assign_matches:
  assumes "distinct (map fst m)"
  shows "foldl (\<lambda>a x. a(fst x \<mapsto> snd (snd x))) assigned m =
     (\<lambda>i. case map_of (map (\<lambda>x. (fst x, snd (snd x))) m) i of Some s \<Rightarrow> Some s | None \<Rightarrow> assigned i)"
  using assms
proof (induction m arbitrary: assigned)
  case Nil
  then show ?case by simp
next
  case (Cons x m)
  from Cons.prems have "fst x \<notin> fst ` set m" by simp
  then have "map_of (map (\<lambda>x. (fst x, snd (snd x))) m) (fst x) = None"
    by (simp add: map_of_eq_None_iff image_image)
  with Cons show ?case by (auto simp: fun_eq_iff split: option.split)
qed

definition match_map :: "sequence_match list \<Rightarrow> nat \<Rightarrow> int option" where
  "match_map m = map_of (map (\<lambda>x. (fst x, snd (snd x))) m)"

lemma match_map_inj:
  assumes "distinct (map (snd \<circ> snd) m)" "match_map m i = Some s" "match_map m j = Some s"
  shows "i = j"
proof -
  from assms(2,3) obtain x y where "x \<in> set m" "fst x = i" "snd (snd x) = s"
      "y \<in> set m" "fst y = j" "snd (snd y) = s"
    unfolding match_map_def by (auto dest!: map_of_SomeD)
  with assms(1) have "x = y" by (auto simp: distinct_map inj_on_def)
  with \<open>fst x = i\<close> \<open>fst y = j\<close> show ?thesis by simp
qed

lemma assign_fresh_spec:
  fixes "is" :: "nat list" and mx assigned
  assumes "distinct is"
  defines "res \<equiv> assign_fresh is mx assigned"
  shows "dom res = dom assigned \<union> set is \<and>
     (\<forall>i. i \<notin> set is \<or> assigned i \<noteq> None \<longrightarrow> res i = assigned i) \<and>
     (\<forall>i\<in>set is. assigned i = None \<longrightarrow> (\<exists>n. res i = Some n \<and> mx < n)) \<and>
     inj_on res {i \<in> set is. assigned i = None}"
  using assms(1) unfolding res_def
proof (induction "is" arbitrary: mx assigned)
  case Nil
  then show ?case by simp
next
  case (Cons i "is")
  show ?case
  proof (cases "assigned i = None")
    case False
    from Cons have IH: "dom (assign_fresh is mx assigned) = dom assigned \<union> set is \<and>
     (\<forall>j. j \<notin> set is \<or> assigned j \<noteq> None \<longrightarrow> assign_fresh is mx assigned j = assigned j) \<and>
     (\<forall>j\<in>set is. assigned j = None \<longrightarrow> (\<exists>n. assign_fresh is mx assigned j = Some n \<and> mx < n)) \<and>
     inj_on (assign_fresh is mx assigned) {j \<in> set is. assigned j = None}" by simp
    have "{j \<in> set (i # is). assigned j = None} = {j \<in> set is. assigned j = None}"
      using False by auto
    with IH False show ?thesis by auto
  next
    case True
    let ?a = "assigned(i \<mapsto> mx + 1)"
    let ?r = "assign_fresh is (mx + 1) ?a"
    have "dom ?r = dom ?a \<union> set is \<and> (\<forall>j. j \<notin> set is \<or> ?a j \<noteq> None \<longrightarrow> ?r j = ?a j) \<and>
      (\<forall>j\<in>set is. ?a j = None \<longrightarrow> (\<exists>n. ?r j = Some n \<and> mx + 1 < n)) \<and>
      inj_on ?r {j \<in> set is. ?a j = None}"
      by (rule Cons.IH) (use Cons.prems in simp)
    then have IH: "dom ?r = dom ?a \<union> set is"
      "\<forall>j. j \<notin> set is \<or> ?a j \<noteq> None \<longrightarrow> ?r j = ?a j"
      "\<forall>j\<in>set is. ?a j = None \<longrightarrow> (\<exists>n. ?r j = Some n \<and> mx + 1 < n)"
      "inj_on ?r {j \<in> set is. ?a j = None}" by blast+
    from Cons.prems have notin: "i \<notin> set is" by simp
    have ri: "?r i = Some (mx + 1)" using IH(2) notin by simp
    have same: "{j \<in> set is. ?a j = None} = {j \<in> set is. assigned j = None}" using notin by auto
    have all: "{j \<in> set (i # is). assigned j = None} = insert i {j \<in> set is. assigned j = None}"
      using True by auto
    have "inj_on ?r (insert i {j \<in> set is. assigned j = None})"
    proof (rule inj_on_insert [THEN iffD2], rule conjI)
      show "inj_on ?r {j \<in> set is. assigned j = None}" using IH(4) unfolding same .
      have "?r j \<noteq> ?r i" if "j \<in> set is" "assigned j = None" for j
      proof -
        from that notin have "?a j = None" by auto
        with IH(3) that(1) obtain n where "?r j = Some n" "mx + 1 < n" by blast
        with ri show ?thesis by simp
      qed
      then show "?r i \<notin> ?r ` ({j \<in> set is. assigned j = None} - {i})" by fastforce
    qed
    moreover have "\<exists>n. ?r j = Some n \<and> mx < n" if "j \<in> set (i # is)" "assigned j = None" for j
    proof (cases "j = i")
      case True
      with ri show ?thesis by simp
    next
      case False
      with that have "j \<in> set is" "?a j = None" by simp_all
      with IH(3) obtain n where "?r j = Some n" "mx + 1 < n" by blast
      then show ?thesis by auto
    qed
    moreover have "?r j = assigned j" if "j \<notin> set (i # is) \<or> assigned j \<noteq> None" for j
      using that IH(2) True by (cases "j = i") auto
    moreover have "dom ?r = dom assigned \<union> set (i # is)" using IH(1) by auto
    ultimately show ?thesis using True unfolding all by simp
  qed
qed

text \<open>The matching step of a group whose providers are all unassigned.\<close>

definition group_matches :: "api_event list \<Rightarrow> int \<Rightarrow> sequence_group \<Rightarrow> sequence_match list" where
  "group_matches api tol g = mp_matches (best_plan api tol
     (sort_key (\<lambda>i. (api_clock (api ! i), i)) (sg_providers g))
     (sort_key (\<lambda>s. (stored_clock (fst s), snd s)) (sg_active g)))"

lemma group_matches_facts:
  fixes g :: sequence_group and api tol
  assumes "distinct (sg_providers g)" "distinct (map snd (sg_active g))"
  defines "m \<equiv> group_matches api tol g"
  shows "set (map fst m) \<subseteq> set (sg_providers g)" "set (map snd m) \<subseteq> set (sg_active g)"
    "distinct (map fst m)" "distinct (map (snd \<circ> snd) m)"
    "\<forall>x\<in>set m. pair_distance api (fst x) (snd x) \<le> tol"
proof -
  have "distinct (map snd (sort_key (\<lambda>s. (stored_clock (fst s), snd s)) (sg_active g)))"
    using assms(2) by (simp add: distinct_map)
  then show "set (map fst m) \<subseteq> set (sg_providers g)" "set (map snd m) \<subseteq> set (sg_active g)"
    "distinct (map fst m)" "distinct (map (snd \<circ> snd) m)"
    "\<forall>x\<in>set m. pair_distance api (fst x) (snd x) \<le> tol"
    using ordered_matching_facts [OF best_plan_ordered [of api tol
        "sort_key (\<lambda>i. (api_clock (api ! i), i)) (sg_providers g)"
        "sort_key (\<lambda>s. (stored_clock (fst s), snd s)) (sg_active g)"]] assms(1)
    by (auto simp: m_def group_matches_def)
qed

lemma match_event_sequences_eq:
  assumes "distinct (sg_providers g)" "distinct (map snd (sg_active g))"
    "dom assigned \<inter> set (sg_providers g) = {}"
  shows "match_event_sequences api (sg_providers g) (sg_active g) tol assigned =
     (\<lambda>i. case match_map (group_matches api tol g) i of Some s \<Rightarrow> Some s | None \<Rightarrow> assigned i)"
proof -
  have "filter (\<lambda>i. assigned i = None) (sg_providers g) = sg_providers g"
    using assms(3) by (auto simp: filter_id_conv dom_def)
  then show ?thesis
    using foldl_assign_matches [OF group_matches_facts(3) [OF assms(1,2)], of assigned api tol]
    by (simp add: match_event_sequences_def group_matches_def match_map_def Let_def)
qed

lemma match_map_Some:
  "match_map m i = Some n \<Longrightarrow> \<exists>x\<in>set m. fst x = i \<and> snd (snd x) = n"
  unfolding match_map_def by (auto dest!: map_of_SomeD)

lemma assign_group_result:
  assumes prov: "distinct (sg_providers g)" and act: "distinct (map snd (sg_active g))"
    and free: "dom assigned \<inter> set (sg_providers g) = {}"
    and bound: "\<forall>s\<in>set (sg_active g). snd s \<le> sg_max g"
  shows "group_result api (group_tolerance inc g) g assigned (assign_group api inc assigned g)"
proof -
  let ?tol = "group_tolerance inc g"
  let ?m = "group_matches api ?tol g"
  let ?a = "\<lambda>i. case match_map ?m i of Some s \<Rightarrow> Some s | None \<Rightarrow> assigned i"
  let ?r = "assign_fresh (sg_providers g) (sg_max g) ?a"
  let ?P = "set (sg_providers g)"
  note m = group_matches_facts [OF prov act, of api ?tol]
  have r: "assign_group api inc assigned g = ?r"
    by (simp add: assign_group_def match_event_sequences_eq [OF prov act free])
  note fresh = assign_fresh_spec [OF prov, of "sg_max g" ?a]
  have hit: "\<exists>s\<in>set (sg_active g). n = snd s \<and> pair_distance api i s \<le> ?tol"
    if "match_map ?m i = Some n" for i n
  proof -
    from match_map_Some [OF that] obtain x where "x \<in> set ?m" "fst x = i" "snd (snd x) = n" by blast
    with m(2,5) show ?thesis by (intro bexI [of _ "snd x"]) auto
  qed
  have inside: "match_map ?m i \<noteq> None \<Longrightarrow> i \<in> ?P" for i
    using m(1) match_map_Some [of ?m i] by fastforce
  have none: "?a i = None \<longleftrightarrow> match_map ?m i = None" if "i \<in> ?P" for i
    using free that by (auto simp: dom_def split: option.split)
  have cases: "(\<exists>n. match_map ?m i = Some n \<and> ?r i = Some n) \<or>
      (match_map ?m i = None \<and> (\<exists>n. ?r i = Some n \<and> sg_max g < n))" if "i \<in> ?P" for i
  proof (cases "match_map ?m i")
    case None
    with none [OF that] fresh that show ?thesis by blast
  next
    case (Some n)
    then have "?a i \<noteq> None" by simp
    with fresh have "?r i = ?a i" by blast
    with Some show ?thesis by simp
  qed
  have "inj_on ?r ?P"
  proof (rule inj_onI)
    fix i j assume ij: "i \<in> ?P" "j \<in> ?P" "?r i = ?r j"
    have le: "n \<le> sg_max g" if "match_map ?m k = Some n" for k n
      using hit [OF that] bound by auto
    show "i = j"
    proof (cases "match_map ?m i = None")
      case True
      then obtain n where n: "?r i = Some n" "sg_max g < n" using cases [OF ij(1)] by auto
      then have "match_map ?m j = None" using cases [OF ij(2)] le ij(3) by fastforce
      with True ij(1,2) none have "i \<in> {i \<in> ?P. ?a i = None}" "j \<in> {i \<in> ?P. ?a i = None}" by blast+
      moreover have "inj_on ?r {i \<in> ?P. ?a i = None}" using fresh by blast
      ultimately show ?thesis using ij(3) by (meson inj_onD)
    next
      case False
      then obtain n where n: "match_map ?m i = Some n" "?r i = Some n" using cases [OF ij(1)] by auto
      then have "match_map ?m j = Some n" using cases [OF ij(2)] le [OF n(1)] ij(3) by fastforce
      then show ?thesis using match_map_inj [OF m(4) n(1)] by simp
    qed
  qed
  moreover have "dom ?r = dom assigned \<union> ?P"
    using fresh inside by (auto simp: dom_def split: option.splits)
  moreover have "?r i = assigned i" if "i \<notin> ?P" for i
    using fresh inside [of i] that by (cases "match_map ?m i") auto
  moreover have "(\<exists>s\<in>set (sg_active g). ?r i = Some (snd s) \<and> pair_distance api i s \<le> ?tol) \<or>
      (\<exists>n. ?r i = Some n \<and> sg_max g < n)" if "i \<in> ?P" for i
    using cases [OF that] hit by blast
  ultimately show ?thesis by (simp add: group_result_def r)
qed

section \<open>What the whole assignment guarantees\<close>

definition stored_seq :: "event \<Rightarrow> int" where
  "stored_seq e = (case sequence_from_natural_key (ev_natural_key e) of Ok n \<Rightarrow> n | Err _ \<Rightarrow> 0)"

definition provider_key :: "api_event list \<Rightarrow> nat \<Rightarrow> go_string option" where
  "provider_key api i = map_option (api_key (api ! i)) (trackable_type (api ! i))"

definition keyed :: "go_string \<Rightarrow> event list \<Rightarrow> event list" where
  "keyed k es = filter (\<lambda>e. stored_key e = k) es"

text \<open>What a group knows about the stored rows and the first \<open>n\<close> provider elements.\<close>

definition group_ok :: "event list \<Rightarrow> api_event list \<Rightarrow> nat \<Rightarrow> go_string \<Rightarrow> sequence_group \<Rightarrow> bool" where
  "group_ok es api n k g \<longleftrightarrow>
     sg_active g = map (\<lambda>e. (e, stored_seq e)) (filter (\<lambda>e. \<not> ev_removed e) (keyed k es)) \<and>
     set (sg_sequences g) = stored_seq ` set (keyed k es) \<and>
     distinct (map stored_seq (keyed k es)) \<and>
     (\<forall>e\<in>set (keyed k es). stored_seq e \<le> sg_max g) \<and>
     sg_providers g = filter (\<lambda>i. provider_key api i = Some k) [0..<n]"

definition slot_ok :: "event list \<Rightarrow> api_event list \<Rightarrow> nat \<Rightarrow> go_string \<Rightarrow> sequence_group option \<Rightarrow> bool" where
  "slot_ok es api n k slot \<longleftrightarrow>
     (case slot of
        Some g \<Rightarrow> group_ok es api n k g
      | None \<Rightarrow> keyed k es = [] \<and> (\<forall>i<n. provider_key api i \<noteq> Some k))"

definition groups_ok :: "event list \<Rightarrow> api_event list \<Rightarrow> nat \<Rightarrow> groups \<Rightarrow> bool" where
  "groups_ok es api n gs \<longleftrightarrow> distinct (map fst gs) \<and> (\<forall>k. slot_ok es api n k (map_of gs k))"

lemma slot_ok_simps [simp]:
  "slot_ok es api n k (Some g) = group_ok es api n k g"
  "slot_ok es api n k None = (keyed k es = [] \<and> (\<forall>i<n. provider_key api i \<noteq> Some k))"
  by (simp_all add: slot_ok_def)

lemma new_group_ok:
  "keyed k es = [] \<Longrightarrow> (\<forall>i<n. provider_key api i \<noteq> Some k) \<Longrightarrow> group_ok es api n k (new_group tm t)"
  by (auto simp: group_ok_def new_group_def filter_empty_conv)

lemma group_or_new_ok:
  assumes "groups_ok es api n gs"
  shows "group_ok es api n k (group_or_new gs k tm t)"
  using assms [unfolded groups_ok_def, THEN conjunct2, THEN spec, of k]
  by (cases "map_of gs k") (simp_all add: group_or_new_def new_group_ok)

lemma keyed_append: "keyed k (es @ [e]) = keyed k es @ (if stored_key e = k then [e] else [])"
  by (simp add: keyed_def)

lemma add_stored_ok:
  assumes "group_ok es api n (stored_key e) g" "stored_seq e \<notin> set (sg_sequences g)"
  shows "group_ok (es @ [e]) api n (stored_key e) (add_stored e (stored_seq e) g)"
  using assms unfolding group_ok_def add_stored_def
  by (auto simp: keyed_append)

lemma group_ok_other:
  "stored_key e \<noteq> k \<Longrightarrow> group_ok (es @ [e]) api n k g = group_ok es api n k g"
  by (simp add: group_ok_def keyed_append)

lemma groups_ok_update:
  assumes "groups_ok es api n gs" "group_ok es' api n' k g"
    and "\<And>k' slot. k' \<noteq> k \<Longrightarrow> slot_ok es api n k' slot \<Longrightarrow> slot_ok es' api n' k' slot"
  shows "groups_ok es' api n' (AList.update k g gs)"
proof -
  have "slot_ok es' api n' l (map_of (AList.update k g gs) l)" for l
  proof (cases "l = k")
    case True
    with assms(2) show ?thesis by (simp add: update_conv')
  next
    case False
    moreover have "slot_ok es api n l (map_of gs l)" using assms(1) unfolding groups_ok_def by blast
    ultimately show ?thesis using assms(3) by (simp add: update_conv')
  qed
  moreover have "distinct (map fst (AList.update k g gs))"
    using assms(1) by (simp add: groups_ok_def distinct_update)
  ultimately show ?thesis unfolding groups_ok_def by blast
qed

lemma slot_ok_other_event:
  "k \<noteq> stored_key e \<Longrightarrow> slot_ok es api n k slot \<Longrightarrow> slot_ok (es @ [e]) api n k slot"
  by (cases slot) (simp_all add: group_ok_other keyed_append)

lemma slot_ok_other_provider:
  "provider_key api n \<noteq> Some k \<Longrightarrow> slot_ok es api n k slot \<Longrightarrow> slot_ok es api (Suc n) k slot"
  by (cases slot) (auto simp: group_ok_def less_Suc_eq)

lemma collect_stored_ok:
  assumes "collect_stored gs es' = Ok gs'" "groups_ok es api n gs"
  shows "groups_ok (es @ es') api n gs' \<and>
     (\<forall>e\<in>set es'. sequence_from_natural_key (ev_natural_key e) = Ok (stored_seq e))"
  using assms
proof (induction es' arbitrary: gs es)
  case Nil
  then show ?case by simp
next
  case (Cons e es')
  let ?g = "group_or_new gs (stored_key e) (et_id (ev_team e)) (ev_type e)"
  from Cons.prems(1) have seq: "sequence_from_natural_key (ev_natural_key e) = Ok (stored_seq e)"
    by (cases "sequence_from_natural_key (ev_natural_key e)") (simp_all add: stored_seq_def)
  with Cons.prems(1) have fresh: "stored_seq e \<notin> set (sg_sequences ?g)"
    and rest: "collect_stored (AList.update (stored_key e) (add_stored e (stored_seq e) ?g) gs) es' = Ok gs'"
    by (auto simp: Let_def split: if_splits)
  have "groups_ok (es @ [e]) api n (AList.update (stored_key e) (add_stored e (stored_seq e) ?g) gs)"
    by (rule groups_ok_update [OF Cons.prems(2) add_stored_ok [OF group_or_new_ok [OF Cons.prems(2)] fresh]])
      (rule slot_ok_other_event)
  from Cons.IH [OF rest this] seq show ?case by simp
qed

lemma collect_providers_ok:
  assumes "groups_ok es api n gs" "n + length rest = length api" "drop n api = rest"
  shows "groups_ok es api (length api) (collect_providers gs n rest)"
  using assms
proof (induction rest arbitrary: gs n)
  case Nil
  then show ?case by simp
next
  case (Cons e rest)
  from Cons.prems have e: "api ! n = e" "drop (Suc n) api = rest"
    by (metis nth_via_drop, metis Cons_nth_drop_Suc drop_eq_Nil2 linorder_not_le list.distinct(1) list.inject)
  show ?case
  proof (cases "trackable_type e")
    case None
    then have "provider_key api n = None" using e by (simp add: provider_key_def)
    with Cons.prems(1) have "groups_ok es api (Suc n) gs"
      unfolding groups_ok_def by (simp add: slot_ok_other_provider)
    with None Cons.IH [of "Suc n" gs] Cons.prems e show ?thesis by simp
  next
    case (Some t)
    let ?k = "api_key e t"
    let ?g = "group_or_new gs ?k (aft_id (afe_team e)) t"
    from Some e have key: "provider_key api n = Some ?k" by (simp add: provider_key_def)
    have "group_ok es api (Suc n) ?k (?g\<lparr> sg_providers := sg_providers ?g @ [n] \<rparr>)"
      using group_or_new_ok [OF Cons.prems(1), of ?k "aft_id (afe_team e)" t] key
      by (simp add: group_ok_def)
    then have "groups_ok es api (Suc n) (AList.update ?k (?g\<lparr> sg_providers := sg_providers ?g @ [n] \<rparr>) gs)"
      by (rule groups_ok_update [OF Cons.prems(1)]) (simp add: key slot_ok_other_provider del: slot_ok_simps)
    with Some Cons.IH [of "Suc n"] Cons.prems e show ?thesis by (simp add: Let_def)
  qed
qed

lemma group_ok_assignable:
  assumes "group_ok es api n k g"
  shows "distinct (sg_providers g)" "distinct (map snd (sg_active g))"
    "\<forall>s\<in>set (sg_active g). snd s \<le> sg_max g"
proof -
  from assms have act: "sg_active g = map (\<lambda>e. (e, stored_seq e)) (filter (\<lambda>e. \<not> ev_removed e) (keyed k es))"
    and dist: "distinct (map stored_seq (keyed k es))"
    and le: "\<forall>e\<in>set (keyed k es). stored_seq e \<le> sg_max g"
    and prov: "sg_providers g = filter (\<lambda>i. provider_key api i = Some k) [0..<n]"
    by (simp_all add: group_ok_def)
  show "distinct (sg_providers g)" by (simp add: prov)
  show "distinct (map snd (sg_active g))" using dist by (simp add: act comp_def distinct_map_filter)
  show "\<forall>s\<in>set (sg_active g). snd s \<le> sg_max g" using le by (auto simp: act)
qed

lemma assign_all_groups:
  assumes "distinct (map fst gs)" "\<forall>(k, g)\<in>set gs. group_ok es api n k g"
    and "\<forall>(k, g)\<in>set gs. dom a \<inter> set (sg_providers g) = {}"
  shows "dom (foldl (assign_group api inc) a (map snd gs)) = dom a \<union> (\<Union>(k, g)\<in>set gs. set (sg_providers g)) \<and>
     (\<forall>i. (\<forall>(k, g)\<in>set gs. i \<notin> set (sg_providers g)) \<longrightarrow>
          foldl (assign_group api inc) a (map snd gs) i = a i) \<and>
     (\<forall>(k, g)\<in>set gs. inj_on (foldl (assign_group api inc) a (map snd gs)) (set (sg_providers g)) \<and>
        (\<forall>i\<in>set (sg_providers g).
          (\<exists>s\<in>set (sg_active g). foldl (assign_group api inc) a (map snd gs) i = Some (snd s) \<and>
             pair_distance api i s \<le> group_tolerance inc g) \<or>
          (\<exists>m. foldl (assign_group api inc) a (map snd gs) i = Some m \<and> sg_max g < m)))"
  using assms
proof (induction gs arbitrary: a)
  case Nil
  then show ?case by simp
next
  case (Cons kg gs)
  obtain k g where kg: "kg = (k, g)" by (cases kg)
  let ?a = "assign_group api inc a g"
  let ?r = "foldl (assign_group api inc) ?a (map snd gs)"
  from Cons.prems(2) kg have ok: "group_ok es api n k g" by simp
  from Cons.prems(3) kg have free: "dom a \<inter> set (sg_providers g) = {}" by simp
  have res: "group_result api (group_tolerance inc g) g a ?a"
    by (rule assign_group_result [OF group_ok_assignable(1,2) [OF ok] free group_ok_assignable(3) [OF ok]])
  have apart: "set (sg_providers g) \<inter> set (sg_providers h) = {}" if "(l, h) \<in> set gs" for l h
  proof -
    from that Cons.prems(1) kg have "l \<noteq> k" by force
    moreover from that Cons.prems(2) have "group_ok es api n l h" by auto
    ultimately show ?thesis using ok by (auto simp: group_ok_def)
  qed
  have "\<forall>(l, h)\<in>set gs. dom ?a \<inter> set (sg_providers h) = {}"
    using res apart Cons.prems(3) by (fastforce simp: group_result_def)
  with Cons.IH [of ?a] Cons.prems(1,2)
  have IH: "dom ?r = dom ?a \<union> (\<Union>(k, g)\<in>set gs. set (sg_providers g))"
    "\<forall>i. (\<forall>(k, g)\<in>set gs. i \<notin> set (sg_providers g)) \<longrightarrow> ?r i = ?a i"
    "\<forall>(k, g)\<in>set gs. inj_on ?r (set (sg_providers g)) \<and>
        (\<forall>i\<in>set (sg_providers g).
          (\<exists>s\<in>set (sg_active g). ?r i = Some (snd s) \<and> pair_distance api i s \<le> group_tolerance inc g) \<or>
          (\<exists>m. ?r i = Some m \<and> sg_max g < m))" by auto
  have keep: "?r i = ?a i" if "i \<in> set (sg_providers g)" for i
    using that apart IH(2) by blast
  have here: "inj_on ?r (set (sg_providers g)) \<and>
        (\<forall>i\<in>set (sg_providers g).
          (\<exists>s\<in>set (sg_active g). ?r i = Some (snd s) \<and> pair_distance api i s \<le> group_tolerance inc g) \<or>
          (\<exists>m. ?r i = Some m \<and> sg_max g < m))"
    using res keep unfolding group_result_def inj_on_def by metis
  have outside: "?r i = a i" if "\<forall>(k, g)\<in>set (kg # gs). i \<notin> set (sg_providers g)" for i
    using that IH(2) res kg by (simp add: group_result_def)
  show ?case using IH(1,3) here outside res kg
    by (simp add: group_result_def Un_assoc Un_commute Un_left_commute)
qed

lemma assign_event_sequences_groups:
  assumes "assign_event_sequences api stored inc = Ok a"
  shows "\<exists>gs. groups_ok stored api (length api) gs \<and> a = foldl (assign_group api inc) Map.empty (map snd gs)"
proof -
  from assms obtain gs0 where gs0: "collect_stored [] stored = Ok gs0"
    and a: "a = foldl (assign_group api inc) Map.empty (map snd (collect_providers gs0 0 api))"
    by (auto simp: assign_event_sequences_def bind_result_Ok_iff)
  have "groups_ok [] api 0 []" by (simp add: groups_ok_def keyed_def)
  with collect_stored_ok [OF gs0] have "groups_ok stored api 0 gs0" by fastforce
  then have "groups_ok stored api (length api) (collect_providers gs0 0 api)"
    by (rule collect_providers_ok) simp_all
  with a show ?thesis by blast
qed

lemma assigned_sequences_facts:
  assumes "assign_event_sequences api stored inc = Ok a"
  shows "dom a = {i. i < length api \<and> trackable_type (api ! i) \<noteq> None}"
    and "\<forall>i j n. i \<noteq> j \<and> a i = Some n \<and> provider_key api i = provider_key api j \<longrightarrow> a j \<noteq> Some n"
    and "\<forall>i n. a i = Some n \<longrightarrow>
      (\<exists>e\<in>set stored. \<not> ev_removed e \<and> provider_key api i = Some (stored_key e) \<and> n = stored_seq e \<and>
         \<bar>api_clock (api ! i) - stored_clock e\<bar> \<le> 5) \<or>
      (\<forall>e\<in>set stored. provider_key api i = Some (stored_key e) \<longrightarrow> stored_seq e < n)"
proof -
  from assign_event_sequences_groups [OF assms] obtain gs where gs: "groups_ok stored api (length api) gs"
    and a: "a = foldl (assign_group api inc) Map.empty (map snd gs)" by blast
  from gs have dist: "distinct (map fst gs)" and slot: "slot_ok stored api (length api) k (map_of gs k)" for k
    unfolding groups_ok_def by blast+
  have ok: "group_ok stored api (length api) k g" if "(k, g) \<in> set gs" for k g
    using slot [of k] that dist by simp
  then have "\<forall>(k, g)\<in>set gs. group_ok stored api (length api) k g" by blast
  note all = assign_all_groups [OF dist this, of Map.empty inc, folded a]
  have prov: "set (sg_providers g) = {i. i < length api \<and> provider_key api i = Some k}" if "(k, g) \<in> set gs" for k g
    using ok [OF that] by (auto simp: group_ok_def)
  have group: "\<exists>g. (k, g) \<in> set gs" if "i < length api" "provider_key api i = Some k" for i k
    using slot [of k] that by (cases "map_of gs k") (auto dest: map_of_SomeD)
  from all have dom: "dom a = (\<Union>(k, g)\<in>set gs. set (sg_providers g))" by simp
  also have "\<dots> = {i. i < length api \<and> provider_key api i \<noteq> None}"
    using prov group by fastforce
  finally have dom': "dom a = {i. i < length api \<and> provider_key api i \<noteq> None}" .
  then show "dom a = {i. i < length api \<and> trackable_type (api ! i) \<noteq> None}"
    by (simp add: provider_key_def)
  have of_group: "\<exists>k g. (k, g) \<in> set gs \<and> provider_key api i = Some k \<and> i \<in> set (sg_providers g)"
    if "a i = Some n" for i n
  proof -
    from that dom' have "i < length api" "provider_key api i \<noteq> None" by auto
    with group prov show ?thesis by fastforce
  qed
  show "\<forall>i j n. i \<noteq> j \<and> a i = Some n \<and> provider_key api i = provider_key api j \<longrightarrow> a j \<noteq> Some n"
  proof (intro allI impI notI, elim conjE)
    fix i j n assume ij: "i \<noteq> j" "a i = Some n" "provider_key api i = provider_key api j" "a j = Some n"
    from of_group [OF ij(2)] obtain k g where g: "(k, g) \<in> set gs" "provider_key api i = Some k"
      "i \<in> set (sg_providers g)" by blast
    from of_group [OF ij(4)] g ij(3) prov [OF g(1)] have "j \<in> set (sg_providers g)"
      using dom' ij(4) by auto
    moreover from all g(1) have "inj_on a (set (sg_providers g))" by blast
    ultimately show False using g(3) ij by (auto simp: inj_on_def)
  qed
  show "\<forall>i n. a i = Some n \<longrightarrow>
      (\<exists>e\<in>set stored. \<not> ev_removed e \<and> provider_key api i = Some (stored_key e) \<and> n = stored_seq e \<and>
         \<bar>api_clock (api ! i) - stored_clock e\<bar> \<le> 5) \<or>
      (\<forall>e\<in>set stored. provider_key api i = Some (stored_key e) \<longrightarrow> stored_seq e < n)"
  proof (intro allI impI)
    fix i n assume i: "a i = Some n"
    from of_group [OF i] obtain k g where g: "(k, g) \<in> set gs" "provider_key api i = Some k"
      "i \<in> set (sg_providers g)" by blast
    have tol: "group_tolerance inc g \<le> 5"
      by (simp add: group_tolerance_def event_identity_clock_tolerance_def)
    from all g(1,3) consider
      (old) s where "s \<in> set (sg_active g)" "a i = Some (snd s)" "pair_distance api i s \<le> group_tolerance inc g"
      | (new) m where "a i = Some m" "sg_max g < m" by blast
    then show "(\<exists>e\<in>set stored. \<not> ev_removed e \<and> provider_key api i = Some (stored_key e) \<and> n = stored_seq e \<and>
         \<bar>api_clock (api ! i) - stored_clock e\<bar> \<le> 5) \<or>
      (\<forall>e\<in>set stored. provider_key api i = Some (stored_key e) \<longrightarrow> stored_seq e < n)"
    proof cases
      case old
      with ok [OF g(1)] i g(2) tol show ?thesis
        by (fastforce simp: group_ok_def keyed_def pair_distance_def)
    next
      case new
      with ok [OF g(1)] i g(2) show ?thesis
        by (fastforce simp: group_ok_def keyed_def)
    qed
  qed
qed

text \<open>reconciliation never confuses two events and never revives a removed one: when the
  assignment succeeds, exactly the trackable elements of the provider array receive a sequence;
  two elements of the same team, player and type receive different ones; and each sequence is
  either that of a stored, not removed row of the same team, player and type at most five match
  minutes away, or lies above every stored sequence of that identity, removed history included.\<close>

theorem assigned_sequences_sound:
  assumes "assign_event_sequences api stored inc = Ok a"
  shows "dom a = {i. i < length api \<and> trackable_type (api ! i) \<noteq> None} \<and>
    (\<forall>i j n. i \<noteq> j \<and> a i = Some n \<and> provider_key api i = provider_key api j \<longrightarrow> a j \<noteq> Some n) \<and>
    (\<forall>i n. a i = Some n \<longrightarrow>
      (\<exists>e\<in>set stored. \<not> ev_removed e \<and> provider_key api i = Some (stored_key e) \<and> n = stored_seq e \<and>
         \<bar>api_clock (api ! i) - stored_clock e\<bar> \<le> 5) \<or>
      (\<forall>e\<in>set stored. provider_key api i = Some (stored_key e) \<longrightarrow> stored_seq e < n))"
  using assigned_sequences_facts [OF assms] by blast

definition api_goal :: "int \<Rightarrow> api_event" where
  "api_goal minute = \<lparr> afe_elapsed = minute, afe_extra = None,
      afe_team = \<lparr> aft_id = 1, aft_name = ''H'', aft_winner = None \<rparr>,
      afe_player = \<lparr> afp_id = Some 7, afp_name = Some ''Kane'' \<rparr>,
      afe_assist = \<lparr> afp_id = None, afp_name = None \<rparr>,
      afe_type = ''goal'', afe_detail = ''normal goal'', afe_comments = None \<rparr>"

theorem assigned_sequences_sound_witness:
  "dom (the_ok (assign_event_sequences [api_goal 60, api_goal 21] [sample_event 5 1 20] (\<lambda>_. False))) = {0, 1}"
proof -
  let ?api = "[api_goal 60, api_goal 21]"
  let ?r = "assign_event_sequences ?api [sample_event 5 1 20] (\<lambda>_. False)"
  have "is_ok ?r" by code_simp
  then have "?r = Ok (the_ok ?r)" by (cases ?r) simp_all
  from assigned_sequences_sound [OF this]
  have "dom (the_ok ?r) = {i. i < length ?api \<and> trackable_type (?api ! i) \<noteq> None}" by blast
  moreover have "trackable_type (api_goal 60) \<noteq> None" "trackable_type (api_goal 21) \<noteq> None"
    by code_simp+
  ultimately show ?thesis by (auto simp: less_Suc_eq numeral_2_eq_2)
qed

end
