(* ===== verification/EventStore.thy ===== *)
theory EventStore
  imports Event
begin

text \<open>
  The event tables of the Postgres schema and the debounce transactions over them: the audit
  records of \<open>internal/contract/auditlog\<close>, the presence and absence votes of
  \<open>internal/infra/pg/event_repo_debounce.go\<close> and the transactional steps of
  \<open>provider_mutation_repo.go\<close> that insert, vote on, correct and drop events. The tables are a
  record, which the mutation store extends; a step that returns an error stands for a rolled-back
  transaction, so the caller keeps the tables it started from. \<open>NOW()\<close> of the transaction and
  \<open>time.Now()\<close> are arguments. A timestamp column keeps microseconds.
\<close>

section \<open>Audit records\<close>

datatype audit_kind =
    KindFixtureActivated
  | KindFixtureCompleted
  | KindEventDetected
  | KindEventStable
  | KindEventRemoved
  | KindOther go_string

fun audit_kind_valid :: "audit_kind \<Rightarrow> bool" where
  "audit_kind_valid (KindOther _) = False"
| "audit_kind_valid _ = True"

fun event_scoped :: "audit_kind \<Rightarrow> bool" where
  "event_scoped KindEventDetected = True"
| "event_scoped KindEventStable = True"
| "event_scoped KindEventRemoved = True"
| "event_scoped _ = False"

text \<open>The payloads of the five kinds; a record read from elsewhere keeps its encoded text.\<close>

record fixture_activated_payload =
  fap_fixture_id :: int
  fap_activated_at :: instant
  fap_reason :: go_string

record event_stable_payload =
  esp_event_id :: uuid
  esp_fixture_id :: int
  esp_event_type :: go_string
  esp_detail :: go_string
  esp_minute :: int
  esp_extra :: "int option"
  esp_player_name :: go_string
  esp_team_id :: int
  esp_team_name :: go_string

record event_detected_payload = event_stable_payload +
  edp_counter :: int

record event_removed_payload =
  erp_event_id :: uuid
  erp_fixture_id :: int
  erp_removed_at :: instant
  erp_reason :: go_string

record fixture_completed_payload =
  fcp_fixture_id :: int
  fcp_terminal_observed_at :: instant
  fcp_completed_at :: instant
  fcp_grace_seconds :: int
  fcp_provider_parity :: "bool option"
  fcp_durable_parity :: "bool option"
  fcp_penalty_decided :: "bool option"

datatype audit_payload =
    ActivatedPayload fixture_activated_payload
  | CompletedPayload fixture_completed_payload
  | DetectedPayload event_detected_payload
  | StablePayload event_stable_payload
  | RemovedPayload event_removed_payload
  | EncodedPayload go_string

record audit_record =
  au_kind :: audit_kind
  au_event_id :: uuid
  au_fixture_id :: int
  au_payload :: audit_payload

definition audit_scope_ok :: "audit_kind \<Rightarrow> uuid \<Rightarrow> bool" where
  "audit_scope_ok kind event_id \<longleftrightarrow> (if event_scoped kind then event_id \<noteq> 0 else event_id = 0)"

definition new_audit :: "audit_kind \<Rightarrow> uuid \<Rightarrow> int \<Rightarrow> audit_payload \<Rightarrow> audit_record result" where
  "new_audit kind event_id fixture_id payload =
     (if \<not> audit_kind_valid kind then Err ''auditlog.New: unknown kind''
      else if fixture_id = 0 then Err ''auditlog.New: fixture_id is required''
      else if event_scoped kind \<and> event_id = 0 then Err ''auditlog.New: event_id is required''
      else if \<not> event_scoped kind \<and> event_id \<noteq> 0 then Err ''auditlog.New: event_id must be empty''
      else Ok \<lparr> au_kind = kind, au_event_id = event_id, au_fixture_id = fixture_id,
                au_payload = payload \<rparr>)"

definition audit_valid :: "audit_record \<Rightarrow> bool" where
  "audit_valid r \<longleftrightarrow> audit_kind_valid (au_kind r) \<and> au_fixture_id r \<noteq> 0 \<and>
     audit_scope_ok (au_kind r) (au_event_id r)"

lemma new_audit_valid: "new_audit k e f p = Ok r \<Longrightarrow> audit_valid r"
  by (auto simp: new_audit_def audit_valid_def audit_scope_ok_def split: if_splits)

section \<open>Tables\<close>

record downstream_row =
  dw_event_id :: uuid
  dw_type :: go_string
  dw_workflow_id :: go_string
  dw_completed_at :: "instant option"
  dw_outcome_class :: "go_string option"

record candidate_row =
  cd_event_id :: uuid
  cd_tweet_url :: go_string
  cd_outcome_class :: go_string
  cd_reject_reason :: "go_string option"
  cd_outcome_at :: "instant option"
  cd_credited_asset :: "uuid option"

record event_db =
  ed_events :: "event list"
  ed_presence_votes :: "(uuid \<times> go_string) list"
  ed_drop_votes :: "(uuid \<times> go_string) list"
  ed_downstream :: "downstream_row list"
  ed_candidates :: "candidate_row list"
  ed_audit :: "audit_record list"

definition column_time :: "instant \<Rightarrow> instant" where
  "column_time at = at div 1000 * 1000"

definition find_event :: "uuid \<Rightarrow> event list \<Rightarrow> event option" where
  "find_event ident rows = find (\<lambda>e. ev_id e = ident) rows"

text \<open>An \<open>UPDATE events ... WHERE id\<close>, with the trigger that stamps \<open>updated_at\<close>.\<close>

definition update_event ::
  "instant \<Rightarrow> uuid \<Rightarrow> (event \<Rightarrow> event) \<Rightarrow> 'a event_db_scheme \<Rightarrow> 'a event_db_scheme" where
  "update_event now ident f db =
     db\<lparr> ed_events := map (\<lambda>e. if ev_id e = ident then (f e)\<lparr> ev_updated_at := now \<rparr> else e)
                      (ed_events db) \<rparr>"

definition insert_audit_log :: "audit_record \<Rightarrow> 'a event_db_scheme \<Rightarrow> 'a event_db_scheme result" where
  "insert_audit_log r db =
     (if \<not> audit_valid r then Err ''pg.insertAuditLog: invalid audit record''
      else Ok (db\<lparr> ed_audit := ed_audit db @ [r] \<rparr>))"

definition reject_reason_event_removed :: go_string where
  "reject_reason_event_removed = ''event_removed''"

text \<open>With an empty URL every pending candidate of the event is closed.\<close>

definition terminalize_candidates ::
  "uuid \<Rightarrow> go_string \<Rightarrow> instant \<Rightarrow> 'a event_db_scheme \<Rightarrow> 'a event_db_scheme" where
  "terminalize_candidates ident url at db =
     db\<lparr> ed_candidates := map (\<lambda>c.
       if cd_event_id c = ident \<and> cd_outcome_class c = ''pending'' \<and> (url = [] \<or> cd_tweet_url c = url)
       then c\<lparr> cd_outcome_class := ''rejected'', cd_reject_reason := Some reject_reason_event_removed,
               cd_outcome_at := Some (column_time at), cd_credited_asset := None \<rparr>
       else c) (ed_candidates db) \<rparr>"

definition close_downstream :: "instant \<Rightarrow> uuid \<Rightarrow> 'a event_db_scheme \<Rightarrow> 'a event_db_scheme" where
  "close_downstream now ident db =
     db\<lparr> ed_downstream := map (\<lambda>d.
       if dw_event_id d = ident \<and> dw_completed_at d = None
       then d\<lparr> dw_completed_at := Some now, dw_outcome_class := Some ''event_removed'' \<rparr>
       else d) (ed_downstream db) \<rparr>"

section \<open>Presence votes\<close>

text \<open>The two counter updates, capped at three and floored at zero.\<close>

definition count_presence :: "event \<Rightarrow> event" where
  "count_presence e = e\<lparr> ev_debounce_count := min (ev_debounce_count e + 1) 3 \<rparr>"

definition count_absence :: "event \<Rightarrow> event" where
  "count_absence e = e\<lparr> ev_debounce_count := max (ev_debounce_count e - 1) 0 \<rparr>"

definition mark_triggered :: "event \<Rightarrow> event" where
  "mark_triggered e = e\<lparr> ev_downstream_triggered := True \<rparr>"

definition mark_removed :: "instant \<Rightarrow> event \<Rightarrow> event" where
  "mark_removed now e = e\<lparr> ev_removed := True, ev_removed_reason := Some RemovalVAR,
     ev_removed_at := Some now \<rparr>"

definition cast_presence_vote ::
  "instant \<Rightarrow> uuid \<Rightarrow> go_string \<Rightarrow> 'a event_db_scheme \<Rightarrow> 'a event_db_scheme" where
  "cast_presence_vote now ident workflow db =
     update_event now ident count_presence
       (db\<lparr> ed_presence_votes := ed_presence_votes db @ [(ident, workflow)] \<rparr>)"

definition cast_drop_vote ::
  "instant \<Rightarrow> uuid \<Rightarrow> go_string \<Rightarrow> 'a event_db_scheme \<Rightarrow> 'a event_db_scheme" where
  "cast_drop_vote now ident workflow db =
     update_event now ident count_absence
       (db\<lparr> ed_drop_votes := ed_drop_votes db @ [(ident, workflow)] \<rparr>)"

definition optional_audit ::
  "audit_record option \<Rightarrow> 'a event_db_scheme \<Rightarrow> 'a event_db_scheme result" where
  "optional_audit record_opt db =
     (case record_opt of None \<Rightarrow> Ok db | Some r \<Rightarrow> insert_audit_log r db)"

text \<open>
  \<open>registerEventPresence\<close>: a vote for an unknown event violates the foreign key; a repeated vote
  only reads the row. The result is the count and whether this vote started the downstream work.
\<close>

definition register_event_presence ::
  "instant \<Rightarrow> 'a event_db_scheme \<Rightarrow> uuid \<Rightarrow> go_string \<Rightarrow> audit_record option \<Rightarrow>
   ('a event_db_scheme \<times> int \<times> bool) result" where
  "register_event_presence now db ident workflow record_opt =
     (case find_event ident (ed_events db) of
        None \<Rightarrow> Err ''pg.EventRepo.RegisterEventPresence: vote''
      | Some e \<Rightarrow>
          let is_new = ((ident, workflow) \<notin> set (ed_presence_votes db));
              db1 = (if is_new then cast_presence_vote now ident workflow db else db);
              new_count = (if is_new then ev_debounce_count (count_presence e) else ev_debounce_count e);
              triggers = (new_count = 3 \<and> \<not> ev_downstream_triggered e)
          in if (case record_opt of None \<Rightarrow> False | Some r \<Rightarrow> au_fixture_id r \<noteq> ev_fixture_id e)
             then Err ''pg.EventRepo.RegisterEventPresenceWithAudit: audit fixture does not match event''
             else if \<not> triggers then Ok (db1, new_count, False)
             else bind_result (optional_audit record_opt (update_event now ident mark_triggered db1))
                    (\<lambda>db2. Ok (db2, new_count, True)))"

definition register_event_presence_with_audit ::
  "instant \<Rightarrow> 'a event_db_scheme \<Rightarrow> uuid \<Rightarrow> go_string \<Rightarrow> audit_record \<Rightarrow>
   ('a event_db_scheme \<times> int \<times> bool) result" where
  "register_event_presence_with_audit now db ident workflow r =
     (if \<not> audit_valid r \<or> au_kind r \<noteq> KindEventStable \<or> au_event_id r \<noteq> ident
      then Err ''pg.EventRepo.RegisterEventPresenceWithAudit: audit identity does not match event''
      else register_event_presence now db ident workflow (Some r))"

section \<open>Absence votes\<close>

definition register_event_absence ::
  "instant \<Rightarrow> instant \<Rightarrow> 'a event_db_scheme \<Rightarrow> uuid \<Rightarrow> go_string \<Rightarrow> audit_record option \<Rightarrow>
   ('a event_db_scheme \<times> int \<times> bool) result" where
  "register_event_absence now clock db ident workflow record_opt =
     (case find_event ident (ed_events db) of
        None \<Rightarrow> Err ''pg.EventRepo.RegisterEventAbsence: vote''
      | Some e \<Rightarrow>
          let is_new = ((ident, workflow) \<notin> set (ed_drop_votes db));
              db1 = (if is_new then cast_drop_vote now ident workflow db else db);
              new_count = (if is_new then ev_debounce_count (count_absence e) else ev_debounce_count e);
              hits_zero = (new_count = 0 \<and> \<not> ev_removed e)
          in if (case record_opt of None \<Rightarrow> False | Some r \<Rightarrow> au_fixture_id r \<noteq> ev_fixture_id e)
             then Err ''pg.EventRepo.RegisterEventAbsenceWithAudit: audit fixture does not match event''
             else if \<not> hits_zero then Ok (db1, new_count, False)
             else bind_result
                    (optional_audit record_opt
                      (close_downstream now ident
                        (terminalize_candidates ident [] clock (update_event now ident (mark_removed now) db1))))
                    (\<lambda>db2. Ok (db2, new_count, True)))"

definition register_event_absence_with_audit ::
  "instant \<Rightarrow> instant \<Rightarrow> 'a event_db_scheme \<Rightarrow> uuid \<Rightarrow> go_string \<Rightarrow> audit_record \<Rightarrow>
   ('a event_db_scheme \<times> int \<times> bool) result" where
  "register_event_absence_with_audit now clock db ident workflow r =
     (if \<not> audit_valid r \<or> au_kind r \<noteq> KindEventRemoved \<or> au_event_id r \<noteq> ident
      then Err ''pg.EventRepo.RegisterEventAbsenceWithAudit: audit identity does not match event''
      else register_event_absence now clock db ident workflow (Some r))"

section \<open>The planned event operations\<close>

record planned_insert =
  pi_event :: "event option"
  pi_audit :: "audit_record option"

record planned_presence =
  pp_event_id :: uuid
  pp_audit :: audit_record

record planned_update =
  pu_event_id :: uuid
  pu_fresh :: "event option"

record planned_absence =
  pa_event_id :: uuid
  pa_audit :: audit_record

text \<open>The row an insert writes: the defaults of the schema and the seeded counter.\<close>

definition event_row :: "instant \<Rightarrow> event \<Rightarrow> event" where
  "event_row now e = e\<lparr> ev_first_seen_at := column_time (ev_first_seen_at e),
     ev_debounce_count := (if player_known (ev_player e) then 1 else 0),
     ev_downstream_triggered := False, ev_removed_at := map_option column_time (ev_removed_at e),
     ev_created_at := now, ev_updated_at := now \<rparr>"

text \<open>The enumeration types and the unique constraints an insert has to satisfy.\<close>

definition insert_constraints :: "'a event_db_scheme \<Rightarrow> event \<Rightarrow> bool" where
  "insert_constraints db e \<longleftrightarrow>
     (case ev_removed_reason e of None \<Rightarrow> True | Some r \<Rightarrow> removal_reason_valid r) \<and>
     list_all (\<lambda>q. ev_id q \<noteq> ev_id e \<and>
       (ev_fixture_id q, ev_natural_key q) \<noteq> (ev_fixture_id e, ev_natural_key e)) (ed_events db)"

definition insert_planned_event ::
  "instant \<Rightarrow> go_string \<Rightarrow> planned_insert \<Rightarrow> 'a event_db_scheme \<Rightarrow> 'a event_db_scheme result" where
  "insert_planned_event now workflow p db =
     (case pi_event p of
        None \<Rightarrow> Err ''invalid planned event insert''
      | Some e \<Rightarrow>
          if ev_fixture_id e \<le> 0 \<or> workflow = [] then Err ''invalid planned event insert''
          else bind_result (validate_event e) (\<lambda>_.
            if \<not> insert_constraints db e
            then Err ''duplicate key value violates unique constraint''
            else
              let known = player_known (ev_player e);
                  db1 = db\<lparr> ed_events := ed_events db @ [event_row now e],
                            ed_presence_votes := ed_presence_votes db @
                              (if known then [(ev_id e, workflow)] else []) \<rparr>
              in case pi_audit p of
                   None \<Rightarrow> Ok db1
                 | Some r \<Rightarrow>
                     if \<not> known \<or> \<not> audit_valid r \<or> au_kind r \<noteq> KindEventDetected \<or>
                        au_event_id r \<noteq> ev_id e
                     then Err ''invalid event detected audit''
                     else insert_audit_log r db1))"

definition discovery_workflow_id :: "(uuid \<Rightarrow> go_string) \<Rightarrow> uuid \<Rightarrow> go_string" where
  "discovery_workflow_id uuid_text ident = ''event-'' @ uuid_text ident"

text \<open>\<open>ON CONFLICT DO NOTHING\<close> on the primary key of the checklist.\<close>

definition insert_downstream ::
  "uuid \<Rightarrow> go_string \<Rightarrow> go_string \<Rightarrow> 'a event_db_scheme \<Rightarrow> 'a event_db_scheme" where
  "insert_downstream ident t workflow db =
     (if list_ex (\<lambda>d. dw_event_id d = ident \<and> dw_type d = t \<and> dw_workflow_id d = workflow) (ed_downstream db)
      then db
      else db\<lparr> ed_downstream := ed_downstream db @
        [\<lparr> dw_event_id = ident, dw_type = t, dw_workflow_id = workflow, dw_completed_at = None,
           dw_outcome_class = None \<rparr>] \<rparr>)"

text \<open>\<open>registerPresenceTx\<close>. The update skips a removed event, whose missing row is an error; a
  repeated vote changes nothing.\<close>

definition register_presence_tx ::
  "(uuid \<Rightarrow> go_string) \<Rightarrow> instant \<Rightarrow> go_string \<Rightarrow> planned_presence \<Rightarrow> 'a event_db_scheme \<Rightarrow>
   ('a event_db_scheme \<times> bool) result" where
  "register_presence_tx uuid_text now workflow p db =
     (case find_event (pp_event_id p) (ed_events db) of
        None \<Rightarrow> Err ''insert violates foreign key constraint''
      | Some e \<Rightarrow>
          if (pp_event_id p, workflow) \<in> set (ed_presence_votes db) then Ok (db, False)
          else if ev_removed e then Err ''no rows in result set''
          else
            let db1 = cast_presence_vote now (pp_event_id p) workflow db
            in if ev_debounce_count (count_presence e) \<noteq> 3 \<or> ev_downstream_triggered e
               then Ok (db1, False)
               else if \<not> audit_valid (pp_audit p) \<or> au_kind (pp_audit p) \<noteq> KindEventStable \<or>
                       au_event_id (pp_audit p) \<noteq> pp_event_id p
               then Err ''invalid event stable audit''
               else bind_result (insert_audit_log (pp_audit p)
                      (update_event now (pp_event_id p) mark_triggered db1)) (\<lambda>db2.
                    Ok (insert_downstream (pp_event_id p) ''discovery''
                          (discovery_workflow_id uuid_text (pp_event_id p)) db2, True)))"

definition correct_fields :: "event \<Rightarrow> event \<Rightarrow> event" where
  "correct_fields fresh e = e\<lparr> ev_assist := ev_assist fresh, ev_minute := ev_minute fresh,
     ev_extra := ev_extra fresh, ev_detail := ev_detail fresh \<rparr>"

definition coalesce :: "'a option \<Rightarrow> 'a option \<Rightarrow> 'a option" where
  "coalesce stored fresh = (if stored = None then fresh else stored)"

definition fill_assist :: "event \<Rightarrow> event \<Rightarrow> event" where
  "fill_assist fresh e = e\<lparr> ev_assist :=
     \<lparr> pl_id = coalesce (pl_id (ev_assist e)) (pl_id (ev_assist fresh)),
       pl_name = coalesce (pl_name (ev_assist e)) (pl_name (ev_assist fresh)) \<rparr> \<rparr>"

text \<open>\<open>updateEventFieldsTx\<close>: a trusted policy corrects the fields that differ, any other only fills
  missing assist columns; the flag says whether a row changed.\<close>

definition update_event_fields_tx ::
  "instant \<Rightarrow> bool \<Rightarrow> planned_update \<Rightarrow> 'a event_db_scheme \<Rightarrow> ('a event_db_scheme \<times> bool) result" where
  "update_event_fields_tx now trusted p db =
     (case pu_fresh p of
        None \<Rightarrow> Err ''nil event update''
      | Some fresh \<Rightarrow>
          (case find_event (pu_event_id p) (ed_events db) of
             None \<Rightarrow> Ok (db, False)
           | Some e \<Rightarrow>
               if trusted then
                 (if mutable_fields_changed e fresh
                  then Ok (update_event now (pu_event_id p) (correct_fields fresh) db, True)
                  else Ok (db, False))
               else
                 (if pl_id (ev_assist e) = None \<and> pl_id (ev_assist fresh) \<noteq> None \<or>
                     pl_name (ev_assist e) = None \<and> pl_name (ev_assist fresh) \<noteq> None
                  then Ok (update_event now (pu_event_id p) (fill_assist fresh) db, True)
                  else Ok (db, False))))"

text \<open>The deletion of a placeholder row, with the cascade of the schema.\<close>

definition delete_unknown_event :: "int \<Rightarrow> uuid \<Rightarrow> 'a event_db_scheme \<Rightarrow> 'a event_db_scheme \<times> bool" where
  "delete_unknown_event fixture_id ident db =
     (if list_ex (\<lambda>e. ev_id e = ident \<and> ev_fixture_id e = fixture_id \<and> ev_debounce_count e = 0) (ed_events db)
      then (db\<lparr> ed_events := filter (\<lambda>e. ev_id e \<noteq> ident) (ed_events db),
                ed_presence_votes := filter (\<lambda>v. fst v \<noteq> ident) (ed_presence_votes db),
                ed_drop_votes := filter (\<lambda>v. fst v \<noteq> ident) (ed_drop_votes db),
                ed_downstream := filter (\<lambda>d. dw_event_id d \<noteq> ident) (ed_downstream db),
                ed_candidates := filter (\<lambda>c. cd_event_id c \<noteq> ident) (ed_candidates db) \<rparr>, True)
      else (db, False))"

definition register_absence_tx ::
  "instant \<Rightarrow> instant \<Rightarrow> go_string \<Rightarrow> planned_absence \<Rightarrow> 'a event_db_scheme \<Rightarrow>
   ('a event_db_scheme \<times> bool) result" where
  "register_absence_tx now clock workflow p db =
     (case find_event (pa_event_id p) (ed_events db) of
        None \<Rightarrow> Err ''insert violates foreign key constraint''
      | Some e \<Rightarrow>
          if (pa_event_id p, workflow) \<in> set (ed_drop_votes db) then Ok (db, False)
          else
            let db1 = cast_drop_vote now (pa_event_id p) workflow db
            in if ev_debounce_count (count_absence e) \<noteq> 0 \<or> ev_removed e then Ok (db1, False)
               else if \<not> audit_valid (pa_audit p) \<or> au_kind (pa_audit p) \<noteq> KindEventRemoved \<or>
                       au_event_id (pa_audit p) \<noteq> pa_event_id p
               then Err ''invalid event removal audit''
               else bind_result (insert_audit_log (pa_audit p)
                      (close_downstream now (pa_event_id p)
                        (terminalize_candidates (pa_event_id p) [] clock
                          (update_event now (pa_event_id p) (mark_removed now) db1)))) (\<lambda>db2.
                    Ok (db2, True)))"

section \<open>The invariant of the tables\<close>

definition voters :: "'a event_db_scheme \<Rightarrow> uuid \<Rightarrow> int" where
  "voters db ident = int (length (filter (\<lambda>v. fst v = ident) (ed_presence_votes db)))"

text \<open>A row whose event has \<open>n\<close> presence votes.\<close>

definition row_ok :: "int \<Rightarrow> event \<Rightarrow> bool" where
  "row_ok n e \<longleftrightarrow>
     0 \<le> ev_debounce_count e \<and> ev_debounce_count e \<le> 3 \<and> ev_debounce_count e \<le> n \<and>
     (ev_downstream_triggered e \<longrightarrow> 3 \<le> n) \<and>
     (ev_removed e \<longleftrightarrow> ev_removed_reason e \<noteq> None) \<and> (ev_removed e \<longleftrightarrow> ev_removed_at e \<noteq> None)"

definition event_store_ok :: "'a event_db_scheme \<Rightarrow> bool" where
  "event_store_ok db \<longleftrightarrow>
     distinct (map ev_id (ed_events db)) \<and> distinct (ed_presence_votes db) \<and> distinct (ed_drop_votes db) \<and>
     list_all (\<lambda>e. row_ok (voters db (ev_id e)) e) (ed_events db) \<and>
     fst ` set (ed_presence_votes db) \<subseteq> set (map ev_id (ed_events db)) \<and>
     fst ` set (ed_drop_votes db) \<subseteq> set (map ev_id (ed_events db))"

lemma row_ok_mono: "row_ok n e \<Longrightarrow> n \<le> m \<Longrightarrow> row_ok m e"
  by (auto simp: row_ok_def)

lemma find_event_Some: "find_event ident rows = Some e \<Longrightarrow> e \<in> set rows \<and> ev_id e = ident"
  by (induction rows) (auto simp: find_event_def split: if_splits)

lemma find_event_None: "find_event ident rows = None \<longleftrightarrow> ident \<notin> ev_id ` set rows"
  by (induction rows) (auto simp: find_event_def)

lemma find_event_map:
  assumes "\<And>e. ev_id (f e) = ev_id e"
  shows "find_event ident (map (\<lambda>e. if ev_id e = ident then f e else e) rows) =
    map_option f (find_event ident rows)"
  using assms by (induction rows) (auto simp: find_event_def)

lemma find_event_unique:
  "distinct (map ev_id rows) \<Longrightarrow> e \<in> set rows \<Longrightarrow> find_event (ev_id e) rows = Some e"
  by (induction rows) (auto simp: find_event_def)

lemma update_event_fields [simp]:
  "ed_presence_votes (update_event now i f db) = ed_presence_votes db"
  "ed_drop_votes (update_event now i f db) = ed_drop_votes db"
  "ed_downstream (update_event now i f db) = ed_downstream db"
  "ed_candidates (update_event now i f db) = ed_candidates db"
  "ed_audit (update_event now i f db) = ed_audit db"
  "voters (update_event now i f db) j = voters db j"
  by (simp_all add: update_event_def voters_def)

lemma update_event_find:
  assumes "\<And>e. ev_id (f e) = ev_id e"
  shows "find_event i (ed_events (update_event now i f db)) =
    map_option (\<lambda>e. (f e)\<lparr> ev_updated_at := now \<rparr>) (find_event i (ed_events db))"
  using assms by (simp add: update_event_def find_event_map)

lemma update_event_ids:
  assumes "\<And>e. ev_id (f e) = ev_id e"
  shows "map ev_id (ed_events (update_event now i f db)) = map ev_id (ed_events db)"
  using assms by (simp add: update_event_def)

lemma row_ok_touch [simp]: "row_ok n (e\<lparr> ev_updated_at := now \<rparr>) = row_ok n e"
  by (simp add: row_ok_def)

lemma event_store_ok_row: "event_store_ok db \<Longrightarrow> e \<in> set (ed_events db) \<Longrightarrow> row_ok (voters db (ev_id e)) e"
  by (auto simp: event_store_ok_def list_all_iff)

lemma update_event_ok:
  assumes ok: "event_store_ok db"
    and ids: "\<And>e. ev_id (f e) = ev_id e"
    and row: "\<And>e. e \<in> set (ed_events db) \<Longrightarrow> ev_id e = i \<Longrightarrow> row_ok (voters db i) e \<Longrightarrow> row_ok (voters db i) (f e)"
  shows "event_store_ok (update_event now i f db)"
proof -
  have ids': "map ev_id (ed_events (update_event now i f db)) = map ev_id (ed_events db)"
    using ids by (rule update_event_ids)
  have rows: "\<forall>e\<in>set (ed_events (update_event now i f db)). row_ok (voters db (ev_id e)) e"
    using event_store_ok_row [OF ok] row ids by (auto simp: update_event_def)
  show ?thesis
    unfolding event_store_ok_def ids' using ok rows by (simp add: event_store_ok_def list_all_iff)
qed

text \<open>Tables other than events and votes do not matter to the invariant.\<close>

lemma event_store_ok_cong:
  "ed_events db' = ed_events db \<Longrightarrow> ed_presence_votes db' = ed_presence_votes db \<Longrightarrow>
     ed_drop_votes db' = ed_drop_votes db \<Longrightarrow> event_store_ok db' = event_store_ok db"
  by (simp add: event_store_ok_def voters_def)

lemma other_tables_fields [simp]:
  "ed_events (close_downstream now i db) = ed_events db"
  "ed_presence_votes (close_downstream now i db) = ed_presence_votes db"
  "ed_drop_votes (close_downstream now i db) = ed_drop_votes db"
  "ed_audit (close_downstream now i db) = ed_audit db"
  "ed_events (terminalize_candidates i url at db) = ed_events db"
  "ed_presence_votes (terminalize_candidates i url at db) = ed_presence_votes db"
  "ed_drop_votes (terminalize_candidates i url at db) = ed_drop_votes db"
  "ed_audit (terminalize_candidates i url at db) = ed_audit db"
  "ed_events (insert_downstream i t w db) = ed_events db"
  "ed_presence_votes (insert_downstream i t w db) = ed_presence_votes db"
  "ed_drop_votes (insert_downstream i t w db) = ed_drop_votes db"
  "ed_audit (insert_downstream i t w db) = ed_audit db"
  by (simp_all add: close_downstream_def terminalize_candidates_def insert_downstream_def)

lemma insert_audit_log_Ok:
  "insert_audit_log r db = Ok db' \<longleftrightarrow> audit_valid r \<and> db' = db\<lparr> ed_audit := ed_audit db @ [r] \<rparr>"
  by (auto simp: insert_audit_log_def)

lemma optional_audit_Ok:
  "optional_audit r db = Ok db' \<Longrightarrow> ed_events db' = ed_events db \<and>
     ed_presence_votes db' = ed_presence_votes db \<and> ed_drop_votes db' = ed_drop_votes db"
  by (auto simp: optional_audit_def insert_audit_log_Ok split: option.splits)

lemma event_functions_id [simp]:
  "ev_id (count_presence e) = ev_id e" "ev_id (count_absence e) = ev_id e"
  "ev_id (mark_triggered e) = ev_id e" "ev_id (mark_removed now e) = ev_id e"
  "ev_id (correct_fields fresh e) = ev_id e" "ev_id (fill_assist fresh e) = ev_id e"
  by (simp_all add: count_presence_def count_absence_def mark_triggered_def mark_removed_def
      correct_fields_def fill_assist_def)

lemma row_ok_functions:
  "row_ok n e \<Longrightarrow> row_ok n (count_absence e)"
  "row_ok n e \<Longrightarrow> row_ok n (mark_removed now e)"
  "row_ok n e \<Longrightarrow> ev_debounce_count e = 3 \<Longrightarrow> row_ok n (mark_triggered e)"
  "row_ok n e \<Longrightarrow> row_ok n (correct_fields fresh e)"
  "row_ok n e \<Longrightarrow> row_ok n (fill_assist fresh e)"
  by (auto simp: row_ok_def count_absence_def mark_removed_def mark_triggered_def correct_fields_def
      fill_assist_def)

lemma row_ok_count_presence: "row_ok n e \<Longrightarrow> row_ok (n + 1) (count_presence e)"
  by (auto simp: row_ok_def count_presence_def)

lemma cast_presence_vote_ok:
  assumes ok: "event_store_ok db" and new: "(i, w) \<notin> set (ed_presence_votes db)"
    and i: "i \<in> ev_id ` set (ed_events db)"
  shows "event_store_ok (cast_presence_vote now i w db)"
proof -
  let ?db1 = "db\<lparr> ed_presence_votes := ed_presence_votes db @ [(i, w)] \<rparr>"
  have voters: "voters ?db1 j = (if j = i then voters db j + 1 else voters db j)" for j
    by (simp add: voters_def)
  have ids: "map ev_id (ed_events (cast_presence_vote now i w db)) = map ev_id (ed_events db)"
    unfolding cast_presence_vote_def by (subst update_event_ids) simp_all
  have rows: "\<forall>e\<in>set (ed_events (cast_presence_vote now i w db)). row_ok (voters ?db1 (ev_id e)) e"
    using event_store_ok_row [OF ok] row_ok_count_presence
    by (auto simp: cast_presence_vote_def update_event_def voters)
  have votes: "ed_presence_votes (cast_presence_vote now i w db) = ed_presence_votes db @ [(i, w)]"
    "ed_drop_votes (cast_presence_vote now i w db) = ed_drop_votes db"
    "voters (cast_presence_vote now i w db) j = voters ?db1 j" for j
    by (simp_all add: cast_presence_vote_def)
  show ?thesis
    unfolding event_store_ok_def ids votes
    using ok new i rows by (simp add: event_store_ok_def list_all_iff)
qed

lemma cast_drop_vote_ok:
  assumes ok: "event_store_ok db" and new: "(i, w) \<notin> set (ed_drop_votes db)"
    and i: "i \<in> ev_id ` set (ed_events db)"
  shows "event_store_ok (cast_drop_vote now i w db)"
proof -
  have "event_store_ok (db\<lparr> ed_drop_votes := ed_drop_votes db @ [(i, w)] \<rparr>)"
    using ok new i by (simp add: event_store_ok_def voters_def)
  then show ?thesis
    unfolding cast_drop_vote_def by (rule update_event_ok) (auto intro: row_ok_functions)
qed

section \<open>Every operation keeps the invariant\<close>

lemma find_event_in_ids: "find_event i rows = Some e \<Longrightarrow> i \<in> ev_id ` set rows"
  using find_event_Some by fastforce

lemma unique_event:
  assumes "event_store_ok db" "find_event i (ed_events db) = Some e" "q \<in> set (ed_events db)" "ev_id q = i"
  shows "q = e"
  using find_event_unique [of "ed_events db" q] assms by (auto simp: event_store_ok_def)

lemma mark_triggered_ok:
  assumes ok: "event_store_ok db" and e: "find_event i (ed_events db) = Some e"
    and three: "ev_debounce_count e = 3"
  shows "event_store_ok (update_event now i mark_triggered db)"
  using ok unique_event [OF ok e] three
  by (intro update_event_ok) (auto intro: row_ok_functions)

text \<open>The count a presence vote leaves behind.\<close>

lemma cast_presence_vote_find:
  "find_event i (ed_events (cast_presence_vote now i w db)) =
     map_option (\<lambda>e. (count_presence e)\<lparr> ev_updated_at := now \<rparr>) (find_event i (ed_events db))"
  unfolding cast_presence_vote_def by (subst update_event_find) simp_all

lemma cast_drop_vote_find:
  "find_event i (ed_events (cast_drop_vote now i w db)) =
     map_option (\<lambda>e. (count_absence e)\<lparr> ev_updated_at := now \<rparr>) (find_event i (ed_events db))"
  unfolding cast_drop_vote_def by (subst update_event_find) simp_all

lemma insert_audit_log_keeps: "insert_audit_log r db = Ok db' \<Longrightarrow> event_store_ok db' = event_store_ok db"
  by (auto simp: insert_audit_log_Ok event_store_ok_def voters_def)

lemma optional_audit_keeps: "optional_audit r db = Ok db' \<Longrightarrow> event_store_ok db' = event_store_ok db"
  using optional_audit_Ok by (metis event_store_ok_cong)

lemma register_event_presence_ok:
  assumes ok: "event_store_ok db" and run: "register_event_presence now db i w r = Ok (db', c, t)"
  shows "event_store_ok db'"
proof -
  obtain e where e: "find_event i (ed_events db) = Some e"
    using run by (auto simp: register_event_presence_def split: option.splits)
  define is_new where "is_new = ((i, w) \<notin> set (ed_presence_votes db))"
  define db1 where "db1 = (if is_new then cast_presence_vote now i w db else db)"
  define n where "n = (if is_new then ev_debounce_count (count_presence e) else ev_debounce_count e)"
  have db1: "event_store_ok db1"
    using ok find_event_in_ids [OF e] by (auto simp: db1_def is_new_def intro: cast_presence_vote_ok)
  have found: "\<exists>q. find_event i (ed_events db1) = Some q \<and> ev_debounce_count q = n"
    using e by (auto simp: db1_def n_def cast_presence_vote_find)
  consider "db' = db1" | db2 where "n = 3" "optional_audit r (update_event now i mark_triggered db1) = Ok db2" "db' = db2"
    using run e
    by (auto simp: register_event_presence_def Let_def is_new_def [symmetric] db1_def [symmetric]
        n_def [symmetric] bind_result_Ok_iff split: if_splits)
  then show ?thesis
  proof cases
    case 2
    then have "event_store_ok (update_event now i mark_triggered db1)"
      using db1 found by (auto intro: mark_triggered_ok)
    with 2 show ?thesis using optional_audit_keeps by blast
  qed (simp add: db1)
qed

lemma removal_ok:
  assumes "event_store_ok db"
  shows "event_store_ok (close_downstream now i (terminalize_candidates i url at
    (update_event now i (mark_removed now) db)))"
proof -
  have "event_store_ok (update_event now i (mark_removed now) db)"
    using assms by (rule update_event_ok) (auto intro: row_ok_functions)
  then show ?thesis by (simp add: event_store_ok_def voters_def)
qed

lemma register_event_absence_ok:
  assumes ok: "event_store_ok db" and run: "register_event_absence now clock db i w r = Ok (db', c, t)"
  shows "event_store_ok db'"
proof -
  obtain e where e: "find_event i (ed_events db) = Some e"
    using run by (auto simp: register_event_absence_def split: option.splits)
  define is_new where "is_new = ((i, w) \<notin> set (ed_drop_votes db))"
  define db1 where "db1 = (if is_new then cast_drop_vote now i w db else db)"
  have db1: "event_store_ok db1"
    using ok find_event_in_ids [OF e] by (auto simp: db1_def is_new_def intro: cast_drop_vote_ok)
  consider "db' = db1" | "optional_audit r (close_downstream now i (terminalize_candidates i [] clock
      (update_event now i (mark_removed now) db1))) = Ok db'"
    using run e
    by (auto simp: register_event_absence_def Let_def is_new_def [symmetric] db1_def [symmetric]
        bind_result_Ok_iff split: if_splits)
  then show ?thesis
    using removal_ok [OF db1] db1 optional_audit_keeps by cases blast+
qed

lemma register_presence_tx_ok:
  assumes ok: "event_store_ok db" and run: "register_presence_tx txt now w p db = Ok (db', t)"
  shows "event_store_ok db'"
proof -
  let ?i = "pp_event_id p"
  obtain e where e: "find_event ?i (ed_events db) = Some e"
    using run by (auto simp: register_presence_tx_def split: option.splits)
  show ?thesis
  proof (cases "(?i, w) \<in> set (ed_presence_votes db)")
    case True
    with run e ok show ?thesis by (simp add: register_presence_tx_def)
  next
    case False
    define db1 where "db1 = cast_presence_vote now ?i w db"
    have db1: "event_store_ok db1"
      unfolding db1_def using ok False find_event_in_ids [OF e] by (rule cast_presence_vote_ok)
    have found: "find_event ?i (ed_events db1) = Some ((count_presence e)\<lparr> ev_updated_at := now \<rparr>)"
      by (simp add: db1_def cast_presence_vote_find e)
    consider "db' = db1"
      | db2 where "ev_debounce_count (count_presence e) = 3"
        "insert_audit_log (pp_audit p) (update_event now ?i mark_triggered db1) = Ok db2"
        "db' = insert_downstream ?i ''discovery'' (discovery_workflow_id txt ?i) db2"
      using run e False
      by (auto simp: register_presence_tx_def Let_def db1_def [symmetric] bind_result_Ok_iff split: if_splits)
    then show ?thesis
    proof cases
      case 2
      have "event_store_ok (update_event now ?i mark_triggered db1)"
        using db1 found 2(1) by (auto intro: mark_triggered_ok)
      then have "event_store_ok db2" using 2(2) insert_audit_log_keeps by blast
      then show ?thesis using 2(3) by (simp add: event_store_ok_def voters_def)
    qed (simp add: db1)
  qed
qed

lemma register_absence_tx_ok:
  assumes ok: "event_store_ok db" and run: "register_absence_tx now clock w p db = Ok (db', t)"
  shows "event_store_ok db'"
proof -
  let ?i = "pa_event_id p"
  obtain e where e: "find_event ?i (ed_events db) = Some e"
    using run by (auto simp: register_absence_tx_def split: option.splits)
  show ?thesis
  proof (cases "(?i, w) \<in> set (ed_drop_votes db)")
    case True
    with run e ok show ?thesis by (simp add: register_absence_tx_def)
  next
    case False
    define db1 where "db1 = cast_drop_vote now ?i w db"
    have db1: "event_store_ok db1"
      unfolding db1_def using ok False find_event_in_ids [OF e] by (rule cast_drop_vote_ok)
    consider "db' = db1" | "insert_audit_log (pa_audit p) (close_downstream now ?i (terminalize_candidates ?i [] clock
        (update_event now ?i (mark_removed now) db1))) = Ok db'"
      using run e False
      by (auto simp: register_absence_tx_def Let_def db1_def [symmetric] bind_result_Ok_iff split: if_splits)
    then show ?thesis
      using removal_ok [OF db1] db1 insert_audit_log_keeps by cases blast+
  qed
qed

lemma update_event_fields_tx_ok:
  assumes ok: "event_store_ok db" and run: "update_event_fields_tx now trusted p db = Ok (db', changed)"
  shows "event_store_ok db'"
  using ok run
  by (auto simp: update_event_fields_tx_def split: option.splits if_splits
      intro!: update_event_ok row_ok_functions)

lemma row_ok_event_row:
  assumes "validate_event e = Ok u" "0 \<le> n" "player_known (ev_player e) \<Longrightarrow> 1 \<le> n"
  shows "row_ok n (event_row now e)"
  using assms by (auto simp: row_ok_def event_row_def validate_event_def split: if_splits)

lemma insert_planned_event_rows:
  assumes "insert_planned_event now w p db = Ok db'"
  obtains e where "pi_event p = Some e" "validate_event e = Ok ()" "insert_constraints db e"
    "ed_events db' = ed_events db @ [event_row now e]"
    "ed_presence_votes db' = ed_presence_votes db @ (if player_known (ev_player e) then [(ev_id e, w)] else [])"
    "ed_drop_votes db' = ed_drop_votes db" "ed_downstream db' = ed_downstream db"
  using assms
  by (auto simp: insert_planned_event_def Let_def bind_result_Ok_iff insert_audit_log_Ok
      split: option.splits if_splits)

lemma insert_planned_event_ok:
  assumes ok: "event_store_ok db" and run: "insert_planned_event now w p db = Ok db'"
  shows "event_store_ok db'"
  using run
proof (rule insert_planned_event_rows)
  fix e
  assume valid: "validate_event e = Ok ()" and fresh: "insert_constraints db e"
    and rows: "ed_events db' = ed_events db @ [event_row now e]"
    "ed_presence_votes db' = ed_presence_votes db @ (if player_known (ev_player e) then [(ev_id e, w)] else [])"
    "ed_drop_votes db' = ed_drop_votes db"
  have new: "ev_id e \<notin> ev_id ` set (ed_events db)"
    using fresh by (auto simp: insert_constraints_def list_all_iff)
  then have no_votes: "ev_id e \<notin> fst ` set (ed_presence_votes db)"
    using ok by (auto simp: event_store_ok_def)
  then have zero: "filter (\<lambda>v. fst v = ev_id e) (ed_presence_votes db) = []"
    unfolding filter_empty_conv using no_votes by (metis image_eqI)
  have voters: "voters db' j = (if j = ev_id e then (if player_known (ev_player e) then 1 else 0) else voters db j)" for j
    using zero by (simp add: voters_def rows)
  have ident: "ev_id (event_row now e) = ev_id e" by (simp add: event_row_def)
  have no_vote: "(ev_id e, w) \<notin> set (ed_presence_votes db)"
    using no_votes image_eqI [of "ev_id e" fst "(ev_id e, w)"] by auto
  have "row_ok (voters db' (ev_id e)) (event_row now e)"
    by (rule row_ok_event_row [OF valid]) (simp_all add: voters)
  moreover have "row_ok (voters db' (ev_id q)) q" if "q \<in> set (ed_events db)" for q
  proof -
    have "ev_id q \<noteq> ev_id e" using new that by (metis image_eqI)
    then show ?thesis using event_store_ok_row [OF ok that] by (simp add: voters)
  qed
  ultimately have "\<forall>q\<in>set (ed_events db'). row_ok (voters db' (ev_id q)) q"
    using ident by (auto simp: rows)
  moreover have "distinct (ed_presence_votes db')"
    using ok no_vote by (simp add: rows event_store_ok_def)
  moreover have "distinct (map ev_id (ed_events db'))"
    using ok new by (simp add: rows ident event_store_ok_def)
  ultimately show ?thesis
    using ok by (auto simp: event_store_ok_def rows ident list_all_iff)
qed

lemma delete_unknown_event_ok:
  assumes ok: "event_store_ok db"
  shows "event_store_ok (fst (delete_unknown_event f i db))"
proof (cases "list_ex (\<lambda>e. ev_id e = i \<and> ev_fixture_id e = f \<and> ev_debounce_count e = 0) (ed_events db)")
  case True
  let ?db' = "fst (delete_unknown_event f i db)"
  have voters: "j \<noteq> i \<Longrightarrow> voters ?db' j = voters db j" for j
    using True by (simp add: delete_unknown_event_def voters_def filter_filter cong: filter_cong)
      (metis (no_types, lifting))
  then have "\<forall>e\<in>set (ed_events ?db'). row_ok (voters ?db' (ev_id e)) e"
    using event_store_ok_row [OF ok] True by (auto simp: delete_unknown_event_def)
  moreover have "distinct (map ev_id (ed_events ?db'))"
    using ok True by (auto simp: delete_unknown_event_def event_store_ok_def distinct_map_filter)
  ultimately show ?thesis
    using ok True by (auto simp: delete_unknown_event_def event_store_ok_def list_all_iff)
next
  case False
  then have "delete_unknown_event f i db = (db, False)" unfolding delete_unknown_event_def by (rule if_not_P)
  with ok show ?thesis by simp
qed

section \<open>The tables as a step relation\<close>

definition empty_event_db :: event_db where
  "empty_event_db = \<lparr> ed_events = [], ed_presence_votes = [], ed_drop_votes = [], ed_downstream = [],
     ed_candidates = [], ed_audit = [] \<rparr>"

inductive event_db_step :: "event_db \<Rightarrow> event_db \<Rightarrow> bool" where
  step_insert: "insert_planned_event now w p db = Ok db' \<Longrightarrow> event_db_step db db'"
| step_presence: "register_event_presence now db i w r = Ok (db', c, t) \<Longrightarrow> event_db_step db db'"
| step_absence: "register_event_absence now clock db i w r = Ok (db', c, t) \<Longrightarrow> event_db_step db db'"
| step_presence_tx: "register_presence_tx txt now w pp db = Ok (db', t) \<Longrightarrow> event_db_step db db'"
| step_absence_tx: "register_absence_tx now clock w pa db = Ok (db', t) \<Longrightarrow> event_db_step db db'"
| step_update: "update_event_fields_tx now trusted pu db = Ok (db', t) \<Longrightarrow> event_db_step db db'"
| step_delete: "event_db_step db (fst (delete_unknown_event f i db))"

inductive_cases event_db_stepE: "event_db_step db db'"

lemma event_db_step_ok: "event_db_step db db' \<Longrightarrow> event_store_ok db \<Longrightarrow> event_store_ok db'"
  by (induction rule: event_db_step.induct)
    (blast intro: insert_planned_event_ok register_event_presence_ok register_event_absence_ok
      register_presence_tx_ok register_absence_tx_ok update_event_fields_tx_ok delete_unknown_event_ok)+

lemma event_db_reachable_ok: "event_db_step\<^sup>*\<^sup>* empty_event_db db \<Longrightarrow> event_store_ok db"
proof (induction rule: rtranclp_induct)
  case base
  then show ?case by (simp add: event_store_ok_def empty_event_db_def)
next
  case (step y z)
  then show ?case using event_db_step_ok by blast
qed

lemma voters_card:
  assumes "distinct (ed_presence_votes db)"
  shows "voters db i = int (card {w. (i, w) \<in> set (ed_presence_votes db)})"
proof -
  let ?mine = "filter (\<lambda>v. fst v = i) (ed_presence_votes db)"
  have "int (length ?mine) = int (card (set ?mine))"
    using distinct_card [OF distinct_filter [OF assms, of "\<lambda>v. fst v = i"]] by simp
  also have "set ?mine = Pair i ` {w. (i, w) \<in> set (ed_presence_votes db)}"
    by (force simp: image_iff)
  also have "card (Pair i ` {w. (i, w) \<in> set (ed_presence_votes db)}) =
      card {w. (i, w) \<in> set (ed_presence_votes db)}"
    by (rule card_image) (simp add: inj_on_def)
  finally show ?thesis by (simp add: voters_def)
qed

text \<open>C36: In every reachable state of the event tables an event's debounce counter lies between zero
  and three and never exceeds the number of distinct workflows that voted for its presence, so
  downstream work has started only for an event at least three workflows have seen.\<close>

theorem debounce_counter_sound:
  assumes "event_db_step\<^sup>*\<^sup>* empty_event_db db" "e \<in> set (ed_events db)"
  shows "0 \<le> ev_debounce_count e \<and> ev_debounce_count e \<le> 3 \<and>
    ev_debounce_count e \<le> int (card {w. (ev_id e, w) \<in> set (ed_presence_votes db)}) \<and>
    (ev_downstream_triggered e \<longrightarrow> 3 \<le> card {w. (ev_id e, w) \<in> set (ed_presence_votes db)})"
proof -
  have ok: "event_store_ok db" using assms(1) by (rule event_db_reachable_ok)
  then have "distinct (ed_presence_votes db)" by (simp add: event_store_ok_def)
  from event_store_ok_row [OF ok assms(2)] show ?thesis
    by (simp add: row_ok_def voters_card [OF \<open>distinct (ed_presence_votes db)\<close>])
qed

section \<open>Flags only ever rise\<close>

definition event_kept :: "event \<Rightarrow> event \<Rightarrow> bool" where
  "event_kept e e' \<longleftrightarrow>
     ev_id e' = ev_id e \<and> ev_fixture_id e' = ev_fixture_id e \<and> ev_natural_key e' = ev_natural_key e \<and>
     ev_type e' = ev_type e \<and> ev_team e' = ev_team e \<and> ev_player e' = ev_player e \<and>
     (ev_downstream_triggered e \<longrightarrow> ev_downstream_triggered e') \<and>
     (ev_removed e \<longrightarrow> ev_removed e' \<and> ev_removed_reason e' = ev_removed_reason e)"

definition rows_kept :: "'a event_db_scheme \<Rightarrow> 'a event_db_scheme \<Rightarrow> bool" where
  "rows_kept db db' \<longleftrightarrow>
     (\<forall>e'\<in>set (ed_events db'). ev_id e' \<in> ev_id ` set (ed_events db) \<longrightarrow>
        (\<exists>e\<in>set (ed_events db). event_kept e e'))"

lemma event_kept_refl [simp]: "event_kept e e"
  by (simp add: event_kept_def)

lemma event_kept_trans: "event_kept a b \<Longrightarrow> event_kept b c \<Longrightarrow> event_kept a c"
  by (auto simp: event_kept_def)

lemma event_kept_touch [simp]: "event_kept e (f\<lparr> ev_updated_at := now \<rparr>) = event_kept e f"
  by (simp add: event_kept_def)

lemma event_kept_functions [simp]:
  "event_kept e (count_presence e)" "event_kept e (count_absence e)" "event_kept e (mark_triggered e)"
  "event_kept e (correct_fields fresh e)" "event_kept e (fill_assist fresh e)"
  "event_kept e (mark_removed now e) = (ev_removed e \<longrightarrow> ev_removed_reason e = Some RemovalVAR)"
  by (auto simp: event_kept_def count_presence_def count_absence_def mark_triggered_def
      correct_fields_def fill_assist_def mark_removed_def)

lemma rows_kept_refl: "ed_events db' = ed_events db \<Longrightarrow> rows_kept db db'"
  unfolding rows_kept_def by (metis event_kept_refl)

lemma rows_kept_trans:
  assumes "rows_kept a b" "rows_kept b c" "map ev_id (ed_events b) = map ev_id (ed_events a)"
  shows "rows_kept a c"
proof -
  have ids: "ev_id ` set (ed_events b) = ev_id ` set (ed_events a)"
    using assms(3) by (metis set_map)
  show ?thesis
    unfolding rows_kept_def
  proof (intro ballI impI)
    fix e'
    assume e': "e' \<in> set (ed_events c)" "ev_id e' \<in> ev_id ` set (ed_events a)"
    then obtain m where m: "m \<in> set (ed_events b)" "event_kept m e'"
      using assms(2) ids by (auto simp: rows_kept_def)
    then obtain e where "e \<in> set (ed_events a)" "event_kept e m"
      using assms(1) e'(2) by (auto simp: rows_kept_def event_kept_def)
    then show "\<exists>e\<in>set (ed_events a). event_kept e e'" using m event_kept_trans by blast
  qed
qed

lemma update_event_kept:
  assumes "\<And>e. e \<in> set (ed_events db) \<Longrightarrow> ev_id e = i \<Longrightarrow> event_kept e (f e)"
  shows "rows_kept db (update_event now i f db)"
  unfolding rows_kept_def
proof (intro ballI impI)
  fix e'
  assume "e' \<in> set (ed_events (update_event now i f db))"
  then obtain e where "e \<in> set (ed_events db)"
    and "e' = (if ev_id e = i then (f e)\<lparr> ev_updated_at := now \<rparr> else e)"
    by (auto simp: update_event_def)
  then show "\<exists>e\<in>set (ed_events db). event_kept e e'"
    using assms by (intro bexI [of _ e]) auto
qed

lemma cast_presence_vote_kept: "rows_kept db (cast_presence_vote now i w db)"
  using update_event_kept [of "db\<lparr> ed_presence_votes := ed_presence_votes db @ [(i, w)] \<rparr>" i count_presence now]
  by (simp add: cast_presence_vote_def rows_kept_def)

lemma cast_drop_vote_kept: "rows_kept db (cast_drop_vote now i w db)"
  using update_event_kept [of "db\<lparr> ed_drop_votes := ed_drop_votes db @ [(i, w)] \<rparr>" i count_absence now]
  by (simp add: cast_drop_vote_def rows_kept_def)

lemma cast_vote_ids:
  "map ev_id (ed_events (cast_presence_vote now i w db)) = map ev_id (ed_events db)"
  "map ev_id (ed_events (cast_drop_vote now i w db)) = map ev_id (ed_events db)"
  unfolding cast_presence_vote_def cast_drop_vote_def by (subst update_event_ids; simp)+

lemma rows_kept_events: "rows_kept a b \<Longrightarrow> ed_events c = ed_events b \<Longrightarrow> rows_kept a c"
  by (simp add: rows_kept_def)

lemma insert_audit_log_events: "insert_audit_log r db = Ok db' \<Longrightarrow> ed_events db' = ed_events db"
  by (auto simp: insert_audit_log_Ok)

lemma presence_trigger_kept:
  "rows_kept db (update_event now i mark_triggered (cast_presence_vote now' i w db))"
  by (rule rows_kept_trans [OF cast_presence_vote_kept update_event_kept cast_vote_ids(1)]) simp

lemma trigger_kept: "rows_kept db (update_event now i mark_triggered db)"
  by (rule update_event_kept) simp

lemma register_event_presence_kept:
  assumes "register_event_presence now db i w r = Ok (db', c, t)"
  shows "rows_kept db db'"
  using assms
  by (auto simp: register_event_presence_def Let_def bind_result_Ok_iff split: option.splits if_splits
      dest!: optional_audit_Ok intro: rows_kept_events [OF presence_trigger_kept]
        rows_kept_events [OF trigger_kept] cast_presence_vote_kept rows_kept_refl)

lemma register_presence_tx_kept:
  assumes "register_presence_tx txt now w p db = Ok (db', t)"
  shows "rows_kept db db'"
  using assms
  by (auto simp: register_presence_tx_def Let_def bind_result_Ok_iff split: option.splits if_splits
      dest!: insert_audit_log_events intro: rows_kept_events [OF presence_trigger_kept]
        cast_presence_vote_kept rows_kept_refl)

lemma removal_kept:
  assumes "event_store_ok db" "find_event i (ed_events db) = Some e" "\<not> ev_removed e"
  shows "rows_kept db (update_event now i (mark_removed now') db)"
  using unique_event [OF assms(1,2)] assms(3) by (intro update_event_kept) auto

lemma drop_removal_kept:
  assumes ok: "event_store_ok db" and e: "find_event i (ed_events db) = Some e" "\<not> ev_removed e"
    and new: "(i, w) \<notin> set (ed_drop_votes db)"
  shows "rows_kept db (update_event now i (mark_removed now') (cast_drop_vote now i w db))"
proof (rule rows_kept_trans [OF cast_drop_vote_kept _ cast_vote_ids(2)])
  show "rows_kept (cast_drop_vote now i w db)
      (update_event now i (mark_removed now') (cast_drop_vote now i w db))"
    using cast_drop_vote_ok [OF ok new find_event_in_ids [OF e(1)]] e
    by (intro removal_kept [where e = "(count_absence e)\<lparr> ev_updated_at := now \<rparr>"])
      (simp_all add: cast_drop_vote_find count_absence_def)
qed

lemma register_event_absence_kept:
  assumes ok: "event_store_ok db" and run: "register_event_absence now clock db i w r = Ok (db', c, t)"
  shows "rows_kept db db'"
proof -
  obtain e where e: "find_event i (ed_events db) = Some e"
    using run by (auto simp: register_event_absence_def split: option.splits)
  show ?thesis
    using run e
    by (auto simp: register_event_absence_def Let_def bind_result_Ok_iff split: if_splits
        dest!: optional_audit_Ok intro: rows_kept_events [OF drop_removal_kept [OF ok e]]
          rows_kept_events [OF removal_kept [OF ok e]] cast_drop_vote_kept rows_kept_refl)
qed

lemma register_absence_tx_kept:
  assumes ok: "event_store_ok db" and run: "register_absence_tx now clock w p db = Ok (db', t)"
  shows "rows_kept db db'"
proof -
  obtain e where e: "find_event (pa_event_id p) (ed_events db) = Some e"
    using run by (auto simp: register_absence_tx_def split: option.splits)
  show ?thesis
    using run e
    by (auto simp: register_absence_tx_def Let_def bind_result_Ok_iff split: if_splits
        dest!: insert_audit_log_events intro: rows_kept_events [OF drop_removal_kept [OF ok e]]
          cast_drop_vote_kept rows_kept_refl)
qed

lemma update_event_fields_tx_kept:
  "update_event_fields_tx now trusted p db = Ok (db', t) \<Longrightarrow> rows_kept db db'"
  by (auto simp: update_event_fields_tx_def split: option.splits if_splits
      intro: rows_kept_refl update_event_kept)

lemma insert_planned_event_kept:
  assumes "insert_planned_event now w p db = Ok db'"
  shows "rows_kept db db'"
  using assms
proof (rule insert_planned_event_rows)
  fix e
  assume fresh: "insert_constraints db e" and rows: "ed_events db' = ed_events db @ [event_row now e]"
  have "ev_id e \<notin> ev_id ` set (ed_events db)"
    using fresh by (auto simp: insert_constraints_def list_all_iff)
  then show ?thesis
    unfolding rows_kept_def rows by (auto simp: event_row_def intro: event_kept_refl)
qed

lemma delete_unknown_event_kept: "rows_kept db (fst (delete_unknown_event f i db))"
  by (auto simp: delete_unknown_event_def rows_kept_def intro: event_kept_refl)

text \<open>No transaction on the event tables changes the identity of an event that survives it,
  takes back its downstream trigger, or undoes or rewrites its removal.\<close>

theorem event_flags_are_one_way:
  assumes "event_db_step db db'" "event_store_ok db"
    and "e \<in> set (ed_events db)" "e' \<in> set (ed_events db')" "ev_id e' = ev_id e"
  shows "event_kept e e'"
proof -
  have "rows_kept db db'"
    using assms(1,2)
    by (induction rule: event_db_step.induct)
      (blast intro: insert_planned_event_kept register_event_presence_kept register_event_absence_kept
        register_presence_tx_kept register_absence_tx_kept update_event_fields_tx_kept
        delete_unknown_event_kept)+
  then obtain q where q: "q \<in> set (ed_events db)" "event_kept q e'"
    using assms(3-5) unfolding rows_kept_def by (metis image_eqI)
  then have "ev_id q = ev_id e" using assms(5) by (simp add: event_kept_def)
  then have "q = e"
    using assms(2,3) q(1) find_event_unique [of "ed_events db"]
    by (metis event_store_ok_def option.inject)
  with q(2) show ?thesis by simp
qed

section \<open>Retries\<close>

lemma presence_after:
  assumes run: "register_event_presence now db i w r = Ok (db1, c, t)"
  obtains e1 where "find_event i (ed_events db1) = Some e1" "(i, w) \<in> set (ed_presence_votes db1)"
    "ev_debounce_count e1 = c" "c = 3 \<Longrightarrow> ev_downstream_triggered e1"
    "\<And>q. r = Some q \<Longrightarrow> au_fixture_id q = ev_fixture_id e1"
proof -
  obtain e where e: "find_event i (ed_events db) = Some e"
    using run by (auto simp: register_event_presence_def split: option.splits)
  have trigger: "find_event i (ed_events (update_event now i mark_triggered d)) =
      map_option (\<lambda>e. (mark_triggered e)\<lparr> ev_updated_at := now \<rparr>) (find_event i (ed_events d))"
    for d :: "'a event_db_scheme"
    by (rule update_event_find) simp
  have votes: "ed_presence_votes (cast_presence_vote now i w db) = ed_presence_votes db @ [(i, w)]"
    by (simp add: cast_presence_vote_def)
  show ?thesis
    using run e that
    by (auto simp: register_event_presence_def Let_def bind_result_Ok_iff cast_presence_vote_find trigger votes
        count_presence_def mark_triggered_def split: if_splits option.splits dest!: optional_audit_Ok)
qed

lemma absence_after:
  assumes run: "register_event_absence now clock db i w r = Ok (db1, c, t)"
  obtains e1 where "find_event i (ed_events db1) = Some e1" "(i, w) \<in> set (ed_drop_votes db1)"
    "ev_debounce_count e1 = c" "c = 0 \<Longrightarrow> ev_removed e1"
    "\<And>q. r = Some q \<Longrightarrow> au_fixture_id q = ev_fixture_id e1"
proof -
  obtain e where e: "find_event i (ed_events db) = Some e"
    using run by (auto simp: register_event_absence_def split: option.splits)
  have removal: "find_event i (ed_events (update_event now i (mark_removed now) d)) =
      map_option (\<lambda>e. (mark_removed now e)\<lparr> ev_updated_at := now \<rparr>) (find_event i (ed_events d))"
    for d :: "'a event_db_scheme"
    by (rule update_event_find) simp
  have votes: "ed_drop_votes (cast_drop_vote now i w db) = ed_drop_votes db @ [(i, w)]"
    by (simp add: cast_drop_vote_def)
  show ?thesis
    using run e that
    by (auto simp: register_event_absence_def Let_def bind_result_Ok_iff cast_drop_vote_find removal votes
        count_absence_def mark_removed_def split: if_splits option.splits dest!: optional_audit_Ok)
qed

text \<open>A workflow that repeats its presence vote gets the count of its first vote and no second
  trigger, one that repeats its absence vote the count and no second removal, and the tables stay
  as the first vote left them.\<close>

theorem debounce_retry_is_noop:
  assumes "register_event_presence now db i w r = Ok (db1, c, t)"
    and "register_event_absence now clock db i w r' = Ok (db2, c', t')"
  shows "register_event_presence now' db1 i w r = Ok (db1, c, False) \<and>
    register_event_absence now' clock' db2 i w r' = Ok (db2, c', False)"
proof
  show "register_event_presence now' db1 i w r = Ok (db1, c, False)"
    using assms(1)
    by (rule presence_after) (auto simp: register_event_presence_def Let_def split: option.splits)
  show "register_event_absence now' clock' db2 i w r' = Ok (db2, c', False)"
    using assms(2)
    by (rule absence_after) (auto simp: register_event_absence_def Let_def split: option.splits)
qed

section \<open>Concrete runs\<close>

definition seen_event :: event where
  "seen_event = new_event 7 1 \<lparr> et_id = 40, et_name = ''Liverpool'' \<rparr>
     \<lparr> pl_id = Some 306, pl_name = Some ''M. Salah'' \<rparr> TypeGoal ''normal goal'' 12 None 0 1000"

definition seen_db :: event_db where
  "seen_db = the_ok (insert_planned_event 2000 ''poll-1'' \<lparr> pi_event = Some seen_event, pi_audit = None \<rparr>
     empty_event_db)"

lemma seen_db_step: "event_db_step empty_event_db seen_db"
proof -
  have "insert_planned_event 2000 ''poll-1'' \<lparr> pi_event = Some seen_event, pi_audit = None \<rparr>
     empty_event_db = Ok seen_db" by code_simp
  then show ?thesis by (rule step_insert)
qed

theorem debounce_counter_sound_witness:
  "ev_debounce_count (hd (ed_events seen_db)) \<le> 3"
proof -
  have "hd (ed_events seen_db) \<in> set (ed_events seen_db)" by code_simp
  then show ?thesis
    using debounce_counter_sound [OF r_into_rtranclp [where r = event_db_step, OF seen_db_step]] by blast
qed

theorem event_flags_are_one_way_witness:
  "event_kept (hd (ed_events seen_db)) (hd (ed_events (fst (delete_unknown_event 2 7 seen_db))))"
proof (rule event_flags_are_one_way [OF step_delete [of seen_db 2 7]])
  show "event_store_ok seen_db"
    using event_db_step_ok [OF seen_db_step] by (simp add: event_store_ok_def empty_event_db_def)
qed code_simp+

theorem debounce_retry_is_noop_witness:
  "\<exists>(db1 :: event_db) (db2 :: event_db). register_event_presence 9000 db1 7 ''poll-2'' None = Ok (db1, 2, False) \<and>
     register_event_absence 9000 9000 db2 7 ''poll-2'' None = Ok (db2, 0, False)"
proof -
  obtain db1 where 1: "register_event_presence 3000 seen_db 7 ''poll-2'' None = Ok (db1, 2, False)"
  proof -
    have "is_ok (register_event_presence 3000 seen_db 7 ''poll-2'' None) \<and>
      snd (the_ok (register_event_presence 3000 seen_db 7 ''poll-2'' None)) = (2, False)" by code_simp
    then show ?thesis using that by (auto simp: is_ok_iff)
  qed
  obtain db2 where 2: "register_event_absence 3000 3000 seen_db 7 ''poll-2'' None = Ok (db2, 0, True)"
  proof -
    have "is_ok (register_event_absence 3000 3000 seen_db 7 ''poll-2'' None) \<and>
      snd (the_ok (register_event_absence 3000 3000 seen_db 7 ''poll-2'' None)) = (0, True)" by code_simp
    then show ?thesis using that by (auto simp: is_ok_iff)
  qed
  show ?thesis using debounce_retry_is_noop [OF 1 2] by blast
qed

end
