(* ===== verification/Fixture.thy ===== *)
theory Fixture
  imports ApiFootball
begin

text \<open>
  The fixture aggregate of \<open>internal/domain/fixture\<close> (\<open>fixture.go\<close>, \<open>state.go\<close>): its lifecycle
  staging, active, completed, the observation fields a poll refreshes, and the winner pair. A
  method that mutates its receiver returns the new record; a method that can fail returns a
  result whose error is the sentinel the code wraps.
\<close>

section \<open>The aggregate\<close>

datatype fixture_state = StateStaging | StateActive | StateCompleted | StateOther go_string

fun fixture_state_valid :: "fixture_state \<Rightarrow> bool" where
  "fixture_state_valid StateStaging = True"
| "fixture_state_valid StateActive = True"
| "fixture_state_valid StateCompleted = True"
| "fixture_state_valid (StateOther _) = False"

record api_status =
  as_short :: go_string
  as_long :: go_string

record team =
  tm_id :: int
  tm_name :: go_string

record league =
  lg_id :: int
  lg_name :: go_string
  lg_season :: int
  lg_country :: go_string
  lg_round :: go_string

record fixture =
  fx_id :: int
  fx_state :: fixture_state
  fx_status :: api_status
  fx_elapsed :: "int option"
  fx_extra :: "int option"
  fx_kickoff :: instant
  fx_home :: team
  fx_away :: team
  fx_league :: league
  fx_home_score :: "int option"
  fx_away_score :: "int option"
  fx_home_penalty :: "int option"
  fx_away_penalty :: "int option"
  fx_home_winner :: "bool option"
  fx_away_winner :: "bool option"
  fx_activated_at :: "instant option"
  fx_completed_at :: "instant option"
  fx_terminal_observed_at :: "instant option"
  fx_last_activity_at :: "instant option"
  fx_last_polled_at :: "instant option"
  fx_created_at :: instant
  fx_updated_at :: instant

definition status_terminal :: "api_status \<Rightarrow> bool" where
  "status_terminal a \<longleftrightarrow>
     as_short a \<in> {''ft'', ''aet'', ''pen'', ''canc'', ''abd'', ''awd'', ''wo''}"

definition status_live :: "api_status \<Rightarrow> bool" where
  "status_live a \<longleftrightarrow>
     as_short a \<in> {''1h'', ''ht'', ''2h'', ''et'', ''bt'', ''p'', ''live'', ''susp'', ''int'', ''pst''}"

text \<open>The clock of \<open>New\<close> is an argument.\<close>

definition new_fixture ::
  "instant \<Rightarrow> int \<Rightarrow> api_status \<Rightarrow> instant \<Rightarrow> team \<Rightarrow> team \<Rightarrow> league \<Rightarrow> fixture" where
  "new_fixture now fid status kickoff home away lg = \<lparr> fx_id = fid, fx_state = StateStaging,
     fx_status = status, fx_elapsed = None, fx_extra = None, fx_kickoff = kickoff, fx_home = home,
     fx_away = away, fx_league = lg, fx_home_score = None, fx_away_score = None,
     fx_home_penalty = None, fx_away_penalty = None, fx_home_winner = None, fx_away_winner = None,
     fx_activated_at = None, fx_completed_at = None, fx_terminal_observed_at = None,
     fx_last_activity_at = None, fx_last_polled_at = None, fx_created_at = now, fx_updated_at = now \<rparr>"

definition err_invalid_state_transition :: go_string where
  "err_invalid_state_transition = ''fixture: invalid state transition''"

definition err_state_timestamp_mismatch :: go_string where
  "err_state_timestamp_mismatch = ''fixture: state and timestamp fields inconsistent''"

definition should_activate_now :: "fixture \<Rightarrow> instant \<Rightarrow> duration \<Rightarrow> bool" where
  "should_activate_now f now window =
     (if fx_state f \<noteq> StateStaging then False else \<not> fx_kickoff f > now + window)"

definition validate_fixture :: "fixture \<Rightarrow> unit result" where
  "validate_fixture f =
     (case fx_state f of
        StateStaging \<Rightarrow>
          if fx_activated_at f \<noteq> None \<or> fx_completed_at f \<noteq> None \<or> fx_terminal_observed_at f \<noteq> None
          then Err err_state_timestamp_mismatch else Ok ()
      | StateActive \<Rightarrow>
          if fx_activated_at f = None then Err err_state_timestamp_mismatch
          else if fx_completed_at f \<noteq> None then Err err_state_timestamp_mismatch else Ok ()
      | StateCompleted \<Rightarrow>
          if fx_activated_at f = None \<or> fx_completed_at f = None
          then Err err_state_timestamp_mismatch else Ok ()
      | StateOther _ \<Rightarrow> Err err_invalid_state_transition)"

section \<open>Transitions\<close>

definition activate :: "fixture \<Rightarrow> instant \<Rightarrow> fixture result" where
  "activate f at =
     (case fx_state f of
        StateActive \<Rightarrow> Ok f
      | StateStaging \<Rightarrow> Ok (f\<lparr> fx_state := StateActive, fx_activated_at := Some at, fx_updated_at := at \<rparr>)
      | _ \<Rightarrow> Err err_invalid_state_transition)"

definition complete :: "fixture \<Rightarrow> instant \<Rightarrow> fixture result" where
  "complete f at =
     (case fx_state f of
        StateCompleted \<Rightarrow> Ok f
      | StateActive \<Rightarrow> Ok (f\<lparr> fx_state := StateCompleted, fx_completed_at := Some at, fx_updated_at := at \<rparr>)
      | _ \<Rightarrow> Err err_invalid_state_transition)"

definition reschedule :: "fixture \<Rightarrow> instant \<Rightarrow> instant \<Rightarrow> fixture result" where
  "reschedule f new_kickoff at =
     (if fx_state f \<noteq> StateActive then Err err_invalid_state_transition
      else Ok (f\<lparr> fx_state := StateStaging, fx_activated_at := None, fx_terminal_observed_at := None,
                  fx_kickoff := new_kickoff, fx_updated_at := at \<rparr>))"

definition update_from_poll ::
  "fixture \<Rightarrow> api_status \<Rightarrow> int option \<Rightarrow> int option \<Rightarrow> int option \<Rightarrow> int option \<Rightarrow> instant \<Rightarrow> fixture" where
  "update_from_poll f status elapsed extra home_score away_score at =
     (let f1 = f\<lparr> fx_status := status, fx_elapsed := elapsed, fx_extra := extra \<rparr>;
          f2 = (if home_score \<noteq> None then f1\<lparr> fx_home_score := home_score \<rparr> else f1);
          f3 = (if away_score \<noteq> None then f2\<lparr> fx_away_score := away_score \<rparr> else f2);
          f4 = f3\<lparr> fx_last_polled_at := Some at, fx_updated_at := at \<rparr>
      in if status_terminal status
         then (if fx_terminal_observed_at f4 = None
               then f4\<lparr> fx_terminal_observed_at := Some at \<rparr> else f4)
         else f4\<lparr> fx_terminal_observed_at := None \<rparr>)"

definition winner_from_score :: "int option \<Rightarrow> int option \<Rightarrow> bool option \<times> bool option" where
  "winner_from_score home away =
     (case (home, away) of
        (Some h, Some a) \<Rightarrow> if h = a then (None, None) else (Some (h > a), Some (\<not> h > a))
      | _ \<Rightarrow> (None, None))"

definition update_result :: "fixture \<Rightarrow> bool option \<Rightarrow> bool option \<Rightarrow> fixture" where
  "update_result f provider_home provider_away =
     (let (hw, aw) =
        (if as_short (fx_status f) = ''pen''
         then winner_from_score (fx_home_penalty f) (fx_away_penalty f)
         else if as_short (fx_status f) \<in> {''canc'', ''abd'', ''awd'', ''wo''}
         then (provider_home, provider_away)
         else winner_from_score (fx_home_score f) (fx_away_score f))
      in f\<lparr> fx_home_winner := hw, fx_away_winner := aw \<rparr>)"

definition update_penalty :: "fixture \<Rightarrow> int option \<Rightarrow> int option \<Rightarrow> fixture" where
  "update_penalty f home away = f\<lparr> fx_home_penalty := home, fx_away_penalty := away \<rparr>"

definition update_metadata :: "fixture \<Rightarrow> instant \<Rightarrow> team \<Rightarrow> team \<Rightarrow> league \<Rightarrow> fixture" where
  "update_metadata f kickoff home away lg =
     f\<lparr> fx_kickoff := kickoff, fx_home := home, fx_away := away, fx_league := lg \<rparr>"

definition record_staging_poll :: "fixture \<Rightarrow> api_status \<Rightarrow> instant \<Rightarrow> instant \<Rightarrow> fixture" where
  "record_staging_poll f status kickoff at =
     f\<lparr> fx_status := status, fx_kickoff := kickoff, fx_last_polled_at := Some at, fx_updated_at := at \<rparr>"

section \<open>The lifecycle as a step relation\<close>

datatype fixture_op =
    OpActivate instant
  | OpComplete instant
  | OpReschedule instant instant
  | OpPoll api_status "int option" "int option" "int option" "int option" instant
  | OpResult "bool option" "bool option"
  | OpPenalty "int option" "int option"
  | OpMetadata instant team team league
  | OpStagingPoll api_status instant instant

fun apply_op :: "fixture_op \<Rightarrow> fixture \<Rightarrow> fixture result" where
  "apply_op (OpActivate at) f = activate f at"
| "apply_op (OpComplete at) f = complete f at"
| "apply_op (OpReschedule k at) f = reschedule f k at"
| "apply_op (OpPoll st e x hs as at) f = Ok (update_from_poll f st e x hs as at)"
| "apply_op (OpResult h a) f = Ok (update_result f h a)"
| "apply_op (OpPenalty h a) f = Ok (update_penalty f h a)"
| "apply_op (OpMetadata k h a l) f = Ok (update_metadata f k h a l)"
| "apply_op (OpStagingPoll st k at) f = Ok (record_staging_poll f st k at)"

text \<open>\<open>UpdateFromPoll\<close> documents that it runs on an active fixture, and every caller reads the row of
  an active one; the relation carries that precondition. Every other method is unrestricted.\<close>

definition op_allowed :: "fixture_op \<Rightarrow> fixture \<Rightarrow> bool" where
  "op_allowed p f = (case p of OpPoll _ _ _ _ _ _ \<Rightarrow> fx_state f \<noteq> StateStaging | _ \<Rightarrow> True)"

inductive fixture_step :: "fixture \<Rightarrow> fixture \<Rightarrow> bool" where
  step_ok: "op_allowed p f \<Longrightarrow> apply_op p f = Ok g \<Longrightarrow> fixture_step f g"
| step_refused: "op_allowed p f \<Longrightarrow> apply_op p f = Err e \<Longrightarrow> fixture_step f f"

inductive_cases fixture_stepE: "fixture_step f g"

inductive fixture_reachable :: "fixture \<Rightarrow> bool" where
  reach_new: "fixture_reachable (new_fixture now fid status kickoff home away lg)"
| reach_step: "fixture_reachable f \<Longrightarrow> fixture_step f g \<Longrightarrow> fixture_reachable g"

lemma validate_fixture_iff:
  "is_ok (validate_fixture f) \<longleftrightarrow>
     (fx_state f = StateStaging \<and> fx_activated_at f = None \<and> fx_completed_at f = None \<and>
        fx_terminal_observed_at f = None) \<or>
     (fx_state f = StateActive \<and> fx_activated_at f \<noteq> None \<and> fx_completed_at f = None) \<or>
     (fx_state f = StateCompleted \<and> fx_activated_at f \<noteq> None \<and> fx_completed_at f \<noteq> None)"
  by (auto simp: validate_fixture_def split: fixture_state.split)

lemma update_from_poll_fields [step_simps]:
  "fx_state (update_from_poll f st e x hs as at) = fx_state f"
  "fx_activated_at (update_from_poll f st e x hs as at) = fx_activated_at f"
  "fx_completed_at (update_from_poll f st e x hs as at) = fx_completed_at f"
  "fx_id (update_from_poll f st e x hs as at) = fx_id f"
  "fx_last_polled_at (update_from_poll f st e x hs as at) = Some at"
  "fx_terminal_observed_at (update_from_poll f st e x hs as at) =
     (if status_terminal st then (case fx_terminal_observed_at f of None \<Rightarrow> Some at | Some t \<Rightarrow> Some t)
      else None)"
  by (auto simp: update_from_poll_def Let_def split: option.split)

lemma update_result_fields [step_simps]:
  "fx_state (update_result f h a) = fx_state f"
  "fx_id (update_result f h a) = fx_id f"
  "fx_activated_at (update_result f h a) = fx_activated_at f"
  "fx_completed_at (update_result f h a) = fx_completed_at f"
  "fx_terminal_observed_at (update_result f h a) = fx_terminal_observed_at f"
  "fx_last_polled_at (update_result f h a) = fx_last_polled_at f"
  by (simp_all add: update_result_def split: prod.split)

lemma transition_valid:
  assumes "is_ok (validate_fixture f)" "apply_op p f = Ok g" "op_allowed p f"
  shows "is_ok (validate_fixture g)"
  using assms
  by (cases p)
    (auto simp: validate_fixture_iff activate_def complete_def reschedule_def op_allowed_def step_simps
      update_penalty_def update_metadata_def record_staging_poll_def split: fixture_state.splits if_splits)

text \<open>the state and its timestamps never disagree: a fixture made by \<open>New\<close> satisfies the
  invariant the schema checks, and every sequence of operations, refused ones included, keeps it:
  staging has neither timestamp and no terminal observation, active has only the first, completed
  has both.\<close>

theorem fixture_invariant_reachable:
  assumes "fixture_reachable f"
  shows "is_ok (validate_fixture f) \<and> fixture_state_valid (fx_state f)"
proof -
  have "is_ok (validate_fixture f)" using assms
  proof (induction rule: fixture_reachable.induct)
    case (reach_new now fid status kickoff home away lg)
    then show ?case by (simp add: validate_fixture_iff new_fixture_def)
  next
    case (reach_step f g)
    from reach_step.hyps(2) reach_step.IH show ?case
      by (elim fixture_stepE) (auto dest: transition_valid)
  qed
  then show ?thesis by (auto simp: validate_fixture_iff)
qed

definition sample_team :: "int \<Rightarrow> team" where
  "sample_team n = \<lparr> tm_id = n, tm_name = ''Team'' \<rparr>"

definition sample_league :: league where
  "sample_league = \<lparr> lg_id = 39, lg_name = ''L'', lg_season = 2026, lg_country = ''England'', lg_round = '''' \<rparr>"

definition kickoff_fixture :: fixture where
  "kickoff_fixture = new_fixture 10 9 \<lparr> as_short = ''ns'', as_long = ''Not Started'' \<rparr> 500
     (sample_team 1) (sample_team 2) sample_league"

theorem fixture_invariant_reachable_witness:
  "is_ok (validate_fixture (the_ok (activate kickoff_fixture 490)))"
proof -
  have "activate kickoff_fixture 490 = Ok (the_ok (activate kickoff_fixture 490))" by code_simp
  then have "fixture_step kickoff_fixture (the_ok (activate kickoff_fixture 490))"
    by (intro fixture_step.step_ok [of "OpActivate 490"]) (simp_all add: op_allowed_def)
  moreover have "fixture_reachable kickoff_fixture"
    unfolding kickoff_fixture_def by (rule fixture_reachable.reach_new)
  ultimately have "fixture_reachable (the_ok (activate kickoff_fixture 490))"
    by (rule fixture_reachable.reach_step [rotated])
  from fixture_invariant_reachable [OF this] show ?thesis by blast
qed

text \<open>completed is terminal and is entered only from active: once a fixture is completed no
  operation changes its state, its identity or either lifecycle timestamp, and an operation that
  produces a completed fixture from one that was not started from an active one.\<close>

theorem completed_is_terminal:
  assumes "fixture_step f g"
  shows "(fx_state f = StateCompleted \<longrightarrow>
            fx_state g = StateCompleted \<and> fx_completed_at g = fx_completed_at f \<and>
            fx_activated_at g = fx_activated_at f) \<and>
         (fx_state g = StateCompleted \<and> fx_state f \<noteq> StateCompleted \<longrightarrow> fx_state f = StateActive) \<and>
         fx_id g = fx_id f"
  using assms
proof cases
  case (step_ok p)
  then show ?thesis
    by (cases p)
      (auto simp: activate_def complete_def reschedule_def step_simps update_penalty_def
        update_metadata_def record_staging_poll_def split: fixture_state.splits if_splits)
next
  case (step_refused p e)
  then show ?thesis by simp
qed

theorem completed_is_terminal_witness:
  "fx_id (the_ok (activate kickoff_fixture 490)) = fx_id kickoff_fixture"
proof -
  have "activate kickoff_fixture 490 = Ok (the_ok (activate kickoff_fixture 490))" by code_simp
  then have "fixture_step kickoff_fixture (the_ok (activate kickoff_fixture 490))"
    by (intro fixture_step.step_ok [of "OpActivate 490"]) (simp_all add: op_allowed_def)
  from completed_is_terminal [OF this] show ?thesis by blast
qed

section \<open>The terminal observation\<close>

type_synonym poll_arguments =
  "api_status \<times> int option \<times> int option \<times> int option \<times> int option \<times> instant"

definition poll_once :: "fixture \<Rightarrow> poll_arguments \<Rightarrow> fixture" where
  "poll_once f p = (case p of (st, e, x, hs, as, at) \<Rightarrow> update_from_poll f st e x hs as at)"

definition poll_status :: "poll_arguments \<Rightarrow> api_status" where
  "poll_status p = fst p"

definition poll_time :: "poll_arguments \<Rightarrow> instant" where
  "poll_time p = snd (snd (snd (snd (snd p))))"

definition terminal_run :: "poll_arguments list \<Rightarrow> poll_arguments list" where
  "terminal_run ps = rev (takeWhile (\<lambda>p. status_terminal (poll_status p)) (rev ps))"

lemma terminal_run_snoc:
  "terminal_run (ps @ [p]) = (if status_terminal (poll_status p) then terminal_run ps @ [p] else [])"
  by (simp add: terminal_run_def)

lemma terminal_run_le: "length (terminal_run ps) \<le> length ps"
  by (simp add: terminal_run_def) (metis length_rev length_takeWhile_le)

lemma poll_once_terminal [step_simps]:
  "fx_terminal_observed_at (poll_once f p) =
     (if status_terminal (poll_status p)
      then (case fx_terminal_observed_at f of None \<Rightarrow> Some (poll_time p) | Some t \<Rightarrow> Some t) else None)"
  by (cases p; cases "fx_terminal_observed_at f")
    (simp_all add: poll_once_def poll_status_def poll_time_def step_simps)

text \<open>the terminal observation marks the start of the current uninterrupted run of terminal
  polls: after any sequence of polls it is the time of the first poll of that run, or the earlier
  mark when the whole sequence was terminal, and it is absent when the last poll was not
  terminal; a longer run never moves it.\<close>

theorem terminal_observation_marks_run_start:
  "fx_terminal_observed_at (foldl poll_once f ps) =
     (let run = terminal_run ps; before = fx_terminal_observed_at f
      in if run = [] then (if ps = [] then before else None)
         else if run = ps \<and> before \<noteq> None then before
         else Some (poll_time (hd run)))"
proof (induction ps rule: rev_induct)
  case Nil
  then show ?case by (simp add: terminal_run_def)
next
  case (snoc p ps)
  have whole: "terminal_run ps = ps \<Longrightarrow> terminal_run (ps @ [p]) = ps @ [p] \<longleftrightarrow> status_terminal (poll_status p)"
    by (simp add: terminal_run_snoc)
  show ?case
    using snoc.IH whole
    by (cases "terminal_run ps")
      (auto simp: Let_def step_simps terminal_run_snoc split: option.splits if_splits)
qed

section \<open>The winner pair\<close>

text \<open>the winner flags say who leads and never contradict each other: outside the exceptional
  outcomes they are both absent exactly when a score is missing or tied, and otherwise exactly
  one side has won, by the shootout after penalties and by the goals in every other status; a
  second application changes nothing.\<close>

theorem winner_pair_is_exact:
  fixes f ph pa qh qa
  assumes "as_short (fx_status f) \<notin> {''canc'', ''abd'', ''awd'', ''wo''}"
  defines "home \<equiv> (if as_short (fx_status f) = ''pen'' then fx_home_penalty f else fx_home_score f)"
    and "away \<equiv> (if as_short (fx_status f) = ''pen'' then fx_away_penalty f else fx_away_score f)"
    and "g \<equiv> update_result f ph pa"
  shows "((fx_home_winner g = None) = (fx_away_winner g = None)) \<and>
     (fx_home_winner g = None \<longleftrightarrow> home = None \<or> away = None \<or> home = away) \<and>
     (fx_home_winner g = Some True \<longleftrightarrow> (\<exists>h a. home = Some h \<and> away = Some a \<and> a < h)) \<and>
     (fx_away_winner g = Some True \<longleftrightarrow> (\<exists>h a. home = Some h \<and> away = Some a \<and> h < a)) \<and>
     \<not> (fx_home_winner g = fx_away_winner g \<and> fx_home_winner g \<noteq> None) \<and>
     update_result g qh qa = g"
proof -
  have g: "fx_home_winner g = fst (winner_from_score home away)"
    "fx_away_winner g = snd (winner_from_score home away)"
    using assms(1) by (auto simp: g_def home_def away_def update_result_def split: prod.split)
  have same: "update_result g qh qa = g"
    using assms(1) by (auto simp: g_def update_result_def split: prod.splits)
  show ?thesis using same
    by (auto simp: g winner_from_score_def split: option.splits)
qed

theorem winner_pair_is_exact_witness:
  "fx_home_winner (update_result (kickoff_fixture\<lparr> fx_home_score := Some 2, fx_away_score := Some 1 \<rparr>)
     None None) = Some True"
proof -
  let ?f = "kickoff_fixture\<lparr> fx_home_score := Some 2, fx_away_score := Some 1 \<rparr>"
  have "as_short (fx_status ?f) \<notin> {''canc'', ''abd'', ''awd'', ''wo''}" by code_simp
  from winner_pair_is_exact [OF this, of None None None None] show ?thesis
    by (simp add: kickoff_fixture_def new_fixture_def)
qed

end
