(* ===== verification/Integrity.thy ===== *)
theory Integrity
  imports Prelude
begin

text \<open>
  The pure provider-integrity evaluator (\<open>internal/domain/providerintegrity\<close>, files
  \<open>types.go\<close>, \<open>evaluate.go\<close>, \<open>enforcement.go\<close> and \<open>RestrictPolicies\<close> of
  \<open>health.go\<close>): the facts of one fixture, the comparison of a stored snapshot with a
  fresh observation, the local verdict, the batch aggregate, and the composition of
  policies with the rollout mode.
\<close>

section \<open>Policies and reasons\<close>

datatype mutation_policy =
    PolicyTrusted
  | PolicyPositiveOnly
  | PolicyRejected
  | PolicyOther go_string

fun policy_valid :: "mutation_policy \<Rightarrow> bool" where
  "policy_valid PolicyTrusted = True"
| "policy_valid PolicyPositiveOnly = True"
| "policy_valid PolicyRejected = True"
| "policy_valid (PolicyOther _) = False"

datatype reason =
    ReasonFixtureIdentityChanged
  | ReasonPhaseRegressed
  | ReasonTerminalRegressed
  | ReasonClockRegressed
  | ReasonScoreDecreased
  | ReasonPopulatedFieldCleared
  | ReasonConfirmedEventsMissing
  | ReasonMultipleFixtureRegression
  | ReasonMultipleEventDisappearance

section \<open>Facts\<close>

record fixture_facts =
  ff_fixture_id :: int
  ff_home_id :: int
  ff_away_id :: int
  ff_league_id :: int
  ff_home_name :: go_string
  ff_away_name :: go_string
  ff_league_name :: go_string
  ff_status :: go_string
  ff_terminal :: bool
  ff_elapsed :: "int option"
  ff_extra :: "int option"
  ff_home_score :: "int option"
  ff_away_score :: "int option"
  ff_has_events :: bool

text \<open>Go's zero value of the struct.\<close>

definition zero_facts :: fixture_facts where
  "zero_facts = \<lparr> ff_fixture_id = 0, ff_home_id = 0, ff_away_id = 0, ff_league_id = 0,
     ff_home_name = '''', ff_away_name = '''', ff_league_name = '''', ff_status = '''',
     ff_terminal = False, ff_elapsed = None, ff_extra = None, ff_home_score = None,
     ff_away_score = None, ff_has_events = False \<rparr>"

record event_fact =
  ef_key :: go_string
  ef_team_id :: int
  ef_player_id :: "int option"
  ef_type :: go_string
  ef_detail :: go_string
  ef_minute :: int
  ef_extra :: "int option"
  ef_debounce_count :: int

record fixture_comparison =
  fc_stored :: fixture_facts
  fc_observed :: fixture_facts
  fc_stored_events :: "event_fact list"
  fc_confirmed_events :: "event_fact list"
  fc_observed_events :: "event_fact list"

record fixture_verdict =
  fv_fixture_id :: int
  fv_policy :: mutation_policy
  fv_reasons :: "reason list"
  fv_missing_confirmed_events :: nat
  fv_supported_goal_correction :: bool
  fv_supported_replacement :: bool

definition fixture_anomalous :: "fixture_verdict \<Rightarrow> bool" where
  "fixture_anomalous v \<longleftrightarrow> fv_policy v = PolicyPositiveOnly \<or> fv_policy v = PolicyRejected"

record batch_verdict =
  bv_policy :: mutation_policy
  bv_reasons :: "reason list"
  bv_fixtures :: "fixture_verdict list"
  bv_regressed_fixtures :: nat
  bv_missing_confirmed_events :: nat

definition batch_anomalous :: "batch_verdict \<Rightarrow> bool" where
  "batch_anomalous v \<longleftrightarrow> bv_policy v \<noteq> PolicyTrusted \<or> bv_fixtures v \<noteq> []"

section \<open>Clock and phase comparison\<close>

definition material_clock_rollback_minutes :: int where
  "material_clock_rollback_minutes = 2"

definition goal_correction_window_minutes :: int where
  "goal_correction_window_minutes = 10"

definition global_fixture_trip_count :: nat where
  "global_fixture_trip_count = 2"

definition global_missing_event_trip_count :: nat where
  "global_missing_event_trip_count = 3"

definition event_clock :: "int \<Rightarrow> int option \<Rightarrow> int" where
  "event_clock minute extra = (case extra of Some x \<Rightarrow> minute + x | None \<Rightarrow> minute)"

definition fixture_clock :: "fixture_facts \<Rightarrow> int" where
  "fixture_clock f = (case ff_elapsed f of None \<Rightarrow> 0 | Some e \<Rightarrow> event_clock e (ff_extra f))"

definition phase_rank :: "go_string \<Rightarrow> nat option" where
  "phase_rank status =
     (if status \<in> {''ns'', ''tbd''} then Some 0
      else if status = ''1h'' then Some 1
      else if status = ''ht'' then Some 2
      else if status = ''2h'' then Some 3
      else if status \<in> {''et'', ''bt''} then Some 4
      else if status = ''p'' then Some 5
      else if status \<in> {''ft'', ''aet'', ''pen'', ''canc'', ''abd'', ''awd'', ''wo''} then Some 6
      else None)"

definition provider_phase_regressed :: "go_string \<Rightarrow> go_string \<Rightarrow> bool" where
  "provider_phase_regressed stored observed =
     (case (phase_rank stored, phase_rank observed) of
        (Some s, Some r) \<Rightarrow> r < s
      | _ \<Rightarrow> False)"

definition material_clock_regressed :: "fixture_facts \<Rightarrow> fixture_facts \<Rightarrow> bool" where
  "material_clock_regressed stored observed =
     (if ff_elapsed stored = None \<or> ff_elapsed observed = None then False
      else if (case (phase_rank (ff_status stored), phase_rank (ff_status observed)) of
                 (Some s, Some r) \<Rightarrow> r > s
               | _ \<Rightarrow> False) then False
      else if (ff_status stored = ''et'' \<and> ff_status observed = ''bt'') \<or>
              (ff_status stored = ''bt'' \<and> ff_status observed = ''et'') then False
      else fixture_clock observed + material_clock_rollback_minutes < fixture_clock stored)"

section \<open>Scores and cleared fields\<close>

definition optional_int_decreased :: "int option \<Rightarrow> int option \<Rightarrow> bool" where
  "optional_int_decreased stored observed =
     (case (stored, observed) of (Some s, Some r) \<Rightarrow> r < s | _ \<Rightarrow> False)"

definition optional_int_equal :: "int option \<Rightarrow> int option \<Rightarrow> bool" where
  "optional_int_equal left right =
     (case (left, right) of
        (Some l, Some r) \<Rightarrow> l = r
      | _ \<Rightarrow> left = None \<and> right = None)"

definition scores_equal :: "fixture_facts \<Rightarrow> fixture_facts \<Rightarrow> bool" where
  "scores_equal stored observed \<longleftrightarrow>
     optional_int_equal (ff_home_score stored) (ff_home_score observed) \<and>
     optional_int_equal (ff_away_score stored) (ff_away_score observed)"

definition provider_score_decreased :: "fixture_facts \<Rightarrow> fixture_facts \<Rightarrow> bool" where
  "provider_score_decreased stored observed \<longleftrightarrow>
     optional_int_decreased (ff_home_score stored) (ff_home_score observed) \<or>
     optional_int_decreased (ff_away_score stored) (ff_away_score observed)"

definition empty_postponed_facts :: "fixture_facts \<Rightarrow> bool" where
  "empty_postponed_facts f \<longleftrightarrow>
     \<not> (ff_status f \<noteq> ''pst'' \<or> ff_terminal f \<or> ff_has_events f \<or>
        ff_elapsed f \<noteq> None \<or> ff_extra f \<noteq> None \<or>
        (case ff_home_score f of None \<Rightarrow> False | Some n \<Rightarrow> n \<noteq> 0) \<or>
        (case ff_away_score f of None \<Rightarrow> False | Some n \<Rightarrow> n \<noteq> 0))"

definition empty_postponed_scoreboard :: "fixture_comparison \<Rightarrow> bool" where
  "empty_postponed_scoreboard c =
     (if fc_confirmed_events c \<noteq> [] \<or> fc_observed_events c \<noteq> [] then False
      else list_all empty_postponed_facts [fc_stored c, fc_observed c])"

definition provider_field_cleared :: "fixture_comparison \<Rightarrow> bool" where
  "provider_field_cleared c =
     (let stored = fc_stored c; observed = fc_observed c;
          score_cleared = (ff_home_score stored \<noteq> None \<and> ff_home_score observed = None) \<or>
                          (ff_away_score stored \<noteq> None \<and> ff_away_score observed = None)
      in (score_cleared \<and> \<not> empty_postponed_scoreboard c) \<or>
         (ff_elapsed stored \<noteq> None \<and> ff_elapsed observed = None) \<or>
         (ff_home_name stored \<noteq> '''' \<and> ff_home_name observed = '''') \<or>
         (ff_away_name stored \<noteq> '''' \<and> ff_away_name observed = '''') \<or>
         (ff_league_name stored \<noteq> '''' \<and> ff_league_name observed = ''''))"

section \<open>Missing events and supported corrections\<close>

definition missing_events :: "event_fact list \<Rightarrow> event_fact list \<Rightarrow> event_fact list" where
  "missing_events stored observed =
     filter (\<lambda>e. ef_key e \<notin> set (map ef_key observed)) stored"

definition score_dropped_for_team_by_one :: "fixture_facts \<Rightarrow> fixture_facts \<Rightarrow> int \<Rightarrow> bool" where
  "score_dropped_for_team_by_one stored observed team_id =
     (case (ff_home_score stored, ff_away_score stored, ff_home_score observed, ff_away_score observed) of
        (Some sh, Some sa, Some oh, Some oa) \<Rightarrow>
          if team_id = ff_home_id stored then sh = oh + 1 \<and> sa = oa
          else if team_id = ff_away_id stored then sa = oa + 1 \<and> sh = oh
          else False
      | _ \<Rightarrow> False)"

definition goals_for_team :: "event_fact list \<Rightarrow> int \<Rightarrow> int" where
  "goals_for_team events team = int (length (filter (\<lambda>e. ef_type e = ''goal'' \<and> ef_team_id e = team) events))"

definition observed_goal_inventory_matches_score :: "fixture_facts \<Rightarrow> event_fact list \<Rightarrow> bool" where
  "observed_goal_inventory_matches_score observed events =
     (case (ff_home_score observed, ff_away_score observed) of
        (Some h, Some a) \<Rightarrow>
          goals_for_team events (ff_home_id observed) = h \<and>
          goals_for_team events (ff_away_id observed) = a
      | _ \<Rightarrow> False)"

definition supported_goal_correction :: "fixture_comparison \<Rightarrow> event_fact list \<Rightarrow> bool \<Rightarrow> bool" where
  "supported_goal_correction c missing has_other_regression =
     (case missing of
        [g] \<Rightarrow>
          if has_other_regression \<or> ef_type g \<noteq> ''goal'' then False
          else
            let stored = fc_stored c; observed = fc_observed c;
                first_vote = score_dropped_for_team_by_one stored observed (ef_team_id g);
                continuing_vote = ef_debounce_count g > 0 \<and> ef_debounce_count g < 3 \<and>
                                  scores_equal stored observed
            in if (\<not> first_vote \<and> \<not> continuing_vote) \<or>
                  \<not> observed_goal_inventory_matches_score observed (fc_observed_events c) then False
               else if ff_elapsed observed = None then False
               else let distance = fixture_clock observed - event_clock (ef_minute g) (ef_extra g)
                    in distance \<ge> 0 \<and> distance \<le> goal_correction_window_minutes
      | _ \<Rightarrow> False)"

definition supported_event_replacement :: "fixture_comparison \<Rightarrow> event_fact list \<Rightarrow> bool \<Rightarrow> bool" where
  "supported_event_replacement c missing has_other_regression =
     (case missing of
        [old_event] \<Rightarrow>
          if has_other_regression \<or> \<not> scores_equal (fc_stored c) (fc_observed c) then False
          else
            (case missing_events (fc_observed_events c) (fc_confirmed_events c) of
               [new_event] \<Rightarrow>
                 ef_team_id old_event = ef_team_id new_event \<and>
                 ef_type old_event = ef_type new_event \<and>
                 ef_detail old_event = ef_detail new_event \<and>
                 ef_player_id old_event \<noteq> None \<and> ef_player_id new_event \<noteq> None \<and>
                 ef_player_id old_event \<noteq> ef_player_id new_event \<and>
                 \<bar>event_clock (ef_minute old_event) (ef_extra old_event) -
                  event_clock (ef_minute new_event) (ef_extra new_event)\<bar> \<le> 1
             | _ \<Rightarrow> False)
      | _ \<Rightarrow> False)"

section \<open>The local verdict\<close>

definition identity_changed :: "fixture_facts \<Rightarrow> fixture_facts \<Rightarrow> bool" where
  "identity_changed stored observed \<longleftrightarrow>
     ff_fixture_id stored \<noteq> ff_fixture_id observed \<or>
     ff_home_id stored \<noteq> ff_home_id observed \<or>
     ff_away_id stored \<noteq> ff_away_id observed \<or>
     ff_league_id stored \<noteq> ff_league_id observed"

definition assess_fixture :: "fixture_comparison \<Rightarrow> fixture_verdict" where
  "assess_fixture c =
     (let stored = fc_stored c;
          observed = fc_observed c;
          identity = identity_changed stored observed;
          phase = provider_phase_regressed (ff_status stored) (ff_status observed);
          terminal = ff_terminal stored \<and> \<not> ff_terminal observed;
          clock = material_clock_regressed stored observed;
          cleared = provider_field_cleared c;
          missing = missing_events (fc_confirmed_events c) (fc_observed_events c);
          missing_stored = missing_events (fc_stored_events c) (fc_observed_events c);
          decreased = provider_score_decreased stored observed;
          regressed = identity \<or> phase \<or> terminal \<or> clock \<or> cleared;
          correction = supported_goal_correction c missing_stored regressed;
          replacement = supported_event_replacement c missing regressed;
          reasons = (if identity then [ReasonFixtureIdentityChanged] else [])
                  @ (if phase then [ReasonPhaseRegressed] else [])
                  @ (if terminal then [ReasonTerminalRegressed] else [])
                  @ (if clock then [ReasonClockRegressed] else [])
                  @ (if cleared then [ReasonPopulatedFieldCleared] else [])
                  @ (if decreased \<and> \<not> correction then [ReasonScoreDecreased] else [])
                  @ (if missing \<noteq> [] \<and> \<not> correction \<and> \<not> replacement
                     then [ReasonConfirmedEventsMissing] else [])
      in \<lparr> fv_fixture_id = ff_fixture_id stored,
           fv_policy = (if reasons \<noteq> [] then (if identity then PolicyRejected else PolicyPositiveOnly)
                        else PolicyTrusted),
           fv_reasons = reasons,
           fv_missing_confirmed_events = length missing,
           fv_supported_goal_correction = correction,
           fv_supported_replacement = replacement \<rparr>)"

section \<open>The batch aggregate\<close>

definition aggregate_step :: "batch_verdict \<Rightarrow> fixture_verdict \<Rightarrow> batch_verdict" where
  "aggregate_step out v =
     (if \<not> policy_valid (fv_policy v) then out
      else if \<not> fixture_anomalous v then out
      else out\<lparr> bv_fixtures := bv_fixtures out @ [v],
                bv_regressed_fixtures := bv_regressed_fixtures out + 1,
                bv_missing_confirmed_events :=
                  bv_missing_confirmed_events out + fv_missing_confirmed_events v \<rparr>)"

definition aggregate_fixture_verdicts :: "fixture_verdict list \<Rightarrow> batch_verdict" where
  "aggregate_fixture_verdicts verdicts =
     (let out = foldl aggregate_step
            \<lparr> bv_policy = PolicyTrusted, bv_reasons = [], bv_fixtures = [],
              bv_regressed_fixtures = 0, bv_missing_confirmed_events = 0 \<rparr> verdicts;
          out1 = (if bv_regressed_fixtures out \<ge> global_fixture_trip_count
                  then out\<lparr> bv_policy := PolicyPositiveOnly,
                            bv_reasons := bv_reasons out @ [ReasonMultipleFixtureRegression] \<rparr>
                  else out);
          out2 = (if bv_missing_confirmed_events out1 \<ge> global_missing_event_trip_count
                  then out1\<lparr> bv_policy := PolicyPositiveOnly,
                             bv_reasons := bv_reasons out1 @ [ReasonMultipleEventDisappearance] \<rparr>
                  else out1)
      in out2)"

definition assess_batch :: "fixture_comparison list \<Rightarrow> batch_verdict" where
  "assess_batch comparisons = aggregate_fixture_verdicts (map assess_fixture comparisons)"

section \<open>Composition of policies and the rollout mode\<close>

fun restrict_from :: "mutation_policy \<Rightarrow> mutation_policy list \<Rightarrow> mutation_policy" where
  "restrict_from result [] = result"
| "restrict_from result (p # ps) =
     (if \<not> policy_valid p \<or> p = PolicyRejected then PolicyRejected
      else restrict_from (if p = PolicyPositiveOnly then PolicyPositiveOnly else result) ps)"

definition restrict_policies :: "mutation_policy list \<Rightarrow> mutation_policy" where
  "restrict_policies policies = restrict_from PolicyTrusted policies"

datatype enforcement_mode = EnforcementShadow | EnforcementEnforce | EnforcementOther go_string

fun enforcement_valid :: "enforcement_mode \<Rightarrow> bool" where
  "enforcement_valid EnforcementShadow = True"
| "enforcement_valid EnforcementEnforce = True"
| "enforcement_valid (EnforcementOther _) = False"

datatype mutation_mode = MutationModeActive | MutationModeStaging | MutationModeIngest | MutationModeOther go_string

record restricted_operations =
  ro_fixture_refresh_limited :: bool
  ro_event_inserts :: "uuid list"
  ro_presence_votes :: "uuid list"
  ro_event_corrections_limited :: "uuid list"
  ro_absence_votes :: "uuid list"
  ro_placeholder_deletes :: "uuid list"
  ro_completion_check :: bool

record mutation_decision =
  md_writer :: mutation_mode
  md_mode :: enforcement_mode
  md_recommended_policy :: mutation_policy
  md_provider_policy :: mutation_policy
  md_fixture_policy :: mutation_policy
  md_local_policy :: mutation_policy
  md_restricted :: "restricted_operations option"

definition decide_mutation ::
  "enforcement_mode \<Rightarrow> mutation_policy \<Rightarrow> mutation_policy \<Rightarrow> mutation_policy \<Rightarrow>
   mutation_decision \<times> mutation_policy" where
  "decide_mutation mode provider fixture_pol local_pol =
     (let d = \<lparr> md_writer = MutationModeOther '''', md_mode = mode,
                md_recommended_policy = restrict_policies [provider, fixture_pol, local_pol],
                md_provider_policy = provider, md_fixture_policy = fixture_pol,
                md_local_policy = local_pol, md_restricted = None \<rparr>
      in if mode = EnforcementShadow then (d, PolicyTrusted)
         else (d, md_recommended_policy d))"


section \<open>Composition as a maximum of strengths\<close>

text \<open>
  The interface the policy composition offers its clients: the strength of a composition is
  the maximum of the strengths composed, and the strength determines the composed policy.
  Everything the fixture health policy and the guarded writer rely on follows from these.
\<close>

locale policy_composition =
  fixes restrict :: "'p list \<Rightarrow> 'p"
    and strength :: "'p \<Rightarrow> nat"
  assumes strength_restrict: "strength (restrict ps) = Max (insert 0 (set (map strength ps)))"
    and restrict_canonical: "strength (restrict ps) = strength (restrict qs) \<Longrightarrow> restrict ps = restrict qs"
begin

lemma dominates: "p \<in> set ps \<Longrightarrow> strength p \<le> strength (restrict ps)"
  by (simp add: strength_restrict)

lemma same_set: "set ps = set qs \<Longrightarrow> restrict ps = restrict qs"
  by (rule restrict_canonical) (simp add: strength_restrict)

lemma composition_mono: "set ps \<subseteq> set qs \<Longrightarrow> strength (restrict ps) \<le> strength (restrict qs)"
  unfolding strength_restrict by (rule Max_mono) auto

lemma strength_single: "strength (restrict [p]) = strength p"
  by (simp add: strength_restrict)

lemma nested_append: "restrict (ps @ qs) = restrict [restrict ps, restrict qs]"
proof (rule restrict_canonical)
  have "Max (insert 0 (set (map strength (ps @ qs))))
      = Max (insert 0 (set (map strength ps)) \<union> insert 0 (set (map strength qs)))"
    by (rule arg_cong [where f = Max]) auto
  also have "\<dots> = max (Max (insert 0 (set (map strength ps)))) (Max (insert 0 (set (map strength qs))))"
    by (rule Max_Un) auto
  also have "\<dots> = Max (insert 0 (set (map strength [restrict ps, restrict qs])))"
    using strength_restrict [of ps] strength_restrict [of qs] by simp
  finally show "strength (restrict (ps @ qs)) = strength (restrict [restrict ps, restrict qs])"
    by (simp only: strength_restrict)
qed

lemma fold_pairwise: "foldl (\<lambda>a p. restrict [a, p]) (restrict qs) ps = restrict (qs @ ps)"
proof (induction ps arbitrary: qs)
  case Nil
  then show ?case by simp
next
  case (Cons p ps)
  have "restrict [restrict qs, p] = restrict (qs @ [p])"
    unfolding nested_append by (rule restrict_canonical) (simp add: strength_restrict [of "[_, _]"] strength_single)
  then show ?case using Cons.IH [of "qs @ [p]"] by simp
qed

lemma no_clearing: "strength (restrict ps) \<le> strength (restrict (ps @ qs))"
  by (rule composition_mono) simp

end

definition policy_strength :: "mutation_policy \<Rightarrow> nat" where
  "policy_strength p =
     (case p of PolicyTrusted \<Rightarrow> 0 | PolicyPositiveOnly \<Rightarrow> 1 | PolicyRejected \<Rightarrow> 2 | PolicyOther _ \<Rightarrow> 2)"

lemma policy_strength_simps [simp]:
  "policy_strength PolicyTrusted = 0" "policy_strength PolicyPositiveOnly = 1"
  "policy_strength PolicyRejected = 2" "policy_strength (PolicyOther s) = 2"
  by (simp_all add: policy_strength_def)

lemma restrict_from_eq:
  "restrict_from r ps =
     (if \<exists>p\<in>set ps. \<not> policy_valid p \<or> p = PolicyRejected then PolicyRejected
      else if PolicyPositiveOnly \<in> set ps then PolicyPositiveOnly else r)"
  by (induction ps arbitrary: r) auto

lemma restrict_policies_eq [policy_simps]:
  "restrict_policies ps =
     (if \<exists>p\<in>set ps. \<not> policy_valid p \<or> p = PolicyRejected then PolicyRejected
      else if PolicyPositiveOnly \<in> set ps then PolicyPositiveOnly else PolicyTrusted)"
  by (simp add: restrict_policies_def restrict_from_eq)

lemma invalid_or_rejected_iff: "\<not> policy_valid p \<or> p = PolicyRejected \<longleftrightarrow> policy_strength p = 2"
  by (cases p) auto

lemma strength_one_iff: "policy_strength p = Suc 0 \<longleftrightarrow> p = PolicyPositiveOnly"
  by (cases p) auto

lemma policy_strength_le: "policy_strength p \<le> 2"
  by (cases p) auto

lemma restrict_policies_strength:
  "policy_strength (restrict_policies ps) = Max (insert 0 (set (map policy_strength ps)))"
proof -
  let ?r = "restrict_policies ps"
  consider (rejected) p where "p \<in> set ps" "policy_strength p = 2" "?r = PolicyRejected"
    | (limited) "PolicyPositiveOnly \<in> set ps" "\<forall>p\<in>set ps. policy_strength p \<noteq> 2" "?r = PolicyPositiveOnly"
    | (trusted) "\<forall>p\<in>set ps. policy_strength p \<noteq> 2" "PolicyPositiveOnly \<notin> set ps" "?r = PolicyTrusted"
    unfolding restrict_policies_eq invalid_or_rejected_iff by metis
  then show ?thesis
  proof cases
    case rejected
    then show ?thesis
      by (intro Max_eqI [symmetric]) (auto simp: policy_strength_le intro: rev_image_eqI)
  next
    case limited
    then have "\<forall>p\<in>set ps. policy_strength p \<le> 1" using policy_strength_le
      by (metis One_nat_def le_SucE numeral_2_eq_2)
    with limited show ?thesis
      by (intro Max_eqI [symmetric]) (auto intro: rev_image_eqI)
  next
    case trusted
    then have "\<forall>p\<in>set ps. policy_strength p = 0" using policy_strength_le strength_one_iff
      by (metis One_nat_def le_0_eq le_SucE numeral_2_eq_2)
    with trusted show ?thesis
      by (intro Max_eqI [symmetric]) auto
  qed
qed

lemma restrict_policies_valid: "policy_valid (restrict_policies ps)"
  by (simp add: restrict_policies_eq)

lemma valid_strength_inject:
  "policy_valid p \<Longrightarrow> policy_valid q \<Longrightarrow> policy_strength p = policy_strength q \<Longrightarrow> p = q"
  by (cases p; cases q) auto

interpretation policies: policy_composition restrict_policies policy_strength
proof
  show "policy_strength (restrict_policies ps) = Max (insert 0 (set (map policy_strength ps)))" for ps
    by (rule restrict_policies_strength)
  show "restrict_policies ps = restrict_policies qs"
    if "policy_strength (restrict_policies ps) = policy_strength (restrict_policies qs)" for ps qs
    using that by (blast intro: valid_strength_inject restrict_policies_valid)
qed

lemma trusted_iff_strength: "policy_valid p \<Longrightarrow> p = PolicyTrusted \<longleftrightarrow> policy_strength p = 0"
  by (cases p) auto

section \<open>Facts about the evaluator\<close>

lemma material_clock_regressed_refl [simp]: "\<not> material_clock_regressed f f"
  by (simp add: material_clock_regressed_def material_clock_rollback_minutes_def)

lemma provider_phase_regressed_refl [simp]: "\<not> provider_phase_regressed s s"
  by (simp add: provider_phase_regressed_def split: option.splits)

lemma provider_score_decreased_refl [simp]: "\<not> provider_score_decreased f f"
  by (simp add: provider_score_decreased_def optional_int_decreased_def split: option.splits)

lemma optional_int_equal_iff [simp]: "optional_int_equal a b \<longleftrightarrow> a = b"
  by (auto simp: optional_int_equal_def split: option.splits)

lemma provider_field_cleared_refl: "fc_stored c = fc_observed c \<Longrightarrow> \<not> provider_field_cleared c"
  by (auto simp: provider_field_cleared_def Let_def)

lemma missing_events_empty: "ef_key ` set xs \<subseteq> ef_key ` set ys \<Longrightarrow> missing_events xs ys = []"
  by (auto simp: missing_events_def filter_empty_conv)

lemma missing_events_subset: "set (missing_events xs ys) \<subseteq> set xs"
  by (auto simp: missing_events_def)

lemma missing_events_mono: "set xs \<subseteq> set zs \<Longrightarrow> set (missing_events xs ys) \<subseteq> set (missing_events zs ys)"
  by (auto simp: missing_events_def)

lemma distinct_missing_events: "distinct xs \<Longrightarrow> distinct (missing_events xs ys)"
  by (simp add: missing_events_def)

lemma not_decreased_when_equal: "scores_equal s r \<Longrightarrow> \<not> provider_score_decreased s r"
  by (auto simp: scores_equal_def provider_score_decreased_def optional_int_decreased_def
      split: option.splits)

lemma supported_correction_single:
  "supported_goal_correction c missing reg \<Longrightarrow> \<exists>g. missing = [g] \<and> ef_type g = ''goal''"
  by (auto simp: supported_goal_correction_def split: list.splits if_splits)

lemma supported_replacement_single:
  "supported_event_replacement c missing reg \<Longrightarrow> \<exists>g. missing = [g]"
  by (auto simp: supported_event_replacement_def split: list.splits if_splits)

text \<open>What a supported correction establishes about the one goal that disappeared.\<close>

lemma supported_correction_window:
  assumes "supported_goal_correction c [g] reg"
  shows "\<not> reg" and "observed_goal_inventory_matches_score (fc_observed c) (fc_observed_events c)"
    and "event_clock (ef_minute g) (ef_extra g) \<le> fixture_clock (fc_observed c)"
    and "fixture_clock (fc_observed c) \<le>
         event_clock (ef_minute g) (ef_extra g) + goal_correction_window_minutes"
    and "score_dropped_for_team_by_one (fc_stored c) (fc_observed c) (ef_team_id g) \<or>
         scores_equal (fc_stored c) (fc_observed c)"
  using assms by (auto simp: supported_goal_correction_def Let_def split: if_splits)

lemma assess_reasons_iff:
  fixes c :: fixture_comparison
  defines "v \<equiv> assess_fixture c"
  shows "ReasonFixtureIdentityChanged \<in> set (fv_reasons v) \<longleftrightarrow> identity_changed (fc_stored c) (fc_observed c)"
    and "ReasonScoreDecreased \<in> set (fv_reasons v) \<longleftrightarrow>
         provider_score_decreased (fc_stored c) (fc_observed c) \<and> \<not> fv_supported_goal_correction v"
    and "ReasonConfirmedEventsMissing \<in> set (fv_reasons v) \<longleftrightarrow>
         missing_events (fc_confirmed_events c) (fc_observed_events c) \<noteq> [] \<and>
         \<not> fv_supported_goal_correction v \<and> \<not> fv_supported_replacement v"
    and "ReasonPhaseRegressed \<in> set (fv_reasons v) \<longleftrightarrow>
         provider_phase_regressed (ff_status (fc_stored c)) (ff_status (fc_observed c))"
    and "ReasonTerminalRegressed \<in> set (fv_reasons v) \<longleftrightarrow>
         ff_terminal (fc_stored c) \<and> \<not> ff_terminal (fc_observed c)"
    and "ReasonClockRegressed \<in> set (fv_reasons v) \<longleftrightarrow>
         material_clock_regressed (fc_stored c) (fc_observed c)"
    and "ReasonPopulatedFieldCleared \<in> set (fv_reasons v) \<longleftrightarrow> provider_field_cleared c"
  unfolding v_def assess_fixture_def Let_def by simp_all

lemma assess_policy_of_reasons:
  "fv_policy (assess_fixture c) =
     (if fv_reasons (assess_fixture c) = [] then PolicyTrusted
      else if identity_changed (fc_stored c) (fc_observed c) then PolicyRejected
      else PolicyPositiveOnly)"
  unfolding assess_fixture_def Let_def by simp

lemma assess_correction_eq:
  "fv_supported_goal_correction (assess_fixture c) \<Longrightarrow>
     \<exists>reg. supported_goal_correction c (missing_events (fc_stored_events c) (fc_observed_events c)) reg"
  unfolding assess_fixture_def Let_def by auto

lemma assess_replacement_eq:
  "fv_supported_replacement (assess_fixture c) \<Longrightarrow>
     \<exists>reg. supported_event_replacement c (missing_events (fc_confirmed_events c) (fc_observed_events c)) reg"
  unfolding assess_fixture_def Let_def by auto



lemma assess_valid: "policy_valid (fv_policy (assess_fixture c))"
  by (simp add: assess_policy_of_reasons)

lemma assess_anomalous_iff: "fixture_anomalous (assess_fixture c) \<longleftrightarrow> fv_reasons (assess_fixture c) \<noteq> []"
  by (simp add: fixture_anomalous_def assess_policy_of_reasons)

section \<open>Properties\<close>


text \<open>a repeated observation never restricts itself: comparing a snapshot with an identical
  one whose events still contain every stored and confirmed key gives the trusted verdict with
  no reason and no missing event.\<close>

theorem assess_unchanged_trusted:
  assumes "fc_observed c = fc_stored c"
    and "ef_key ` set (fc_confirmed_events c) \<subseteq> ef_key ` set (fc_observed_events c)"
  shows "fv_policy (assess_fixture c) = PolicyTrusted \<and> fv_reasons (assess_fixture c) = [] \<and>
         fv_missing_confirmed_events (assess_fixture c) = 0"
  using assms
  by (simp add: assess_fixture_def Let_def identity_changed_def provider_field_cleared_refl
      missing_events_empty)

definition goal_fact :: "go_string \<Rightarrow> int \<Rightarrow> int \<Rightarrow> event_fact" where
  "goal_fact key team minute = \<lparr> ef_key = key, ef_team_id = team, ef_player_id = Some 7,
     ef_type = ''goal'', ef_detail = ''normal goal'', ef_minute = minute, ef_extra = None,
     ef_debounce_count = 3 \<rparr>"

definition sample_facts :: "int \<Rightarrow> int \<Rightarrow> int \<Rightarrow> fixture_facts" where
  "sample_facts elapsed home away = \<lparr> ff_fixture_id = 9, ff_home_id = 1, ff_away_id = 2,
     ff_league_id = 39, ff_home_name = ''H'', ff_away_name = ''A'', ff_league_name = ''L'',
     ff_status = ''1h'', ff_terminal = False, ff_elapsed = Some elapsed, ff_extra = None,
     ff_home_score = Some home, ff_away_score = Some away, ff_has_events = True \<rparr>"

theorem assess_unchanged_trusted_witness:
  "fv_policy (assess_fixture \<lparr> fc_stored = sample_facts 30 1 0, fc_observed = sample_facts 30 1 0,
      fc_stored_events = [goal_fact ''k1'' 1 20], fc_confirmed_events = [goal_fact ''k1'' 1 20],
      fc_observed_events = [goal_fact ''k1'' 1 20] \<rparr>) = PolicyTrusted"
  by (rule assess_unchanged_trusted [THEN conjunct1]) simp_all

text \<open>a trusted observation that lowers a score is one VAR correction: exactly one stored event
  disappeared, it is a goal, the score of its team fell by one while the other score held, the
  remaining observed goals match the observed score, and the goal is at most ten match minutes
  old.\<close>

theorem trusted_score_drop_is_one_goal:
  assumes trusted: "fv_policy (assess_fixture c) = PolicyTrusted"
    and dropped: "provider_score_decreased (fc_stored c) (fc_observed c)"
  shows "\<exists>g. missing_events (fc_stored_events c) (fc_observed_events c) = [g] \<and>
     ef_type g = ''goal'' \<and>
     score_dropped_for_team_by_one (fc_stored c) (fc_observed c) (ef_team_id g) \<and>
     observed_goal_inventory_matches_score (fc_observed c) (fc_observed_events c) \<and>
     event_clock (ef_minute g) (ef_extra g) \<le> fixture_clock (fc_observed c) \<and>
     fixture_clock (fc_observed c) \<le> event_clock (ef_minute g) (ef_extra g) + 10"
proof -
  from trusted have none: "fv_reasons (assess_fixture c) = []"
    by (auto simp: assess_policy_of_reasons split: if_splits)
  with dropped assess_reasons_iff(2) [of c] have "fv_supported_goal_correction (assess_fixture c)"
    by auto
  then obtain reg where corr: "supported_goal_correction c
      (missing_events (fc_stored_events c) (fc_observed_events c)) reg"
    using assess_correction_eq by blast
  then obtain g where g: "missing_events (fc_stored_events c) (fc_observed_events c) = [g]"
    "ef_type g = ''goal''" using supported_correction_single by blast
  with corr have "supported_goal_correction c [g] reg" by simp
  note facts = supported_correction_window [OF this]
  from facts(5) dropped have "score_dropped_for_team_by_one (fc_stored c) (fc_observed c) (ef_team_id g)"
    using not_decreased_when_equal by blast
  with facts g show ?thesis by (auto simp: goal_correction_window_minutes_def)
qed

theorem trusted_score_drop_is_one_goal_witness:
  "\<exists>g. missing_events [goal_fact ''k1'' 1 20, goal_fact ''k2'' 1 28] [goal_fact ''k1'' 1 20] = [g] \<and>
     ef_type g = ''goal''"
proof -
  let ?c = "\<lparr> fc_stored = sample_facts 29 2 0, fc_observed = sample_facts 31 1 0,
      fc_stored_events = [goal_fact ''k1'' 1 20, goal_fact ''k2'' 1 28],
      fc_confirmed_events = [goal_fact ''k1'' 1 20, goal_fact ''k2'' 1 28],
      fc_observed_events = [goal_fact ''k1'' 1 20] \<rparr>"
  have "fv_policy (assess_fixture ?c) = PolicyTrusted" by code_simp
  moreover have "provider_score_decreased (fc_stored ?c) (fc_observed ?c)" by code_simp
  ultimately show ?thesis using trusted_score_drop_is_one_goal [of ?c] by auto
qed

text \<open>a trusted observation loses at most one confirmed event, whatever else it reports: two
  confirmed events that vanish together always restrict the fixture.\<close>

theorem trusted_loses_at_most_one_event:
  assumes trusted: "fv_policy (assess_fixture c) = PolicyTrusted"
    and confirmed: "set (fc_confirmed_events c) \<subseteq> set (fc_stored_events c)"
    and dist: "distinct (fc_confirmed_events c)"
  shows "length (missing_events (fc_confirmed_events c) (fc_observed_events c)) \<le> 1"
proof (rule ccontr)
  let ?m = "missing_events (fc_confirmed_events c) (fc_observed_events c)"
  let ?s = "missing_events (fc_stored_events c) (fc_observed_events c)"
  assume two: "\<not> length ?m \<le> 1"
  from trusted have none: "fv_reasons (assess_fixture c) = []"
    by (auto simp: assess_policy_of_reasons split: if_splits)
  from two have "?m \<noteq> []" by auto
  with none assess_reasons_iff(3) [of c]
  consider (corr) "fv_supported_goal_correction (assess_fixture c)"
    | (repl) "fv_supported_replacement (assess_fixture c)" by auto
  then show False
  proof cases
    case corr
    then obtain g where "?s = [g]"
      using assess_correction_eq supported_correction_single by blast
    with missing_events_mono [OF confirmed] have "set ?m \<subseteq> {g}" by fastforce
    then have "card (set ?m) \<le> 1" using card_mono [of "{g}"] by fastforce
    with distinct_missing_events [OF dist] two show False by (simp add: distinct_card)
  next
    case repl
    then show False using assess_replacement_eq supported_replacement_single two by fastforce
  qed
qed

theorem trusted_loses_at_most_one_event_witness:
  "length (missing_events [goal_fact ''k1'' 1 20, goal_fact ''k2'' 1 28] [goal_fact ''k1'' 1 20]) \<le> 1"
proof -
  let ?c = "\<lparr> fc_stored = sample_facts 29 2 0, fc_observed = sample_facts 31 1 0,
      fc_stored_events = [goal_fact ''k1'' 1 20, goal_fact ''k2'' 1 28],
      fc_confirmed_events = [goal_fact ''k1'' 1 20, goal_fact ''k2'' 1 28],
      fc_observed_events = [goal_fact ''k1'' 1 20] \<rparr>"
  have "fv_policy (assess_fixture ?c) = PolicyTrusted" by code_simp
  moreover have "distinct (fc_confirmed_events ?c)" by code_simp
  ultimately show ?thesis using trusted_loses_at_most_one_event [of ?c] by simp
qed

text \<open>composing health causes is taking the strongest of them: the result is always a known
  policy, its strength is the maximum over the causes (an unknown policy counts as a
  rejection), so neither order, repetition nor grouping of the causes matters, and adding a
  cause never weakens the result.\<close>

theorem restrict_policies_is_strongest:
  "policy_valid (restrict_policies ps) \<and>
   policy_strength (restrict_policies ps) = Max (insert 0 (set (map policy_strength ps))) \<and>
   restrict_policies (ps @ qs) = restrict_policies [restrict_policies ps, restrict_policies qs] \<and>
   policy_strength (restrict_policies ps) \<le> policy_strength (restrict_policies (ps @ qs)) \<and>
   restrict_policies (rev ps) = restrict_policies ps"
  using restrict_policies_valid restrict_policies_strength policies.nested_append
    policies.no_clearing policies.same_set [of "rev ps" ps]
  by (metis set_rev)

section \<open>The batch aggregate\<close>

lemma aggregate_step_fields:
  "bv_policy (foldl aggregate_step b vs) = bv_policy b \<and>
   bv_reasons (foldl aggregate_step b vs) = bv_reasons b \<and>
   bv_fixtures (foldl aggregate_step b vs) = bv_fixtures b @ filter fixture_anomalous vs \<and>
   bv_regressed_fixtures (foldl aggregate_step b vs) =
     bv_regressed_fixtures b + length (filter fixture_anomalous vs) \<and>
   bv_missing_confirmed_events (foldl aggregate_step b vs) =
     bv_missing_confirmed_events b + sum_list (map fv_missing_confirmed_events (filter fixture_anomalous vs))"
proof (induction vs arbitrary: b)
  case Nil
  then show ?case by simp
next
  case (Cons v vs)
  have "fixture_anomalous v \<Longrightarrow> policy_valid (fv_policy v)"
    by (auto simp: fixture_anomalous_def)
  then show ?case
    using Cons.IH [of "aggregate_step b v"] by (auto simp: aggregate_step_def)
qed

text \<open>the batch circuit trips exactly when two fixtures regressed at once or three confirmed
  events vanished among the anomalous fixtures; one anomalous fixture that lost at most two
  events stays isolated, and the retained verdicts are exactly the anomalous ones in order.\<close>

theorem assess_batch_circuit:
  fixes cs :: "fixture_comparison list"
  defines "bad \<equiv> filter fixture_anomalous (map assess_fixture cs)"
  shows "bv_fixtures (assess_batch cs) = bad \<and>
     bv_policy (assess_batch cs) =
       (if length bad \<ge> 2 \<or> sum_list (map fv_missing_confirmed_events bad) \<ge> 3
        then PolicyPositiveOnly else PolicyTrusted) \<and>
     (batch_anomalous (assess_batch cs) \<longleftrightarrow>
        (\<exists>c\<in>set cs. fv_reasons (assess_fixture c) \<noteq> []))"
proof -
  let ?b = "\<lparr> bv_policy = PolicyTrusted, bv_reasons = [], bv_fixtures = [],
              bv_regressed_fixtures = 0, bv_missing_confirmed_events = 0 \<rparr>"
  note f = aggregate_step_fields [of ?b "map assess_fixture cs"]
  have fixtures: "bv_fixtures (assess_batch cs) = bad"
    using f by (simp add: assess_batch_def aggregate_fixture_verdicts_def Let_def bad_def)
  have policy: "bv_policy (assess_batch cs) =
       (if length bad \<ge> 2 \<or> sum_list (map fv_missing_confirmed_events bad) \<ge> 3
        then PolicyPositiveOnly else PolicyTrusted)"
    using f by (simp add: assess_batch_def aggregate_fixture_verdicts_def Let_def bad_def
        global_fixture_trip_count_def global_missing_event_trip_count_def)
  have "batch_anomalous (assess_batch cs) \<longleftrightarrow> bad \<noteq> []"
    using fixtures policy by (auto simp: batch_anomalous_def)
  also have "\<dots> \<longleftrightarrow> (\<exists>c\<in>set cs. fv_reasons (assess_fixture c) \<noteq> [])"
    by (auto simp: bad_def filter_empty_conv assess_anomalous_iff)
  finally show ?thesis using fixtures policy by simp
qed

end
