(* ===== verification/Health.thy ===== *)
theory Health
  imports Integrity
begin

text \<open>
  Temporal health policy of \<open>internal/domain/providerintegrity\<close>: clock freshness
  (\<open>health.go\<close>), recovery evidence (\<open>health_recovery.go\<close>) and correlation of incident
  onsets across fixtures (\<open>health_scope.go\<close>). Loops with an early return are recursions
  that end with \<open>None\<close> at the return; all times are arguments, as in the code.
\<close>

section \<open>Freshness\<close>

definition interior_stale_after :: duration where
  "interior_stale_after = minutes 3"

definition boundary_stale_after :: duration where
  "boundary_stale_after = minutes 10"

definition observation_gap_limit :: duration where
  "observation_gap_limit = seconds 90"

lemmas health_windows = interior_stale_after_def boundary_stale_after_def
  observation_gap_limit_def duration_defs

datatype freshness =
    FreshnessUnset
  | FreshnessUnknown
  | FreshnessWithinWindow
  | FreshnessNotClocked
  | FreshnessStalled
  | FreshnessBoundaryWarning

record freshness_evidence =
  fe_facts :: fixture_facts
  fe_observed_at :: instant
  fe_previous_usable_at :: instant
  fe_continuous_since :: instant
  fe_clock_progress_at :: instant
  fe_usable :: bool

record freshness_verdict =
  fr_state :: freshness
  fr_policy :: mutation_policy
  fr_evidence_age :: duration

text \<open>The statuses whose clock runs, and the ones the evaluator knows to be paused.\<close>

definition running_status :: "go_string \<Rightarrow> bool" where
  "running_status s \<longleftrightarrow> s \<in> {''1h'', ''2h'', ''et''}"

definition not_clocked_status :: "go_string \<Rightarrow> bool" where
  "not_clocked_status s \<longleftrightarrow> s \<in> {''ht'', ''bt'', ''p'', ''int'', ''susp'', ''ns'', ''pst'', ''tbd'',
     ''ft'', ''aet'', ''pen'', ''canc'', ''abd'', ''awd'', ''wo''}"

text \<open>
  \<open>periodBoundary\<close> dereferences the elapsed minute, which both callers have checked; the
  minute is the second argument here.
\<close>

definition period_boundary :: "go_string \<Rightarrow> int \<Rightarrow> bool" where
  "period_boundary status elapsed =
     (if status = ''1h'' then elapsed \<ge> 45
      else if status = ''2h'' then elapsed \<ge> 90
      else if status = ''et'' then elapsed = 105 \<or> elapsed \<ge> 120
      else False)"

definition negative_option :: "int option \<Rightarrow> bool" where
  "negative_option v = (case v of None \<Rightarrow> False | Some n \<Rightarrow> n < 0)"

definition assess_freshness :: "freshness_evidence \<Rightarrow> freshness_verdict" where
  "assess_freshness e =
     (let f = fe_facts e; at = fe_observed_at e;
          out = \<lparr> fr_state = FreshnessUnknown, fr_policy = PolicyTrusted, fr_evidence_age = 0 \<rparr>
      in if \<not> fe_usable e \<or> at = 0 then out
         else if not_clocked_status (ff_status f) then out\<lparr> fr_state := FreshnessNotClocked \<rparr>
         else if \<not> running_status (ff_status f) then out
         else case ff_elapsed f of
           None \<Rightarrow> out
         | Some elapsed \<Rightarrow>
             if elapsed < 0 \<or> negative_option (ff_extra f) then out
             else if fe_previous_usable_at e = 0 \<or> \<not> fe_previous_usable_at e < at \<or>
                     time_sub at (fe_previous_usable_at e) > observation_gap_limit \<or>
                     fe_continuous_since e = 0 \<or> fe_continuous_since e > fe_previous_usable_at e \<or>
                     fe_clock_progress_at e = 0 \<or> fe_clock_progress_at e > at then out
             else
               let start = (if fe_continuous_since e > fe_clock_progress_at e
                            then fe_continuous_since e else fe_clock_progress_at e);
                   age = time_sub at start;
                   boundary = period_boundary (ff_status f) elapsed;
                   threshold = (if boundary then boundary_stale_after else interior_stale_after)
               in if age < threshold
                  then out\<lparr> fr_state := FreshnessWithinWindow, fr_evidence_age := age \<rparr>
                  else if boundary
                  then out\<lparr> fr_state := FreshnessBoundaryWarning, fr_evidence_age := age \<rparr>
                  else out\<lparr> fr_state := FreshnessStalled, fr_policy := PolicyPositiveOnly,
                            fr_evidence_age := age \<rparr>)"

section \<open>Clock progress\<close>

definition clock_values_valid :: "fixture_facts \<Rightarrow> bool" where
  "clock_values_valid f \<longleftrightarrow> \<not> negative_option (ff_elapsed f) \<and> \<not> negative_option (ff_extra f)"

definition forward_phase :: "go_string \<Rightarrow> go_string \<Rightarrow> bool" where
  "forward_phase before after \<longleftrightarrow>
     (case (phase_rank before, phase_rank after) of (Some l, Some r) \<Rightarrow> r > l | _ \<Rightarrow> False) \<or>
     (before = ''et'' \<and> after = ''bt'') \<or> (before = ''bt'' \<and> after = ''et'')"

definition clock_progressed :: "fixture_facts \<Rightarrow> fixture_facts \<Rightarrow> bool" where
  "clock_progressed baseline observed =
     (if ff_fixture_id baseline \<noteq> ff_fixture_id observed \<or> ff_fixture_id baseline \<le> 0 \<or>
         \<not> clock_values_valid baseline \<or> \<not> clock_values_valid observed then False
      else if forward_phase (ff_status baseline) (ff_status observed) then True
      else if ff_status baseline \<noteq> ff_status observed \<or> ff_elapsed observed = None \<or>
              ff_elapsed baseline = None then False
      else if running_status (ff_status observed) then fixture_clock observed > fixture_clock baseline
      else False)"

section \<open>Recovery sequences\<close>

text \<open>\<open>observationSequence\<close>: the last accepted time and the accepted identities.\<close>

record observation_sequence =
  os_at :: instant
  os_ids :: "go_string list"

definition empty_sequence :: observation_sequence where
  "empty_sequence = \<lparr> os_at = 0, os_ids = [] \<rparr>"

text \<open>\<open>accept\<close>: \<open>None\<close> is a refusal, which leaves the sequence as it was.\<close>

definition sequence_accept :: "observation_sequence \<Rightarrow> go_string \<Rightarrow> instant \<Rightarrow> observation_sequence option" where
  "sequence_accept s ident at =
     (if ident = '''' \<or> at = 0 \<or> \<not> at > os_at s then None
      else if ident \<in> set (os_ids s) then None
      else Some \<lparr> os_at = at, os_ids = ident # os_ids s \<rparr>)"

record fixture_health_probe =
  fp_id :: go_string
  fp_at :: instant
  fp_usable :: bool
  fp_facts :: fixture_facts

record provider_health_probe =
  pp_id :: go_string
  pp_at :: instant
  pp_complete :: bool
  pp_new_systemic_anomaly :: bool
  pp_new_affected_fixture :: bool

record recovery_state =
  rs_seq :: observation_sequence
  rs_last_advance :: instant
  rs_advances :: nat
  rs_phase_samples :: nat
  rs_phase :: go_string
  rs_high :: fixture_facts

definition probe_usable :: "fixture_facts \<Rightarrow> fixture_health_probe \<Rightarrow> bool" where
  "probe_usable baseline probe \<longleftrightarrow>
     fp_usable probe \<and> ff_fixture_id (fp_facts probe) = ff_fixture_id baseline \<and>
     clock_values_valid (fp_facts probe) \<and>
     (running_status (ff_status (fp_facts probe)) \<longrightarrow> ff_elapsed (fp_facts probe) \<noteq> None)"

definition recovery_advance :: "recovery_state \<Rightarrow> fixture_health_probe \<Rightarrow> recovery_state" where
  "recovery_advance st probe =
     (let facts = fp_facts probe; high = rs_high st; at = fp_at probe
      in if forward_phase (ff_status high) (ff_status facts)
         then st\<lparr> rs_phase := ff_status facts, rs_phase_samples := 1, rs_advances := 0,
                  rs_high := facts, rs_last_advance := at \<rparr>
         else if ff_status facts \<noteq> ff_status high \<or> material_clock_regressed high facts
         then st\<lparr> rs_advances := 0, rs_phase_samples := 0, rs_phase := '''' \<rparr>
         else
           let st1 = (if rs_phase st \<noteq> '''' \<and> rs_phase st = ff_status facts
                      then st\<lparr> rs_phase_samples := rs_phase_samples st + 1 \<rparr> else st)
           in if clock_progressed high facts
              then st1\<lparr> rs_advances := (if rs_advances st1 > 0 \<and>
                                            time_sub at (rs_last_advance st1) \<le> interior_stale_after
                                         then 2 else 1),
                        rs_last_advance := at, rs_high := facts \<rparr>
              else st1)"

definition recovery_step :: "fixture_facts \<Rightarrow> recovery_state \<Rightarrow> fixture_health_probe \<Rightarrow> recovery_state" where
  "recovery_step baseline st probe =
     (let previous_at = os_at (rs_seq st)
      in case sequence_accept (rs_seq st) (fp_id probe) (fp_at probe) of
           None \<Rightarrow> st
         | Some seq \<Rightarrow>
             let st0 = st\<lparr> rs_seq := seq \<rparr>;
                 usable = probe_usable baseline probe;
                 broken = \<not> usable \<or>
                   (previous_at \<noteq> 0 \<and> time_sub (fp_at probe) previous_at > observation_gap_limit);
                 st1 = (if broken
                        then st0\<lparr> rs_last_advance := 0, rs_advances := 0, rs_phase_samples := 0,
                                  rs_phase := '''', rs_high := baseline \<rparr>
                        else st0)
             in if \<not> usable then st1 else recovery_advance st1 probe)"

fun recovery_loop :: "fixture_facts \<Rightarrow> recovery_state \<Rightarrow> fixture_health_probe list \<Rightarrow> recovery_state option" where
  "recovery_loop baseline st [] = Some st"
| "recovery_loop baseline st (probe # probes) =
     (if fp_id probe = '''' \<or> fp_at probe = 0 then None
      else recovery_loop baseline (recovery_step baseline st probe) probes)"

definition recovery_start :: "fixture_facts \<Rightarrow> recovery_state" where
  "recovery_start baseline = \<lparr> rs_seq = empty_sequence, rs_last_advance = 0, rs_advances = 0,
     rs_phase_samples = 0, rs_phase = '''', rs_high = baseline \<rparr>"

definition recovery_verdict :: "recovery_state \<Rightarrow> bool" where
  "recovery_verdict st =
     (let high = rs_high st; since = time_sub (os_at (rs_seq st)) (rs_last_advance st)
      in if rs_phase_samples st \<ge> 3
         then (if running_status (ff_status high)
               then (case ff_elapsed high of
                       None \<Rightarrow> False
                     | Some e \<Rightarrow> since < (if period_boundary (ff_status high) e
                                          then boundary_stale_after else interior_stale_after))
               else True)
         else rs_advances st \<ge> 2 \<and> rs_last_advance st \<noteq> 0 \<and> since < interior_stale_after)"

definition freshness_recovered :: "fixture_facts \<Rightarrow> fixture_health_probe list \<Rightarrow> bool" where
  "freshness_recovered baseline probes =
     (if ff_fixture_id baseline \<le> 0 \<or> \<not> clock_values_valid baseline then False
      else case recovery_loop baseline (recovery_start baseline) probes of
             None \<Rightarrow> False
           | Some st \<Rightarrow> recovery_verdict st)"

section \<open>Provider recovery\<close>

definition probe_clean :: "provider_health_probe \<Rightarrow> bool" where
  "probe_clean p \<longleftrightarrow> \<not> (\<not> pp_complete p \<or> pp_new_systemic_anomaly p \<or> pp_new_affected_fixture p)"

definition provider_recovery_step ::
  "observation_sequence \<times> nat \<Rightarrow> provider_health_probe \<Rightarrow> observation_sequence \<times> nat" where
  "provider_recovery_step st probe =
     (let previous_at = os_at (fst st)
      in case sequence_accept (fst st) (pp_id probe) (pp_at probe) of
           None \<Rightarrow> st
         | Some seq \<Rightarrow>
             let clean0 = (if previous_at \<noteq> 0 \<and> time_sub (pp_at probe) previous_at > observation_gap_limit
                           then 0 else snd st)
             in (seq, if \<not> probe_clean probe then 0 else clean0 + 1))"

fun provider_recovery_loop ::
  "observation_sequence \<times> nat \<Rightarrow> provider_health_probe list \<Rightarrow> (observation_sequence \<times> nat) option" where
  "provider_recovery_loop st [] = Some st"
| "provider_recovery_loop st (probe # probes) =
     (if pp_id probe = '''' \<or> pp_at probe = 0 then None
      else provider_recovery_loop (provider_recovery_step st probe) probes)"

definition provider_integrity_recovered :: "provider_health_probe list \<Rightarrow> bool" where
  "provider_integrity_recovered probes =
     (case provider_recovery_loop (empty_sequence, 0) probes of
        None \<Rightarrow> False
      | Some st \<Rightarrow> snd st \<ge> 3)"

section \<open>Correlation\<close>

definition correlation_window :: duration where
  "correlation_window = minutes 2"

datatype health_cause =
    CauseUnset
  | CauseClockStalled
  | CauseBoundaryWarning
  | CauseIntegrityConflict
  | CauseUnavailable
  | CauseReason reason

record health_episode =
  he_fixture_id :: int
  he_cause :: health_cause
  he_started_at :: instant
  he_resolved_at :: instant

record health_correlation =
  hc_stalled_fixtures :: "int list"
  hc_conflict_fixtures :: "int list"
  hc_policy :: mutation_policy

definition episode_counts :: "instant \<Rightarrow> health_episode \<Rightarrow> bool" where
  "episode_counts at e \<longleftrightarrow>
     \<not> (at = 0 \<or> he_fixture_id e \<le> 0 \<or> he_started_at e = 0 \<or> he_resolved_at e \<noteq> 0 \<or>
        he_started_at e > at \<or> time_sub at (he_started_at e) > correlation_window)"

definition sorted_fixture_ids :: "int set \<Rightarrow> int list" where
  "sorted_fixture_ids ids = sorted_list_of_set ids"

definition correlated_fixtures :: "instant \<Rightarrow> health_episode list \<Rightarrow> health_cause \<Rightarrow> int set" where
  "correlated_fixtures at episodes cause =
     set (map he_fixture_id (filter (\<lambda>e. episode_counts at e \<and> he_cause e = cause) episodes))"

definition correlate_health :: "instant \<Rightarrow> health_episode list \<Rightarrow> health_correlation" where
  "correlate_health at episodes =
     (let stalled = correlated_fixtures at episodes CauseClockStalled;
          conflicts = correlated_fixtures at episodes CauseIntegrityConflict;
          out = \<lparr> hc_stalled_fixtures = [], hc_conflict_fixtures = [], hc_policy = PolicyTrusted \<rparr>;
          out1 = (if card stalled \<ge> 2
                  then out\<lparr> hc_stalled_fixtures := sorted_fixture_ids stalled \<rparr> else out)
      in if card conflicts \<ge> 2
         then out1\<lparr> hc_conflict_fixtures := sorted_fixture_ids conflicts,
                    hc_policy := PolicyPositiveOnly \<rparr>
         else out1)"

section \<open>Facts about freshness\<close>

text \<open>The continuity evidence the evaluator demands before it trusts an age.\<close>

definition continuous_evidence :: "freshness_evidence \<Rightarrow> bool" where
  "continuous_evidence e \<longleftrightarrow>
     fe_previous_usable_at e \<noteq> 0 \<and> fe_previous_usable_at e < fe_observed_at e \<and>
     fe_observed_at e - fe_previous_usable_at e \<le> observation_gap_limit \<and>
     fe_continuous_since e \<noteq> 0 \<and> fe_continuous_since e \<le> fe_previous_usable_at e \<and>
     fe_clock_progress_at e \<noteq> 0 \<and> fe_clock_progress_at e \<le> fe_observed_at e"

lemma running_not_paused: "running_status s \<Longrightarrow> \<not> not_clocked_status s"
  by (auto simp: running_status_def not_clocked_status_def)

lemma time_sub_gap [clock_simps]: "time_sub a b > observation_gap_limit \<longleftrightarrow> a - b > observation_gap_limit"
  by (auto simp: time_sub_def health_windows)

lemma time_sub_interior [clock_simps]: "time_sub a b < interior_stale_after \<longleftrightarrow> a - b < interior_stale_after"
  by (auto simp: time_sub_def health_windows)

lemma time_sub_boundary [clock_simps]: "time_sub a b < boundary_stale_after \<longleftrightarrow> a - b < boundary_stale_after"
  by (auto simp: time_sub_def health_windows)

lemma freshness_policy_state:
  "fr_policy (assess_freshness e) = (if fr_state (assess_freshness e) = FreshnessStalled
     then PolicyPositiveOnly else PolicyTrusted)"
  by (simp add: assess_freshness_def Let_def split: option.split)

lemma freshness_clocked:
  assumes "fe_usable e" "fe_observed_at e \<noteq> 0" "running_status (ff_status (fe_facts e))"
    "ff_elapsed (fe_facts e) = Some m" "0 \<le> m" "\<not> negative_option (ff_extra (fe_facts e))"
    "continuous_evidence e"
  defines "age \<equiv> fe_observed_at e - max (fe_continuous_since e) (fe_clock_progress_at e)"
  shows "fr_state (assess_freshness e) =
     (if period_boundary (ff_status (fe_facts e)) m
      then (if age < boundary_stale_after then FreshnessWithinWindow else FreshnessBoundaryWarning)
      else (if age < interior_stale_after then FreshnessWithinWindow else FreshnessStalled))"
  using assms running_not_paused [OF assms(3)]
  by (auto simp: assess_freshness_def Let_def continuous_evidence_def clock_simps max_def not_less)

lemma freshness_not_clocked:
  assumes "\<not> (fe_usable e \<and> fe_observed_at e \<noteq> 0 \<and> running_status (ff_status (fe_facts e)) \<and>
     (\<exists>m. ff_elapsed (fe_facts e) = Some m \<and> 0 \<le> m) \<and> \<not> negative_option (ff_extra (fe_facts e)) \<and>
     continuous_evidence e)"
  shows "fr_state (assess_freshness e) \<in> {FreshnessUnknown, FreshnessNotClocked}"
proof (cases "ff_elapsed (fe_facts e)")
  case None
  then show ?thesis by (simp add: assess_freshness_def Let_def)
next
  case (Some m)
  with assms show ?thesis
    by (auto simp: assess_freshness_def Let_def continuous_evidence_def clock_simps not_less not_le)
qed

text \<open>a clock is judged stalled, and the fixture restricted to positive mutations, exactly when
  a usable poll of a running phase with a valid minute follows another usable poll within the
  gap limit, the minute is not a period boundary, and neither the continuity of observation nor
  the clock itself is more recent than the interior window; every other evidence, a boundary
  minute held past its longer window included, leaves the policy trusted.\<close>

theorem stalled_exactly_when_interior_clock_stops:
  "(fr_policy (assess_freshness e) = PolicyPositiveOnly \<longleftrightarrow>
      fe_usable e \<and> fe_observed_at e \<noteq> 0 \<and> running_status (ff_status (fe_facts e)) \<and>
      (\<exists>m. ff_elapsed (fe_facts e) = Some m \<and> 0 \<le> m \<and>
           \<not> period_boundary (ff_status (fe_facts e)) m) \<and>
      \<not> negative_option (ff_extra (fe_facts e)) \<and> continuous_evidence e \<and>
      interior_stale_after \<le> fe_observed_at e - fe_continuous_since e \<and>
      interior_stale_after \<le> fe_observed_at e - fe_clock_progress_at e) \<and>
   fr_policy (assess_freshness e) \<in> {PolicyTrusted, PolicyPositiveOnly}"
  (is "(?l \<longleftrightarrow> ?r) \<and> _")
proof
  have policy: "?l \<longleftrightarrow> fr_state (assess_freshness e) = FreshnessStalled"
    by (simp add: freshness_policy_state)
  show "?l \<longleftrightarrow> ?r"
  proof (cases "fe_usable e \<and> fe_observed_at e \<noteq> 0 \<and> running_status (ff_status (fe_facts e)) \<and>
     (\<exists>m. ff_elapsed (fe_facts e) = Some m \<and> 0 \<le> m) \<and> \<not> negative_option (ff_extra (fe_facts e)) \<and>
     continuous_evidence e")
    case True
    then obtain m where m: "ff_elapsed (fe_facts e) = Some m" "0 \<le> m" by blast
    with True freshness_clocked [of e m] show ?thesis unfolding policy
      by (auto simp: max_def)
  next
    case False
    with freshness_not_clocked [OF this] show ?thesis unfolding policy by auto
  qed
next
  show "fr_policy (assess_freshness e) \<in> {PolicyTrusted, PolicyPositiveOnly}"
    by (simp add: freshness_policy_state)
qed

section \<open>Recovery needs fresh evidence\<close>

text \<open>An observation a sequence refused, or accepted, is refused for ever after.\<close>

lemma sequence_accept_Some_iff:
  "sequence_accept s ident at = Some s' \<longleftrightarrow>
     ident \<noteq> '''' \<and> at \<noteq> 0 \<and> os_at s < at \<and> ident \<notin> set (os_ids s) \<and>
     s' = \<lparr> os_at = at, os_ids = ident # os_ids s \<rparr>"
  by (auto simp: sequence_accept_def)

lemma sequence_accept_None_iff:
  "sequence_accept s ident at = None \<longleftrightarrow>
     ident = '''' \<or> at = 0 \<or> at \<le> os_at s \<or> ident \<in> set (os_ids s)"
  by (auto simp: sequence_accept_def)

text \<open>Both recovery loops fold a step over an accepting sequence. The interface names what they
  share: the identity and time of a probe, the sequence inside the state, and that a step
  consults the sequence before it does anything.\<close>

locale probe_fold =
  fixes step :: "'s \<Rightarrow> 'p \<Rightarrow> 's"
    and sequence :: "'s \<Rightarrow> observation_sequence"
    and ident :: "'p \<Rightarrow> go_string"
    and at :: "'p \<Rightarrow> instant"
    and score :: "'s \<Rightarrow> nat"
    and counts :: "'p \<Rightarrow> bool"
  assumes refused: "sequence_accept (sequence s) (ident p) (at p) = None \<Longrightarrow> step s p = s"
    and accepted: "sequence_accept (sequence s) (ident p) (at p) = Some q \<Longrightarrow> sequence (step s p) = q"
    and scored: "score (step s p) \<le> score s + 1"
    and uncounted: "\<not> counts p \<Longrightarrow> score (step s p) \<le> score s"
begin

lemma never_again:
  assumes "sequence_accept (sequence s) (ident p) (at p) = None"
  shows "sequence_accept (sequence (foldl step s ps)) (ident p) (at p) = None"
  using assms
proof (induction ps arbitrary: s)
  case Nil
  then show ?case by simp
next
  case (Cons x xs)
  have "sequence_accept (sequence (step s x)) (ident p) (at p) = None"
  proof (cases "sequence_accept (sequence s) (ident x) (at x)")
    case None
    with Cons.prems show ?thesis by (simp add: refused)
  next
    case (Some q)
    with Cons.prems accepted [OF Some] show ?thesis
      by (auto simp: sequence_accept_None_iff sequence_accept_Some_iff)
  qed
  with Cons.IH show ?case by simp
qed

lemma refused_after: "sequence_accept (sequence (step s p)) (ident p) (at p) = None"
proof (cases "sequence_accept (sequence s) (ident p) (at p)")
  case None
  then show ?thesis by (simp add: refused)
next
  case (Some q)
  then show ?thesis
    using accepted [OF Some] by (auto simp: sequence_accept_None_iff sequence_accept_Some_iff)
qed

lemma replay_is_skipped:
  assumes "p \<in> set ps"
  shows "step (foldl step s ps) p = foldl step s ps"
proof -
  from assms obtain as bs where ps: "ps = as @ p # bs" by (meson split_list)
  have "sequence_accept (sequence (foldl step (step (foldl step s as) p) bs)) (ident p) (at p) = None"
    using never_again [OF refused_after] .
  then show ?thesis by (simp add: ps refused)
qed

lemma score_needs_distinct:
  assumes "score s = 0" "os_ids (sequence s) = []"
  shows "\<exists>S. S \<subseteq> ident ` {p \<in> set ps. counts p} \<inter> set (os_ids (sequence (foldl step s ps))) \<and>
             finite S \<and> score (foldl step s ps) \<le> card S"
proof (induction ps rule: rev_induct)
  case Nil
  from assms show ?case by (intro exI [of _ "{}"]) simp
next
  case (snoc p ps)
  let ?s = "foldl step s ps"
  from snoc obtain S where S: "S \<subseteq> ident ` {p \<in> set ps. counts p} \<inter> set (os_ids (sequence ?s))"
    "finite S" "score ?s \<le> card S" by blast
  show ?case
  proof (cases "sequence_accept (sequence ?s) (ident p) (at p)")
    case None
    with S show ?thesis by (intro exI [of _ S]) (auto simp: refused)
  next
    case (Some q)
    have ids: "os_ids (sequence (step ?s p)) = ident p # os_ids (sequence ?s)"
      "ident p \<notin> set (os_ids (sequence ?s))"
      using Some accepted [OF Some] by (auto simp: sequence_accept_Some_iff)
    have "ident ` {x \<in> set ps. counts x} \<subseteq> ident ` {x \<in> set (ps @ [p]). counts x}"
      by (intro image_mono) auto
    with S(1) have old: "S \<subseteq> ident ` {x \<in> set (ps @ [p]). counts x}" "S \<subseteq> set (os_ids (sequence ?s))"
      by (meson order_trans le_inf_iff)+
    show ?thesis
    proof (cases "counts p")
      case True
      then have new: "ident p \<in> ident ` {x \<in> set (ps @ [p]). counts x}" by (intro imageI) simp
      from S ids have "ident p \<notin> S" by blast
      with S(2,3) scored [of ?s p] have "score (step ?s p) \<le> card (insert (ident p) S)" by simp
      moreover have "insert (ident p) S \<subseteq> ident ` {x \<in> set (ps @ [p]). counts x} \<inter>
          set (os_ids (sequence (step ?s p)))"
        unfolding ids(1) using old new by (auto simp del: image_iff)
      moreover have "finite (insert (ident p) S)" using S(2) by simp
      ultimately show ?thesis by (intro exI [of _ "insert (ident p) S"]) simp
    next
      case False
      from S(3) uncounted [OF False, of ?s] have "score (step ?s p) \<le> card S" by linarith
      moreover have "S \<subseteq> ident ` {x \<in> set (ps @ [p]). counts x} \<inter>
          set (os_ids (sequence (step ?s p)))"
        unfolding ids(1) using old by (auto simp del: image_iff)
      ultimately show ?thesis using S(2) by (intro exI [of _ S]) simp
    qed
  qed
qed

lemma score_le_distinct:
  assumes "score s = 0" "os_ids (sequence s) = []"
  shows "score (foldl step s ps) \<le> card (ident ` {p \<in> set ps. counts p})"
proof -
  from score_needs_distinct [OF assms] obtain S
    where "S \<subseteq> ident ` {p \<in> set ps. counts p}" "score (foldl step s ps) \<le> card S"
    unfolding le_inf_iff by blast
  moreover have "finite (ident ` {p \<in> set ps. counts p})" by simp
  ultimately show ?thesis using card_mono order_trans by metis
qed

end

definition recovery_score :: "recovery_state \<Rightarrow> nat" where
  "recovery_score st = max (rs_advances st) (rs_phase_samples st)"

lemma recovery_advance_seq: "rs_seq (recovery_advance st p) = rs_seq st"
  by (simp add: recovery_advance_def Let_def)

lemma recovery_advance_score: "recovery_score (recovery_advance st p) \<le> recovery_score st + 1"
  by (auto simp: recovery_advance_def Let_def recovery_score_def)

lemma recovery_step_refused:
  "sequence_accept (rs_seq st) (fp_id p) (fp_at p) = None \<Longrightarrow> recovery_step b st p = st"
  by (simp add: recovery_step_def)

lemma recovery_step_accepted:
  "sequence_accept (rs_seq st) (fp_id p) (fp_at p) = Some q \<Longrightarrow> rs_seq (recovery_step b st p) = q"
  by (simp add: recovery_step_def Let_def recovery_advance_seq)

lemma recovery_step_unusable:
  "\<not> probe_usable b p \<Longrightarrow> recovery_score (recovery_step b st p) \<le> recovery_score st"
  by (simp add: recovery_step_def Let_def recovery_score_def split: option.split)

lemma recovery_step_score: "recovery_score (recovery_step b st p) \<le> recovery_score st + 1"
proof (cases "sequence_accept (rs_seq st) (fp_id p) (fp_at p)")
  case None
  then show ?thesis by (simp add: recovery_step_refused)
next
  case (Some q)
  have "recovery_score (recovery_advance (st\<lparr>rs_seq := q, rs_last_advance := 0, rs_advances := 0,
      rs_phase_samples := 0, rs_phase := '''', rs_high := b\<rparr>) p) \<le> 1"
    by (rule recovery_advance_score [THEN order_trans]) (simp add: recovery_score_def)
  moreover have "recovery_score (recovery_advance (st\<lparr>rs_seq := q\<rparr>) p) \<le> recovery_score st + 1"
    by (rule recovery_advance_score [THEN order_trans]) (simp add: recovery_score_def)
  ultimately show ?thesis using Some
    by (auto simp: recovery_step_def Let_def recovery_score_def)
qed

interpretation fixture_recovery: probe_fold "recovery_step b" rs_seq fp_id fp_at recovery_score
  "probe_usable b" for b
  by unfold_locales
    (rule recovery_step_refused recovery_step_accepted recovery_step_score recovery_step_unusable, assumption?)+

interpretation provider_recovery: probe_fold provider_recovery_step fst pp_id pp_at snd probe_clean
  by unfold_locales (auto simp: provider_recovery_step_def Let_def split: option.splits)

lemma recovery_loop_fold:
  "recovery_loop b st ps =
     (if \<forall>p\<in>set ps. fp_id p \<noteq> '''' \<and> fp_at p \<noteq> 0 then Some (foldl (recovery_step b) st ps) else None)"
  by (induction ps arbitrary: st) auto

lemma provider_recovery_loop_fold:
  "provider_recovery_loop st ps =
     (if \<forall>p\<in>set ps. pp_id p \<noteq> '''' \<and> pp_at p \<noteq> 0 then Some (foldl provider_recovery_step st ps) else None)"
  by (induction ps arbitrary: st) auto

lemma recovery_verdict_score: "recovery_verdict st \<Longrightarrow> 2 \<le> recovery_score st"
  by (auto simp: recovery_verdict_def Let_def recovery_score_def split: if_splits)

text \<open>a stalled fixture leaves its restriction only on fresh evidence: recovery implies at least
  two observations with different identities, each usable for the same fixture; every probe
  carries an identity and a time, and repeating any earlier probe at the end changes nothing.\<close>

theorem freshness_recovery_needs_two_observations:
  "(freshness_recovered b ps \<longrightarrow>
      2 \<le> card (fp_id ` {p \<in> set ps. probe_usable b p}) \<and>
      (\<forall>p\<in>set ps. fp_id p \<noteq> '''' \<and> fp_at p \<noteq> 0)) \<and>
   (\<forall>p\<in>set ps. freshness_recovered b (ps @ [p]) = freshness_recovered b ps)"
proof (intro conjI impI ballI)
  have start: "recovery_score (recovery_start b) = 0" "os_ids (rs_seq (recovery_start b)) = []"
    by (simp_all add: recovery_score_def recovery_start_def empty_sequence_def)
  assume rec: "freshness_recovered b ps"
  then have valid: "\<forall>p\<in>set ps. fp_id p \<noteq> '''' \<and> fp_at p \<noteq> 0"
    by (auto simp: freshness_recovered_def recovery_loop_fold split: if_splits)
  with rec have "recovery_verdict (foldl (recovery_step b) (recovery_start b) ps)"
    by (auto simp: freshness_recovered_def recovery_loop_fold split: if_splits)
  then have "2 \<le> recovery_score (foldl (recovery_step b) (recovery_start b) ps)"
    by (rule recovery_verdict_score)
  with fixture_recovery.score_le_distinct [where b = b, OF start, of ps]
  show "2 \<le> card (fp_id ` {p \<in> set ps. probe_usable b p})" by linarith
  fix p assume "p \<in> set ps"
  with valid show "fp_id p \<noteq> ''''" "fp_at p \<noteq> 0" by blast+
next
  fix p assume "p \<in> set ps"
  then show "freshness_recovered b (ps @ [p]) = freshness_recovered b ps"
    by (auto simp: freshness_recovered_def recovery_loop_fold fixture_recovery.replay_is_skipped)
qed

definition recovery_probe :: "go_string \<Rightarrow> int \<Rightarrow> int \<Rightarrow> fixture_health_probe" where
  "recovery_probe ident second elapsed = \<lparr> fp_id = ident, fp_at = seconds second, fp_usable = True,
     fp_facts = sample_facts elapsed 1 0 \<rparr>"

theorem freshness_recovery_needs_two_observations_witness:
  "2 \<le> card (fp_id ` {p \<in> set [recovery_probe ''a'' 60 31, recovery_probe ''b'' 120 32].
      probe_usable (sample_facts 30 1 0) p})"
proof -
  have "freshness_recovered (sample_facts 30 1 0) [recovery_probe ''a'' 60 31, recovery_probe ''b'' 120 32]"
    by code_simp
  then show ?thesis using freshness_recovery_needs_two_observations by blast
qed

text \<open>the provider circuit closes again only after at least three clean probes with different
  identities, and it cannot be talked into closing by a replay: presenting any earlier probe
  again leaves the verdict unchanged.\<close>

theorem provider_recovery_needs_three_clean_probes:
  "(provider_integrity_recovered ps \<longrightarrow> 3 \<le> card (pp_id ` {p \<in> set ps. probe_clean p})) \<and>
   (\<forall>p\<in>set ps. provider_integrity_recovered (ps @ [p]) = provider_integrity_recovered ps)"
proof (intro conjI impI ballI)
  have start: "snd (empty_sequence, 0::nat) = 0" "os_ids (fst (empty_sequence, 0::nat)) = []"
    by (simp_all add: empty_sequence_def)
  assume "provider_integrity_recovered ps"
  then have "3 \<le> snd (foldl provider_recovery_step (empty_sequence, 0) ps)"
    by (auto simp: provider_integrity_recovered_def provider_recovery_loop_fold split: if_splits)
  with provider_recovery.score_le_distinct [OF start, of ps]
  show "3 \<le> card (pp_id ` {p \<in> set ps. probe_clean p})" by linarith
next
  fix p assume "p \<in> set ps"
  then show "provider_integrity_recovered (ps @ [p]) = provider_integrity_recovered ps"
    by (auto simp: provider_integrity_recovered_def provider_recovery_loop_fold
        provider_recovery.replay_is_skipped)
qed

definition clean_probe :: "go_string \<Rightarrow> int \<Rightarrow> provider_health_probe" where
  "clean_probe ident second = \<lparr> pp_id = ident, pp_at = seconds second, pp_complete = True,
     pp_new_systemic_anomaly = False, pp_new_affected_fixture = False \<rparr>"

theorem provider_recovery_needs_three_clean_probes_witness:
  "3 \<le> card (pp_id ` {p \<in> set [clean_probe ''a'' 60, clean_probe ''b'' 120, clean_probe ''c'' 180]. probe_clean p})"
proof -
  have "provider_integrity_recovered [clean_probe ''a'' 60, clean_probe ''b'' 120, clean_probe ''c'' 180]"
    by code_simp
  then show ?thesis using provider_recovery_needs_three_clean_probes by blast
qed

section \<open>Correlated onsets\<close>

lemma correlated_fixtures_iff:
  "i \<in> correlated_fixtures at es k \<longleftrightarrow>
     (\<exists>e\<in>set es. episode_counts at e \<and> he_cause e = k \<and> he_fixture_id e = i)"
  by (auto simp: correlated_fixtures_def)

lemma finite_correlated_fixtures: "finite (correlated_fixtures at es k)"
  by (simp add: correlated_fixtures_def)

lemma episode_counts_window:
  "episode_counts at e \<longleftrightarrow> at \<noteq> 0 \<and> 0 < he_fixture_id e \<and> he_started_at e \<noteq> 0 \<and>
     he_resolved_at e = 0 \<and> he_started_at e \<le> at \<and> at - he_started_at e \<le> correlation_window"
  by (auto simp: episode_counts_def time_sub_def correlation_window_def duration_defs)

text \<open>correlation restricts the provider exactly when two different fixtures have an unresolved
  integrity conflict that began within the last two minutes; clock stalls, however many, are
  reported but never restrict, and both reported lists are strictly increasing, so the verdict
  does not depend on the order or repetition of the episodes.\<close>

theorem correlation_restricts_on_two_conflicts:
  "hc_policy (correlate_health at es) =
     (if \<exists>e\<in>set es. \<exists>d\<in>set es. he_fixture_id e \<noteq> he_fixture_id d \<and>
            episode_counts at e \<and> episode_counts at d \<and>
            he_cause e = CauseIntegrityConflict \<and> he_cause d = CauseIntegrityConflict
      then PolicyPositiveOnly else PolicyTrusted) \<and>
   sorted_wrt (<) (hc_stalled_fixtures (correlate_health at es)) \<and>
   sorted_wrt (<) (hc_conflict_fixtures (correlate_health at es)) \<and>
   (set ds = set es \<longrightarrow> correlate_health at ds = correlate_health at es)"
proof (intro conjI impI)
  let ?c = "correlated_fixtures at es CauseIntegrityConflict"
  have two: "2 \<le> card ?c \<longleftrightarrow> (\<exists>i\<in>?c. \<exists>j\<in>?c. i \<noteq> j)"
    by (metis One_nat_def Suc_1 card_le_Suc0_iff_eq finite_correlated_fixtures not_less_eq_eq)
  have "(\<exists>i\<in>?c. \<exists>j\<in>?c. i \<noteq> j) \<longleftrightarrow>
      (\<exists>e\<in>set es. \<exists>d\<in>set es. he_fixture_id e \<noteq> he_fixture_id d \<and>
            episode_counts at e \<and> episode_counts at d \<and>
            he_cause e = CauseIntegrityConflict \<and> he_cause d = CauseIntegrityConflict)"
    by (auto simp: correlated_fixtures_def)
  moreover have "hc_policy (correlate_health at es) =
      (if 2 \<le> card ?c then PolicyPositiveOnly else PolicyTrusted)"
    by (simp add: correlate_health_def Let_def)
  ultimately show "hc_policy (correlate_health at es) =
     (if \<exists>e\<in>set es. \<exists>d\<in>set es. he_fixture_id e \<noteq> he_fixture_id d \<and>
            episode_counts at e \<and> episode_counts at d \<and>
            he_cause e = CauseIntegrityConflict \<and> he_cause d = CauseIntegrityConflict
      then PolicyPositiveOnly else PolicyTrusted)"
    using two by (simp only:)
  show "sorted_wrt (<) (hc_stalled_fixtures (correlate_health at es))"
    "sorted_wrt (<) (hc_conflict_fixtures (correlate_health at es))"
    by (simp_all add: correlate_health_def Let_def sorted_fixture_ids_def)
  assume "set ds = set es"
  then have "correlated_fixtures at ds = correlated_fixtures at es"
    by (intro ext) (auto simp: correlated_fixtures_def)
  then show "correlate_health at ds = correlate_health at es"
    by (simp add: correlate_health_def)
qed

definition conflict_episode :: "int \<Rightarrow> health_episode" where
  "conflict_episode i = \<lparr> he_fixture_id = i, he_cause = CauseIntegrityConflict,
     he_started_at = seconds 60, he_resolved_at = 0 \<rparr>"

theorem correlation_restricts_on_two_conflicts_witness:
  "hc_policy (correlate_health (seconds 90) [conflict_episode 2, conflict_episode 1]) = PolicyPositiveOnly \<and>
   correlate_health (seconds 90) [conflict_episode 1, conflict_episode 2] =
     correlate_health (seconds 90) [conflict_episode 2, conflict_episode 1]"
proof -
  let ?es = "[conflict_episode 2, conflict_episode 1]"
  have e: "episode_counts (seconds 90) (conflict_episode 1)" "episode_counts (seconds 90) (conflict_episode 2)"
    by code_simp+
  have "set [conflict_episode 1, conflict_episode 2] = set ?es" by auto
  then show ?thesis
    using correlation_restricts_on_two_conflicts
      [of "seconds 90" ?es "[conflict_episode 1, conflict_episode 2]"] e
    by (simp add: conflict_episode_def)
qed

end
