(* ===== verification/Collector.thy ===== *)
theory Collector
  imports Health
begin

text \<open>
  The durable health collector of \<open>internal/domain/providerintegrity\<close>
  (\<open>collector_types.go\<close>, \<open>collector_fixture.go\<close>, \<open>collector_provider.go\<close>): one finalized poll
  advances the health of each fixture it covers, resolves and opens incidents against their own
  retained baselines, and then advances the single provider cursor. A method that mutates its
  receiver returns the updated record beside its result.
\<close>

section \<open>Observations and receipts\<close>

definition health_evidence_version :: int where
  "health_evidence_version = 1"

definition health_receipt_retention :: duration where
  "health_receipt_retention = hours (14 * 24)"

definition max_recovery_probes :: nat where
  "max_recovery_probes = 32"

definition max_health_fixtures :: nat where
  "max_health_fixtures = 1024"

datatype availability =
    AvailabilityUsable
  | AvailabilityTransport
  | AvailabilityContract
  | AvailabilityUnobserved
  | AvailabilityOther go_string

record health_observation =
  ob_fixture_id :: int
  ob_availability :: availability
  ob_failure_reason :: go_string
  ob_interrupted :: bool
  ob_baseline_last_polled :: "instant option"
  ob_comparison :: fixture_comparison

record health_poll =
  hp_id :: go_string
  hp_at :: instant
  hp_observations :: "health_observation list"

text \<open>One observation of a receipt; the identities seen so far are the second argument.\<close>

definition validate_observation :: "int list \<Rightarrow> health_observation \<Rightarrow> int list result" where
  "validate_observation seen ob =
     (if ob_fixture_id ob \<le> 0 \<or> ob_fixture_id ob \<in> set seen \<or> length (ob_failure_reason ob) > 100
      then Err ''invalid provider health fixture coverage''
      else case ob_availability ob of
        AvailabilityUsable \<Rightarrow>
          (let c = ob_comparison ob
           in if ff_fixture_id (fc_stored c) \<noteq> ob_fixture_id ob \<or>
                 ff_fixture_id (fc_observed c) \<noteq> ob_fixture_id ob \<or>
                 length (fc_stored_events c) > 256 \<or> length (fc_confirmed_events c) > 256 \<or>
                 length (fc_observed_events c) > 256
              then Err ''invalid provider health fixture facts''
              else Ok (ob_fixture_id ob # seen))
      | AvailabilityTransport \<Rightarrow> Ok (ob_fixture_id ob # seen)
      | AvailabilityContract \<Rightarrow> Ok (ob_fixture_id ob # seen)
      | AvailabilityUnobserved \<Rightarrow> Ok (ob_fixture_id ob # seen)
      | AvailabilityOther _ \<Rightarrow> Err ''invalid provider availability'')"

fun validate_observations :: "int list \<Rightarrow> health_observation list \<Rightarrow> int list result" where
  "validate_observations seen [] = Ok seen"
| "validate_observations seen (ob # obs) =
     bind_result (validate_observation seen ob) (\<lambda>seen'. validate_observations seen' obs)"

definition validate_health_poll :: "health_poll \<Rightarrow> unit result" where
  "validate_health_poll p =
     (if hp_id p = '''' \<or> length (hp_id p) > 200 \<or> hp_at p = 0 \<or> hp_observations p = [] \<or>
         length (hp_observations p) > max_health_fixtures
      then Err ''invalid provider health poll identity or coverage''
      else bind_result (validate_observations [] (hp_observations p)) (\<lambda>_. Ok ()))"

section \<open>Evidence\<close>

record health_incident =
  hi_cause :: health_cause
  hi_started_at :: instant
  hi_last_credible_at :: instant
  hi_policy :: mutation_policy
  hi_baseline :: fixture_facts
  hi_stored_events :: "event_fact list"
  hi_confirmed_events :: "event_fact list"
  hi_probes :: "fixture_health_probe list"

record fixture_health_evidence =
  fhe_version :: int
  fhe_availability :: availability
  fhe_failure_reason :: go_string
  fhe_freshness :: freshness
  fhe_incidents :: "health_incident list"

record fixture_health =
  fh_fixture_id :: int
  fh_last_poll_id :: go_string
  fh_last_observed_at :: instant
  fh_last_usable_at :: instant
  fh_continuous_since :: instant
  fh_clock_progress_at :: instant
  fh_phase_since :: instant
  fh_observed_status :: go_string
  fh_clock_status :: go_string
  fh_clock_elapsed :: "int option"
  fh_clock_extra :: "int option"
  fh_evidence :: fixture_health_evidence

record provider_health_evidence =
  phe_version :: int
  phe_recent :: "health_episode list"
  phe_incident_at :: instant
  phe_probes :: "provider_health_probe list"

record provider_health =
  ph_last_observed_at :: instant
  ph_generation :: int
  ph_policy :: mutation_policy
  ph_evidence :: provider_health_evidence

record health_transition =
  ht_fixture_id :: int
  ht_cause :: health_cause
  ht_started_at :: instant
  ht_resolved :: bool
  ht_last_credible_at :: instant
  ht_availability :: availability
  ht_missing_event_keys :: "go_string list"
  ht_baseline :: "fixture_facts option"
  ht_observed :: "fixture_facts option"
  ht_failure_reason :: go_string

record health_result =
  hr_observed_at :: instant
  hr_generation :: int
  hr_provider_policy :: mutation_policy
  hr_requested :: nat
  hr_usable :: nat
  hr_failed_attempts :: int
  hr_unavailable_ids :: "int list"
  hr_restricted_ids :: "int list"
  hr_stalled_ids :: "int list"
  hr_boundary_ids :: "int list"
  hr_correlation :: health_correlation
  hr_transitions :: "health_transition list"
  hr_ignored :: bool

definition zero_transition :: health_transition where
  "zero_transition = \<lparr> ht_fixture_id = 0, ht_cause = CauseUnset, ht_started_at = 0,
     ht_resolved = False, ht_last_credible_at = 0, ht_availability = AvailabilityOther '''',
     ht_missing_event_keys = [], ht_baseline = None, ht_observed = None, ht_failure_reason = '''' \<rparr>"

section \<open>The clock of one fixture\<close>

definition clock_facts :: "fixture_health \<Rightarrow> fixture_facts" where
  "clock_facts s = zero_facts\<lparr> ff_fixture_id := fh_fixture_id s, ff_status := fh_clock_status s,
     ff_elapsed := fh_clock_elapsed s, ff_extra := fh_clock_extra s \<rparr>"

definition observe_phase :: "fixture_health \<Rightarrow> instant \<Rightarrow> fixture_facts \<Rightarrow> fixture_health" where
  "observe_phase s at facts =
     (if fh_observed_status s \<noteq> ff_status facts
      then s\<lparr> fh_observed_status := ff_status facts, fh_continuous_since := at, fh_phase_since := at \<rparr>
      else s)"

definition restart_continuity :: "fixture_health \<Rightarrow> instant \<Rightarrow> bool \<Rightarrow> fixture_health" where
  "restart_continuity s at interrupted =
     (if fh_last_usable_at s = 0 \<or> fh_continuous_since s = 0 \<or>
         time_sub at (fh_last_usable_at s) > observation_gap_limit \<or> interrupted
      then s\<lparr> fh_continuous_since := at \<rparr> else s)"

definition clock_accepts :: "fixture_health \<Rightarrow> fixture_facts \<Rightarrow> bool" where
  "clock_accepts s facts \<longleftrightarrow>
     fh_clock_status s = '''' \<or>
     (phase_rank (fh_clock_status s) = None \<and> phase_rank (ff_status facts) \<noteq> None) \<or>
     (fh_clock_status s = ff_status facts \<and> fh_clock_elapsed s = None \<and> ff_elapsed facts \<noteq> None) \<or>
     clock_progressed (clock_facts s) facts"

definition accept_clock :: "fixture_health \<Rightarrow> instant \<Rightarrow> fixture_facts \<Rightarrow> fixture_health" where
  "accept_clock s at facts =
     (if clock_accepts s facts
      then (if fh_clock_status s \<noteq> ff_status facts then s\<lparr> fh_continuous_since := at \<rparr> else s)
           \<lparr> fh_clock_status := ff_status facts, fh_clock_elapsed := ff_elapsed facts,
             fh_clock_extra := ff_extra facts, fh_clock_progress_at := at \<rparr>
      else s)"

definition advance_clock :: "fixture_health \<Rightarrow> instant \<Rightarrow> health_observation \<Rightarrow> fixture_health" where
  "advance_clock s at ob =
     (let facts = fc_observed (ob_comparison ob);
          s1 = accept_clock (restart_continuity (observe_phase s at facts) at (ob_interrupted ob)) at facts
      in if ff_status facts \<noteq> fh_clock_status s1 \<or> ff_elapsed facts = None
         then s1\<lparr> fh_continuous_since := at \<rparr> else s1)"

section \<open>Incidents of one fixture\<close>

definition poll_probe :: "health_poll \<Rightarrow> health_observation \<Rightarrow> fixture_health_probe" where
  "poll_probe poll ob =
     \<lparr> fp_id = hp_id poll, fp_at = hp_at poll,
       fp_usable = (ob_availability ob = AvailabilityUsable \<and> \<not> ob_interrupted ob),
       fp_facts = zero_facts\<lparr> ff_fixture_id := ob_fixture_id ob,
         ff_status := ff_status (fc_observed (ob_comparison ob)),
         ff_elapsed := ff_elapsed (fc_observed (ob_comparison ob)),
         ff_extra := ff_extra (fc_observed (ob_comparison ob)) \<rparr> \<rparr>"

definition incident_comparison :: "health_observation \<Rightarrow> health_incident \<Rightarrow> fixture_comparison" where
  "incident_comparison ob incident =
     (ob_comparison ob)\<lparr> fc_stored := hi_baseline incident,
       fc_confirmed_events := hi_confirmed_events incident,
       fc_stored_events := hi_stored_events incident \<rparr>"

definition reason_still_holds :: "health_cause \<Rightarrow> reason list \<Rightarrow> bool" where
  "reason_still_holds cause reasons = (case cause of CauseReason r \<Rightarrow> r \<in> set reasons | _ \<Rightarrow> False)"

text \<open>The incident after this poll, and whether the poll resolved it.\<close>

definition assess_incident ::
  "health_poll \<Rightarrow> health_observation \<Rightarrow> health_incident \<Rightarrow> health_incident \<times> bool" where
  "assess_incident poll ob incident =
     (let usable = (ob_availability ob = AvailabilityUsable)
      in if hi_cause incident = CauseUnavailable then (incident, usable)
         else if hi_cause incident = CauseClockStalled \<or> hi_cause incident = CauseBoundaryWarning
         then (let incident' = incident\<lparr> hi_probes :=
                     list_keep_last max_recovery_probes (hi_probes incident @ [poll_probe poll ob]) \<rparr>
               in (incident', freshness_recovered (hi_baseline incident') (hi_probes incident')))
         else (incident, usable \<and> \<not> reason_still_holds (hi_cause incident)
                 (fv_reasons (assess_fixture (incident_comparison ob incident)))))"

definition resolved_transition :: "int \<Rightarrow> health_incident \<Rightarrow> health_transition" where
  "resolved_transition fixture_id incident =
     zero_transition\<lparr> ht_fixture_id := fixture_id, ht_cause := hi_cause incident,
       ht_started_at := hi_started_at incident, ht_resolved := True,
       ht_last_credible_at := hi_last_credible_at incident \<rparr>"

fun settle_incidents ::
  "int \<Rightarrow> health_poll \<Rightarrow> health_observation \<Rightarrow> health_incident list \<Rightarrow>
   health_incident list \<times> health_transition list" where
  "settle_incidents fid poll ob [] = ([], [])"
| "settle_incidents fid poll ob (incident # incidents) =
     (let (incident', resolved) = assess_incident poll ob incident;
          (retained, transitions) = settle_incidents fid poll ob incidents
      in if resolved then (retained, resolved_transition fid incident' # transitions)
         else (incident' # retained, transitions))"

definition open_incident ::
  "fixture_health \<Rightarrow> health_poll \<Rightarrow> health_observation \<Rightarrow> instant \<Rightarrow>
   health_cause \<Rightarrow> mutation_policy \<Rightarrow> fixture_facts \<Rightarrow> event_fact list \<Rightarrow>
   health_incident list \<times> health_transition list \<Rightarrow> health_incident list \<times> health_transition list" where
  "open_incident s poll ob previous_usable cause policy baseline events st =
     (if cause \<in> set (map hi_cause (fst st)) then st
      else
        let usable = (ob_availability ob = AvailabilityUsable);
            observed = fc_observed (ob_comparison ob);
            credible = (if cause = CauseUnavailable then previous_usable
                        else if cause = CauseClockStalled \<or> cause = CauseBoundaryWarning
                        then fh_clock_progress_at s else 0);
            incident = \<lparr> hi_cause = cause, hi_started_at = hp_at poll, hi_last_credible_at = credible,
              hi_policy = policy, hi_baseline = baseline,
              hi_stored_events = fc_stored_events (ob_comparison ob),
              hi_confirmed_events = events, hi_probes = [] \<rparr>;
            transition = zero_transition\<lparr> ht_fixture_id := fh_fixture_id s, ht_cause := cause,
              ht_started_at := hp_at poll, ht_last_credible_at := credible,
              ht_availability := ob_availability ob, ht_failure_reason := ob_failure_reason ob,
              ht_missing_event_keys :=
                (if cause = CauseReason ReasonConfirmedEventsMissing
                 then map ef_key (missing_events events (fc_observed_events (ob_comparison ob))) else []),
              ht_baseline := (if usable then Some baseline else None),
              ht_observed := (if usable then Some observed else None) \<rparr>
        in (fst st @ [incident], snd st @ [transition]))"

text \<open>The evidence cursors of \<open>ObserveFixture\<close>, before incidents are looked at.\<close>

definition observe_cursors :: "fixture_health \<Rightarrow> health_poll \<Rightarrow> health_observation \<Rightarrow> fixture_health" where
  "observe_cursors s poll ob =
     (let previous_usable = fh_last_usable_at s;
          ev0 = (if fhe_version (fh_evidence s) = 0
                 then (fh_evidence s)\<lparr> fhe_version := health_evidence_version \<rparr> else fh_evidence s);
          s0 = s\<lparr> fh_evidence := ev0 \<rparr>;
          s1 = (if ob_availability ob = AvailabilityUsable
                then (let c = advance_clock s0 (hp_at poll) ob;
                          fresh = fr_state (assess_freshness
                            \<lparr> fe_facts = fc_observed (ob_comparison ob), fe_observed_at = hp_at poll,
                              fe_previous_usable_at = previous_usable,
                              fe_continuous_since = fh_continuous_since c,
                              fe_clock_progress_at = fh_clock_progress_at c, fe_usable = True \<rparr>)
                      in c\<lparr> fh_evidence := (fh_evidence c)\<lparr> fhe_freshness := fresh \<rparr>,
                            fh_last_usable_at := hp_at poll \<rparr>)
                else s0\<lparr> fh_continuous_since := 0,
                         fh_evidence := ev0\<lparr> fhe_freshness := FreshnessUnknown \<rparr> \<rparr>)
      in s1\<lparr> fh_evidence := (fh_evidence s1)\<lparr> fhe_availability := ob_availability ob,
                fhe_failure_reason := ob_failure_reason ob \<rparr>,
              fh_last_poll_id := hp_id poll, fh_last_observed_at := hp_at poll \<rparr>)"

definition open_freshness ::
  "fixture_health \<Rightarrow> health_poll \<Rightarrow> health_observation \<Rightarrow> instant \<Rightarrow>
   health_incident list \<times> health_transition list \<Rightarrow> health_incident list \<times> health_transition list" where
  "open_freshness s poll ob previous st =
     (case fhe_freshness (fh_evidence s) of
        FreshnessStalled \<Rightarrow>
          open_incident s poll ob previous CauseClockStalled PolicyPositiveOnly (clock_facts s) [] st
      | FreshnessBoundaryWarning \<Rightarrow>
          open_incident s poll ob previous CauseBoundaryWarning PolicyTrusted (clock_facts s) [] st
      | _ \<Rightarrow> st)"

definition reason_policy :: "reason \<Rightarrow> mutation_policy" where
  "reason_policy r = (if r = ReasonFixtureIdentityChanged then PolicyRejected else PolicyPositiveOnly)"

definition open_reasons ::
  "fixture_health \<Rightarrow> health_poll \<Rightarrow> health_observation \<Rightarrow> instant \<Rightarrow> reason list \<Rightarrow>
   health_incident list \<times> health_transition list \<Rightarrow> health_incident list \<times> health_transition list" where
  "open_reasons s poll ob previous reasons st =
     foldl (\<lambda>st r. open_incident s poll ob previous (CauseReason r) (reason_policy r)
              (fc_stored (ob_comparison ob)) (fc_confirmed_events (ob_comparison ob)) st) st reasons"

definition observe_fixture ::
  "fixture_health \<Rightarrow> health_poll \<Rightarrow> health_observation \<Rightarrow> fixture_health \<times> health_transition list" where
  "observe_fixture s poll ob =
     (if \<not> hp_at poll > fh_last_observed_at s \<or> hp_id poll = fh_last_poll_id s then (s, [])
      else
        let previous = fh_last_usable_at s;
            s1 = observe_cursors s poll ob;
            settled = settle_incidents (fh_fixture_id s1) poll ob (fhe_incidents (fh_evidence s1));
            opened =
              (if ob_availability ob \<noteq> AvailabilityUsable
               then open_incident s1 poll ob previous CauseUnavailable PolicyRejected zero_facts [] settled
               else open_reasons s1 poll ob previous
                      (fv_reasons (assess_fixture (ob_comparison ob)))
                      (open_freshness s1 poll ob previous settled))
        in (s1\<lparr> fh_evidence := (fh_evidence s1)\<lparr> fhe_incidents := fst opened \<rparr> \<rparr>, snd opened))"

definition fixture_health_policy :: "fixture_health \<Rightarrow> mutation_policy" where
  "fixture_health_policy s =
     foldl (\<lambda>policy incident. restrict_policies [policy, hi_policy incident]) PolicyTrusted
       (fhe_incidents (fh_evidence s))"

section \<open>The provider cursor\<close>

definition cause_family :: "health_cause \<Rightarrow> health_cause" where
  "cause_family cause =
     (if cause = CauseUnavailable \<or> cause = CauseClockStalled \<or> cause = CauseBoundaryWarning
      then cause else CauseIntegrityConflict)"

definition fixture_has_family :: "fixture_health list \<Rightarrow> int \<Rightarrow> health_cause \<Rightarrow> bool" where
  "fixture_has_family fixtures fid family \<longleftrightarrow>
     list_ex (\<lambda>f. fh_fixture_id f = fid \<and>
       list_ex (\<lambda>i. cause_family (hi_cause i) = family) (fhe_incidents (fh_evidence f))) fixtures"

definition incident_ids :: "fixture_health list \<Rightarrow> health_cause \<Rightarrow> int list" where
  "incident_ids fixtures cause =
     concat (map (\<lambda>f. map (\<lambda>_. fh_fixture_id f)
       (filter (\<lambda>i. hi_cause i = cause) (fhe_incidents (fh_evidence f)))) fixtures)"

definition family_onset :: "fixture_health list \<Rightarrow> health_transition \<Rightarrow> health_cause \<Rightarrow> instant" where
  "family_onset fixtures t family =
     foldl (\<lambda>onset f.
       if fh_fixture_id f \<noteq> ht_fixture_id t then onset
       else foldl (\<lambda>onset i. if cause_family (hi_cause i) = family \<and> hi_started_at i < onset
                             then hi_started_at i else onset) onset (fhe_incidents (fh_evidence f)))
       (ht_started_at t) fixtures"

definition close_episodes :: "instant \<Rightarrow> int \<Rightarrow> health_cause \<Rightarrow> health_episode list \<Rightarrow> health_episode list" where
  "close_episodes at fid family recent =
     map (\<lambda>e. if he_fixture_id e = fid \<and> he_cause e = family then e\<lparr> he_resolved_at := at \<rparr> else e) recent"

text \<open>One transition of the correlation loop; the state is the recent episodes and whether a new
  conflict was seen.\<close>

definition correlate_transition ::
  "instant \<Rightarrow> fixture_health list \<Rightarrow> health_episode list \<times> bool \<Rightarrow> health_transition \<Rightarrow>
   health_episode list \<times> bool" where
  "correlate_transition at fixtures st t =
     (let family = cause_family (ht_cause t)
      in if family = CauseUnavailable \<or> family = CauseBoundaryWarning then st
         else if ht_resolved t
         then (if fixture_has_family fixtures (ht_fixture_id t) family then st
               else (close_episodes at (ht_fixture_id t) family (fst st), snd st))
         else if family_onset fixtures t family \<noteq> at then st
         else (let episode = \<lparr> he_fixture_id = ht_fixture_id t, he_cause = family,
                     he_started_at = family_onset fixtures t family, he_resolved_at = 0 \<rparr>
               in (if episode \<in> set (fst st) then fst st else fst st @ [episode],
                   snd st \<or> family = CauseIntegrityConflict)))"

definition trip_circuit ::
  "provider_health \<Rightarrow> health_poll \<Rightarrow> provider_health \<times> health_transition list" where
  "trip_circuit s poll =
     (let (s1, ts) =
        (if ph_policy s \<noteq> PolicyPositiveOnly
         then (s\<lparr> ph_generation := ph_generation s + 1,
                  ph_evidence := (ph_evidence s)\<lparr> phe_incident_at := hp_at poll \<rparr> \<rparr>,
               [zero_transition\<lparr> ht_cause := CauseIntegrityConflict, ht_started_at := hp_at poll \<rparr>])
         else (s, []))
      in (s1\<lparr> ph_policy := PolicyPositiveOnly,
              ph_evidence := (ph_evidence s1)\<lparr> phe_probes := [] \<rparr> \<rparr>, ts))"

definition probe_circuit ::
  "provider_health \<Rightarrow> provider_health_probe \<Rightarrow> provider_health \<times> health_transition list" where
  "probe_circuit s probe =
     (let probes = list_keep_last 3 (phe_probes (ph_evidence s) @ [probe])
      in if provider_integrity_recovered probes
         then (s\<lparr> ph_generation := ph_generation s + 1, ph_policy := PolicyTrusted,
                  ph_evidence := \<lparr> phe_version = health_evidence_version,
                     phe_recent = phe_recent (ph_evidence s), phe_incident_at = 0, phe_probes = [] \<rparr> \<rparr>,
               [zero_transition\<lparr> ht_cause := CauseIntegrityConflict,
                  ht_started_at := phe_incident_at (ph_evidence s), ht_resolved := True \<rparr>])
         else (s\<lparr> ph_evidence := (ph_evidence s)\<lparr> phe_probes := probes \<rparr> \<rparr>, []))"

definition observe_provider ::
  "provider_health \<Rightarrow> health_poll \<Rightarrow> fixture_health list \<Rightarrow> health_transition list \<Rightarrow>
   provider_health \<times> health_result" where
  "observe_provider s poll fixtures transitions =
     (let s0 = s\<lparr> ph_policy := (if ph_policy s = PolicyOther '''' then PolicyTrusted else ph_policy s),
                  ph_evidence := (ph_evidence s)\<lparr> phe_version := health_evidence_version \<rparr> \<rparr>;
          obs = hp_observations poll;
          usable = length (filter (\<lambda>ob. ob_availability ob = AvailabilityUsable) obs);
          kept = filter (\<lambda>e. time_sub (hp_at poll) (he_started_at e) \<le> correlation_window)
                   (phe_recent (ph_evidence s0));
          (recent, new_conflict) = foldl (correlate_transition (hp_at poll) fixtures) (kept, False) transitions;
          s1 = s0\<lparr> ph_evidence := (ph_evidence s0)\<lparr> phe_recent := recent \<rparr> \<rparr>;
          correlation = correlate_health (hp_at poll) recent;
          new_systemic = (new_conflict \<and> hc_policy correlation = PolicyPositiveOnly);
          (s2, tripped) = (if new_systemic then trip_circuit s1 poll else (s1, []));
          probe = \<lparr> pp_id = hp_id poll, pp_at = hp_at poll,
                    pp_complete = (usable = length obs \<and> list_all (\<lambda>ob. \<not> ob_interrupted ob) obs),
                    pp_new_systemic_anomaly = new_systemic, pp_new_affected_fixture = new_conflict \<rparr>;
          (s3, closed) = (if ph_policy s2 = PolicyPositiveOnly then probe_circuit s2 probe else (s2, []));
          s4 = s3\<lparr> ph_last_observed_at := hp_at poll \<rparr>
      in (s4, \<lparr> hr_observed_at = hp_at poll, hr_generation = ph_generation s4,
           hr_provider_policy = ph_policy s4, hr_requested = length obs, hr_usable = usable,
           hr_failed_attempts = 0,
           hr_unavailable_ids = sort (map ob_fixture_id
             (filter (\<lambda>ob. ob_availability ob \<noteq> AvailabilityUsable) obs)),
           hr_restricted_ids = sort (map fh_fixture_id
             (filter (\<lambda>f. fixture_health_policy f \<noteq> PolicyTrusted) fixtures)),
           hr_stalled_ids = sort (incident_ids fixtures CauseClockStalled),
           hr_boundary_ids = sort (incident_ids fixtures CauseBoundaryWarning),
           hr_correlation = correlation, hr_transitions = transitions @ tripped @ closed,
           hr_ignored = False \<rparr>))"

section \<open>Reachable fixture evidence\<close>

text \<open>Evidence starts from the zero record of \<open>loadFixtureHealth\<close> and advances one poll at a time.\<close>

definition new_fixture_health :: "int \<Rightarrow> fixture_health" where
  "new_fixture_health fid = \<lparr> fh_fixture_id = fid, fh_last_poll_id = '''', fh_last_observed_at = 0,
     fh_last_usable_at = 0, fh_continuous_since = 0, fh_clock_progress_at = 0, fh_phase_since = 0,
     fh_observed_status = '''', fh_clock_status = '''', fh_clock_elapsed = None,
     fh_clock_extra = None,
     fh_evidence = \<lparr> fhe_version = 0, fhe_availability = AvailabilityOther '''',
       fhe_failure_reason = '''', fhe_freshness = FreshnessUnset, fhe_incidents = [] \<rparr> \<rparr>"

inductive health_reachable :: "fixture_health \<Rightarrow> bool" where
  health_initial: "health_reachable (new_fixture_health fid)"
| health_observed: "health_reachable s \<Longrightarrow> health_reachable (fst (observe_fixture s poll ob))"

definition cause_policy :: "health_cause \<Rightarrow> mutation_policy option" where
  "cause_policy cause =
     (case cause of
        CauseUnavailable \<Rightarrow> Some PolicyRejected
      | CauseClockStalled \<Rightarrow> Some PolicyPositiveOnly
      | CauseBoundaryWarning \<Rightarrow> Some PolicyTrusted
      | CauseReason r \<Rightarrow> Some (reason_policy r)
      | CauseIntegrityConflict \<Rightarrow> None
      | CauseUnset \<Rightarrow> None)"

definition incidents_ok :: "health_incident list \<Rightarrow> bool" where
  "incidents_ok incidents \<longleftrightarrow> distinct (map hi_cause incidents) \<and>
     (\<forall>i\<in>set incidents. cause_policy (hi_cause i) = Some (hi_policy i) \<and>
        length (hi_probes i) \<le> max_recovery_probes)"

lemma assess_incident_keeps [step_simps]:
  "hi_cause (fst (assess_incident poll ob i)) = hi_cause i"
  "hi_policy (fst (assess_incident poll ob i)) = hi_policy i"
  "length (hi_probes i) \<le> max_recovery_probes \<Longrightarrow>
     length (hi_probes (fst (assess_incident poll ob i))) \<le> max_recovery_probes"
  by (auto simp: assess_incident_def Let_def)

lemma settle_incidents_retained:
  "fst (settle_incidents fid poll ob is) =
     map (\<lambda>i. fst (assess_incident poll ob i)) (filter (\<lambda>i. \<not> snd (assess_incident poll ob i)) is)"
  by (induction "is") (auto simp: Let_def split: prod.splits)

lemma settle_incidents_ok:
  assumes "incidents_ok is"
  shows "incidents_ok (fst (settle_incidents fid poll ob is))"
proof -
  have "distinct (map hi_cause is) \<Longrightarrow>
      distinct (map hi_cause (map (\<lambda>i. fst (assess_incident poll ob i))
        (filter (\<lambda>i. \<not> snd (assess_incident poll ob i)) is)))"
    by (simp add: comp_def step_simps distinct_map_filter)
  with assms show ?thesis
    by (auto simp: incidents_ok_def settle_incidents_retained step_simps)
qed

lemma open_incident_ok:
  assumes "incidents_ok (fst st)" "cause_policy cause = Some policy"
  shows "incidents_ok (fst (open_incident s poll ob pu cause policy base evs st))"
  using assms by (auto simp: incidents_ok_def open_incident_def Let_def)

lemma open_freshness_ok:
  "incidents_ok (fst st) \<Longrightarrow> incidents_ok (fst (open_freshness s poll ob pu st))"
  by (simp add: open_freshness_def open_incident_ok cause_policy_def split: freshness.split)

lemma open_reasons_ok:
  "incidents_ok (fst st) \<Longrightarrow> incidents_ok (fst (open_reasons s poll ob pu rs st))"
  unfolding open_reasons_def
  by (rule foldl_invariant [where P = "\<lambda>st. incidents_ok (fst st)"])
    (auto intro: open_incident_ok simp: cause_policy_def)

lemma advance_clock_evidence [step_simps]:
  "fh_evidence (advance_clock s at ob) = fh_evidence s"
  "fh_fixture_id (advance_clock s at ob) = fh_fixture_id s"
  "fh_last_poll_id (advance_clock s at ob) = fh_last_poll_id s"
  "fh_last_observed_at (advance_clock s at ob) = fh_last_observed_at s"
  "fh_last_usable_at (advance_clock s at ob) = fh_last_usable_at s"
  by (simp_all add: advance_clock_def accept_clock_def restart_continuity_def observe_phase_def Let_def)

lemma observe_cursors_fields [step_simps]:
  "fhe_incidents (fh_evidence (observe_cursors s poll ob)) = fhe_incidents (fh_evidence s)"
  "fh_fixture_id (observe_cursors s poll ob) = fh_fixture_id s"
  "fh_last_poll_id (observe_cursors s poll ob) = hp_id poll"
  "fh_last_observed_at (observe_cursors s poll ob) = hp_at poll"
  by (simp_all add: observe_cursors_def Let_def step_simps)

lemma observe_fixture_ignored:
  "\<not> hp_at poll > fh_last_observed_at s \<or> hp_id poll = fh_last_poll_id s \<Longrightarrow>
   observe_fixture s poll ob = (s, [])"
  by (simp add: observe_fixture_def)

lemma observe_fixture_ok:
  assumes "incidents_ok (fhe_incidents (fh_evidence s))"
  shows "incidents_ok (fhe_incidents (fh_evidence (fst (observe_fixture s poll ob))))"
proof (cases "\<not> hp_at poll > fh_last_observed_at s \<or> hp_id poll = fh_last_poll_id s")
  case True
  with assms show ?thesis by (simp add: observe_fixture_ignored)
next
  case False
  have settled: "incidents_ok (fst (settle_incidents fid poll ob (fhe_incidents (fh_evidence s))))" for fid
    by (rule settle_incidents_ok [OF assms])
  have unavailable: "cause_policy CauseUnavailable = Some PolicyRejected"
    by (simp add: cause_policy_def)
  from False show ?thesis
    by (simp add: observe_fixture_def Let_def step_simps open_incident_ok [OF settled unavailable]
        open_reasons_ok [OF open_freshness_ok [OF settled]])
qed

lemma health_reachable_ok: "health_reachable s \<Longrightarrow> incidents_ok (fhe_incidents (fh_evidence s))"
proof (induction rule: health_reachable.induct)
  case (health_initial fid)
  then show ?case by (simp add: new_fixture_health_def incidents_ok_def)
next
  case (health_observed s poll ob)
  then show ?case by (simp add: observe_fixture_ok)
qed

section \<open>Properties of fixture evidence\<close>

lemma fixture_health_policy_eq:
  "fixture_health_policy s = restrict_policies (map hi_policy (fhe_incidents (fh_evidence s)))"
proof -
  have "PolicyTrusted = restrict_policies []" by (simp add: restrict_policies_def)
  then show ?thesis
    using policies.fold_pairwise [of "[]" "map hi_policy (fhe_incidents (fh_evidence s))"]
    by (simp add: fixture_health_policy_def foldl_map)
qed

lemma restrict_from_cases:
  assumes "\<forall>p\<in>set ps. policy_valid p"
  shows "restrict_from r ps = (if PolicyRejected \<in> set ps then PolicyRejected
           else if PolicyPositiveOnly \<in> set ps then PolicyPositiveOnly else r)"
  using assms
proof (induction ps arbitrary: r)
  case Nil
  then show ?case by simp
next
  case (Cons p ps)
  then show ?case by (cases p) auto
qed

text \<open>C32: the evidence kept for a fixture, however many polls it has seen, holds at most one
  unresolved incident per cause, each with the policy its cause prescribes and at most 32
  recovery probes; the fixture is rejected exactly while it is unavailable or its identity
  changed, restricted exactly while a stalled clock or another anomaly is unresolved, and
  trusted otherwise, boundary warnings included.\<close>

theorem fixture_incidents_wellformed:
  assumes "health_reachable s"
  defines "causes \<equiv> hi_cause ` set (fhe_incidents (fh_evidence s))"
  shows "incidents_ok (fhe_incidents (fh_evidence s)) \<and>
     fixture_health_policy s =
       (if CauseUnavailable \<in> causes \<or> CauseReason ReasonFixtureIdentityChanged \<in> causes then PolicyRejected
        else if CauseClockStalled \<in> causes \<or> (\<exists>r. CauseReason r \<in> causes) then PolicyPositiveOnly
        else PolicyTrusted)"
proof
  let ?is = "fhe_incidents (fh_evidence s)"
  show ok: "incidents_ok ?is" by (rule health_reachable_ok [OF assms(1)])
  then have policy: "i \<in> set ?is \<Longrightarrow> cause_policy (hi_cause i) = Some (hi_policy i)" for i
    by (simp add: incidents_ok_def)
  have known: "policy_valid p" if "cause_policy c = Some p" for c p
    using that by (auto simp: cause_policy_def reason_policy_def split: health_cause.splits if_splits)
  have rejected: "PolicyRejected \<in> hi_policy ` set ?is \<longleftrightarrow>
      CauseUnavailable \<in> causes \<or> CauseReason ReasonFixtureIdentityChanged \<in> causes"
  proof -
    have "hi_policy i = PolicyRejected \<longleftrightarrow>
        hi_cause i = CauseUnavailable \<or> hi_cause i = CauseReason ReasonFixtureIdentityChanged"
      if "i \<in> set ?is" for i
      using policy [OF that]
      by (auto simp: cause_policy_def reason_policy_def split: health_cause.splits if_splits)
    then show ?thesis unfolding causes_def image_hits by blast
  qed
  have positive: "PolicyPositiveOnly \<in> hi_policy ` set ?is \<longleftrightarrow>
      CauseClockStalled \<in> causes \<or> (\<exists>r. r \<noteq> ReasonFixtureIdentityChanged \<and> CauseReason r \<in> causes)"
  proof -
    have "hi_policy i = PolicyPositiveOnly \<longleftrightarrow>
        hi_cause i = CauseClockStalled \<or> (\<exists>r. r \<noteq> ReasonFixtureIdentityChanged \<and> hi_cause i = CauseReason r)"
      if "i \<in> set ?is" for i
      using policy [OF that]
      by (auto simp: cause_policy_def reason_policy_def split: health_cause.splits if_splits)
    then show ?thesis unfolding causes_def image_hits by blast
  qed
  have "restrict_policies (map hi_policy ?is) =
      (if PolicyRejected \<in> hi_policy ` set ?is then PolicyRejected
       else if PolicyPositiveOnly \<in> hi_policy ` set ?is then PolicyPositiveOnly else PolicyTrusted)"
    unfolding restrict_policies_def using known policy by (subst restrict_from_cases) auto
  then show "fixture_health_policy s =
       (if CauseUnavailable \<in> causes \<or> CauseReason ReasonFixtureIdentityChanged \<in> causes then PolicyRejected
        else if CauseClockStalled \<in> causes \<or> (\<exists>r. CauseReason r \<in> causes) then PolicyPositiveOnly
        else PolicyTrusted)"
    unfolding fixture_health_policy_eq rejected positive by (auto, metis)
qed

definition unavailable_observation :: "int \<Rightarrow> health_observation" where
  "unavailable_observation fid = \<lparr> ob_fixture_id = fid, ob_availability = AvailabilityTransport,
     ob_failure_reason = ''timeout'', ob_interrupted = False, ob_baseline_last_polled = None,
     ob_comparison = \<lparr> fc_stored = zero_facts, fc_observed = zero_facts, fc_stored_events = [],
       fc_confirmed_events = [], fc_observed_events = [] \<rparr> \<rparr>"

definition usable_observation :: "int \<Rightarrow> fixture_facts \<Rightarrow> health_observation" where
  "usable_observation elapsed stored = \<lparr> ob_fixture_id = 9, ob_availability = AvailabilityUsable,
     ob_failure_reason = '''', ob_interrupted = False, ob_baseline_last_polled = None,
     ob_comparison = \<lparr> fc_stored = stored, fc_observed = sample_facts elapsed 1 0,
       fc_stored_events = [], fc_confirmed_events = [], fc_observed_events = [goal_fact ''k1'' 1 20] \<rparr> \<rparr>"

definition sample_poll :: "go_string \<Rightarrow> int \<Rightarrow> health_observation list \<Rightarrow> health_poll" where
  "sample_poll ident second obs = \<lparr> hp_id = ident, hp_at = seconds second, hp_observations = obs \<rparr>"

theorem fixture_incidents_wellformed_witness:
  "fixture_health_policy (fst (observe_fixture (new_fixture_health 9)
     (sample_poll ''a'' 60 []) (unavailable_observation 9))) = PolicyRejected"
proof -
  let ?s = "fst (observe_fixture (new_fixture_health 9) (sample_poll ''a'' 60 []) (unavailable_observation 9))"
  have "CauseUnavailable \<in> set (map hi_cause (fhe_incidents (fh_evidence ?s)))" by code_simp
  moreover have "health_reachable ?s" by (intro health_reachable.intros)
  ultimately show ?thesis using fixture_incidents_wellformed [of ?s] by simp
qed

text \<open>A fixture consumes a poll at most once: after a poll, the same poll, or any poll that is
  not newer, changes nothing and reports nothing, whatever it carries.\<close>

theorem observe_fixture_idempotent:
  "observe_fixture (fst (observe_fixture s poll ob)) poll ob' = (fst (observe_fixture s poll ob), []) \<and>
   (hp_at late \<le> fh_last_observed_at s \<longrightarrow> observe_fixture s late ob = (s, [])) \<and>
   fh_last_observed_at s \<le> fh_last_observed_at (fst (observe_fixture s poll ob))"
proof (cases "\<not> hp_at poll > fh_last_observed_at s \<or> hp_id poll = fh_last_poll_id s")
  case True
  then show ?thesis by (auto simp: observe_fixture_ignored)
next
  case False
  then have "fh_last_poll_id (fst (observe_fixture s poll ob)) = hp_id poll"
    "fh_last_observed_at (fst (observe_fixture s poll ob)) = hp_at poll"
    by (simp_all add: observe_fixture_def Let_def step_simps)
  with False show ?thesis by (auto simp: observe_fixture_ignored)
qed

theorem observe_fixture_idempotent_witness:
  "observe_fixture (new_fixture_health 9) (sample_poll ''a'' 0 []) (unavailable_observation 9) =
     (new_fixture_health 9, [])"
  using observe_fixture_idempotent [of "new_fixture_health 9" undefined "unavailable_observation 9" undefined
      "sample_poll ''a'' 0 []"]
  by (simp add: new_fixture_health_def sample_poll_def seconds_def)

section \<open>No cause is cleared by another\<close>

lemma open_incident_appends: "\<exists>more. fst (open_incident s poll ob pu cause policy base evs st) = fst st @ more"
  by (simp add: open_incident_def Let_def)

lemma open_freshness_appends: "\<exists>more. fst (open_freshness s poll ob pu st) = fst st @ more"
  using open_incident_appends by (simp add: open_freshness_def split: freshness.split)

lemma open_reasons_appends: "\<exists>more. fst (open_reasons s poll ob pu rs st) = fst st @ more"
proof (induction rs arbitrary: st)
  case Nil
  then show ?case by (simp add: open_reasons_def)
next
  case (Cons r rs)
  then show ?case
    by (simp add: open_reasons_def)
      (metis append_assoc open_incident_appends)
qed

lemma observe_fixture_settles:
  assumes "hp_at poll > fh_last_observed_at s" "hp_id poll \<noteq> fh_last_poll_id s"
  shows "\<exists>more. fhe_incidents (fh_evidence (fst (observe_fixture s poll ob))) =
     fst (settle_incidents (fh_fixture_id s) poll ob (fhe_incidents (fh_evidence s))) @ more"
proof -
  note appends = open_incident_appends open_reasons_appends open_freshness_appends
  show ?thesis
  proof (cases "ob_availability ob = AvailabilityUsable")
    case True
    with assms show ?thesis
      by (simp add: observe_fixture_def Let_def step_simps) (metis append_assoc appends(2,3))
  next
    case False
    with assms show ?thesis
      by (simp add: observe_fixture_def Let_def step_simps appends(1))
  qed
qed

text \<open>When a poll resolves an incident, by the rule of its own cause.\<close>

definition resolved_by_own_rule :: "health_poll \<Rightarrow> health_observation \<Rightarrow> health_incident \<Rightarrow> bool" where
  "resolved_by_own_rule poll ob i \<longleftrightarrow>
     (case hi_cause i of
        CauseUnavailable \<Rightarrow> ob_availability ob = AvailabilityUsable
      | CauseClockStalled \<Rightarrow> freshness_recovered (hi_baseline i)
          (list_keep_last max_recovery_probes (hi_probes i @ [poll_probe poll ob]))
      | CauseBoundaryWarning \<Rightarrow> freshness_recovered (hi_baseline i)
          (list_keep_last max_recovery_probes (hi_probes i @ [poll_probe poll ob]))
      | CauseReason r \<Rightarrow> ob_availability ob = AvailabilityUsable \<and>
          r \<notin> set (fv_reasons (assess_fixture (incident_comparison ob i)))
      | _ \<Rightarrow> ob_availability ob = AvailabilityUsable)"

lemma assess_incident_resolves: "snd (assess_incident poll ob i) \<longleftrightarrow> resolved_by_own_rule poll ob i"
  by (auto simp: assess_incident_def resolved_by_own_rule_def reason_still_holds_def Let_def
      split: health_cause.splits)

lemma assess_incident_baseline [step_simps]:
  "hi_baseline (fst (assess_incident poll ob i)) = hi_baseline i"
  "hi_started_at (fst (assess_incident poll ob i)) = hi_started_at i"
  "hi_confirmed_events (fst (assess_incident poll ob i)) = hi_confirmed_events i"
  by (auto simp: assess_incident_def Let_def)

text \<open>A poll never clears one cause because another recovered: every unresolved incident that a
  fresh poll does not resolve by the rule of its own cause, measured against its own retained
  baseline, is still there afterwards with the same cause, policy, start and baseline.\<close>

theorem incident_survives_until_its_own_recovery:
  assumes "i \<in> set (fhe_incidents (fh_evidence s))"
    and "\<not> resolved_by_own_rule poll ob i"
  shows "\<exists>j\<in>set (fhe_incidents (fh_evidence (fst (observe_fixture s poll ob)))).
     hi_cause j = hi_cause i \<and> hi_policy j = hi_policy i \<and> hi_started_at j = hi_started_at i \<and>
     hi_baseline j = hi_baseline i \<and> hi_confirmed_events j = hi_confirmed_events i"
proof (cases "hp_at poll > fh_last_observed_at s \<and> hp_id poll \<noteq> fh_last_poll_id s")
  case False
  with assms show ?thesis by (intro bexI [of _ i]) (auto simp: observe_fixture_ignored)
next
  case True
  let ?j = "fst (assess_incident poll ob i)"
  have "?j \<in> set (fst (settle_incidents (fh_fixture_id s) poll ob (fhe_incidents (fh_evidence s))))"
    using assms by (auto simp: settle_incidents_retained assess_incident_resolves)
  with True observe_fixture_settles [of s poll ob]
  have "?j \<in> set (fhe_incidents (fh_evidence (fst (observe_fixture s poll ob))))" by auto
  then show ?thesis by (intro bexI [of _ ?j]) (simp_all add: step_simps)
qed

definition conflicted_health :: fixture_health where
  "conflicted_health = fst (observe_fixture (new_fixture_health 9) (sample_poll ''a'' 60 [])
     (usable_observation 30 (sample_facts 60 2 0)))"

theorem incident_survives_until_its_own_recovery_witness:
  "\<exists>i\<in>set (fhe_incidents (fh_evidence conflicted_health)).
     \<exists>j\<in>set (fhe_incidents (fh_evidence (fst (observe_fixture conflicted_health
         (sample_poll ''b'' 90 []) (unavailable_observation 9))))). hi_cause j = hi_cause i"
proof -
  let ?i = "hd (fhe_incidents (fh_evidence conflicted_health))"
  have "fhe_incidents (fh_evidence conflicted_health) \<noteq> []" by code_simp
  then have "?i \<in> set (fhe_incidents (fh_evidence conflicted_health))" by simp
  moreover have "\<not> resolved_by_own_rule (sample_poll ''b'' 90 []) (unavailable_observation 9) ?i"
    by code_simp
  ultimately show ?thesis
    using incident_survives_until_its_own_recovery
      [of ?i conflicted_health "sample_poll ''b'' 90 []" "unavailable_observation 9"] by blast
qed

text \<open>no evidence cursor of a fixture is ever ahead of its last poll, so the age of a clock is
  measured on past evidence only, and one more poll never moves the clock's progress back.\<close>

theorem health_cursors_never_ahead:
  assumes "health_reachable s"
  shows "fh_last_usable_at s \<le> fh_last_observed_at s \<and>
         fh_continuous_since s \<le> fh_last_observed_at s \<and>
         fh_clock_progress_at s \<le> fh_last_observed_at s \<and>
         0 \<le> fh_last_observed_at s \<and>
         fh_clock_progress_at s \<le> fh_clock_progress_at (fst (observe_fixture s poll ob))"
proof -
  have cursors: "fh_last_usable_at t \<le> fh_last_observed_at t \<and>
         fh_continuous_since t \<le> fh_last_observed_at t \<and>
         fh_clock_progress_at t \<le> fh_last_observed_at t \<and> 0 \<le> fh_last_observed_at t"
    if "health_reachable t" for t
    using that
  proof (induction rule: health_reachable.induct)
    case (health_initial fid)
    then show ?case by (simp add: new_fixture_health_def)
  next
    case (health_observed s poll ob)
    then show ?case
      by (auto simp: observe_fixture_def observe_cursors_def advance_clock_def accept_clock_def
          restart_continuity_def observe_phase_def Let_def)
  qed
  have "fh_clock_progress_at (fst (observe_fixture s poll ob)) \<in> {fh_clock_progress_at s, hp_at poll} \<and>
      (fh_clock_progress_at (fst (observe_fixture s poll ob)) = hp_at poll \<longrightarrow>
       hp_at poll > fh_last_observed_at s \<or> fh_clock_progress_at s = hp_at poll)"
    by (auto simp: observe_fixture_def observe_cursors_def advance_clock_def accept_clock_def
        restart_continuity_def observe_phase_def Let_def)
  with cursors [OF assms] show ?thesis by auto
qed

theorem health_cursors_never_ahead_witness:
  "fh_last_usable_at conflicted_health \<le> fh_last_observed_at conflicted_health"
proof -
  have "health_reachable conflicted_health"
    unfolding conflicted_health_def by (intro health_reachable.intros)
  from health_cursors_never_ahead [OF this] show ?thesis by blast
qed

section \<open>Properties of the provider circuit\<close>

lemma clean_ids_le: "card (pp_id ` {p \<in> set ps. probe_clean p}) \<le> length (filter probe_clean ps)"
proof -
  have "card (pp_id ` set (filter probe_clean ps)) \<le> card (set (filter probe_clean ps))"
    by (rule card_image_le) simp
  also have "\<dots> \<le> length (filter probe_clean ps)" by (rule card_length)
  finally show ?thesis by simp
qed

lemma recovered_needs_clean:
  assumes "provider_integrity_recovered ps"
  shows "3 \<le> length (filter probe_clean ps)"
proof -
  from assms have "3 \<le> snd (foldl provider_recovery_step (empty_sequence, 0) ps)"
    by (auto simp: provider_integrity_recovered_def provider_recovery_loop_fold split: if_splits)
  also have "\<dots> \<le> card (pp_id ` {p \<in> set ps. probe_clean p})"
    by (rule provider_recovery.score_le_distinct) (simp_all add: empty_sequence_def)
  also have "\<dots> \<le> length (filter probe_clean ps)" by (rule clean_ids_le)
  finally show ?thesis .
qed

lemma three_probes_recover_clean:
  assumes "provider_integrity_recovered ps" "length ps \<le> 3"
  shows "list_all probe_clean ps \<and> length ps = 3"
proof -
  from recovered_needs_clean [OF assms(1)] assms(2) length_filter_le [of probe_clean ps]
  have len: "length (filter probe_clean ps) = length ps" "length ps = 3" by linarith+
  then have "\<forall>p\<in>set ps. probe_clean p"
    using length_filter_less [of _ ps probe_clean] by force
  with len show ?thesis by (simp add: list_all_iff)
qed

definition provider_policy_known :: "mutation_policy \<Rightarrow> bool" where
  "provider_policy_known p \<longleftrightarrow> p = PolicyTrusted \<or> p = PolicyPositiveOnly"

text \<open>The provider policy an observation starts from: the zero value means trusted.\<close>

definition effective_policy :: "provider_health \<Rightarrow> mutation_policy" where
  "effective_policy s = (if ph_policy s = PolicyOther '''' then PolicyTrusted else ph_policy s)"

text \<open>The correlation loop of one observation: the recent episodes and whether this poll saw a new
  conflict.\<close>

definition correlation_fold ::
  "provider_health \<Rightarrow> health_poll \<Rightarrow> fixture_health list \<Rightarrow> health_transition list \<Rightarrow> health_episode list \<times> bool" where
  "correlation_fold s poll fixtures transitions =
     foldl (correlate_transition (hp_at poll) fixtures)
       (filter (\<lambda>e. time_sub (hp_at poll) (he_started_at e) \<le> correlation_window)
          (phe_recent (ph_evidence s)), False) transitions"

definition systemic_conflict ::
  "provider_health \<Rightarrow> health_poll \<Rightarrow> fixture_health list \<Rightarrow> health_transition list \<Rightarrow> bool" where
  "systemic_conflict s poll fixtures transitions \<longleftrightarrow>
     snd (correlation_fold s poll fixtures transitions) \<and>
     hc_policy (correlate_health (hp_at poll) (fst (correlation_fold s poll fixtures transitions)))
       = PolicyPositiveOnly"

definition poll_complete :: "health_poll \<Rightarrow> bool" where
  "poll_complete poll \<longleftrightarrow> (\<forall>ob\<in>set (hp_observations poll).
     ob_availability ob = AvailabilityUsable \<and> \<not> ob_interrupted ob)"

definition circuit_probe ::
  "provider_health \<Rightarrow> health_poll \<Rightarrow> fixture_health list \<Rightarrow> health_transition list \<Rightarrow> provider_health_probe" where
  "circuit_probe s poll fixtures transitions = \<lparr> pp_id = hp_id poll, pp_at = hp_at poll,
     pp_complete = poll_complete poll,
     pp_new_systemic_anomaly = systemic_conflict s poll fixtures transitions,
     pp_new_affected_fixture = snd (correlation_fold s poll fixtures transitions) \<rparr>"

lemma length_filter_all: "length (filter P xs) = length xs \<longleftrightarrow> (\<forall>x\<in>set xs. P x)"
  using length_filter_less [of _ xs P] by (metis filter_True less_irrefl)

lemma circuit_probe_eq:
  "\<lparr> pp_id = hp_id poll, pp_at = hp_at poll,
     pp_complete = (length (filter (\<lambda>ob. ob_availability ob = AvailabilityUsable) (hp_observations poll)) =
        length (hp_observations poll) \<and> list_all (\<lambda>ob. \<not> ob_interrupted ob) (hp_observations poll)),
     pp_new_systemic_anomaly = systemic_conflict s poll fixtures transitions,
     pp_new_affected_fixture = snd (correlation_fold s poll fixtures transitions) \<rparr>
   = circuit_probe s poll fixtures transitions"
  by (auto simp: circuit_probe_def poll_complete_def list_all_iff length_filter_all)

text \<open>The cursor after an observation, with the correlation made explicit.\<close>

lemma observe_provider_cases:
  fixes s poll fixtures ts
  defines "r \<equiv> observe_provider s poll fixtures ts"
    and "old \<equiv> phe_probes (ph_evidence s)"
    and "probe \<equiv> circuit_probe s poll fixtures ts"
  shows "systemic_conflict s poll fixtures ts \<Longrightarrow>
      ph_policy (fst r) = PolicyPositiveOnly \<and> phe_probes (ph_evidence (fst r)) = [probe] \<and>
      ph_generation (fst r) = ph_generation s + (if effective_policy s = PolicyPositiveOnly then 0 else 1) \<and>
      length (hr_transitions (snd r)) = length ts + (if effective_policy s = PolicyPositiveOnly then 0 else 1)"
    and "\<not> systemic_conflict s poll fixtures ts \<Longrightarrow> effective_policy s = PolicyPositiveOnly \<Longrightarrow>
      (if provider_integrity_recovered (list_keep_last 3 (old @ [probe]))
       then ph_policy (fst r) = PolicyTrusted \<and> ph_generation (fst r) = ph_generation s + 1 \<and>
            length (hr_transitions (snd r)) = length ts + 1 \<and> phe_probes (ph_evidence (fst r)) = []
       else ph_policy (fst r) = PolicyPositiveOnly \<and> ph_generation (fst r) = ph_generation s \<and>
            length (hr_transitions (snd r)) = length ts \<and>
            phe_probes (ph_evidence (fst r)) = list_keep_last 3 (old @ [probe]))"
    and "\<not> systemic_conflict s poll fixtures ts \<Longrightarrow> effective_policy s \<noteq> PolicyPositiveOnly \<Longrightarrow>
      ph_policy (fst r) = effective_policy s \<and> ph_generation (fst r) = ph_generation s \<and>
      length (hr_transitions (snd r)) = length ts \<and> phe_probes (ph_evidence (fst r)) = old"
proof -
  obtain recent conflict where fold: "correlation_fold s poll fixtures ts = (recent, conflict)"
    by (cases "correlation_fold s poll fixtures ts")
  note fold' = fold [unfolded correlation_fold_def]
  let ?corr = "correlate_health (hp_at poll) recent"
  have sys: "systemic_conflict s poll fixtures ts \<longleftrightarrow> conflict \<and> hc_policy ?corr = PolicyPositiveOnly"
    by (simp add: systemic_conflict_def fold)
  note probe_eq = circuit_probe_eq [of poll s fixtures ts, unfolded sys fold, simplified]
  have single: "\<not> provider_integrity_recovered [p]" for p
    using recovered_needs_clean [of "[p]"] by (auto split: if_splits)
  have keep1: "list_keep_last 3 [x] = [x]" for x :: provider_health_probe
    by (simp add: list_keep_last_def)
  show "systemic_conflict s poll fixtures ts \<Longrightarrow>
      ph_policy (fst r) = PolicyPositiveOnly \<and> phe_probes (ph_evidence (fst r)) = [probe] \<and>
      ph_generation (fst r) = ph_generation s + (if effective_policy s = PolicyPositiveOnly then 0 else 1) \<and>
      length (hr_transitions (snd r)) = length ts + (if effective_policy s = PolicyPositiveOnly then 0 else 1)"
    using probe_eq
    by (simp add: r_def observe_provider_def Let_def fold' sys trip_circuit_def probe_circuit_def
        effective_policy_def single keep1 probe_def)
  assume "\<not> systemic_conflict s poll fixtures ts"
  then have off: "(conflict \<and> hc_policy ?corr = PolicyPositiveOnly) = False" using sys by simp
  note probe_eq' = probe_eq [unfolded off]
  show "effective_policy s = PolicyPositiveOnly \<Longrightarrow>
      (if provider_integrity_recovered (list_keep_last 3 (old @ [probe]))
       then ph_policy (fst r) = PolicyTrusted \<and> ph_generation (fst r) = ph_generation s + 1 \<and>
            length (hr_transitions (snd r)) = length ts + 1 \<and> phe_probes (ph_evidence (fst r)) = []
       else ph_policy (fst r) = PolicyPositiveOnly \<and> ph_generation (fst r) = ph_generation s \<and>
            length (hr_transitions (snd r)) = length ts \<and>
            phe_probes (ph_evidence (fst r)) = list_keep_last 3 (old @ [probe]))"
    using probe_eq'
    by (simp add: r_def old_def observe_provider_def Let_def fold' off probe_circuit_def
        effective_policy_def probe_def split: if_splits)
  show "effective_policy s \<noteq> PolicyPositiveOnly \<Longrightarrow>
      ph_policy (fst r) = effective_policy s \<and> ph_generation (fst r) = ph_generation s \<and>
      length (hr_transitions (snd r)) = length ts \<and> phe_probes (ph_evidence (fst r)) = old"
    by (simp add: r_def old_def observe_provider_def Let_def fold' off effective_policy_def split: if_splits)
qed

lemma generation_known:
  assumes "provider_policy_known (effective_policy s)"
  shows "provider_policy_known (ph_policy (fst (observe_provider s poll fixtures ts)))"
  using observe_provider_cases [of s poll fixtures ts] assms
  by (cases "systemic_conflict s poll fixtures ts"; cases "effective_policy s = PolicyPositiveOnly")
    (auto simp: provider_policy_known_def split: if_splits)

text \<open>the generation that binds every provider write counts policy changes: an observation keeps
  the provider policy one of trusted and positive-only, increments the generation by one exactly
  when it changes the policy, and reports exactly one provider-wide transition in that case and
  none otherwise.\<close>

theorem generation_counts_policy_changes:
  fixes s poll fixtures ts
  assumes "provider_policy_known (effective_policy s)"
  defines "r \<equiv> observe_provider s poll fixtures ts"
  defines "changed \<equiv> ph_policy (fst r) \<noteq> effective_policy s"
  shows "provider_policy_known (ph_policy (fst r)) \<and>
     ph_generation (fst r) = ph_generation s + (if changed then 1 else 0) \<and>
     length (hr_transitions (snd r)) = length ts + (if changed then 1 else 0)"
proof (cases "systemic_conflict s poll fixtures ts")
  case True
  from observe_provider_cases(1) [OF True] assms(1) show ?thesis
    by (auto simp: provider_policy_known_def r_def changed_def)
next
  case False
  show ?thesis
  proof (cases "effective_policy s = PolicyPositiveOnly")
    case True
    from observe_provider_cases(2) [OF False True] True show ?thesis
      by (auto simp: provider_policy_known_def r_def changed_def split: if_splits)
  next
    case False': False
    from observe_provider_cases(3) [OF False False'] assms(1) show ?thesis
      by (simp add: r_def changed_def)
  qed
qed

definition fresh_provider :: provider_health where
  "fresh_provider = \<lparr> ph_last_observed_at = 0, ph_generation = 4, ph_policy = PolicyTrusted,
     ph_evidence = \<lparr> phe_version = 1, phe_recent = [], phe_incident_at = 0, phe_probes = [] \<rparr> \<rparr>"

theorem generation_counts_policy_changes_witness:
  "provider_policy_known (ph_policy (fst (observe_provider fresh_provider (sample_poll ''a'' 60 []) [] [])))"
proof -
  have "provider_policy_known (effective_policy fresh_provider)" by code_simp
  from generation_counts_policy_changes [OF this] show ?thesis by blast
qed

text \<open>C33: the provider circuit opens only on a systemic conflict, new in this very poll, and closes
  only when the last three probes, this poll's included, are all clean: each complete, without a
  new systemic anomaly and without a newly affected fixture; a poll with an unusable or an
  interrupted observation never closes it.\<close>

theorem provider_circuit_opens_and_closes:
  fixes s poll fixtures ts
  assumes "provider_policy_known (effective_policy s)"
  defines "policy \<equiv> ph_policy (fst (observe_provider s poll fixtures ts))"
  defines "probes \<equiv> list_keep_last 3 (phe_probes (ph_evidence s) @ [circuit_probe s poll fixtures ts])"
  shows "(effective_policy s = PolicyTrusted \<longrightarrow>
       (policy = PolicyPositiveOnly \<longleftrightarrow> systemic_conflict s poll fixtures ts)) \<and>
     (effective_policy s = PolicyPositiveOnly \<and> policy = PolicyTrusted \<longrightarrow>
        length probes = 3 \<and> list_all probe_clean probes \<and> poll_complete poll \<and>
        \<not> snd (correlation_fold s poll fixtures ts))"
proof (intro conjI impI)
  assume trusted: "effective_policy s = PolicyTrusted"
  show "policy = PolicyPositiveOnly \<longleftrightarrow> systemic_conflict s poll fixtures ts"
    using observe_provider_cases(1,3) [of s poll fixtures ts] trusted
    by (cases "systemic_conflict s poll fixtures ts") (auto simp: policy_def)
next
  assume closed: "effective_policy s = PolicyPositiveOnly \<and> policy = PolicyTrusted"
  then have no_sys: "\<not> systemic_conflict s poll fixtures ts"
    using observe_provider_cases(1) [of s poll fixtures ts] by (auto simp: policy_def)
  with closed have "provider_integrity_recovered probes"
    using observe_provider_cases(2) [of s poll fixtures ts] by (auto simp: policy_def probes_def split: if_splits)
  moreover have "length probes \<le> 3" by (simp add: probes_def)
  ultimately have clean: "list_all probe_clean probes \<and> length probes = 3"
    by (rule three_probes_recover_clean)
  moreover have "circuit_probe s poll fixtures ts \<in> set probes"
    by (simp add: probes_def list_keep_last_def)
  ultimately have "probe_clean (circuit_probe s poll fixtures ts)" by (auto simp: list_all_iff)
  then show "poll_complete poll" "\<not> snd (correlation_fold s poll fixtures ts)"
    by (simp_all add: probe_clean_def circuit_probe_def)
  from clean show "length probes = 3" "list_all probe_clean probes" by blast+
qed

theorem provider_circuit_opens_and_closes_witness:
  "ph_policy (fst (observe_provider fresh_provider (sample_poll ''a'' 60 []) [] [])) \<noteq> PolicyPositiveOnly"
proof -
  have known: "provider_policy_known (effective_policy fresh_provider)" by code_simp
  have trusted: "effective_policy fresh_provider = PolicyTrusted" by code_simp
  have quiet: "\<not> systemic_conflict fresh_provider (sample_poll ''a'' 60 []) [] []" by code_simp
  from provider_circuit_opens_and_closes [OF known] trusted quiet show ?thesis by blast
qed

end
