(* ===== verification/HealthStore.thy ===== *)
theory HealthStore
  imports Collector
begin

text \<open>
  The durable health store of \<open>internal/infra/pg/provider_health_repo.go\<close> and
  \<open>provider_fixture_health.go\<close>. The tables the repository owns are a record; a transaction is a
  function that returns the committed tables beside its result, and a returned error is a
  rollback, which leaves the tables as they were. Statements that can only fail for
  infrastructure reasons, and the JSON encoding of the evidence columns, are not modelled; a
  timestamp column keeps microseconds, which is the truncation the code applies itself.
\<close>

section \<open>Tables\<close>

text \<open>A row of \<open>provider_health_polls\<close>; \<open>failed_attempts\<close> is an object keyed by attempt number.\<close>

record health_poll_row =
  pr_poll_id :: go_string
  pr_observed_at :: instant
  pr_failed_attempts :: "(int \<times> health_observation list) list"
  pr_result :: "health_result option"

text \<open>\<open>hd_fixture_polled\<close> is the column \<open>fixtures.last_polled_at\<close>, which this repository only reads.\<close>

record health_db =
  hd_provider :: provider_health
  hd_fixtures :: "int \<Rightarrow> fixture_health option"
  hd_polls :: "health_poll_row list"
  hd_fixture_polled :: "int \<Rightarrow> instant option option"

definition truncate_microseconds :: "instant \<Rightarrow> instant" where
  "truncate_microseconds at = at div 1000 * 1000"

definition find_poll :: "go_string \<Rightarrow> health_poll_row list \<Rightarrow> health_poll_row option" where
  "find_poll ident rows = find (\<lambda>r. pr_poll_id r = ident) rows"

definition update_poll ::
  "go_string \<Rightarrow> (health_poll_row \<Rightarrow> health_poll_row) \<Rightarrow> health_poll_row list \<Rightarrow> health_poll_row list" where
  "update_poll ident f rows = map (\<lambda>r. if pr_poll_id r = ident then f r else r) rows"

section \<open>Failed fetch attempts\<close>

record fetch_failure_evidence =
  ff_poll_id :: go_string
  ff_observed_at :: instant
  ff_attempt :: int
  ff_failures :: "health_observation list"

definition record_fetch_failure ::
  "health_db \<Rightarrow> fetch_failure_evidence \<Rightarrow> health_db \<times> unit result" where
  "record_fetch_failure db failure =
     (case validate_health_poll \<lparr> hp_id = ff_poll_id failure, hp_at = ff_observed_at failure,
             hp_observations = ff_failures failure \<rparr> of
        Err e \<Rightarrow> (db, Err e)
      | Ok _ \<Rightarrow>
          if ff_attempt failure \<le> 0 \<or> ff_attempt failure > 10
          then (db, Err ''invalid provider fetch attempt'')
          else if list_ex (\<lambda>ob. ob_availability ob = AvailabilityUsable) (ff_failures failure)
          then (db, Err ''failure receipt contains usable data'')
          else
            let at = truncate_microseconds (ff_observed_at failure);
                entry = (ff_attempt failure, ff_failures failure)
            in (case find_poll (ff_poll_id failure) (hd_polls db) of
                  None \<Rightarrow> (db\<lparr> hd_polls := hd_polls db @
                    [\<lparr> pr_poll_id = ff_poll_id failure, pr_observed_at = at,
                       pr_failed_attempts = [entry], pr_result = None \<rparr>] \<rparr>, Ok ())
                | Some row \<Rightarrow>
                    if pr_result row = None \<and> pr_observed_at row = at \<and>
                       ff_attempt failure \<notin> set (map fst (pr_failed_attempts row))
                    then (db\<lparr> hd_polls := update_poll (ff_poll_id failure)
                              (\<lambda>r. r\<lparr> pr_failed_attempts := pr_failed_attempts r @ [entry] \<rparr>)
                              (hd_polls db) \<rparr>, Ok ())
                    else (db, Ok ())))"

section \<open>Observing a finalized poll\<close>

definition load_fixture_health :: "health_db \<Rightarrow> int \<Rightarrow> fixture_health result" where
  "load_fixture_health db fid =
     (case hd_fixtures db fid of
        None \<Rightarrow> Ok (new_fixture_health fid)
      | Some s \<Rightarrow> if fhe_version (fh_evidence s) \<noteq> health_evidence_version
                   then Err ''unsupported fixture health evidence version'' else Ok s)"

definition store_fixture_health :: "health_db \<Rightarrow> fixture_health \<Rightarrow> health_db" where
  "store_fixture_health db s = db\<lparr> hd_fixtures := (hd_fixtures db)(fh_fixture_id s := Some s) \<rparr>"

fun verify_health_baselines :: "health_db \<Rightarrow> health_observation list \<Rightarrow> unit result" where
  "verify_health_baselines db [] = Ok ()"
| "verify_health_baselines db (ob # obs) =
     (if ob_availability ob \<noteq> AvailabilityUsable then verify_health_baselines db obs
      else case hd_fixture_polled db (ob_fixture_id ob) of
             None \<Rightarrow> Err ''no rows in result set''
           | Some stored \<Rightarrow>
               if stored \<noteq> ob_baseline_last_polled ob
               then Err ''provider integrity: stale mutation plan''
               else verify_health_baselines db obs)"

definition mark_interrupted ::
  "(int \<times> health_observation list) list \<Rightarrow> health_observation list \<Rightarrow> health_observation list" where
  "mark_interrupted attempts obs =
     (let interrupted = set (map ob_fixture_id (concat (map snd attempts)))
      in map (\<lambda>ob. ob\<lparr> ob_interrupted := (ob_interrupted ob \<or> ob_fixture_id ob \<in> interrupted) \<rparr>) obs)"

fun observe_fixtures ::
  "health_db \<Rightarrow> health_poll \<Rightarrow> health_observation list \<Rightarrow>
   (health_db \<times> fixture_health list \<times> health_transition list) result" where
  "observe_fixtures db poll [] = Ok (db, [], [])"
| "observe_fixtures db poll (ob # obs) =
     bind_result (load_fixture_health db (ob_fixture_id ob)) (\<lambda>s.
       let (s', ts) = observe_fixture s poll ob
       in bind_result (observe_fixtures (store_fixture_health db s') poll obs) (\<lambda>(db', states, more).
            Ok (db', s' # states, ts @ more)))"

definition ignored_result :: "provider_health \<Rightarrow> instant \<Rightarrow> health_result" where
  "ignored_result state at = \<lparr> hr_observed_at = at, hr_generation = ph_generation state,
     hr_provider_policy = ph_policy state, hr_requested = 0, hr_usable = 0, hr_failed_attempts = 0,
     hr_unavailable_ids = [], hr_restricted_ids = [], hr_stalled_ids = [], hr_boundary_ids = [],
     hr_correlation = \<lparr> hc_stalled_fixtures = [], hc_conflict_fixtures = [], hc_policy = PolicyOther '''' \<rparr>,
     hr_transitions = [], hr_ignored = True \<rparr>"

text \<open>The bounded cleanup: the 256 oldest receipts behind the retention window.\<close>

definition expire_receipts :: "instant \<Rightarrow> health_poll_row list \<Rightarrow> health_poll_row list" where
  "expire_receipts cutoff rows =
     (let doomed = map pr_poll_id (take 256
            (sort_key pr_observed_at (filter (\<lambda>r. pr_observed_at r < cutoff) rows)))
      in filter (\<lambda>r. pr_poll_id r \<notin> set doomed) rows)"

definition finish_observation ::
  "health_db \<Rightarrow> health_poll \<Rightarrow> health_result \<Rightarrow> health_db \<times> health_result result" where
  "finish_observation db poll out =
     (db\<lparr> hd_polls := expire_receipts (ph_last_observed_at (hd_provider db) - health_receipt_retention)
            (update_poll (hp_id poll) (\<lambda>r. r\<lparr> pr_result := Some out \<rparr>) (hd_polls db)) \<rparr>, Ok out)"

text \<open>The evaluation of a poll newer than the provider cursor.\<close>

definition assess_poll ::
  "health_db \<Rightarrow> health_poll \<Rightarrow> (int \<times> health_observation list) list \<Rightarrow> (health_db \<times> health_result) result" where
  "assess_poll db poll attempts =
     bind_result (verify_health_baselines db (hp_observations poll)) (\<lambda>_.
       let poll' = poll\<lparr> hp_observations := mark_interrupted attempts (hp_observations poll) \<rparr>
       in bind_result (observe_fixtures db poll' (hp_observations poll')) (\<lambda>(db', states, ts).
            let (state', out) = observe_provider (hd_provider db) poll' states ts
            in Ok (db'\<lparr> hd_provider := state' \<rparr>, out\<lparr> hr_failed_attempts := int (length attempts) \<rparr>)))"

text \<open>The receipt row the transaction works on: a new one is inserted first.\<close>

definition with_receipt :: "health_db \<Rightarrow> health_poll \<Rightarrow> health_db" where
  "with_receipt db poll =
     (case find_poll (hp_id poll) (hd_polls db) of
        None \<Rightarrow> db\<lparr> hd_polls := hd_polls db @
          [\<lparr> pr_poll_id = hp_id poll, pr_observed_at = hp_at poll,
             pr_failed_attempts = [], pr_result = None \<rparr>] \<rparr>
      | Some _ \<Rightarrow> db)"

definition health_observe :: "health_db \<Rightarrow> health_poll \<Rightarrow> health_db \<times> health_result result" where
  "health_observe db poll0 =
     (let poll = poll0\<lparr> hp_at := truncate_microseconds (hp_at poll0) \<rparr>;
          state = hd_provider db
      in case validate_health_poll poll of
           Err e \<Rightarrow> (db, Err e)
         | Ok _ \<Rightarrow>
             if phe_version (ph_evidence state) \<noteq> health_evidence_version
             then (db, Err ''unsupported provider health evidence version'')
             else
               let db1 = with_receipt db poll
               in case find_poll (hp_id poll) (hd_polls db1) of
                    None \<Rightarrow> (db, Err ''no rows in result set'')
                  | Some row \<Rightarrow>
                      if pr_observed_at row \<noteq> hp_at poll
                      then (db, Err ''provider health poll ID reused with another time'')
                      else case pr_result row of
                             Some out \<Rightarrow> (db, Ok out)
                           | None \<Rightarrow>
                               if \<not> hp_at poll > ph_last_observed_at state
                               then finish_observation db1 poll (ignored_result state (hp_at poll))
                               else case assess_poll db1 poll (pr_failed_attempts row) of
                                      Err e \<Rightarrow> (db, Err e)
                                    | Ok (db2, out) \<Rightarrow> finish_observation db2 poll out)"

section \<open>Facts about the receipt table\<close>




lemma find_poll_append_new:
  "find_poll ident rows = None \<Longrightarrow> pr_poll_id r = ident \<Longrightarrow> find_poll ident (rows @ [r]) = Some r"
  by (induction rows) (auto simp: find_poll_def)

definition polls_distinct :: "health_db \<Rightarrow> bool" where
  "polls_distinct db \<longleftrightarrow> distinct (map pr_poll_id (hd_polls db))"



lemma distinct_update_poll:
  assumes "\<And>r. pr_poll_id (f r) = pr_poll_id r"
  shows "map pr_poll_id (update_poll ident f rows) = map pr_poll_id rows"
  using assms by (induction rows) (auto simp: update_poll_def)

lemma observe_fixtures_polls:
  "observe_fixtures db poll obs = Ok (db', states, ts) \<Longrightarrow>
     hd_polls db' = hd_polls db \<and> hd_provider db' = hd_provider db \<and> hd_fixture_polled db' = hd_fixture_polled db"
proof (induction obs arbitrary: db db' states ts)
  case Nil
  then show ?case by simp
next
  case (Cons ob obs)
  from Cons.prems obtain s where load: "load_fixture_health db (ob_fixture_id ob) = Ok s"
    by (cases "load_fixture_health db (ob_fixture_id ob)") auto
  obtain s' t' where step: "observe_fixture s poll ob = (s', t')" by (cases "observe_fixture s poll ob")
  from Cons.prems load step obtain states' more
    where "observe_fixtures (store_fixture_health db s') poll obs = Ok (db', states', more)"
    by (auto simp: bind_result_Ok_iff)
  from Cons.IH [OF this] show ?case by (simp add: store_fixture_health_def)
qed

lemma assess_poll_keeps:
  assumes "assess_poll db poll attempts = Ok (db', out)"
  shows "hd_polls db' = hd_polls db \<and> hd_fixture_polled db' = hd_fixture_polled db \<and>
         ph_last_observed_at (hd_provider db') = hp_at poll"
proof -
  let ?poll' = "poll\<lparr> hp_observations := mark_interrupted attempts (hp_observations poll) \<rparr>"
  from assms obtain x where x:
    "observe_fixtures db ?poll' (hp_observations ?poll') = Ok x"
    "db' = fst x\<lparr> hd_provider := fst (observe_provider (hd_provider db) ?poll' (fst (snd x)) (snd (snd x))) \<rparr>"
    by (auto simp: assess_poll_def bind_result_Ok_iff Let_def case_prod_unfold)
  obtain db1 states ts where xs: "x = (db1, states, ts)" by (metis prod.collapse)
  from x xs have obs: "observe_fixtures db ?poll' (hp_observations ?poll') = Ok (db1, states, ts)"
    and db': "db' = db1\<lparr> hd_provider := fst (observe_provider (hd_provider db) ?poll' states ts) \<rparr>"
    by simp_all
  have "ph_last_observed_at (fst (observe_provider (hd_provider db) ?poll' states ts)) = hp_at poll"
    by (simp add: observe_provider_def Let_def split: prod.splits)
  with observe_fixtures_polls [OF obs] show ?thesis by (simp add: db')
qed

section \<open>Properties\<close>


lemma with_receipt_keeps:
  assumes "polls_distinct db"
  shows "polls_distinct (with_receipt db poll) \<and> hd_provider (with_receipt db poll) = hd_provider db \<and>
     hd_fixtures (with_receipt db poll) = hd_fixtures db \<and>
     (\<exists>row. find_poll (hp_id poll) (hd_polls (with_receipt db poll)) = Some row)"
proof (cases "find_poll (hp_id poll) (hd_polls db)")
  case None
  then have "hp_id poll \<notin> pr_poll_id ` set (hd_polls db)"
    by (auto simp: find_poll_def find_None_iff)
  with None assms find_poll_append_new [OF None, of "\<lparr> pr_poll_id = hp_id poll, pr_observed_at = hp_at poll,
             pr_failed_attempts = [], pr_result = None \<rparr>"]
  show ?thesis by (simp add: with_receipt_def polls_distinct_def)
next
  case (Some row)
  with assms show ?thesis by (simp add: with_receipt_def)
qed

lemma health_observe_unfold:
  fixes poll0 :: health_poll
  defines "poll \<equiv> poll0\<lparr> hp_at := truncate_microseconds (hp_at poll0) \<rparr>"
  shows "health_observe db poll0 =
     (case validate_health_poll poll of
        Err e \<Rightarrow> (db, Err e)
      | Ok _ \<Rightarrow>
          if phe_version (ph_evidence (hd_provider db)) \<noteq> health_evidence_version
          then (db, Err ''unsupported provider health evidence version'')
          else case find_poll (hp_id poll) (hd_polls (with_receipt db poll)) of
             None \<Rightarrow> (db, Err ''no rows in result set'')
           | Some row \<Rightarrow>
               if pr_observed_at row \<noteq> hp_at poll
               then (db, Err ''provider health poll ID reused with another time'')
               else case pr_result row of
                  Some out \<Rightarrow> (db, Ok out)
                | None \<Rightarrow>
                    if \<not> hp_at poll > ph_last_observed_at (hd_provider db)
                    then finish_observation (with_receipt db poll) poll
                           (ignored_result (hd_provider db) (hp_at poll))
                    else case assess_poll (with_receipt db poll) poll (pr_failed_attempts row) of
                       Err e \<Rightarrow> (db, Err e)
                     | Ok (db2, out) \<Rightarrow> finish_observation db2 poll out)"
  by (simp only: health_observe_def poll_def Let_def)





definition empty_health_db :: health_db where
  "empty_health_db = \<lparr> hd_provider = fresh_provider, hd_fixtures = (\<lambda>_. None), hd_polls = [],
     hd_fixture_polled = (\<lambda>_. None) \<rparr>"


section \<open>Invariant of the stored evidence\<close>

text \<open>What the tables hold between transactions: the identity of each row, an evidence version the
  loader accepts, well-formed incidents, no fixture cursor ahead of the provider cursor, and one
  receipt per poll.\<close>

definition health_db_ok :: "health_db \<Rightarrow> bool" where
  "health_db_ok db \<longleftrightarrow> polls_distinct db \<and> 0 \<le> ph_last_observed_at (hd_provider db) \<and>
     provider_policy_known (ph_policy (hd_provider db)) \<and>
     (\<forall>fid s. hd_fixtures db fid = Some s \<longrightarrow>
        fh_fixture_id s = fid \<and> fhe_version (fh_evidence s) = health_evidence_version \<and>
        incidents_ok (fhe_incidents (fh_evidence s)) \<and>
        fh_last_observed_at s \<le> ph_last_observed_at (hd_provider db))"

definition fixtures_ok :: "instant \<Rightarrow> health_db \<Rightarrow> bool" where
  "fixtures_ok at db \<longleftrightarrow> (\<forall>fid s. hd_fixtures db fid = Some s \<longrightarrow>
        fh_fixture_id s = fid \<and> fhe_version (fh_evidence s) = health_evidence_version \<and>
        incidents_ok (fhe_incidents (fh_evidence s)) \<and> fh_last_observed_at s \<le> at)"

lemma observe_fixture_version:
  assumes "fhe_version (fh_evidence s) = health_evidence_version \<or>
      (fhe_version (fh_evidence s) = 0 \<and> hp_at poll > fh_last_observed_at s \<and> hp_id poll \<noteq> fh_last_poll_id s)"
  shows "fhe_version (fh_evidence (fst (observe_fixture s poll ob))) = health_evidence_version"
  using assms
  by (auto simp: observe_fixture_def observe_cursors_def Let_def step_simps health_evidence_version_def)

lemma observe_fixture_identity:
  "fh_fixture_id (fst (observe_fixture s poll ob)) = fh_fixture_id s"
  "fh_last_observed_at (fst (observe_fixture s poll ob)) \<le> max (fh_last_observed_at s) (hp_at poll)"
  by (auto simp: observe_fixture_def Let_def step_simps)

lemma observe_fixtures_ok:
  assumes "fixtures_ok at db" "hp_at poll = at" "0 < at" "hp_id poll \<noteq> ''''"
    and "observe_fixtures db poll obs = Ok (db', states, ts)"
  shows "fixtures_ok at db' \<and> (\<forall>s\<in>set states. incidents_ok (fhe_incidents (fh_evidence s)))"
  using assms(1,5)
proof (induction obs arbitrary: db states ts)
  case Nil
  then show ?case by simp
next
  case (Cons ob obs)
  from Cons.prems(2) obtain s where load: "load_fixture_health db (ob_fixture_id ob) = Ok s"
    by (cases "load_fixture_health db (ob_fixture_id ob)") auto
  let ?s' = "fst (observe_fixture s poll ob)"
  have version: "fhe_version (fh_evidence ?s') = health_evidence_version"
    using load assms(2-4) by (intro observe_fixture_version)
      (auto simp: load_fixture_health_def new_fixture_health_def split: option.splits if_splits)
  have ident: "fh_fixture_id s = ob_fixture_id ob" and s: "incidents_ok (fhe_incidents (fh_evidence s))"
      "fh_last_observed_at s \<le> at"
    using load Cons.prems(1) assms(3)
    by (auto simp: load_fixture_health_def new_fixture_health_def fixtures_ok_def incidents_ok_def
        split: option.splits if_splits)
  have ok: "incidents_ok (fhe_incidents (fh_evidence ?s'))" by (rule observe_fixture_ok [OF s(1)])
  have "fixtures_ok at (store_fixture_health db ?s')"
    using Cons.prems(1) version ok observe_fixture_identity [of s poll ob] s(2) assms(2)
    by (auto simp: fixtures_ok_def store_fixture_health_def ident)
  moreover from Cons.prems(2) load obtain states' more
    where "observe_fixtures (store_fixture_health db ?s') poll obs = Ok (db', states', more)"
      and "states = ?s' # states'"
    by (cases "observe_fixture s poll ob") (auto simp: bind_result_Ok_iff)
  ultimately show ?case using Cons.IH ok by simp
qed

lemma observe_provider_policy_known:
  "provider_policy_known (ph_policy s) \<Longrightarrow>
   provider_policy_known (ph_policy (fst (observe_provider s poll fixtures ts)))"
  using generation_known [of s poll fixtures ts] by (auto simp: effective_policy_def provider_policy_known_def)

lemma health_db_ok_iff:
  "health_db_ok db \<longleftrightarrow> polls_distinct db \<and> 0 \<le> ph_last_observed_at (hd_provider db) \<and>
     provider_policy_known (ph_policy (hd_provider db)) \<and>
     fixtures_ok (ph_last_observed_at (hd_provider db)) db"
  by (auto simp: health_db_ok_def fixtures_ok_def)

lemma finish_observation_ok:
  assumes "polls_distinct db" "0 \<le> ph_last_observed_at (hd_provider db)"
    "provider_policy_known (ph_policy (hd_provider db))"
    "fixtures_ok (ph_last_observed_at (hd_provider db)) db"
  shows "health_db_ok (fst (finish_observation db poll out))"
proof -
  have "distinct (map pr_poll_id (update_poll (hp_id poll) (\<lambda>r. r\<lparr> pr_result := Some out \<rparr>) (hd_polls db)))"
    using assms(1) by (simp add: distinct_update_poll polls_distinct_def)
  then have "distinct (map pr_poll_id (expire_receipts cutoff
      (update_poll (hp_id poll) (\<lambda>r. r\<lparr> pr_result := Some out \<rparr>) (hd_polls db))))" for cutoff
    by (simp add: expire_receipts_def Let_def distinct_map_filter)
  with assms show ?thesis
    by (simp add: health_db_ok_iff finish_observation_def polls_distinct_def fixtures_ok_def)
qed

lemma assess_poll_ok:
  assumes "health_db_ok db" "assess_poll db poll attempts = Ok (db', out)"
    "hp_at poll > ph_last_observed_at (hd_provider db)" "hp_id poll \<noteq> ''''"
  shows "polls_distinct db' \<and> 0 \<le> ph_last_observed_at (hd_provider db') \<and>
    provider_policy_known (ph_policy (hd_provider db')) \<and>
    fixtures_ok (ph_last_observed_at (hd_provider db')) db'"
proof -
  let ?poll' = "poll\<lparr> hp_observations := mark_interrupted attempts (hp_observations poll) \<rparr>"
  from assms(2) obtain x where x:
    "observe_fixtures db ?poll' (hp_observations ?poll') = Ok x"
    "db' = fst x\<lparr> hd_provider := fst (observe_provider (hd_provider db) ?poll' (fst (snd x)) (snd (snd x))) \<rparr>"
    by (auto simp: assess_poll_def bind_result_Ok_iff Let_def case_prod_unfold)
  obtain db1 states ts where xs: "x = (db1, states, ts)" by (metis prod.collapse)
  from x xs have obs: "observe_fixtures db ?poll' (hp_observations ?poll') = Ok (db1, states, ts)"
    and db': "db' = db1\<lparr> hd_provider := fst (observe_provider (hd_provider db) ?poll' states ts) \<rparr>"
    by simp_all
  have "fixtures_ok (hp_at poll) db"
    using assms(1,3) by (fastforce simp: health_db_ok_iff fixtures_ok_def)
  from observe_fixtures_ok [OF this _ _ _ obs] assms(1,3,4)
  have "fixtures_ok (hp_at poll) db1" by (simp add: health_db_ok_iff)
  moreover note assess_poll_keeps [OF assms(2)] observe_fixtures_polls [OF obs]
  moreover have "provider_policy_known (ph_policy (hd_provider db'))"
    using assms(1) by (simp add: db' health_db_ok_iff observe_provider_policy_known)
  ultimately show ?thesis using assms(1,3)
    by (simp add: health_db_ok_iff polls_distinct_def fixtures_ok_def db')
qed

text \<open>C34: no sequence of transactions breaks the durable evidence: recording a failed fetch and
  observing a poll both preserve one receipt per poll, a known provider policy, and for every
  stored fixture its own identity, the evidence version the loader accepts, at most one incident
  per cause with the prescribed policy, and no cursor ahead of the provider's.\<close>

theorem health_store_preserves_invariant:
  assumes "health_db_ok db"
  shows "health_db_ok (fst (health_observe db poll)) \<and> health_db_ok (fst (record_fetch_failure db failure))"
proof
  let ?p = "poll\<lparr> hp_at := truncate_microseconds (hp_at poll) \<rparr>"
  let ?db1 = "with_receipt db ?p"
  have dist: "polls_distinct db" using assms by (simp add: health_db_ok_iff)
  note kept = with_receipt_keeps [OF dist, of ?p]
  with assms have ok1: "health_db_ok ?db1" by (simp add: health_db_ok_def)
  then have parts: "polls_distinct ?db1" "0 \<le> ph_last_observed_at (hd_provider ?db1)"
    "provider_policy_known (ph_policy (hd_provider ?db1))"
    "fixtures_ok (ph_last_observed_at (hd_provider ?db1)) ?db1" by (simp_all add: health_db_ok_iff)
  have assessed: "health_db_ok (fst (finish_observation db2 ?p out))"
    if "is_ok (validate_health_poll ?p)" "ph_last_observed_at (hd_provider db) < hp_at ?p"
       "assess_poll ?db1 ?p attempts = Ok (db2, out)" for attempts db2 out
  proof -
    from that(1) have "hp_id ?p \<noteq> ''''" by (auto simp: validate_health_poll_def split: if_splits)
    with assess_poll_ok [OF ok1 that(3)] that(2) kept show ?thesis
      by (intro finish_observation_ok) auto
  qed
  show "health_db_ok (fst (health_observe db poll))"
    unfolding health_observe_unfold
    using assms finish_observation_ok [OF parts] assessed
    by (simp split: result.split option.split prod.split)
  show "health_db_ok (fst (record_fetch_failure db failure))"
  proof -
    have fresh: "find_poll ident rows = None \<Longrightarrow> ident \<notin> pr_poll_id ` set rows" for ident rows
      by (auto simp: find_poll_def find_None_iff)
    show ?thesis using assms
      by (auto simp: record_fetch_failure_def Let_def health_db_ok_def polls_distinct_def
          distinct_update_poll fresh split: result.split option.split)
  qed
qed

theorem health_store_preserves_invariant_witness:
  "health_db_ok (fst (health_observe empty_health_db (sample_poll ''a'' 60 [unavailable_observation 9])))"
proof -
  have "health_db_ok empty_health_db"
    by (simp add: health_db_ok_def empty_health_db_def fresh_provider_def polls_distinct_def
        provider_policy_known_def)
  from health_store_preserves_invariant [OF this] show ?thesis by blast
qed

end
