(* ===== verification/MutationStore.thy ===== *)
theory MutationStore
  imports EventStore Presentation HealthStore
begin

text \<open>
  The guarded write boundary of \<open>internal/infra/pg/provider_mutation_repo.go\<close>: one provider
  observation of one fixture, applied as a single transaction under the composed policy, with a
  durable receipt that makes a retry return the first result. The commands and results are the
  types of \<open>internal/domain/providerintegrity/mutation.go\<close>; the evidence of restricted operations
  is \<open>provider_mutation_evidence.go\<close>. The tables extend the event tables with fixtures, fixture
  health, the provider row and the receipts. An error is a rollback. The JSON of a receipt decodes
  to the result it was written from, and the locks of the transaction are its atomicity.
\<close>

section \<open>Commands and results\<close>

record observation_guard =
  og_observation_id :: go_string
  og_observed_at :: instant
  og_expected_generation :: int
  og_require_health :: bool

definition validate_guard :: "observation_guard \<Rightarrow> unit result" where
  "validate_guard g =
     (if og_observation_id g = [] \<or> 200 < length (og_observation_id g) \<or> og_observed_at g = 0 \<or>
         og_expected_generation g < 0
      then Err ''invalid provider mutation observation'' else Ok ())"

record completion_plan =
  cp_terminal_before :: instant
  cp_completed_at :: instant
  cp_grace_seconds :: int
  cp_provider_parity :: "bool option"

record active_plan =
  ap_guard :: observation_guard
  ap_fixture :: "fixture option"
  ap_baseline_exists :: bool
  ap_baseline_polled :: "instant option"
  ap_local_policy :: mutation_policy
  ap_workflow :: go_string
  ap_inserts :: "planned_insert list"
  ap_presences :: "planned_presence list"
  ap_updates :: "planned_update list"
  ap_absences :: "planned_absence list"
  ap_unknown_deletes :: "uuid list"
  ap_completion :: completion_plan

record fixture_plan =
  fp_guard :: observation_guard
  fp_mode :: mutation_mode
  fp_fixture :: "fixture option"
  fp_baseline_exists :: bool
  fp_baseline_polled :: "instant option"
  fp_local_policy :: mutation_policy
  fp_activate :: bool
  fp_activation_audit :: "audit_record option"

record mutation_result =
  mr_applied :: bool
  mr_stale :: bool
  mr_policy :: mutation_policy
  mr_decision :: "mutation_decision option"
  mr_fixture :: "fixture option"
  mr_fixture_changed :: bool
  mr_structural_changed :: bool
  mr_presentation_changed :: bool
  mr_event_changed :: bool
  mr_inserted :: "uuid list"
  mr_new_named :: "uuid list"
  mr_stable :: "uuid list"
  mr_removed :: "uuid list"
  mr_unknown_dropped :: int
  mr_completed :: bool

definition zero_result :: mutation_result where
  "zero_result = \<lparr> mr_applied = False, mr_stale = False, mr_policy = PolicyOther [],
     mr_decision = None, mr_fixture = None, mr_fixture_changed = False, mr_structural_changed = False,
     mr_presentation_changed = False, mr_event_changed = False, mr_inserted = [], mr_new_named = [],
     mr_stable = [], mr_removed = [], mr_unknown_dropped = 0, mr_completed = False \<rparr>"

section \<open>Tables\<close>

record receipt_row =
  rc_observation_id :: go_string
  rc_fixture_id :: int
  rc_observed_at :: instant
  rc_generation :: int
  rc_result :: mutation_result

record mutation_db = event_db +
  mu_fixtures :: "int \<Rightarrow> fixture option"
  mu_health :: "int \<Rightarrow> fixture_health option"
  mu_provider_observed :: "instant option"
  mu_provider_generation :: int
  mu_provider_policy :: mutation_policy
  mu_receipts :: "receipt_row list"

text \<open>Microseconds, as the commands are normalised before anything is compared.\<close>

definition normalize_guard :: "observation_guard \<Rightarrow> observation_guard" where
  "normalize_guard g = g\<lparr> og_observed_at := truncate_microseconds (og_observed_at g) \<rparr>"

definition normalize_polled :: "fixture \<Rightarrow> fixture" where
  "normalize_polled f = f\<lparr> fx_last_polled_at := map_option truncate_microseconds (fx_last_polled_at f) \<rparr>"

definition normalize_active :: "active_plan \<Rightarrow> active_plan" where
  "normalize_active p = p\<lparr> ap_guard := normalize_guard (ap_guard p),
     ap_baseline_polled := map_option truncate_microseconds (ap_baseline_polled p),
     ap_fixture := map_option normalize_polled (ap_fixture p) \<rparr>"

definition normalize_fixture_plan :: "fixture_plan \<Rightarrow> fixture_plan" where
  "normalize_fixture_plan p = p\<lparr> fp_guard := normalize_guard (fp_guard p),
     fp_baseline_polled := map_option truncate_microseconds (fp_baseline_polled p),
     fp_fixture := map_option normalize_polled (fp_fixture p) \<rparr>"

definition validate_active_plan :: "active_plan \<Rightarrow> fixture result" where
  "validate_active_plan p =
     bind_result (validate_guard (ap_guard p)) (\<lambda>_.
       case ap_fixture p of
         None \<Rightarrow> Err ''invalid guarded active mutation plan''
       | Some f \<Rightarrow>
           if fx_id f \<le> 0 \<or> ap_workflow p = [] \<or> \<not> policy_valid (ap_local_policy p) \<or>
              \<not> og_require_health (ap_guard p)
           then Err ''invalid guarded active mutation plan''
           else if fx_last_polled_at f \<noteq> Some (og_observed_at (ap_guard p))
           then Err ''active fixture observation does not match guard''
           else bind_result (validate_fixture f) (\<lambda>_. Ok f))"

definition validate_fixture_plan :: "fixture_plan \<Rightarrow> fixture result" where
  "validate_fixture_plan p =
     bind_result (validate_guard (fp_guard p)) (\<lambda>_.
       case fp_fixture p of
         None \<Rightarrow> Err ''invalid guarded fixture mutation plan''
       | Some f \<Rightarrow>
           if fx_id f \<le> 0 \<or> \<not> policy_valid (fp_local_policy p) \<or> og_require_health (fp_guard p)
           then Err ''invalid guarded fixture mutation plan''
           else if fp_mode p \<noteq> MutationModeIngest \<and> fp_mode p \<noteq> MutationModeStaging
           then Err ''invalid fixture mutation mode''
           else if fx_last_polled_at f \<noteq> Some (og_observed_at (fp_guard p))
           then Err ''fixture observation does not match guard''
           else bind_result (validate_fixture f) (\<lambda>_. Ok f))"

definition newer_observation :: "instant \<Rightarrow> instant option \<Rightarrow> bool" where
  "newer_observation at baseline \<longleftrightarrow> (case baseline of None \<Rightarrow> True | Some b \<Rightarrow> b < at)"

text \<open>The provider row; a row never observed reads as the zero time.\<close>

definition provider_policy_of :: "mutation_db \<Rightarrow> (instant \<times> int \<times> mutation_policy) result" where
  "provider_policy_of db =
     (if \<not> policy_valid (mu_provider_policy db) then Err ''invalid stored provider mutation policy''
      else Ok (case mu_provider_observed db of None \<Rightarrow> 0 | Some at \<Rightarrow> at,
               mu_provider_generation db, mu_provider_policy db))"

definition locked_fixture :: "mutation_db \<Rightarrow> int \<Rightarrow> fixture result" where
  "locked_fixture db fid = (case mu_fixtures db fid of None \<Rightarrow> Err ''fixture: not found'' | Some f \<Rightarrow> Ok f)"

definition fixture_health_of :: "mutation_db \<Rightarrow> int \<Rightarrow> fixture_health result" where
  "fixture_health_of db fid =
     (case mu_health db fid of
        None \<Rightarrow> Ok (new_fixture_health fid)
      | Some s \<Rightarrow> if fhe_version (fh_evidence s) \<noteq> health_evidence_version
                   then Err ''unsupported fixture health evidence version'' else Ok s)"

section \<open>Receipts\<close>

definition find_receipt :: "go_string \<Rightarrow> int \<Rightarrow> receipt_row list \<Rightarrow> receipt_row option" where
  "find_receipt oid fid rows = find (\<lambda>r. rc_observation_id r = oid \<and> rc_fixture_id r = fid) rows"

definition load_receipt :: "mutation_db \<Rightarrow> observation_guard \<Rightarrow> int \<Rightarrow> mutation_result option result" where
  "load_receipt db g fid =
     (case find_receipt (og_observation_id g) fid (mu_receipts db) of
        None \<Rightarrow> Ok None
      | Some r \<Rightarrow> if rc_observed_at r \<noteq> og_observed_at g
                   then Err ''provider mutation observation ID reused with another time''
                   else Ok (Some (rc_result r)))"

text \<open>The bounded cleanup: the 128 oldest receipts behind the retention window.\<close>

definition expire_mutation_receipts :: "instant \<Rightarrow> receipt_row list \<Rightarrow> receipt_row list" where
  "expire_mutation_receipts cutoff rows =
     (let doomed = map (\<lambda>r. (rc_observation_id r, rc_fixture_id r)) (take 128
            (sort_key rc_observed_at (filter (\<lambda>r. rc_observed_at r < cutoff) rows)))
      in filter (\<lambda>r. (rc_observation_id r, rc_fixture_id r) \<notin> set doomed) rows)"

definition commit_mutation_result ::
  "mutation_db \<Rightarrow> observation_guard \<Rightarrow> int \<Rightarrow> int \<Rightarrow> mutation_result \<Rightarrow> mutation_db \<times> mutation_result result" where
  "commit_mutation_result db g fid generation out =
     (let rows = (if find_receipt (og_observation_id g) fid (mu_receipts db) = None
                  then mu_receipts db @ [\<lparr> rc_observation_id = og_observation_id g, rc_fixture_id = fid,
                    rc_observed_at = og_observed_at g, rc_generation = generation, rc_result = out \<rparr>]
                  else mu_receipts db)
      in (db\<lparr> mu_receipts := expire_mutation_receipts (og_observed_at g - health_receipt_retention) rows \<rparr>,
          Ok out))"

definition commit_stale_receipt ::
  "mutation_db \<Rightarrow> observation_guard \<Rightarrow> int \<Rightarrow> fixture option \<Rightarrow> int \<Rightarrow> mutation_db \<times> mutation_result result" where
  "commit_stale_receipt db g fid current generation =
     commit_mutation_result db g fid generation (zero_result\<lparr> mr_stale := True, mr_fixture := current \<rparr>)"

section \<open>The positive-only merge\<close>

definition fixture_mutation_facts :: "fixture \<Rightarrow> fixture_facts" where
  "fixture_mutation_facts f = zero_facts\<lparr> ff_fixture_id := fx_id f, ff_home_id := tm_id (fx_home f),
     ff_away_id := tm_id (fx_away f), ff_league_id := lg_id (fx_league f),
     ff_home_name := tm_name (fx_home f), ff_away_name := tm_name (fx_away f),
     ff_league_name := lg_name (fx_league f), ff_status := as_short (fx_status f),
     ff_terminal := status_terminal (fx_status f), ff_elapsed := fx_elapsed f, ff_extra := fx_extra f,
     ff_home_score := fx_home_score f, ff_away_score := fx_away_score f \<rparr>"

definition monotonic_int :: "int option \<Rightarrow> int option \<Rightarrow> int option" where
  "monotonic_int current observed =
     (case observed of
        None \<Rightarrow> current
      | Some v \<Rightarrow> (case current of Some c \<Rightarrow> if v < c then current else observed | None \<Rightarrow> observed))"

definition fill_bool :: "bool option \<Rightarrow> bool option \<Rightarrow> bool option" where
  "fill_bool current observed = (if current \<noteq> None \<or> observed = None then current else observed)"

definition fill_text :: "go_string \<Rightarrow> go_string \<Rightarrow> go_string" where
  "fill_text current observed = (if current = [] then observed else current)"

definition blocks_clock :: "fixture \<Rightarrow> fixture \<Rightarrow> bool" where
  "blocks_clock current observed =
     (let reasons = fv_reasons (assess_fixture \<lparr> fc_stored = fixture_mutation_facts current,
            fc_observed = fixture_mutation_facts observed, fc_stored_events = [],
            fc_confirmed_events = [], fc_observed_events = [] \<rparr>)
      in ReasonPhaseRegressed \<in> set reasons \<or> ReasonTerminalRegressed \<in> set reasons \<or>
         ReasonClockRegressed \<in> set reasons)"

definition merge_clock :: "fixture \<Rightarrow> fixture \<Rightarrow> fixture \<Rightarrow> fixture" where
  "merge_clock current observed out =
     (if blocks_clock current observed then out
      else
        let status = (if as_long (fx_status observed) = [] \<and>
                         as_short (fx_status observed) = as_short (fx_status current)
                      then (fx_status observed)\<lparr> as_long := as_long (fx_status current) \<rparr>
                      else fx_status observed);
            out1 = out\<lparr> fx_status := status \<rparr>
        in if fx_elapsed observed \<noteq> None
           then out1\<lparr> fx_elapsed := fx_elapsed observed, fx_extra := fx_extra observed \<rparr> else out1)"

definition merge_team :: "team \<Rightarrow> team \<Rightarrow> team" where
  "merge_team current observed =
     (if tm_id current = tm_id observed then current\<lparr> tm_name := fill_text (tm_name current) (tm_name observed) \<rparr>
      else current)"

definition merge_league :: "league \<Rightarrow> league \<Rightarrow> league" where
  "merge_league current observed =
     (if lg_id current = lg_id observed
      then current\<lparr> lg_name := fill_text (lg_name current) (lg_name observed),
                    lg_country := fill_text (lg_country current) (lg_country observed),
                    lg_round := fill_text (lg_round current) (lg_round observed) \<rparr>
      else current)"

definition merge_positive_fixture :: "fixture \<Rightarrow> fixture \<Rightarrow> fixture" where
  "merge_positive_fixture current observed =
     (let out1 = merge_clock current observed (current\<lparr> fx_last_polled_at := fx_last_polled_at observed \<rparr>);
          out2 = out1\<lparr>
            fx_home_score := monotonic_int (fx_home_score current) (fx_home_score observed),
            fx_away_score := monotonic_int (fx_away_score current) (fx_away_score observed),
            fx_home_penalty := monotonic_int (fx_home_penalty current) (fx_home_penalty observed),
            fx_away_penalty := monotonic_int (fx_away_penalty current) (fx_away_penalty observed) \<rparr>;
          out3 = update_result out2 (fill_bool (fx_home_winner current) (fx_home_winner observed))
                   (fill_bool (fx_away_winner current) (fx_away_winner observed))
      in out3\<lparr> fx_home := merge_team (fx_home current) (fx_home observed),
               fx_away := merge_team (fx_away current) (fx_away observed),
               fx_league := merge_league (fx_league current) (fx_league observed),
               fx_terminal_observed_at := fx_terminal_observed_at current \<rparr>)"

section \<open>Change classification\<close>

text \<open>\<open>reflect.DeepEqual\<close> on copies whose polling columns are cleared.\<close>

definition strip_polling :: "fixture \<Rightarrow> fixture" where
  "strip_polling f = f\<lparr> fx_last_polled_at := None, fx_updated_at := 0 \<rparr>"

definition fixture_publicly_changed :: "fixture option \<Rightarrow> fixture option \<Rightarrow> bool" where
  "fixture_publicly_changed prior later =
     (case (prior, later) of
        (Some a, Some b) \<Rightarrow> strip_polling a \<noteq> strip_polling b
      | (None, None) \<Rightarrow> False
      | _ \<Rightarrow> True)"

definition strip_presentation :: "fixture \<Rightarrow> fixture" where
  "strip_presentation f = (strip_polling f)\<lparr> fx_status := \<lparr> as_short = [], as_long = [] \<rparr>,
     fx_elapsed := None, fx_extra := None \<rparr>"

definition project_fixture :: "fixture \<Rightarrow> status_projection" where
  "project_fixture f = project_status (fx_status f) (fx_elapsed f) (fx_extra f)"

definition classify_changes :: "mutation_result \<Rightarrow> fixture option \<Rightarrow> mutation_result" where
  "classify_changes out prior =
     (case mr_fixture out of
        None \<Rightarrow> out
      | Some later \<Rightarrow>
          let out1 = out\<lparr> mr_fixture_changed := fixture_publicly_changed prior (Some later) \<rparr> in
          (case prior of
             None \<Rightarrow> out1\<lparr> mr_structural_changed := True \<rparr>
           | Some f \<Rightarrow> out1\<lparr>
               mr_presentation_changed := \<not> projection_equal (project_fixture f) (project_fixture later),
               mr_structural_changed :=
                 (sp_state (project_fixture f) \<noteq> sp_state (project_fixture later) \<or>
                  strip_presentation f \<noteq> strip_presentation later) \<rparr>))"

section \<open>Fixture writes\<close>

text \<open>An \<open>UPDATE fixtures ... WHERE id\<close> with a state guard; the trigger stamps \<open>updated_at\<close>.\<close>

definition update_fixture_row ::
  "instant \<Rightarrow> int \<Rightarrow> (fixture \<Rightarrow> bool) \<Rightarrow> (fixture \<Rightarrow> fixture) \<Rightarrow> mutation_db \<Rightarrow> mutation_db" where
  "update_fixture_row now fid guard f db =
     (case mu_fixtures db fid of
        None \<Rightarrow> db
      | Some row \<Rightarrow>
          if guard row then db\<lparr> mu_fixtures := (mu_fixtures db)(fid := Some ((f row)\<lparr> fx_updated_at := now \<rparr>)) \<rparr>
          else db)"

definition in_state :: "fixture_state \<Rightarrow> fixture \<Rightarrow> bool" where
  "in_state s f \<longleftrightarrow> fx_state f = s"

definition copy_staging_columns :: "fixture \<Rightarrow> fixture \<Rightarrow> fixture" where
  "copy_staging_columns f row = row\<lparr> fx_status := fx_status f, fx_kickoff := column_time (fx_kickoff f),
     fx_home := fx_home f, fx_away := fx_away f, fx_league := fx_league f,
     fx_last_polled_at := map_option column_time (fx_last_polled_at f) \<rparr>"

definition copy_ingest_columns :: "fixture \<Rightarrow> fixture \<Rightarrow> fixture" where
  "copy_ingest_columns f row = (copy_staging_columns f row)\<lparr> fx_elapsed := fx_elapsed f, fx_extra := fx_extra f,
     fx_home_score := fx_home_score f, fx_away_score := fx_away_score f,
     fx_home_winner := fx_home_winner f, fx_away_winner := fx_away_winner f,
     fx_home_penalty := fx_home_penalty f, fx_away_penalty := fx_away_penalty f \<rparr>"

definition copy_active_columns :: "fixture \<Rightarrow> fixture \<Rightarrow> fixture" where
  "copy_active_columns f row = (copy_ingest_columns f row)\<lparr>
     fx_terminal_observed_at := map_option column_time (fx_terminal_observed_at f) \<rparr>"

definition update_active_fixture_tx :: "instant \<Rightarrow> fixture \<Rightarrow> mutation_db \<Rightarrow> mutation_db" where
  "update_active_fixture_tx now f db =
     update_fixture_row now (fx_id f) (in_state StateActive) (copy_active_columns f) db"

definition update_ingest_fixture_tx :: "instant \<Rightarrow> fixture \<Rightarrow> mutation_db \<Rightarrow> mutation_db" where
  "update_ingest_fixture_tx now f db =
     update_fixture_row now (fx_id f) (\<lambda>_. True) (copy_ingest_columns f) db"

definition update_staging_fixture_tx :: "instant \<Rightarrow> fixture \<Rightarrow> mutation_db \<Rightarrow> mutation_db" where
  "update_staging_fixture_tx now f db =
     update_fixture_row now (fx_id f) (in_state StateStaging) (copy_staging_columns f) db"

definition activate_staging_fixture_tx ::
  "instant \<Rightarrow> fixture \<Rightarrow> audit_record \<Rightarrow> mutation_db \<Rightarrow> mutation_db result" where
  "activate_staging_fixture_tx now f r db =
     (if fx_state f \<noteq> StateActive \<or> fx_activated_at f = None \<or> au_kind r \<noteq> KindFixtureActivated \<or>
         au_fixture_id r \<noteq> fx_id f
      then Err ''invalid guarded fixture activation''
      else insert_audit_log r
             (update_fixture_row now (fx_id f) (in_state StateStaging)
                (\<lambda>row. (copy_staging_columns f row)\<lparr> fx_state := StateActive,
                   fx_activated_at := map_option column_time (fx_activated_at f) \<rparr>) db))"

text \<open>The insert writes every column; the bookkeeping columns take their default.\<close>

definition fixture_row :: "instant \<Rightarrow> fixture \<Rightarrow> fixture" where
  "fixture_row now f = f\<lparr> fx_kickoff := column_time (fx_kickoff f),
     fx_activated_at := map_option column_time (fx_activated_at f),
     fx_completed_at := map_option column_time (fx_completed_at f),
     fx_terminal_observed_at := map_option column_time (fx_terminal_observed_at f),
     fx_last_activity_at := map_option column_time (fx_last_activity_at f),
     fx_last_polled_at := map_option column_time (fx_last_polled_at f),
     fx_created_at := now, fx_updated_at := now \<rparr>"

definition insert_fixture :: "instant \<Rightarrow> fixture \<Rightarrow> mutation_db \<Rightarrow> mutation_db result" where
  "insert_fixture now f db =
     bind_result (validate_fixture f) (\<lambda>_.
       if mu_fixtures db (fx_id f) \<noteq> None then Err ''duplicate key value violates unique constraint''
       else Ok (db\<lparr> mu_fixtures := (mu_fixtures db)(fx_id f := Some (fixture_row now f)) \<rparr>))"

section \<open>The scope of an active plan\<close>

fun check_all :: "('a \<Rightarrow> unit result) \<Rightarrow> 'a list \<Rightarrow> unit result" where
  "check_all f [] = Ok ()"
| "check_all f (x # xs) = bind_result (f x) (\<lambda>_. check_all f xs)"

definition check_insert_scope :: "int \<Rightarrow> planned_insert \<Rightarrow> unit result" where
  "check_insert_scope fid p =
     (case pi_event p of
        None \<Rightarrow> Err ''planned event insert does not belong to fixture''
      | Some e \<Rightarrow>
          if ev_fixture_id e \<noteq> fid then Err ''planned event insert does not belong to fixture''
          else (case pi_audit p of
                  None \<Rightarrow> Ok ()
                | Some r \<Rightarrow> if au_fixture_id r \<noteq> fid \<or> au_event_id r \<noteq> ev_id e
                             then Err ''planned event insert audit does not belong to fixture'' else Ok ()))"

definition check_audit_scope :: "int \<Rightarrow> uuid \<Rightarrow> audit_record \<Rightarrow> unit result" where
  "check_audit_scope fid ident r =
     (if au_fixture_id r \<noteq> fid \<or> au_event_id r \<noteq> ident
      then Err ''planned event audit does not belong to fixture'' else Ok ())"

definition check_update_scope :: "int \<Rightarrow> planned_update \<Rightarrow> unit result" where
  "check_update_scope fid p =
     (case pu_fresh p of
        None \<Rightarrow> Err ''planned event update does not belong to fixture''
      | Some e \<Rightarrow> if ev_fixture_id e \<noteq> fid then Err ''planned event update does not belong to fixture''
                   else Ok ())"

definition update_keys :: "planned_update list \<Rightarrow> uuid \<Rightarrow> go_string option" where
  "update_keys ups = map_of (rev (concat (map (\<lambda>p. case pu_fresh p of
     None \<Rightarrow> [] | Some e \<Rightarrow> [(pu_event_id p, ev_natural_key e)]) ups)))"

definition check_owned :: "mutation_db \<Rightarrow> int \<Rightarrow> planned_update list \<Rightarrow> uuid \<Rightarrow> unit result" where
  "check_owned db fid ups ident =
     (case find_event ident (ed_events db) of
        None \<Rightarrow> Err ''lock planned event: no rows in result set''
      | Some e \<Rightarrow>
          if ev_fixture_id e \<noteq> fid then Err ''planned event belongs to another fixture''
          else (case update_keys ups ident of
                  None \<Rightarrow> Ok ()
                | Some key \<Rightarrow> if key \<noteq> ev_natural_key e then Err ''planned event identity changed'' else Ok ()))"

text \<open>The rows of a restricted plan's absences and deletions are neither checked nor locked.\<close>

definition planned_ids :: "active_plan \<Rightarrow> bool \<Rightarrow> uuid list" where
  "planned_ids p trusted =
     map pp_event_id (ap_presences p) @ map pu_event_id (ap_updates p) @
     (if trusted then map pa_event_id (ap_absences p) @ ap_unknown_deletes p else [])"

definition validate_active_event_scope ::
  "mutation_db \<Rightarrow> int \<Rightarrow> active_plan \<Rightarrow> mutation_policy \<Rightarrow> unit result" where
  "validate_active_event_scope db fid p pol =
     (let trusted = (pol = PolicyTrusted) in
      bind_result (check_all (check_insert_scope fid) (ap_inserts p)) (\<lambda>_.
      bind_result (check_all (\<lambda>q. check_audit_scope fid (pp_event_id q) (pp_audit q)) (ap_presences p)) (\<lambda>_.
      bind_result (check_all (check_update_scope fid) (ap_updates p)) (\<lambda>_.
      bind_result (if trusted
                   then check_all (\<lambda>q. check_audit_scope fid (pa_event_id q) (pa_audit q)) (ap_absences p)
                   else Ok ()) (\<lambda>_.
      check_all (check_owned db fid (ap_updates p)) (planned_ids p trusted))))))"

section \<open>Completion\<close>

definition no_pending_events :: "mutation_db \<Rightarrow> int \<Rightarrow> bool" where
  "no_pending_events db fid \<longleftrightarrow>
     \<not> list_ex (\<lambda>e. ev_fixture_id e = fid \<and> \<not> ev_removed e \<and> \<not> ev_downstream_triggered e \<and>
                    0 < ev_debounce_count e) (ed_events db)"

definition no_open_downstream :: "mutation_db \<Rightarrow> int \<Rightarrow> bool" where
  "no_open_downstream db fid \<longleftrightarrow>
     \<not> list_ex (\<lambda>d. dw_completed_at d = None \<and>
          list_ex (\<lambda>e. ev_id e = dw_event_id d \<and> ev_fixture_id e = fid) (ed_events db)) (ed_downstream db)"

definition completion_ready :: "mutation_db \<Rightarrow> fixture \<Rightarrow> instant \<Rightarrow> bool" where
  "completion_ready db row cutoff \<longleftrightarrow>
     fx_state row = StateActive \<and>
     as_short (fx_status row) \<in> set [''ft'', ''aet'', ''pen'', ''canc'', ''abd'', ''wo'', ''awd''] \<and>
     (case fx_terminal_observed_at row of None \<Rightarrow> False | Some at \<Rightarrow> at \<le> column_time cutoff) \<and>
     no_pending_events db (fx_id row) \<and> no_open_downstream db (fx_id row)"

definition stored_goals :: "mutation_db \<Rightarrow> int \<Rightarrow> int \<Rightarrow> int" where
  "stored_goals db fid team_id =
     int (length (filter (\<lambda>e. ev_fixture_id e = fid \<and> ev_type e = TypeGoal \<and>
                            et_id (ev_team e) = team_id \<and> \<not> ev_removed e) (ed_events db)))"

definition durable_parity :: "mutation_db \<Rightarrow> fixture \<Rightarrow> bool option" where
  "durable_parity db row =
     (if as_short (fx_status row) \<in> set [''canc'', ''abd'', ''wo'', ''awd''] then None
      else Some (fx_home_score row = Some (stored_goals db (fx_id row) (tm_id (fx_home row))) \<and>
                 fx_away_score row = Some (stored_goals db (fx_id row) (tm_id (fx_away row)))))"

definition penalty_decided :: "fixture \<Rightarrow> bool option" where
  "penalty_decided f =
     (if as_short (fx_status f) = ''pen''
      then Some (fx_home_penalty f \<noteq> None \<and> fx_away_penalty f \<noteq> None \<and> fx_home_penalty f \<noteq> fx_away_penalty f)
      else None)"

definition complete_fixture_if_ready_tx ::
  "instant \<Rightarrow> fixture \<Rightarrow> completion_plan \<Rightarrow> mutation_db \<Rightarrow> (mutation_db \<times> bool) result" where
  "complete_fixture_if_ready_tx now f cp db =
     (if cp_terminal_before cp = 0 \<or> cp_completed_at cp = 0 \<or> cp_grace_seconds cp \<le> 0 then Ok (db, False)
      else bind_result (locked_fixture db (fx_id f)) (\<lambda>row.
        if \<not> completion_ready db row (cp_terminal_before cp) then Ok (db, False)
        else (case fx_terminal_observed_at f of
                None \<Rightarrow> Err ''completion-ready fixture lacks terminal observation''
              | Some terminal \<Rightarrow>
                  bind_result (new_audit KindFixtureCompleted 0 (fx_id f) (CompletedPayload
                    \<lparr> fcp_fixture_id = fx_id f, fcp_terminal_observed_at = terminal,
                       fcp_completed_at = cp_completed_at cp, fcp_grace_seconds = cp_grace_seconds cp,
                       fcp_provider_parity = cp_provider_parity cp, fcp_durable_parity = durable_parity db row,
                       fcp_penalty_decided = penalty_decided f \<rparr>)) (\<lambda>r.
                  bind_result (insert_audit_log r
                    (update_fixture_row now (fx_id f) (in_state StateActive)
                       (\<lambda>row. row\<lparr> fx_state := StateCompleted,
                          fx_completed_at := Some (column_time (cp_completed_at cp)) \<rparr>) db)) (\<lambda>db'.
                  Ok (db', True))))))"

section \<open>Evidence of restricted operations\<close>

definition completion_check :: "active_plan \<Rightarrow> fixture \<Rightarrow> bool" where
  "completion_check p f \<longleftrightarrow>
     (let cp = ap_completion p in
      status_terminal (fx_status f) \<and>
      (case fx_terminal_observed_at f of
         None \<Rightarrow> False
       | Some at \<Rightarrow> cp_terminal_before cp \<noteq> 0 \<and> cp_completed_at cp \<noteq> 0 \<and> 0 < cp_grace_seconds cp \<and>
                    at \<le> cp_terminal_before cp))"

definition inserted_ids :: "planned_insert list \<Rightarrow> uuid list" where
  "inserted_ids ps = concat (map (\<lambda>p. case pi_event p of None \<Rightarrow> [] | Some e \<Rightarrow> [ev_id e]) ps)"

definition restricted_active_operations ::
  "active_plan \<Rightarrow> fixture \<Rightarrow> mutation_policy \<Rightarrow> restricted_operations option" where
  "restricted_active_operations p f pol =
     (if pol = PolicyTrusted then None
      else Some \<lparr> ro_fixture_refresh_limited = True,
        ro_event_inserts = (if pol = PolicyRejected then inserted_ids (ap_inserts p) else []),
        ro_presence_votes = (if pol = PolicyRejected then map pp_event_id (ap_presences p) else []),
        ro_event_corrections_limited = map pu_event_id (ap_updates p),
        ro_absence_votes = map pa_event_id (ap_absences p),
        ro_placeholder_deletes = ap_unknown_deletes p,
        ro_completion_check = completion_check p f \<rparr>)"

definition restricted_fixture_operations :: "fixture_plan \<Rightarrow> mutation_policy \<Rightarrow> restricted_operations option" where
  "restricted_fixture_operations p pol =
     (if pol = PolicyTrusted \<or> (pol = PolicyPositiveOnly \<and> \<not> fp_baseline_exists p) then None
      else Some \<lparr> ro_fixture_refresh_limited = True, ro_event_inserts = [], ro_presence_votes = [],
        ro_event_corrections_limited = [], ro_absence_votes = [], ro_placeholder_deletes = [],
        ro_completion_check = False \<rparr>)"

section \<open>Applying an active plan\<close>

text \<open>The loops over the planned operations; each carries the tables and the result so far.\<close>

type_synonym progress = "mutation_db \<times> mutation_result"

definition apply_insert :: "instant \<Rightarrow> go_string \<Rightarrow> planned_insert \<Rightarrow> progress \<Rightarrow> progress result" where
  "apply_insert now workflow p st =
     (case st of (db, out) \<Rightarrow>
        bind_result (insert_planned_event now workflow p db) (\<lambda>db'.
          case pi_event p of
            None \<Rightarrow> Err ''invalid planned event insert''
          | Some e \<Rightarrow> Ok (db', out\<lparr> mr_inserted := mr_inserted out @ [ev_id e],
              mr_new_named := mr_new_named out @ (if player_known (ev_player e) then [ev_id e] else []),
              mr_event_changed := True \<rparr>)))"

definition apply_presence ::
  "(uuid \<Rightarrow> go_string) \<Rightarrow> instant \<Rightarrow> go_string \<Rightarrow> planned_presence \<Rightarrow> progress \<Rightarrow> progress result" where
  "apply_presence uuid_text now workflow p st =
     (case st of (db, out) \<Rightarrow>
        bind_result (register_presence_tx uuid_text now workflow p db) (\<lambda>(db', triggered).
          Ok (db', if triggered
                   then out\<lparr> mr_stable := mr_stable out @ [pp_event_id p], mr_event_changed := True \<rparr>
                   else out)))"

definition apply_update :: "instant \<Rightarrow> bool \<Rightarrow> planned_update \<Rightarrow> progress \<Rightarrow> progress result" where
  "apply_update now trusted p st =
     (case st of (db, out) \<Rightarrow>
        bind_result (update_event_fields_tx now trusted p db) (\<lambda>(db', changed).
          Ok (db', out\<lparr> mr_event_changed := mr_event_changed out \<or> changed \<rparr>)))"

definition apply_delete :: "int \<Rightarrow> uuid \<Rightarrow> progress \<Rightarrow> progress result" where
  "apply_delete fid ident st =
     (case st of (db, out) \<Rightarrow>
        let (db', dropped) = delete_unknown_event fid ident db in
        Ok (db', if dropped
                 then out\<lparr> mr_unknown_dropped := mr_unknown_dropped out + 1, mr_event_changed := True \<rparr>
                 else out))"

definition apply_absence ::
  "instant \<Rightarrow> instant \<Rightarrow> go_string \<Rightarrow> planned_absence \<Rightarrow> progress \<Rightarrow> progress result" where
  "apply_absence now clock workflow p st =
     (case st of (db, out) \<Rightarrow>
        bind_result (register_absence_tx now clock workflow p db) (\<lambda>(db', removed).
          Ok (db', if removed
                   then out\<lparr> mr_removed := mr_removed out @ [pa_event_id p], mr_event_changed := True \<rparr>
                   else out)))"

text \<open>What a trusted policy adds: deletions, absences and the completion check.\<close>

definition apply_trusted_part ::
  "instant \<Rightarrow> instant \<Rightarrow> active_plan \<Rightarrow> fixture \<Rightarrow> progress \<Rightarrow> progress result" where
  "apply_trusted_part now clock p target st =
     bind_result (fold_result (apply_delete (fx_id target)) (ap_unknown_deletes p) st) (\<lambda>st1.
     bind_result (fold_result (apply_absence now clock (ap_workflow p)) (ap_absences p) st1) (\<lambda>(db, out).
     bind_result (complete_fixture_if_ready_tx now target (ap_completion p) db) (\<lambda>(db', completed).
       Ok (db', out\<lparr> mr_completed := completed,
                     mr_fixture_changed := mr_fixture_changed out \<or> completed \<rparr>))))"

definition apply_event_part ::
  "(uuid \<Rightarrow> go_string) \<Rightarrow> instant \<Rightarrow> active_plan \<Rightarrow> mutation_policy \<Rightarrow> progress \<Rightarrow> progress result" where
  "apply_event_part uuid_text now p pol st =
     bind_result (fold_result (apply_insert now (ap_workflow p)) (ap_inserts p) st) (\<lambda>st1.
     bind_result (fold_result (apply_presence uuid_text now (ap_workflow p)) (ap_presences p) st1)
       (fold_result (apply_update now (pol = PolicyTrusted)) (ap_updates p)))"

definition active_target :: "mutation_policy \<Rightarrow> fixture \<Rightarrow> fixture \<Rightarrow> fixture" where
  "active_target pol current observed =
     (if pol = PolicyPositiveOnly then merge_positive_fixture current observed else observed)"

text \<open>The body behind the guards: the writes and the classification of what they changed.\<close>

definition write_active ::
  "(uuid \<Rightarrow> go_string) \<Rightarrow> instant \<Rightarrow> instant \<Rightarrow> active_plan \<Rightarrow> fixture \<Rightarrow> fixture \<Rightarrow> mutation_policy \<Rightarrow>
   mutation_result \<Rightarrow> mutation_db \<Rightarrow> progress result" where
  "write_active uuid_text now clock p current observed pol out0 db =
     (let target = active_target pol current observed;
          db1 = update_active_fixture_tx now target db;
          out1 = out0\<lparr> mr_applied := True,
                       mr_fixture_changed := fixture_publicly_changed (Some current) (Some target) \<rparr>
      in bind_result (apply_event_part uuid_text now p pol (db1, out1)) (\<lambda>st.
         bind_result (if pol = PolicyTrusted then apply_trusted_part now clock p target st else Ok st) (\<lambda>(db2, out2).
         bind_result (locked_fixture db2 (fx_id current)) (\<lambda>stored.
           Ok (db2, classify_changes (out2\<lparr> mr_fixture := Some stored \<rparr>) (Some current))))))"

definition active_plan_stale :: "active_plan \<Rightarrow> fixture \<Rightarrow> instant \<Rightarrow> int \<Rightarrow> bool" where
  "active_plan_stale p current provider_at generation \<longleftrightarrow>
     \<not> ap_baseline_exists p \<or> fx_state current \<noteq> StateActive \<or>
     fx_last_polled_at current \<noteq> ap_baseline_polled p \<or>
     \<not> newer_observation (og_observed_at (ap_guard p)) (fx_last_polled_at current) \<or>
     provider_at \<noteq> og_observed_at (ap_guard p) \<or> generation \<noteq> og_expected_generation (ap_guard p)"

definition health_receipt_matches :: "observation_guard \<Rightarrow> fixture_health \<Rightarrow> bool" where
  "health_receipt_matches g h \<longleftrightarrow>
     \<not> og_require_health g \<or>
     fh_last_poll_id h = og_observation_id g \<and> fh_last_observed_at h = og_observed_at g"

text \<open>A result of the write becomes the committed tables; an error keeps the old ones.\<close>

definition commit_or_rollback ::
  "mutation_db \<Rightarrow> observation_guard \<Rightarrow> int \<Rightarrow> int \<Rightarrow> progress result \<Rightarrow> mutation_db \<times> mutation_result result" where
  "commit_or_rollback db g fid generation r =
     (case r of Err e \<Rightarrow> (db, Err e)
      | Ok (db', out) \<Rightarrow> commit_mutation_result db' g fid generation out)"

definition decide_active ::
  "enforcement_mode \<Rightarrow> active_plan \<Rightarrow> fixture \<Rightarrow> mutation_policy \<Rightarrow> fixture_health \<Rightarrow> mutation_result" where
  "decide_active mode p observed provider_pol h =
     (let (decision, pol) = decide_mutation mode provider_pol (fixture_health_policy h) (ap_local_policy p);
          d = decision\<lparr> md_writer := MutationModeActive,
                 md_restricted := restricted_active_operations p observed (md_recommended_policy decision) \<rparr>
      in zero_result\<lparr> mr_decision := Some d, mr_policy := pol \<rparr>)"

text \<open>The transaction behind the receipt check, on the locked fixture.\<close>

definition decide_and_write_active ::
  "(uuid \<Rightarrow> go_string) \<Rightarrow> enforcement_mode \<Rightarrow> instant \<Rightarrow> instant \<Rightarrow> active_plan \<Rightarrow> fixture \<Rightarrow> fixture \<Rightarrow>
   instant \<times> int \<times> mutation_policy \<Rightarrow> mutation_db \<Rightarrow> mutation_db \<times> mutation_result result" where
  "decide_and_write_active uuid_text mode now clock p observed current provider db =
     (let (provider_at, generation, provider_pol) = provider; g = ap_guard p in
      if active_plan_stale p current provider_at generation
      then commit_stale_receipt db g (fx_id current) (Some current) generation
      else (case fixture_health_of db (fx_id current) of
              Err e \<Rightarrow> (db, Err e)
            | Ok h \<Rightarrow>
                if \<not> health_receipt_matches g h
                then commit_stale_receipt db g (fx_id current) (Some current) generation
                else
                  let out = decide_active mode p observed provider_pol h; pol = mr_policy out in
                  if pol = PolicyRejected
                  then commit_mutation_result db g (fx_id current) generation (out\<lparr> mr_fixture := Some current \<rparr>)
                  else (case validate_active_event_scope db (fx_id current) p pol of
                          Err e \<Rightarrow> (db, Err e)
                        | Ok _ \<Rightarrow> commit_or_rollback db g (fx_id current) generation
                            (write_active uuid_text now clock p current observed pol out db))))"

definition apply_active ::
  "(uuid \<Rightarrow> go_string) \<Rightarrow> enforcement_mode \<Rightarrow> instant \<Rightarrow> instant \<Rightarrow> active_plan \<Rightarrow> mutation_db \<Rightarrow>
   mutation_db \<times> mutation_result result" where
  "apply_active uuid_text mode now clock raw db =
     (if \<not> enforcement_valid mode then (db, Err ''invalid provider enforcement mode'')
      else
        let p = normalize_active raw in
        (case validate_active_plan p of
           Err e \<Rightarrow> (db, Err e)
         | Ok observed \<Rightarrow>
             (case provider_policy_of db of
                Err e \<Rightarrow> (db, Err e)
              | Ok provider \<Rightarrow>
                  (case load_receipt db (ap_guard p) (fx_id observed) of
                     Err e \<Rightarrow> (db, Err e)
                   | Ok (Some receipt) \<Rightarrow> (db, Ok receipt)
                   | Ok None \<Rightarrow>
                       (case locked_fixture db (fx_id observed) of
                          Err e \<Rightarrow> (db, Err e)
                        | Ok current \<Rightarrow>
                            decide_and_write_active uuid_text mode now clock p observed current provider db)))))"

section \<open>Applying a fixture plan\<close>

definition fixture_plan_stale :: "fixture_plan \<Rightarrow> fixture option \<Rightarrow> bool" where
  "fixture_plan_stale p current \<longleftrightarrow>
     fp_baseline_exists p \<noteq> (current \<noteq> None) \<or>
     (case current of
        None \<Rightarrow> False
      | Some c \<Rightarrow> fx_last_polled_at c \<noteq> fp_baseline_polled p \<or>
          \<not> newer_observation (og_observed_at (fp_guard p)) (fx_last_polled_at c))"

definition fixture_policy_of :: "mutation_db \<Rightarrow> fixture option \<Rightarrow> mutation_policy result" where
  "fixture_policy_of db current =
     (case current of
        None \<Rightarrow> Ok PolicyTrusted
      | Some c \<Rightarrow> bind_result (fixture_health_of db (fx_id c)) (\<lambda>h. Ok (fixture_health_policy h)))"

definition fixture_target :: "fixture_plan \<Rightarrow> mutation_policy \<Rightarrow> fixture \<Rightarrow> fixture \<Rightarrow> fixture" where
  "fixture_target p pol current observed =
     (if pol = PolicyPositiveOnly then
        let target = merge_positive_fixture current observed in
        if fp_mode p = MutationModeStaging \<and> fp_activate p
        then target\<lparr> fx_state := fx_state observed, fx_activated_at := fx_activated_at observed \<rparr>
        else target
      else observed)"

text \<open>Ingestion keeps the lifecycle of the stored row.\<close>

definition keep_lifecycle :: "fixture \<Rightarrow> fixture \<Rightarrow> fixture" where
  "keep_lifecycle current target = target\<lparr> fx_state := fx_state current,
     fx_activated_at := fx_activated_at current, fx_completed_at := fx_completed_at current,
     fx_terminal_observed_at := fx_terminal_observed_at current \<rparr>"

text \<open>The write of an existing row; \<open>None\<close> is the late staging check that commits a stale receipt.\<close>

definition write_existing_fixture ::
  "instant \<Rightarrow> fixture_plan \<Rightarrow> fixture \<Rightarrow> fixture \<Rightarrow> mutation_db \<Rightarrow> mutation_db option result" where
  "write_existing_fixture now p current target db =
     (case fp_mode p of
        MutationModeIngest \<Rightarrow> Ok (Some (update_ingest_fixture_tx now (keep_lifecycle current target) db))
      | MutationModeStaging \<Rightarrow>
          if fx_state current \<noteq> StateStaging then Ok None
          else if fp_activate p then
            (case fp_activation_audit p of
               None \<Rightarrow> Err ''activation audit is required''
             | Some r \<Rightarrow>
                 if \<not> audit_valid r then Err ''activation audit is required''
                 else bind_result (activate_staging_fixture_tx now target r db) (\<lambda>db'. Ok (Some db')))
          else Ok (Some (update_staging_fixture_tx now target db))
      | _ \<Rightarrow> Err ''unsupported fixture mutation mode'')"

definition write_fixture ::
  "instant \<Rightarrow> fixture_plan \<Rightarrow> fixture option \<Rightarrow> fixture \<Rightarrow> mutation_policy \<Rightarrow> mutation_db \<Rightarrow>
   mutation_db option result" where
  "write_fixture now p current observed pol db =
     (case current of
        None \<Rightarrow> bind_result (insert_fixture now observed db) (\<lambda>db'. Ok (Some db'))
      | Some c \<Rightarrow> write_existing_fixture now p c (fixture_target p pol c observed) db)"

definition decide_fixture ::
  "enforcement_mode \<Rightarrow> fixture_plan \<Rightarrow> mutation_policy \<Rightarrow> mutation_policy \<Rightarrow> mutation_result" where
  "decide_fixture mode p provider_pol fixture_pol =
     (let (decision, pol) = decide_mutation mode provider_pol fixture_pol (fp_local_policy p);
          d = decision\<lparr> md_writer := fp_mode p,
                 md_restricted := restricted_fixture_operations p (md_recommended_policy decision) \<rparr>
      in zero_result\<lparr> mr_decision := Some d, mr_policy := pol \<rparr>)"

definition decide_and_write_fixture ::
  "enforcement_mode \<Rightarrow> instant \<Rightarrow> fixture_plan \<Rightarrow> fixture \<Rightarrow> fixture option \<Rightarrow>
   instant \<times> int \<times> mutation_policy \<Rightarrow> mutation_db \<Rightarrow> mutation_db \<times> mutation_result result" where
  "decide_and_write_fixture mode now p observed current provider db =
     (let (_, generation, provider_pol) = provider; g = fp_guard p; fid = fx_id observed in
      if fixture_plan_stale p current then commit_stale_receipt db g fid current generation
      else (case fixture_policy_of db current of
              Err e \<Rightarrow> (db, Err e)
            | Ok fixture_pol \<Rightarrow>
                let out = decide_fixture mode p provider_pol fixture_pol; pol = mr_policy out in
                if pol = PolicyRejected
                then commit_mutation_result db g fid generation (out\<lparr> mr_fixture := current \<rparr>)
                else (case write_fixture now p current observed pol db of
                        Err e \<Rightarrow> (db, Err e)
                      | Ok None \<Rightarrow> commit_stale_receipt db g fid current generation
                      | Ok (Some db') \<Rightarrow>
                          (case locked_fixture db' fid of
                             Err e \<Rightarrow> (db, Err e)
                           | Ok stored \<Rightarrow> commit_mutation_result db' g fid generation
                               (classify_changes (out\<lparr> mr_applied := True, mr_fixture := Some stored \<rparr>) current)))))"

definition apply_fixture ::
  "enforcement_mode \<Rightarrow> instant \<Rightarrow> fixture_plan \<Rightarrow> mutation_db \<Rightarrow> mutation_db \<times> mutation_result result" where
  "apply_fixture mode now raw db =
     (if \<not> enforcement_valid mode then (db, Err ''invalid provider enforcement mode'')
      else
        let p = normalize_fixture_plan raw in
        (case validate_fixture_plan p of
           Err e \<Rightarrow> (db, Err e)
         | Ok observed \<Rightarrow>
             (case provider_policy_of db of
                Err e \<Rightarrow> (db, Err e)
              | Ok provider \<Rightarrow>
                  (case load_receipt db (fp_guard p) (fx_id observed) of
                     Err e \<Rightarrow> (db, Err e)
                   | Ok (Some receipt) \<Rightarrow> (db, Ok receipt)
                   | Ok None \<Rightarrow>
                       decide_and_write_fixture mode now p observed (mu_fixtures db (fx_id observed)) provider db))))"

section \<open>Receipts are found again\<close>

lemma find_receipt_append_new:
  "find_receipt oid fid rows = None \<Longrightarrow> rc_observation_id r = oid \<Longrightarrow> rc_fixture_id r = fid \<Longrightarrow>
     find_receipt oid fid (rows @ [r]) = Some r"
  by (induction rows) (auto simp: find_receipt_def)

lemma find_receipt_filter:
  assumes "find_receipt oid fid rows = Some r" "P r"
    and "\<And>q. q \<in> set rows \<Longrightarrow> rc_observation_id q = oid \<Longrightarrow> rc_fixture_id q = fid \<Longrightarrow> P q"
  shows "find_receipt oid fid (filter P rows) = Some r"
  using assms by (induction rows) (auto simp: find_receipt_def split: if_splits)

lemma expire_keeps_fresh:
  assumes "find_receipt oid fid rows = Some r" "cutoff \<le> rc_observed_at r"
    and unique: "\<And>q. q \<in> set rows \<Longrightarrow> rc_observation_id q = oid \<Longrightarrow> rc_fixture_id q = fid \<Longrightarrow> q = r"
  shows "find_receipt oid fid (expire_mutation_receipts cutoff rows) = Some r"
proof -
  define old where "old = take 128 (sort_key rc_observed_at (filter (\<lambda>r. rc_observed_at r < cutoff) rows))"
  have old: "q \<in> set old \<Longrightarrow> q \<in> set rows \<and> rc_observed_at q < cutoff" for q
    unfolding old_def by (auto dest: in_set_takeD)
  have keep: "(oid, fid) \<notin> (\<lambda>r. (rc_observation_id r, rc_fixture_id r)) ` set old"
  proof
    assume "(oid, fid) \<in> (\<lambda>r. (rc_observation_id r, rc_fixture_id r)) ` set old"
    then obtain x where "x \<in> set old" "rc_observation_id x = oid" "rc_fixture_id x = fid" by auto
    with old [of x] unique [of x] assms(2) show False by auto
  qed
  have r: "rc_observation_id r = oid" "rc_fixture_id r = fid"
    using assms(1) unfolding find_receipt_def by (induction rows) (auto split: if_splits)
  show ?thesis
    unfolding expire_mutation_receipts_def old_def [symmetric] Let_def
    by (rule find_receipt_filter [OF assms(1)]) (use keep r in simp_all)
qed

lemma find_receipt_None:
  "find_receipt oid fid rows = None \<Longrightarrow> q \<in> set rows \<Longrightarrow> rc_observation_id q = oid \<Longrightarrow> rc_fixture_id q \<noteq> fid"
  by (auto simp: find_receipt_def find_None_iff)

lemma health_receipt_retention_nonneg: "0 \<le> health_receipt_retention"
  by (simp add: health_receipt_retention_def duration_defs)

lemma commit_mutation_result_records:
  assumes "find_receipt (og_observation_id g) fid (mu_receipts db) = None"
    and "commit_mutation_result db g fid generation out = (db', r)"
  shows "r = Ok out \<and> load_receipt db' g fid = Ok (Some out) \<and>
    db' = db\<lparr> mu_receipts := mu_receipts db' \<rparr>"
proof -
  let ?row = "\<lparr> rc_observation_id = og_observation_id g, rc_fixture_id = fid,
    rc_observed_at = og_observed_at g, rc_generation = generation, rc_result = out \<rparr>"
  let ?rows = "expire_mutation_receipts (og_observed_at g - health_receipt_retention) (mu_receipts db @ [?row])"
  have db': "db' = db\<lparr> mu_receipts := ?rows \<rparr>" "r = Ok out"
    using assms by (auto simp: commit_mutation_result_def Let_def)
  have "find_receipt (og_observation_id g) fid ?rows = Some ?row"
  proof (rule expire_keeps_fresh)
    show "find_receipt (og_observation_id g) fid (mu_receipts db @ [?row]) = Some ?row"
      using assms(1) by (rule find_receipt_append_new) simp_all
  next
    show "q = ?row" if "q \<in> set (mu_receipts db @ [?row])" "rc_observation_id q = og_observation_id g"
      "rc_fixture_id q = fid" for q
      using that find_receipt_None [OF assms(1)] by auto
  qed (use health_receipt_retention_nonneg in simp)
  then show ?thesis using db' by (simp add: load_receipt_def)
qed

text \<open>What the write parts leave alone: the provider row, the health rows and the receipts.\<close>

definition same_guards :: "mutation_db \<Rightarrow> mutation_db \<Rightarrow> bool" where
  "same_guards db db' \<longleftrightarrow> mu_receipts db' = mu_receipts db \<and> mu_health db' = mu_health db \<and>
     mu_provider_observed db' = mu_provider_observed db \<and>
     mu_provider_generation db' = mu_provider_generation db \<and>
     mu_provider_policy db' = mu_provider_policy db"

lemma same_guards_refl [simp]: "same_guards db db"
  by (simp add: same_guards_def)

lemma same_guards_trans: "same_guards a b \<Longrightarrow> same_guards b c \<Longrightarrow> same_guards a c"
  by (simp add: same_guards_def)

text \<open>An event operation changes the event tables only.\<close>

definition same_rest :: "mutation_db \<Rightarrow> mutation_db \<Rightarrow> bool" where
  "same_rest db db' \<longleftrightarrow> same_guards db db' \<and> mu_fixtures db' = mu_fixtures db"

lemma same_rest_refl [simp]: "same_rest db db"
  by (simp add: same_rest_def)

lemma same_rest_trans: "same_rest a b \<Longrightarrow> same_rest b c \<Longrightarrow> same_rest a c"
  by (auto simp: same_rest_def intro: same_guards_trans)

lemma insert_audit_log_rest: "insert_audit_log r db = Ok db' \<Longrightarrow> same_rest db db'"
  by (auto simp: insert_audit_log_Ok same_rest_def same_guards_def)

lemma event_writes_rest [simp]:
  "same_rest db (update_event now i f db)"
  "same_rest db (cast_presence_vote now i w db)"
  "same_rest db (cast_drop_vote now i w db)"
  "same_rest db (close_downstream now i db)"
  "same_rest db (terminalize_candidates i url at db)"
  "same_rest db (insert_downstream i t w db)"
  "same_rest db (fst (delete_unknown_event fid i db))"
  by (auto simp: same_rest_def same_guards_def update_event_def cast_presence_vote_def cast_drop_vote_def
      close_downstream_def terminalize_candidates_def insert_downstream_def delete_unknown_event_def)

lemma insert_planned_event_rest: "insert_planned_event now w p db = Ok db' \<Longrightarrow> same_rest db db'"
  by (auto simp: insert_planned_event_def Let_def bind_result_Ok_iff insert_audit_log_Ok same_rest_def
      same_guards_def split: option.splits if_splits)

lemma register_presence_tx_rest:
  assumes "register_presence_tx txt now w p db = Ok (db', t)"
  shows "same_rest db db'"
proof -
  let ?db1 = "cast_presence_vote now (pp_event_id p) w db"
  consider "db' = db" | "db' = ?db1"
    | db2 where "insert_audit_log (pp_audit p) (update_event now (pp_event_id p) mark_triggered ?db1) = Ok db2"
      "db' = insert_downstream (pp_event_id p) ''discovery'' (discovery_workflow_id txt (pp_event_id p)) db2"
    using assms
    by (auto simp: register_presence_tx_def Let_def bind_result_Ok_iff split: option.splits if_splits)
  then show ?thesis
    by cases (auto intro: same_rest_trans [OF _ event_writes_rest(6)]
        same_rest_trans [OF _ insert_audit_log_rest] same_rest_trans [OF event_writes_rest(2) event_writes_rest(1)])
qed

lemma register_absence_tx_rest:
  assumes "register_absence_tx now clock w p db = Ok (db', t)"
  shows "same_rest db db'"
proof -
  let ?i = "pa_event_id p"
  let ?db1 = "cast_drop_vote now ?i w db"
  let ?db2 = "update_event now ?i (mark_removed now) ?db1"
  have "same_rest db ?db2" by (rule same_rest_trans [OF event_writes_rest(3) event_writes_rest(1)])
  then have "same_rest db (close_downstream now ?i (terminalize_candidates ?i [] clock ?db2))"
    by (rule same_rest_trans [OF same_rest_trans [OF _ event_writes_rest(5)] event_writes_rest(4)])
  note removal = this
  consider "db' = db" | "db' = ?db1"
    | "insert_audit_log (pa_audit p) (close_downstream now ?i (terminalize_candidates ?i [] clock ?db2)) = Ok db'"
    using assms
    by (auto simp: register_absence_tx_def Let_def bind_result_Ok_iff split: option.splits if_splits)
  then show ?thesis
    by cases (auto intro: same_rest_trans [OF removal insert_audit_log_rest])
qed

lemma update_event_fields_tx_rest: "update_event_fields_tx now tr p db = Ok (db', t) \<Longrightarrow> same_rest db db'"
  by (auto simp: update_event_fields_tx_def split: option.splits if_splits)

end
