(* ===== verification/Reconcile.thy ===== *)
theory Reconcile
  imports EventIdentity MutationStore
begin

text \<open>
  The reconciliation of one polled fixture, \<open>internal/activity/monitor\<close>: the facts the integrity
  evaluator compares (\<open>provider_observation.go\<close>), the domain events and audit records built from
  the provider's array (\<open>emission.go\<close>), and the guarded activity that reads the stored rows, plans
  every mutation without writing, hands the plan to the mutation store and starts the downstream
  work of the events that became stable (\<open>reconcile_guarded.go\<close>). The world of the activity is the
  tables of the mutation store and the spawn requests sent to the workflow engine. The random ids
  of new events, the canonical text of an id, the iteration order of the map of stored keys and the
  answer of the spawner are arguments.
\<close>

section \<open>Facts for the integrity evaluator\<close>

definition provider_event_fact ::
  "go_string \<Rightarrow> int \<Rightarrow> int option \<Rightarrow> event_type \<Rightarrow> go_string \<Rightarrow> int \<Rightarrow> int option \<Rightarrow> int \<Rightarrow> event_fact" where
  "provider_event_fact key team_id player_id t detail minute extra count =
     \<lparr> ef_key = key, ef_team_id = team_id, ef_player_id = player_id, ef_type = type_text t,
       ef_detail = detail, ef_minute = minute, ef_extra = extra, ef_debounce_count = count \<rparr>"

definition stored_event_fact :: "event \<Rightarrow> event_fact" where
  "stored_event_fact e = provider_event_fact (ev_natural_key e) (et_id (ev_team e)) (pl_id (ev_player e))
     (ev_type e) (ev_detail e) (ev_minute e) (ev_extra e) (ev_debounce_count e)"

definition observed_event_fact :: "api_event \<Rightarrow> event_type \<Rightarrow> int \<Rightarrow> event_fact" where
  "observed_event_fact e t n = provider_event_fact
     (compose_natural_key (aft_id (afe_team e)) (afp_id (afe_player e)) t n)
     (aft_id (afe_team e)) (afp_id (afe_player e)) t (afe_detail e) (afe_elapsed e) (afe_extra e) 0"

definition api_status_of :: "api_fixture \<Rightarrow> api_status" where
  "api_status_of f = \<lparr> as_short = afs_short (af_status f), as_long = afs_long (af_status f) \<rparr>"

definition observed_facts :: "api_fixture \<Rightarrow> fixture_facts" where
  "observed_facts f = \<lparr> ff_fixture_id = af_id f, ff_home_id = aft_id (af_home f),
     ff_away_id = aft_id (af_away f), ff_league_id = afl_id (af_league f),
     ff_home_name = aft_name (af_home f), ff_away_name = aft_name (af_away f),
     ff_league_name = afl_name (af_league f), ff_status = afs_short (af_status f),
     ff_terminal = status_terminal (api_status_of f), ff_elapsed = afs_elapsed (af_status f),
     ff_extra = afs_extra (af_status f), ff_home_score = af_goals_home f,
     ff_away_score = af_goals_away f, ff_has_events = (af_events f \<noteq> []) \<rparr>"

definition provider_fixture_facts :: "fixture \<Rightarrow> fixture_facts" where
  "provider_fixture_facts f = \<lparr> ff_fixture_id = fx_id f, ff_home_id = tm_id (fx_home f),
     ff_away_id = tm_id (fx_away f), ff_league_id = lg_id (fx_league f),
     ff_home_name = tm_name (fx_home f), ff_away_name = tm_name (fx_away f),
     ff_league_name = lg_name (fx_league f), ff_status = as_short (fx_status f),
     ff_terminal = status_terminal (fx_status f), ff_elapsed = fx_elapsed f, ff_extra = fx_extra f,
     ff_home_score = fx_home_score f, ff_away_score = fx_away_score f, ff_has_events = False \<rparr>"

definition observed_event_facts :: "api_event list \<Rightarrow> (nat \<Rightarrow> int option) \<Rightarrow> event_fact list" where
  "observed_event_facts es sequences = concat (map (\<lambda>(i, e).
     case (trackable_type e, sequences i) of
       (Some t, Some n) \<Rightarrow> [observed_event_fact e t n] | _ \<Rightarrow> []) (enumerate 0 es))"

definition provider_fixture_comparison ::
  "fixture \<Rightarrow> event list \<Rightarrow> api_fixture \<Rightarrow> (nat \<Rightarrow> int option) \<Rightarrow> fixture_comparison" where
  "provider_fixture_comparison stored rows f sequences =
     (let active = filter (\<lambda>e. \<not> ev_removed e) rows in
      \<lparr> fc_stored = (provider_fixture_facts stored)\<lparr> ff_has_events := (rows \<noteq> []) \<rparr>,
        fc_observed = observed_facts f,
        fc_stored_events = map stored_event_fact active,
        fc_confirmed_events = map stored_event_fact (filter ev_downstream_triggered active),
        fc_observed_events = observed_event_facts (af_events f) sequences \<rparr>)"

section \<open>Domain events and audit records\<close>

definition build_domain_event ::
  "uuid \<Rightarrow> fixture \<Rightarrow> api_event \<Rightarrow> event_type \<Rightarrow> int \<Rightarrow> instant \<Rightarrow> event result" where
  "build_domain_event fresh f e t n at =
     (if aft_id (afe_team e) = 0 then Err ''apiEv missing team_id''
      else Ok ((new_event fresh (fx_id f)
             \<lparr> et_id = aft_id (afe_team e), et_name = aft_name (afe_team e) \<rparr>
             \<lparr> pl_id = afp_id (afe_player e), pl_name = afp_name (afe_player e) \<rparr>
             t (if afe_detail e = [] then type_text t else afe_detail e) (afe_elapsed e) (afe_extra e) n at)
           \<lparr> ev_assist := \<lparr> pl_id = afp_id (afe_assist e), pl_name = afp_name (afe_assist e) \<rparr> \<rparr>))"

definition player_name :: "player \<Rightarrow> go_string" where
  "player_name p = (case pl_name p of None \<Rightarrow> [] | Some s \<Rightarrow> s)"

definition event_detected_audit :: "uuid \<Rightarrow> int \<Rightarrow> event \<Rightarrow> audit_record result" where
  "event_detected_audit ident fid e = new_audit KindEventDetected ident fid (DetectedPayload
     \<lparr> esp_event_id = ident, esp_fixture_id = fid, esp_event_type = type_text (ev_type e),
       esp_detail = ev_detail e, esp_minute = ev_minute e, esp_extra = ev_extra e,
       esp_player_name = player_name (ev_player e), esp_team_id = et_id (ev_team e),
       esp_team_name = et_name (ev_team e), edp_counter = 1 \<rparr>)"

definition event_stable_audit :: "uuid \<Rightarrow> int \<Rightarrow> event \<Rightarrow> audit_record result" where
  "event_stable_audit ident fid e = new_audit KindEventStable ident fid (StablePayload
     \<lparr> esp_event_id = ident, esp_fixture_id = fid, esp_event_type = type_text (ev_type e),
       esp_detail = ev_detail e, esp_minute = ev_minute e, esp_extra = ev_extra e,
       esp_player_name = player_name (ev_player e), esp_team_id = et_id (ev_team e),
       esp_team_name = et_name (ev_team e) \<rparr>)"

definition event_removed_audit :: "uuid \<Rightarrow> int \<Rightarrow> instant \<Rightarrow> audit_record result" where
  "event_removed_audit ident fid at = new_audit KindEventRemoved ident fid (RemovedPayload
     \<lparr> erp_event_id = ident, erp_fixture_id = fid, erp_removed_at = at,
       erp_reason = ''debounce_zero'' \<rparr>)"

definition fixture_activated_audit :: "int \<Rightarrow> instant \<Rightarrow> go_string \<Rightarrow> audit_record result" where
  "fixture_activated_audit fid at reason = new_audit KindFixtureActivated 0 fid (ActivatedPayload
     \<lparr> fap_fixture_id = fid, fap_activated_at = at, fap_reason = reason \<rparr>)"

section \<open>The candidate fixture\<close>

text \<open>Zero identifiers and the zero time are omissions, not values.\<close>

definition update_metadata_from_api :: "fixture \<Rightarrow> api_fixture \<Rightarrow> fixture" where
  "update_metadata_from_api f a = update_metadata f
     (if af_date a = 0 then fx_kickoff f else af_date a)
     (if aft_id (af_home a) = 0 then fx_home f
      else \<lparr> tm_id = aft_id (af_home a), tm_name = aft_name (af_home a) \<rparr>)
     (if aft_id (af_away a) = 0 then fx_away f
      else \<lparr> tm_id = aft_id (af_away a), tm_name = aft_name (af_away a) \<rparr>)
     (if afl_id (af_league a) = 0 then fx_league f
      else \<lparr> lg_id = afl_id (af_league a), lg_name = afl_name (af_league a),
             lg_season = afl_season (af_league a), lg_country = afl_country (af_league a),
             lg_round = afl_round (af_league a) \<rparr>)"

definition candidate_fixture :: "fixture \<Rightarrow> api_fixture \<Rightarrow> instant \<Rightarrow> fixture" where
  "candidate_fixture stored a at =
     (let f1 = update_from_poll stored (api_status_of a) (afs_elapsed (af_status a))
                 (afs_extra (af_status a)) (af_goals_home a) (af_goals_away a) at;
          f2 = update_metadata_from_api f1 a;
          f3 = update_penalty f2 (af_penalty_home a) (af_penalty_away a)
      in update_result f3 (aft_winner (af_home a)) (aft_winner (af_away a)))"

section \<open>Reads\<close>

definition list_all_by_fixture :: "'a event_db_scheme \<Rightarrow> int \<Rightarrow> event list" where
  "list_all_by_fixture db fid =
     sort_key (\<lambda>e. (ev_first_seen_at e, ev_id e)) (filter (\<lambda>e. ev_fixture_id e = fid) (ed_events db))"

text \<open>Rows with equal detection times come in the order of the table.\<close>

definition events_awaiting_discovery :: "'a event_db_scheme \<Rightarrow> int \<Rightarrow> event list" where
  "events_awaiting_discovery db fid =
     sort_key ev_first_seen_at (filter (\<lambda>e. ev_fixture_id e = fid \<and> ev_downstream_triggered e \<and>
       \<not> ev_removed e \<and>
       \<not> list_ex (\<lambda>d. dw_event_id d = ev_id e \<and> dw_type d = ''discovery'' \<and> dw_completed_at d \<noteq> None)
           (ed_downstream db)) (ed_events db))"

definition register_downstream_workflow ::
  "uuid \<Rightarrow> go_string \<Rightarrow> go_string \<Rightarrow> 'a event_db_scheme \<Rightarrow> 'a event_db_scheme result" where
  "register_downstream_workflow ident t workflow db =
     (if find_event ident (ed_events db) = None
      then Err ''pg.EventRepo.RegisterDownstreamWorkflow: foreign key''
      else Ok (insert_downstream ident t workflow db))"

text \<open>The rows of the map \<open>pgByKey\<close>, not removed and one for each natural key, a later row winning.\<close>

definition rows_by_key :: "event list \<Rightarrow> (go_string \<times> event) list" where
  "rows_by_key rows = foldl (\<lambda>m e. if ev_removed e then m else AList.update (ev_natural_key e) e m) [] rows"

section \<open>The plan\<close>

record plan_state =
  ps_inserts :: "planned_insert list"
  ps_presences :: "planned_presence list"
  ps_updates :: "planned_update list"
  ps_api_keys :: "go_string list"
  ps_by_id :: "(uuid \<times> event) list"
  ps_errors :: "go_string list"

definition plan_error :: "go_string \<Rightarrow> plan_state \<Rightarrow> plan_state" where
  "plan_error msg st = st\<lparr> ps_errors := ps_errors st @ [msg] \<rparr>"

text \<open>A provider element whose key is stored: a presence vote, and a correction when fields moved.\<close>

definition plan_existing :: "int \<Rightarrow> event \<Rightarrow> event \<Rightarrow> plan_state \<Rightarrow> plan_state" where
  "plan_existing fid existing fresh st =
     (if \<not> player_known (ev_player fresh) then st
      else (case event_stable_audit (ev_id existing) fid fresh of
              Err e \<Rightarrow> plan_error (''build stable audit event='' @ ev_natural_key fresh @ '': '' @ e) st
            | Ok audit \<Rightarrow>
                st\<lparr> ps_presences := ps_presences st @ [\<lparr> pp_event_id = ev_id existing, pp_audit = audit \<rparr>],
                    ps_updates := ps_updates st @
                      (if mutable_fields_changed existing fresh
                       then [\<lparr> pu_event_id = ev_id existing, pu_fresh = Some fresh \<rparr>] else []) \<rparr>))"

text \<open>A provider element with a new key: an insert, audited when its player is known.\<close>

definition plan_new :: "int \<Rightarrow> event \<Rightarrow> plan_state \<Rightarrow> plan_state" where
  "plan_new fid fresh st =
     (if \<not> player_known (ev_player fresh)
      then st\<lparr> ps_inserts := ps_inserts st @ [\<lparr> pi_event = Some fresh, pi_audit = None \<rparr>],
               ps_by_id := AList.update (ev_id fresh) fresh (ps_by_id st) \<rparr>
      else (case event_detected_audit (ev_id fresh) fid fresh of
              Err e \<Rightarrow> plan_error (''build detected audit event='' @ ev_natural_key fresh @ '': '' @ e) st
            | Ok audit \<Rightarrow>
                st\<lparr> ps_inserts := ps_inserts st @ [\<lparr> pi_event = Some fresh, pi_audit = Some audit \<rparr>],
                    ps_by_id := AList.update (ev_id fresh) fresh (ps_by_id st) \<rparr>))"

definition plan_api_event ::
  "(nat \<Rightarrow> uuid) \<Rightarrow> instant \<Rightarrow> fixture \<Rightarrow> (go_string \<times> event) list \<Rightarrow> (nat \<Rightarrow> int option) \<Rightarrow>
   plan_state \<Rightarrow> nat \<times> api_event \<Rightarrow> plan_state" where
  "plan_api_event fresh_id now candidate by_key sequences st ie =
     (case ie of (i, e) \<Rightarrow>
        (case trackable_type e of
           None \<Rightarrow> st
         | Some t \<Rightarrow>
             (case sequences i of
                None \<Rightarrow> plan_error (''event identity missing api_index='' @ itoa (int i)) st
              | Some n \<Rightarrow>
                  (case build_domain_event (fresh_id i) candidate e t n now of
                     Err msg \<Rightarrow> plan_error (''build event: '' @ msg) st
                   | Ok fresh \<Rightarrow>
                       let st1 = st\<lparr> ps_api_keys := ev_natural_key fresh # ps_api_keys st \<rparr> in
                       (case map_of by_key (ev_natural_key fresh) of
                          Some existing \<Rightarrow> plan_existing (fx_id candidate) existing fresh st1
                        | None \<Rightarrow> plan_new (fx_id candidate) fresh st1)))))"

definition plan_api_events ::
  "(nat \<Rightarrow> uuid) \<Rightarrow> instant \<Rightarrow> fixture \<Rightarrow> event list \<Rightarrow> (nat \<Rightarrow> int option) \<Rightarrow> api_event list \<Rightarrow> plan_state" where
  "plan_api_events fresh_id now candidate rows sequences api =
     foldl (plan_api_event fresh_id now candidate (rows_by_key rows) sequences)
       \<lparr> ps_inserts = [], ps_presences = [], ps_updates = [], ps_api_keys = [],
          ps_by_id = foldl (\<lambda>m e. AList.update (ev_id e) e m) [] rows, ps_errors = [] \<rparr>
       (enumerate 0 api)"

record absence_state =
  as_absences :: "planned_absence list"
  as_unknown_deletes :: "uuid list"
  as_held :: "go_string list"
  as_errors :: "go_string list"

text \<open>A stored row the provider no longer lists; a goal its score still requires is held.\<close>

definition plan_missing_event ::
  "int \<Rightarrow> instant \<Rightarrow> score_inventory \<Rightarrow> go_string list \<Rightarrow> absence_state \<Rightarrow> go_string \<times> event \<Rightarrow> absence_state" where
  "plan_missing_event fid now inventory api_keys st ke =
     (case ke of (key, e) \<Rightarrow>
        if key \<in> set api_keys then st
        else if \<not> player_known (ev_player e)
        then st\<lparr> as_unknown_deletes := as_unknown_deletes st @ [ev_id e] \<rparr>
        else if ev_type e = TypeGoal \<and> score_requires_missing_goal inventory (et_id (ev_team e))
        then st\<lparr> as_held := as_held st @ [key] \<rparr>
        else (case event_removed_audit (ev_id e) fid now of
                Err msg \<Rightarrow> st\<lparr> as_errors := as_errors st @
                             [''build removal audit event='' @ key @ '': '' @ msg] \<rparr>
              | Ok audit \<Rightarrow> st\<lparr> as_absences := as_absences st @
                             [\<lparr> pa_event_id = ev_id e, pa_audit = audit \<rparr>] \<rparr>))"

definition plan_missing_events ::
  "int \<Rightarrow> instant \<Rightarrow> score_inventory \<Rightarrow> go_string list \<Rightarrow> (go_string \<times> event) list \<Rightarrow> absence_state" where
  "plan_missing_events fid now inventory api_keys entries =
     foldl (plan_missing_event fid now inventory api_keys)
       \<lparr> as_absences = [], as_unknown_deletes = [], as_held = [], as_errors = [] \<rparr> entries"

text \<open>The activity's input and the static settings it reads.\<close>

record reconcile_input =
  ri_fixture :: api_fixture
  ri_workflow :: go_string
  ri_observed_at :: instant
  ri_poll_id :: go_string
  ri_generation :: int

record reconcile_env =
  re_now :: instant
  re_grace :: duration
  re_fresh_id :: "nat \<Rightarrow> uuid"
  re_uuid_text :: "uuid \<Rightarrow> go_string"
  re_visit :: "(go_string \<times> event) list \<Rightarrow> (go_string \<times> event) list"
  re_mode :: enforcement_mode
  re_tx_now :: instant
  re_tx_clock :: instant

text \<open>The quotient of two durations truncates towards zero.\<close>

definition whole_seconds :: "duration \<Rightarrow> int" where
  "whole_seconds d = sgn d * (\<bar>d\<bar> div nanoseconds_per_second)"

definition incomplete_goal_teams :: "api_fixture \<Rightarrow> int \<Rightarrow> bool" where
  "incomplete_goal_teams a team_id \<longleftrightarrow>
     team_id \<in> {aft_id (af_home a), aft_id (af_away a)} \<and>
     score_requires_missing_goal (new_score_inventory a) team_id"

definition make_active_plan ::
  "reconcile_env \<Rightarrow> reconcile_input \<Rightarrow> fixture \<Rightarrow> mutation_policy \<Rightarrow> plan_state \<Rightarrow> absence_state \<Rightarrow> active_plan" where
  "make_active_plan env inp stored local_policy ps as =
     (let a = ri_fixture inp in
      \<lparr> ap_guard = \<lparr> og_observation_id = ri_poll_id inp, og_observed_at = ri_observed_at inp,
           og_expected_generation = ri_generation inp, og_require_health = True \<rparr>,
        ap_fixture = Some (candidate_fixture stored a (ri_observed_at inp)),
        ap_baseline_exists = True, ap_baseline_polled = fx_last_polled_at stored,
        ap_local_policy = local_policy, ap_workflow = ri_workflow inp,
        ap_inserts = ps_inserts ps, ap_presences = ps_presences ps, ap_updates = ps_updates ps,
        ap_absences = as_absences as, ap_unknown_deletes = as_unknown_deletes as,
        ap_completion = \<lparr> cp_terminal_before = re_now env - re_grace env, cp_completed_at = re_now env,
           cp_grace_seconds = whole_seconds (re_grace env),
           cp_provider_parity = terminal_score_event_parity (new_score_inventory a)
             (afs_short (af_status a)) (aft_id (af_home a)) (aft_id (af_away a)) \<rparr> \<rparr>)"

record reconcile_plan =
  rp_fixture_id :: int
  rp_plan :: active_plan
  rp_verdict :: fixture_verdict
  rp_state :: plan_state
  rp_missing :: absence_state

text \<open>Every read and the whole plan, before the write.\<close>

definition plan_reconcile ::
  "reconcile_env \<Rightarrow> reconcile_input \<Rightarrow> mutation_db \<Rightarrow> reconcile_plan result" where
  "plan_reconcile env inp db =
     (let a = ri_fixture inp in
      if ri_poll_id inp = [] \<or> ri_observed_at inp = 0
      then Err ''monitor.ReconcileFixture: guarded observation token is required''
      else bind_result (locked_fixture db (af_id a)) (\<lambda>stored.
        let rows = list_all_by_fixture db (fx_id stored);
            candidate = candidate_fixture stored a (ri_observed_at inp)
        in bind_result (assign_event_sequences (af_events a) rows (incomplete_goal_teams a)) (\<lambda>sequences.
             let verdict = assess_fixture (provider_fixture_comparison stored rows a sequences);
                 ps = plan_api_events (re_fresh_id env) (re_now env) candidate rows sequences (af_events a);
                 missing = plan_missing_events (fx_id candidate) (re_now env) (new_score_inventory a)
                             (ps_api_keys ps) (re_visit env (rows_by_key rows))
             in Ok \<lparr> rp_fixture_id = fx_id candidate, rp_plan = make_active_plan env inp stored (fv_policy verdict) ps missing,
                     rp_verdict = verdict, rp_state = ps, rp_missing = missing \<rparr>)))"

section \<open>The activity\<close>

datatype feed_action = FeedNone | FeedStatus | FeedUpdate

record reconcile_output =
  ro_fixture_id :: int
  ro_new_events :: nat
  ro_became_stable :: "go_string list"
  ro_new_named :: "uuid list"
  ro_removed :: "go_string list"
  ro_removed_ids :: "uuid list"
  ro_held :: "go_string list"
  ro_unknown_dropped :: int
  ro_completed :: bool
  ro_errors :: "go_string list"
  ro_verdict :: "fixture_verdict option"
  ro_policy :: "mutation_policy option"
  ro_decision :: "mutation_decision option"
  ro_applied :: bool
  ro_stale :: bool
  ro_feed :: feed_action
  ro_presentation :: "status_projection option"

definition empty_output :: "int \<Rightarrow> reconcile_output" where
  "empty_output fid = \<lparr> ro_fixture_id = fid, ro_new_events = 0, ro_became_stable = [],
     ro_new_named = [], ro_removed = [], ro_removed_ids = [], ro_held = [], ro_unknown_dropped = 0,
     ro_completed = False, ro_errors = [], ro_verdict = None, ro_policy = None, ro_decision = None,
     ro_applied = False, ro_stale = False, ro_feed = FeedNone, ro_presentation = None \<rparr>"

definition mark_status :: "reconcile_output \<Rightarrow> reconcile_output" where
  "mark_status out = (if ro_feed out \<noteq> FeedUpdate then out\<lparr> ro_feed := FeedStatus \<rparr> else out)"

definition mark_update :: "reconcile_output \<Rightarrow> reconcile_output" where
  "mark_update out = out\<lparr> ro_feed := FeedUpdate \<rparr>"

definition classify_guarded_feed :: "mutation_result \<Rightarrow> reconcile_output \<Rightarrow> reconcile_output" where
  "classify_guarded_feed r out =
     (case mr_fixture r of
        None \<Rightarrow> out
      | Some f \<Rightarrow>
          let out1 = out\<lparr> ro_presentation := Some (project_fixture f) \<rparr> in
          if mr_event_changed r \<or> mr_completed r \<or> mr_structural_changed r then mark_update out1
          else if mr_presentation_changed r then mark_status out1
          else out1)"

text \<open>The input of the discovery workflow, and the requests sent for it.\<close>

record event_workflow_input =
  wi_event_id :: uuid
  wi_fixture_id :: int
  wi_player_name :: go_string
  wi_team_name :: go_string
  wi_team_id :: int
  wi_minute :: int
  wi_extra :: "int option"
  wi_first_seen_at :: instant

record world =
  wd_db :: mutation_db
  wd_spawned :: "(go_string \<times> event_workflow_input) list"

type_synonym spawner = "go_string \<Rightarrow> event_workflow_input \<Rightarrow> unit result"

definition workflow_input :: "event \<Rightarrow> event \<Rightarrow> int \<Rightarrow> event_workflow_input" where
  "workflow_input existing e fid = \<lparr> wi_event_id = ev_id existing, wi_fixture_id = fid,
     wi_player_name = player_name (ev_player e), wi_team_name = et_name (ev_team e),
     wi_team_id = et_id (ev_team e), wi_minute = ev_minute e, wi_extra = ev_extra e,
     wi_first_seen_at = ev_first_seen_at existing \<rparr>"

definition register_and_spawn ::
  "(uuid \<Rightarrow> go_string) \<Rightarrow> spawner option \<Rightarrow> event \<Rightarrow> event \<Rightarrow> int \<Rightarrow> world \<Rightarrow> world \<times> unit result" where
  "register_and_spawn txt spawn existing e fid w =
     (case spawn of
        None \<Rightarrow> (w, Ok ())
      | Some start \<Rightarrow>
          if \<not> player_known (ev_player e) then (w, Ok ())
          else
            let workflow = discovery_workflow_id txt (ev_id existing) in
            (case register_downstream_workflow (ev_id existing) ''discovery'' workflow (wd_db w) of
               Err msg \<Rightarrow> (w, Err (''register downstream: '' @ msg))
             | Ok db \<Rightarrow>
                 let inp = workflow_input existing e fid;
                     w1 = w\<lparr> wd_db := db, wd_spawned := wd_spawned w @ [(workflow, inp)] \<rparr>
                 in (case start workflow inp of
                       Err msg \<Rightarrow> (w1, Err (''spawn downstream: '' @ msg))
                     | Ok _ \<Rightarrow> (w1, Ok ()))))"

text \<open>The loop over the newly stable events. The activity reuses one error variable: once the read of
  an event outside the plan has failed, the error is reported for every later event as well.\<close>

record spawn_state =
  ss_world :: world
  ss_output :: reconcile_output
  ss_err :: "go_string option"

definition output_error :: "go_string \<Rightarrow> reconcile_output \<Rightarrow> reconcile_output" where
  "output_error msg out = out\<lparr> ro_errors := ro_errors out @ [msg] \<rparr>"

definition load_stable :: "(uuid \<times> event) list \<Rightarrow> mutation_db \<Rightarrow> uuid \<Rightarrow> go_string option \<Rightarrow>
    event option \<times> go_string option" where
  "load_stable by_id db ident err =
     (case map_of by_id ident of
        Some e \<Rightarrow> (Some e, err)
      | None \<Rightarrow>
          (case find_event ident (ed_events db) of
             Some e \<Rightarrow> (Some e, None)
           | None \<Rightarrow> (None, Some ''event: not found'')))"

definition spawn_stable ::
  "(uuid \<Rightarrow> go_string) \<Rightarrow> spawner option \<Rightarrow> int \<Rightarrow> (uuid \<times> event) list \<Rightarrow> spawn_state \<Rightarrow> uuid \<Rightarrow> spawn_state" where
  "spawn_stable txt spawn fid by_id st ident =
     (case load_stable by_id (wd_db (ss_world st)) ident (ss_err st) of
        (found, failure) \<Rightarrow>
          (case failure of
             Some msg \<Rightarrow> st\<lparr> ss_err := Some msg, ss_output :=
               output_error (''load stable event='' @ txt ident @ '': '' @ msg) (ss_output st) \<rparr>
           | None \<Rightarrow>
               (case found of
                  None \<Rightarrow> st
                | Some e \<Rightarrow>
                    let out1 = (ss_output st)\<lparr> ro_became_stable :=
                          ro_became_stable (ss_output st) @ [ev_natural_key e] \<rparr>;
                        (w, r) = register_and_spawn txt spawn e e fid (ss_world st)
                    in \<lparr> ss_world = w,
                         ss_output = (case r of Ok _ \<Rightarrow> out1
                           | Err msg \<Rightarrow> output_error (''spawn event='' @ ev_natural_key e @ '': '' @ msg) out1),
                         ss_err = None \<rparr>)))"

definition recover_spawn ::
  "(uuid \<Rightarrow> go_string) \<Rightarrow> spawner option \<Rightarrow> int \<Rightarrow> world \<times> reconcile_output \<Rightarrow> event \<Rightarrow> world \<times> reconcile_output" where
  "recover_spawn txt spawn fid wo e =
     (case wo of (w, out) \<Rightarrow>
        let (w', r) = register_and_spawn txt spawn e e fid w in
        (w', case r of Ok _ \<Rightarrow> out
             | Err msg \<Rightarrow> output_error (''recover event='' @ txt (ev_id e) @ '': '' @ msg) out))"

definition planned_output :: "reconcile_plan \<Rightarrow> int \<Rightarrow> reconcile_output" where
  "planned_output rp fid = (empty_output fid)\<lparr> ro_verdict := Some (rp_verdict rp),
     ro_held := as_held (rp_missing rp),
     ro_errors := ps_errors (rp_state rp) @ as_errors (rp_missing rp) \<rparr>"

definition record_result :: "mutation_result \<Rightarrow> reconcile_output \<Rightarrow> reconcile_output" where
  "record_result r out = out\<lparr> ro_policy := Some (mr_policy r), ro_decision := mr_decision r,
     ro_applied := mr_applied r, ro_stale := mr_stale r \<rparr>"

definition record_effects :: "mutation_result \<Rightarrow> reconcile_output \<Rightarrow> reconcile_output" where
  "record_effects r out = out\<lparr> ro_new_events := length (mr_inserted r), ro_new_named := mr_new_named r,
     ro_removed_ids := mr_removed r, ro_unknown_dropped := mr_unknown_dropped r,
     ro_completed := mr_completed r \<rparr>"

definition removed_keys :: "(uuid \<times> event) list \<Rightarrow> uuid list \<Rightarrow> go_string list" where
  "removed_keys by_id ids =
     concat (map (\<lambda>i. case map_of by_id i of None \<Rightarrow> [] | Some e \<Rightarrow> [ev_natural_key e]) ids)"

definition after_commit ::
  "reconcile_env \<Rightarrow> spawner option \<Rightarrow> reconcile_plan \<Rightarrow> int \<Rightarrow> mutation_result \<Rightarrow> reconcile_output \<Rightarrow> world \<Rightarrow>
   world \<times> reconcile_output" where
  "after_commit env spawn rp fid r out0 w0 =
     (let by_id = ps_by_id (rp_state rp); txt = re_uuid_text env;
          st = foldl (spawn_stable txt spawn fid by_id)
                 \<lparr> ss_world = w0, ss_output = record_effects r out0, ss_err = None \<rparr> (mr_stable r);
          out1 = (ss_output st)\<lparr> ro_removed := removed_keys by_id (mr_removed r) \<rparr>;
          (w2, out2) = foldl (recover_spawn txt spawn fid) (ss_world st, out1)
                         (events_awaiting_discovery (wd_db (ss_world st)) fid)
      in (w2, classify_guarded_feed r out2))"

definition reconcile_guarded ::
  "reconcile_env \<Rightarrow> spawner option \<Rightarrow> reconcile_input \<Rightarrow> world \<Rightarrow> world \<times> reconcile_output result" where
  "reconcile_guarded env spawn inp w =
     (case plan_reconcile env inp (wd_db w) of
        Err msg \<Rightarrow> (w, Err msg)
      | Ok rp \<Rightarrow>
          (case apply_active (re_uuid_text env) (re_mode env) (re_tx_now env) (re_tx_clock env)
                  (rp_plan rp) (wd_db w) of
             (db, Err msg) \<Rightarrow> (w\<lparr> wd_db := db \<rparr>, Err (''monitor.ReconcileFixture: guarded commit: '' @ msg))
           | (db, Ok r) \<Rightarrow>
               let w1 = w\<lparr> wd_db := db \<rparr>;
                   out = record_result r (planned_output rp (af_id (ri_fixture inp)))
               in if mr_stale r then (w1, Ok out)
                  else (case after_commit env spawn rp (rp_fixture_id rp) r out w1 of
                          (w2, out2) \<Rightarrow> (w2, Ok out2))))"

end
