(* ===== verification/MutationSafety.thy ===== *)
theory MutationSafety
  imports MutationStore
begin

text \<open>
  What the guarded write boundary promises, proved of \<open>apply_active\<close> and \<open>apply_fixture\<close>: a
  committed result is the receipt a retry gets, an observation that is not applied changes
  nothing but its receipt, a positive-only observation loses nothing, completion happens only on
  settled evidence, and a passive writer never touches the lifecycle except by activation.
\<close>

section \<open>The shape of a run\<close>

text \<open>The command as the transaction sees it, for an observation that has no receipt yet.\<close>

definition fresh_active :: "active_plan \<Rightarrow> mutation_db \<Rightarrow> fixture \<Rightarrow> bool" where
  "fresh_active raw db observed \<longleftrightarrow>
     validate_active_plan (normalize_active raw) = Ok observed \<and>
     find_receipt (og_observation_id (ap_guard raw)) (fx_id observed) (mu_receipts db) = None"

definition fresh_fixture_plan :: "fixture_plan \<Rightarrow> mutation_db \<Rightarrow> fixture \<Rightarrow> bool" where
  "fresh_fixture_plan raw db observed \<longleftrightarrow>
     validate_fixture_plan (normalize_fixture_plan raw) = Ok observed \<and>
     find_receipt (og_observation_id (fp_guard raw)) (fx_id observed) (mu_receipts db) = None"

lemma normalize_guard_id [simp]: "og_observation_id (normalize_guard g) = og_observation_id g"
  by (simp add: normalize_guard_def)

lemma normalize_active_guard [simp]: "ap_guard (normalize_active p) = normalize_guard (ap_guard p)"
  by (simp add: normalize_active_def)

lemma normalize_fixture_guard [simp]: "fp_guard (normalize_fixture_plan p) = normalize_guard (fp_guard p)"
  by (simp add: normalize_fixture_plan_def)

lemma load_receipt_fresh:
  "find_receipt (og_observation_id g) fid (mu_receipts db) = None \<Longrightarrow> load_receipt db g fid = Ok None"
  by (simp add: load_receipt_def)

lemma load_receipt_None_fresh:
  "load_receipt db g fid = Ok None \<Longrightarrow> find_receipt (og_observation_id g) fid (mu_receipts db) = None"
  by (auto simp: load_receipt_def split: option.splits if_splits)

text \<open>The three ways a fresh active run commits: stale, rejected, or written.\<close>

lemma apply_active_cases:
  assumes run: "apply_active txt mode now clock raw db = (db', Ok out)" and fresh: "fresh_active raw db observed"
  obtains
    (skipped) out0 where "mr_applied out0 = False" "mr_completed out0 = False"
      "mr_policy out0 = PolicyOther [] \<or> mr_policy out0 = PolicyRejected"
      "\<exists>current gen. mu_fixtures db (fx_id observed) = Some current \<and>
         commit_mutation_result db (normalize_guard (ap_guard raw)) (fx_id current) gen out0 = (db', Ok out)"
  | (written) current pol out0 db2 out2 gen where "mu_fixtures db (fx_id observed) = Some current"
      "fx_state current = StateActive" "pol \<noteq> PolicyRejected" "mr_policy out0 = pol"
      "mr_removed out0 = []" "mr_unknown_dropped out0 = 0" "\<not> mr_completed out0"
      "write_active txt now clock (normalize_active raw) current observed pol out0 db = Ok (db2, out2)"
      "commit_mutation_result db2 (normalize_guard (ap_guard raw)) (fx_id current) gen out2 = (db', Ok out)"
      "validate_active_event_scope db (fx_id current) (normalize_active raw) pol = Ok ()"
proof -
  let ?p = "normalize_active raw"
  have receipt: "load_receipt db (ap_guard ?p) (fx_id observed) = Ok None"
    using fresh load_receipt_fresh [of "ap_guard ?p"] by (simp add: fresh_active_def)
  obtain provider where provider: "provider_policy_of db = Ok provider"
    using run fresh by (auto simp: apply_active_def Let_def fresh_active_def split: if_splits result.splits)
  obtain provider_at gen provider_pol where prov: "provider = (provider_at, gen, provider_pol)"
    by (cases provider)
  obtain current where current: "mu_fixtures db (fx_id observed) = Some current"
    using run fresh receipt
    by (auto simp: apply_active_def Let_def fresh_active_def locked_fixture_def split: if_splits result.splits option.splits)
  have body: "decide_and_write_active txt mode now clock ?p observed current provider db = (db', Ok out)"
    using run fresh receipt provider current
    by (auto simp: apply_active_def Let_def fresh_active_def locked_fixture_def split: if_splits)
  show ?thesis
  proof (cases "active_plan_stale ?p current provider_at gen")
    case True
    with body prov current show ?thesis
      by (intro skipped [of "zero_result\<lparr> mr_stale := True, mr_fixture := Some current \<rparr>"])
        (auto simp: decide_and_write_active_def commit_stale_receipt_def zero_result_def)
  next
    case False
    then have active: "fx_state current = StateActive" by (simp add: active_plan_stale_def)
    obtain h where h: "fixture_health_of db (fx_id current) = Ok h"
      using body prov False
      by (auto simp: decide_and_write_active_def Let_def split: result.splits)
    define out0 where "out0 = decide_active mode ?p observed provider_pol h"
    have out0: "\<not> mr_applied out0" "\<not> mr_completed out0" "mr_removed out0 = []" "mr_unknown_dropped out0 = 0"
      by (simp_all add: out0_def decide_active_def zero_result_def split: prod.splits)
    show ?thesis
    proof (cases "health_receipt_matches (ap_guard ?p) h")
      case no: False
      with body prov False h current show ?thesis
        by (intro skipped [of "zero_result\<lparr> mr_stale := True, mr_fixture := Some current \<rparr>"])
          (auto simp: decide_and_write_active_def Let_def commit_stale_receipt_def zero_result_def)
    next
      case match: True
      show ?thesis
      proof (cases "mr_policy out0 = PolicyRejected")
        case True
        with body prov False h match current out0 show ?thesis
          by (intro skipped [of "out0\<lparr> mr_fixture := Some current \<rparr>"])
            (auto simp: decide_and_write_active_def Let_def out0_def [symmetric])
      next
        case live: False
        have scope: "validate_active_event_scope db (fx_id current) ?p (mr_policy out0) = Ok ()"
          using body prov False h match live
          by (auto simp: decide_and_write_active_def Let_def out0_def [symmetric] split: result.splits)
        with body prov False h match live
        have "commit_or_rollback db (ap_guard ?p) (fx_id current) gen
            (write_active txt now clock ?p current observed (mr_policy out0) out0 db) = (db', Ok out)"
          by (simp add: decide_and_write_active_def Let_def out0_def [symmetric])
        then obtain db2 out2 where
          "write_active txt now clock ?p current observed (mr_policy out0) out0 db = Ok (db2, out2)"
          "commit_mutation_result db2 (ap_guard ?p) (fx_id current) gen out2 = (db', Ok out)"
          by (auto simp: commit_or_rollback_def split: result.splits)
        then show ?thesis
          using written [OF current active live refl out0(3,4,2)] scope by simp
      qed
    qed
  qed
qed

section \<open>What the parts of a write leave alone\<close>

lemma apply_insert_rest: "apply_insert now w p s = Ok s' \<Longrightarrow> same_rest (fst s) (fst s')"
  by (cases s) (auto simp: apply_insert_def bind_result_Ok_iff dest!: insert_planned_event_rest split: option.splits)

lemma apply_presence_rest: "apply_presence txt now w p s = Ok s' \<Longrightarrow> same_rest (fst s) (fst s')"
  by (cases s) (auto simp: apply_presence_def bind_result_Ok_iff intro: register_presence_tx_rest)

lemma apply_update_rest: "apply_update now tr p s = Ok s' \<Longrightarrow> same_rest (fst s) (fst s')"
  by (cases s) (auto simp: apply_update_def bind_result_Ok_iff intro: update_event_fields_tx_rest)

lemma apply_delete_rest: "apply_delete fid i s = Ok s' \<Longrightarrow> same_rest (fst s) (fst s')"
  using event_writes_rest(7) [of "fst s" fid i]
  by (cases s; cases "delete_unknown_event fid i (fst s)")
    (auto simp: apply_delete_def Let_def simp del: event_writes_rest)

lemma apply_absence_rest: "apply_absence now clock w p s = Ok s' \<Longrightarrow> same_rest (fst s) (fst s')"
  by (cases s) (auto simp: apply_absence_def bind_result_Ok_iff intro: register_absence_tx_rest)

text \<open>A predicate on the progress that every loop body keeps is kept by the whole part.\<close>

lemma apply_event_part_invariant:
  assumes "P st" "apply_event_part txt now p pol st = Ok st'"
    and "\<And>x s s'. P s \<Longrightarrow> apply_insert now (ap_workflow p) x s = Ok s' \<Longrightarrow> P s'"
    and "\<And>x s s'. P s \<Longrightarrow> apply_presence txt now (ap_workflow p) x s = Ok s' \<Longrightarrow> P s'"
    and "\<And>x s s'. P s \<Longrightarrow> apply_update now (pol = PolicyTrusted) x s = Ok s' \<Longrightarrow> P s'"
  shows "P st'"
proof -
  obtain s1 s2 where
    "fold_result (apply_insert now (ap_workflow p)) (ap_inserts p) st = Ok s1"
    "fold_result (apply_presence txt now (ap_workflow p)) (ap_presences p) s1 = Ok s2"
    "fold_result (apply_update now (pol = PolicyTrusted)) (ap_updates p) s2 = Ok st'"
    using assms(2) by (auto simp: apply_event_part_def bind_result_Ok_iff)
  with assms show ?thesis
    by (metis (no_types, lifting) fold_result_invariant [of P])
qed

lemma same_rest_step:
  "same_rest db (fst s) \<Longrightarrow> same_rest (fst s) (fst s') \<Longrightarrow> same_rest db (fst s')"
  by (rule same_rest_trans)

lemma apply_event_part_rest:
  assumes "apply_event_part txt now p pol st = Ok st'"
  shows "same_rest (fst st) (fst st')"
  by (rule apply_event_part_invariant [OF _ assms, where P = "\<lambda>s. same_rest (fst st) (fst s)"])
    (auto intro: same_rest_step apply_insert_rest apply_presence_rest apply_update_rest)

definition fixtures_keyed :: "mutation_db \<Rightarrow> bool" where
  "fixtures_keyed db \<longleftrightarrow> (\<forall>k f. mu_fixtures db k = Some f \<longrightarrow> fx_id f = k)"

lemma fixtures_keyed_id: "fixtures_keyed db \<Longrightarrow> mu_fixtures db k = Some f \<Longrightarrow> fx_id f = k"
  by (simp add: fixtures_keyed_def)

lemma update_fixture_row_guards [simp]: "same_guards db (update_fixture_row now fid g f db)"
  by (simp add: update_fixture_row_def same_guards_def split: option.splits)

lemma update_fixture_row_events [simp]:
  "ed_events (update_fixture_row now fid g f db) = ed_events db"
  "ed_presence_votes (update_fixture_row now fid g f db) = ed_presence_votes db"
  "ed_drop_votes (update_fixture_row now fid g f db) = ed_drop_votes db"
  "ed_downstream (update_fixture_row now fid g f db) = ed_downstream db"
  "ed_candidates (update_fixture_row now fid g f db) = ed_candidates db"
  by (simp_all add: update_fixture_row_def split: option.splits)

lemma update_fixture_row_fixtures:
  "mu_fixtures (update_fixture_row now fid g f db) =
     (case mu_fixtures db fid of
        None \<Rightarrow> mu_fixtures db
      | Some row \<Rightarrow> if g row then (mu_fixtures db)(fid := Some ((f row)\<lparr> fx_updated_at := now \<rparr>))
                    else mu_fixtures db)"
  by (simp add: update_fixture_row_def split: option.splits)

lemma complete_fixture_cases:
  assumes "complete_fixture_if_ready_tx now f cp db = Ok (db', b)"
  obtains "db' = db" "\<not> b"
  | row where "mu_fixtures db (fx_id f) = Some row" "completion_ready db row (cp_terminal_before cp)" "b"
      "ed_events db' = ed_events db" "ed_downstream db' = ed_downstream db" "same_guards db db'"
      "mu_fixtures db' = (mu_fixtures db)(fx_id f := Some (row\<lparr> fx_state := StateCompleted,
         fx_completed_at := Some (column_time (cp_completed_at cp)), fx_updated_at := now \<rparr>))"
      "ed_presence_votes db' = ed_presence_votes db" "ed_drop_votes db' = ed_drop_votes db"
proof (cases "cp_terminal_before cp = 0 \<or> cp_completed_at cp = 0 \<or> cp_grace_seconds cp \<le> 0")
  case True
  with assms that(1) show ?thesis by (simp add: complete_fixture_if_ready_tx_def)
next
  case False
  obtain row where row: "mu_fixtures db (fx_id f) = Some row"
    using assms False by (auto simp: complete_fixture_if_ready_tx_def bind_result_Ok_iff locked_fixture_def split: option.splits)
  show ?thesis
  proof (cases "completion_ready db row (cp_terminal_before cp)")
    case no: False
    with assms that(1) False row show ?thesis
      by (simp add: complete_fixture_if_ready_tx_def locked_fixture_def)
  next
    case ready: True
    then have "in_state StateActive row" by (simp add: completion_ready_def in_state_def)
    with assms False row ready that(2) [OF row ready] show ?thesis
      by (auto simp: complete_fixture_if_ready_tx_def locked_fixture_def bind_result_Ok_iff insert_audit_log_Ok
          same_guards_def update_fixture_row_def split: option.splits)
  qed
qed

lemma apply_trusted_part_cases:
  assumes "apply_trusted_part now clock p target st = Ok (db', out)"
  obtains db0 out0 db1 out1 completed where
    "fold_result (apply_delete (fx_id target)) (ap_unknown_deletes p) st = Ok (db0, out0)"
    "fold_result (apply_absence now clock (ap_workflow p)) (ap_absences p) (db0, out0) = Ok (db1, out1)"
    "complete_fixture_if_ready_tx now target (ap_completion p) db1 = Ok (db', completed)"
    "mr_completed out = completed"
  using assms by (fastforce simp: apply_trusted_part_def bind_result_Ok_iff)

section \<open>What the parts of a write leave of the result\<close>

definition same_header :: "progress \<Rightarrow> progress \<Rightarrow> bool" where
  "same_header s s' \<longleftrightarrow> mr_applied (snd s') = mr_applied (snd s) \<and> mr_policy (snd s') = mr_policy (snd s)"

definition same_losses :: "progress \<Rightarrow> progress \<Rightarrow> bool" where
  "same_losses s s' \<longleftrightarrow> same_header s s' \<and> mr_removed (snd s') = mr_removed (snd s) \<and>
     mr_unknown_dropped (snd s') = mr_unknown_dropped (snd s) \<and> mr_completed (snd s') = mr_completed (snd s)"

lemma apply_event_part_losses:
  assumes "apply_event_part txt now p pol st = Ok st'"
  shows "same_losses st st'"
proof (rule apply_event_part_invariant [OF _ assms, where P = "same_losses st"])
  show "same_losses st st" by (simp add: same_losses_def same_header_def)
  show "same_losses st s \<Longrightarrow> apply_insert now (ap_workflow p) x s = Ok s' \<Longrightarrow> same_losses st s'" for x s s'
    by (cases s) (auto simp: apply_insert_def bind_result_Ok_iff same_losses_def same_header_def split: option.splits)
  show "same_losses st s \<Longrightarrow> apply_presence txt now (ap_workflow p) x s = Ok s' \<Longrightarrow> same_losses st s'" for x s s'
    by (cases s) (auto simp: apply_presence_def bind_result_Ok_iff same_losses_def same_header_def split: if_splits)
  show "same_losses st s \<Longrightarrow> apply_update now (pol = PolicyTrusted) x s = Ok s' \<Longrightarrow> same_losses st s'" for x s s'
    by (cases s) (auto simp: apply_update_def bind_result_Ok_iff same_losses_def same_header_def)
qed

lemma apply_delete_header: "same_header st s \<Longrightarrow> apply_delete fid x s = Ok s' \<Longrightarrow> same_header st s'"
  by (cases s; cases "delete_unknown_event fid x (fst s)") (auto simp: apply_delete_def same_header_def split: if_splits)

lemma apply_absence_header: "same_header st s \<Longrightarrow> apply_absence now clock w x s = Ok s' \<Longrightarrow> same_header st s'"
  by (cases s) (auto simp: apply_absence_def bind_result_Ok_iff same_header_def split: if_splits)

lemma apply_trusted_part_header:
  assumes "apply_trusted_part now clock p target st = Ok st'"
  shows "same_header st st'"
proof -
  obtain s1 s2 where folds: "fold_result (apply_delete (fx_id target)) (ap_unknown_deletes p) st = Ok s1"
    "fold_result (apply_absence now clock (ap_workflow p)) (ap_absences p) s1 = Ok s2"
    and last: "same_header s2 st'"
    using assms by (fastforce simp: apply_trusted_part_def bind_result_Ok_iff same_header_def)
  have "same_header st st" by (simp add: same_header_def)
  then have "same_header st s1"
    using apply_delete_header by (rule fold_result_invariant [OF _ _ folds(1), rotated])
  then have "same_header st s2"
    using apply_absence_header by (rule fold_result_invariant [OF _ _ folds(2), rotated])
  with last show ?thesis by (simp add: same_header_def)
qed

lemma classify_changes_header [simp]:
  "mr_applied (classify_changes out prior) = mr_applied out"
  "mr_policy (classify_changes out prior) = mr_policy out"
  "mr_removed (classify_changes out prior) = mr_removed out"
  "mr_unknown_dropped (classify_changes out prior) = mr_unknown_dropped out"
  "mr_completed (classify_changes out prior) = mr_completed out"
  by (auto simp: classify_changes_def Let_def split: option.splits)

lemma write_active_cases:
  assumes "write_active txt now clock p current observed pol out0 db = Ok (db2, out2)"
  obtains st1 st2 where
    "apply_event_part txt now p pol (update_active_fixture_tx now (active_target pol current observed) db,
       out0\<lparr> mr_applied := True, mr_fixture_changed :=
         fixture_publicly_changed (Some current) (Some (active_target pol current observed)) \<rparr>) = Ok st1"
    "(if pol = PolicyTrusted then apply_trusted_part now clock p (active_target pol current observed) st1
      else Ok st1) = Ok st2"
    "db2 = fst st2" "mr_applied out2 = mr_applied (snd st2)" "mr_policy out2 = mr_policy (snd st2)"
    "mr_removed out2 = mr_removed (snd st2)" "mr_unknown_dropped out2 = mr_unknown_dropped (snd st2)"
    "mr_completed out2 = mr_completed (snd st2)"
  using assms by (auto simp: write_active_def Let_def bind_result_Ok_iff)

lemma write_active_header:
  assumes "write_active txt now clock p current observed pol out0 db = Ok (db2, out2)"
  shows "mr_applied out2 \<and> mr_policy out2 = mr_policy out0"
  using assms
proof (rule write_active_cases)
  fix st1 st2
  assume 1: "apply_event_part txt now p pol (update_active_fixture_tx now (active_target pol current observed) db,
       out0\<lparr> mr_applied := True, mr_fixture_changed :=
         fixture_publicly_changed (Some current) (Some (active_target pol current observed)) \<rparr>) = Ok st1"
    and 2: "(if pol = PolicyTrusted then apply_trusted_part now clock p (active_target pol current observed) st1
      else Ok st1) = Ok st2"
    and out: "mr_applied out2 = mr_applied (snd st2)" "mr_policy out2 = mr_policy (snd st2)"
  have "same_header st1 st2"
    using 2 apply_trusted_part_header by (auto simp: same_header_def split: if_splits)
  with apply_event_part_losses [OF 1] out show ?thesis by (simp add: same_losses_def same_header_def)
qed

lemma commit_mutation_result_out: "commit_mutation_result db g fid gen out = (db', Ok out') \<Longrightarrow>
    out' = out \<and> db' = db\<lparr> mu_receipts := mu_receipts db' \<rparr>"
  by (auto simp: commit_mutation_result_def Let_def)


section \<open>Receipts\<close>

lemma write_active_guards:
  assumes "write_active txt now clock p current observed pol out0 db = Ok (db2, out2)"
  shows "same_guards db db2"
  using assms
proof (rule write_active_cases)
  let ?t = "active_target pol current observed"
  fix st1 st2
  assume 1: "apply_event_part txt now p pol (update_active_fixture_tx now ?t db,
       out0\<lparr> mr_applied := True, mr_fixture_changed :=
         fixture_publicly_changed (Some current) (Some ?t) \<rparr>) = Ok st1"
    and 2: "(if pol = PolicyTrusted then apply_trusted_part now clock p ?t st1 else Ok st1) = Ok st2"
    and db2: "db2 = fst st2"
  have "same_guards db (fst st1)"
  proof (rule same_guards_trans)
    show "same_guards db (update_active_fixture_tx now ?t db)" by (simp add: update_active_fixture_tx_def)
    show "same_guards (update_active_fixture_tx now ?t db) (fst st1)"
      using apply_event_part_rest [OF 1] by (simp add: same_rest_def)
  qed
  moreover have "same_guards (fst st1) (fst st2)"
  proof (cases "pol = PolicyTrusted")
    case True
    then obtain s1 db1 out1 completed where folds:
      "fold_result (apply_delete (fx_id ?t)) (ap_unknown_deletes p) st1 = Ok s1"
      "fold_result (apply_absence now clock (ap_workflow p)) (ap_absences p) s1 = Ok (db1, out1)"
      "complete_fixture_if_ready_tx now ?t (ap_completion p) db1 = Ok (fst st2, completed)"
      using 2 by (fastforce simp: apply_trusted_part_def bind_result_Ok_iff)
    have "same_rest (fst st1) (fst s1)"
      by (rule fold_result_invariant [OF _ _ folds(1), where P = "\<lambda>s. same_rest (fst st1) (fst s)"])
        (auto intro: same_rest_step apply_delete_rest)
    moreover have "same_rest (fst s1) db1"
      using fold_result_invariant [OF _ _ folds(2), where P = "\<lambda>s. same_rest (fst s1) (fst s)"]
      by (auto intro: same_rest_step apply_absence_rest)
    moreover have "same_guards db1 (fst st2)"
      using folds(3) by (rule complete_fixture_cases) auto
    ultimately show ?thesis by (auto simp: same_rest_def intro: same_guards_trans)
  qed (use 2 in simp)
  ultimately show ?thesis unfolding db2 by (rule same_guards_trans)
qed

lemma provider_policy_guards: "same_guards db db' \<Longrightarrow> provider_policy_of db' = provider_policy_of db"
  by (simp add: same_guards_def provider_policy_of_def)

lemma commit_records:
  assumes "same_guards db db2" "find_receipt (og_observation_id g) fid (mu_receipts db) = None"
    and "commit_mutation_result db2 g fid gen out = (db', Ok out')"
  shows "load_receipt db' g fid = Ok (Some out') \<and> provider_policy_of db' = provider_policy_of db"
proof -
  have none: "find_receipt (og_observation_id g) fid (mu_receipts db2) = None"
    using assms(1,2) by (simp add: same_guards_def)
  have "provider_policy_of db' = provider_policy_of db2"
    using assms(3) by (auto simp: commit_mutation_result_def Let_def provider_policy_of_def)
  then show ?thesis
    using commit_mutation_result_records [OF none assms(3)] provider_policy_guards [OF assms(1)] by auto
qed

lemma apply_active_records:
  assumes keyed: "fixtures_keyed db" and run: "apply_active txt mode now clock raw db = (db', Ok out)"
    and fresh: "fresh_active raw db observed"
  shows "load_receipt db' (normalize_guard (ap_guard raw)) (fx_id observed) = Ok (Some out) \<and>
    provider_policy_of db' = provider_policy_of db"
proof -
  have none: "find_receipt (og_observation_id (normalize_guard (ap_guard raw))) (fx_id observed) (mu_receipts db) = None"
    using fresh by (simp add: fresh_active_def)
  from run fresh show ?thesis
  proof (cases rule: apply_active_cases)
    case (skipped out0)
    then obtain current gen where "mu_fixtures db (fx_id observed) = Some current"
      "commit_mutation_result db (normalize_guard (ap_guard raw)) (fx_id current) gen out0 = (db', Ok out)"
      by blast
    moreover have "fx_id current = fx_id observed" using calculation(1) keyed fixtures_keyed_id by blast
    ultimately show ?thesis using commit_records [OF same_guards_refl none] by simp
  next
    case (written current pol out0 db2 out2 gen)
    have "fx_id current = fx_id observed" using written(1) keyed fixtures_keyed_id by blast
    with written commit_records [OF write_active_guards [OF written(8)] none] show ?thesis by simp
  qed
qed

text \<open>The receipt that answers an active command, where there is one.\<close>

definition active_receipt :: "(uuid \<Rightarrow> go_string) \<times> enforcement_mode \<times> active_plan \<Rightarrow> mutation_db \<Rightarrow> mutation_result option" where
  "active_receipt req db =
     (case req of (txt, mode, raw) \<Rightarrow>
        if \<not> enforcement_valid mode \<or> \<not> is_ok (provider_policy_of db) then None
        else (case validate_active_plan (normalize_active raw) of
                Err _ \<Rightarrow> None
              | Ok observed \<Rightarrow>
                  (case load_receipt db (normalize_guard (ap_guard raw)) (fx_id observed) of
                     Err _ \<Rightarrow> None | Ok r \<Rightarrow> r)))"

definition active_run ::
  "instant \<times> instant \<Rightarrow> (uuid \<Rightarrow> go_string) \<times> enforcement_mode \<times> active_plan \<Rightarrow> mutation_db \<Rightarrow>
   mutation_db \<times> mutation_result result" where
  "active_run env req db =
     (case env of (now, clock) \<Rightarrow> case req of (txt, mode, raw) \<Rightarrow> apply_active txt mode now clock raw db)"

lemma active_receipt_replay: "active_receipt req db = Some out \<Longrightarrow> active_run env req db = (db, Ok out)"
  by (cases req; cases env)
    (auto simp: active_receipt_def active_run_def apply_active_def Let_def is_ok_iff split: result.splits if_splits)

lemma active_run_recorded:
  assumes "fixtures_keyed db" "active_run env req db = (db', Ok out)"
  shows "active_receipt req db' = Some out"
proof -
  obtain "now" "clock" "txt" "mode" "raw" where parts: "env = (now, clock)" "req = (txt, mode, raw)"
    by (cases env; cases req) auto
  have run: "apply_active txt mode now clock raw db = (db', Ok out)"
    using assms(2) by (simp add: active_run_def parts)
  then obtain observed provider where valid: "enforcement_valid mode"
      "validate_active_plan (normalize_active raw) = Ok observed" "provider_policy_of db = Ok provider"
    by (auto simp: apply_active_def Let_def split: if_splits result.splits)
  show ?thesis
  proof (cases "load_receipt db (normalize_guard (ap_guard raw)) (fx_id observed)")
    case (Err e)
    with run valid show ?thesis by (simp add: apply_active_def Let_def)
  next
    case (Ok r)
    show ?thesis
    proof (cases r)
      case (Some receipt)
      with run valid Ok show ?thesis by (simp add: apply_active_def Let_def active_receipt_def parts)
    next
      case None
      then have "fresh_active raw db observed"
        using Ok valid load_receipt_None_fresh by (fastforce simp: fresh_active_def)
      then show ?thesis
        using apply_active_records [OF assms(1) run] valid by (simp add: active_receipt_def parts)
    qed
  qed
qed

interpretation active_writer: receipted_transaction active_run active_receipt fixtures_keyed
  by unfold_locales (rule active_receipt_replay, assumption, rule active_run_recorded)

text \<open>C2: A guarded active write that has committed is safe to retry: the same command, at any later
  time, returns the first result and leaves every table as the first attempt left it.\<close>

theorem active_write_retry_returns_receipt:
  assumes "fixtures_keyed db" "apply_active txt mode now clock raw db = (db', Ok out)"
  shows "apply_active txt mode now' clock' raw db' = (db', Ok out)"
  using active_writer.retry [of db "(now, clock)" "(txt, mode, raw)" db' out "(now', clock')"] assms
  by (simp add: active_run_def)

section \<open>Positive-only observations lose nothing\<close>

definition event_grows :: "event \<Rightarrow> event \<Rightarrow> bool" where
  "event_grows e e' \<longleftrightarrow> event_kept e e' \<and> ev_removed e' = ev_removed e \<and>
     ev_debounce_count e \<le> ev_debounce_count e' \<and> ev_minute e' = ev_minute e \<and>
     ev_extra e' = ev_extra e \<and> ev_detail e' = ev_detail e \<and>
     (pl_id (ev_assist e) \<noteq> None \<longrightarrow> pl_id (ev_assist e') = pl_id (ev_assist e)) \<and>
     (pl_name (ev_assist e) \<noteq> None \<longrightarrow> pl_name (ev_assist e') = pl_name (ev_assist e))"

definition events_grow :: "mutation_db \<Rightarrow> mutation_db \<Rightarrow> bool" where
  "events_grow db db' \<longleftrightarrow> (\<forall>e\<in>set (ed_events db). \<exists>e'\<in>set (ed_events db'). event_grows e e')"

lemma event_grows_refl [simp]: "event_grows e e"
  by (simp add: event_grows_def)

lemma event_grows_trans: "event_grows a b \<Longrightarrow> event_grows b c \<Longrightarrow> event_grows a c"
  unfolding event_grows_def by (auto intro: event_kept_trans)

lemma events_grow_refl: "ed_events db' = ed_events db \<Longrightarrow> events_grow db db'"
  unfolding events_grow_def by (metis event_grows_refl)

lemma events_grow_trans: "events_grow a b \<Longrightarrow> events_grow b c \<Longrightarrow> events_grow a c"
  unfolding events_grow_def by (meson event_grows_trans)

lemma event_grows_touch [simp]: "event_grows e (f\<lparr> ev_updated_at := now \<rparr>) = event_grows e f"
  by (simp add: event_grows_def)

lemma event_grows_functions:
  "ev_debounce_count e \<le> 3 \<Longrightarrow> event_grows e (count_presence e)"
  "event_grows e (mark_triggered e)"
  "event_grows e (fill_assist fresh e)"
  by (auto simp: event_grows_def event_kept_def count_presence_def mark_triggered_def fill_assist_def coalesce_def)

lemma update_event_grows:
  assumes "\<And>e. e \<in> set (ed_events db) \<Longrightarrow> ev_id e = i \<Longrightarrow> event_grows e (f e)"
  shows "events_grow db (update_event now i f db)"
  unfolding events_grow_def
proof
  fix e
  assume e: "e \<in> set (ed_events db)"
  let ?e = "if ev_id e = i then (f e)\<lparr> ev_updated_at := now \<rparr> else e"
  have "?e \<in> set (ed_events (update_event now i f db))" using e by (auto simp: update_event_def)
  moreover have "event_grows e ?e" using assms e by simp
  ultimately show "\<exists>e'\<in>set (ed_events (update_event now i f db)). event_grows e e'" by blast
qed

lemma cast_presence_vote_grows:
  assumes "event_store_ok db"
  shows "events_grow db (cast_presence_vote now i w db)"
proof -
  let ?d = "db\<lparr> ed_presence_votes := ed_presence_votes db @ [(i, w)] \<rparr>"
  have "events_grow ?d (update_event now i count_presence ?d)"
    using event_store_ok_row [OF assms]
    by (intro update_event_grows event_grows_functions) (auto simp: row_ok_def)
  then show ?thesis by (simp add: events_grow_def cast_presence_vote_def)
qed

lemma register_presence_tx_grows:
  assumes ok: "event_store_ok db" and run: "register_presence_tx txt now w p db = Ok (db', t)"
  shows "events_grow db db'"
proof -
  let ?i = "pp_event_id p"
  let ?db1 = "cast_presence_vote now ?i w db"
  have 1: "events_grow db ?db1" using ok by (rule cast_presence_vote_grows)
  have 2: "events_grow db (update_event now ?i mark_triggered ?db1)"
    by (rule events_grow_trans [OF 1 update_event_grows]) (rule event_grows_functions)
  consider "db' = db" | "db' = ?db1"
    | db2 where "insert_audit_log (pp_audit p) (update_event now ?i mark_triggered ?db1) = Ok db2"
      "db' = insert_downstream ?i ''discovery'' (discovery_workflow_id txt ?i) db2"
    using run
    by (auto simp: register_presence_tx_def Let_def bind_result_Ok_iff split: option.splits if_splits)
  then show ?thesis
  proof cases
    case 3
    then have "ed_events db' = ed_events (update_event now ?i mark_triggered ?db1)"
      using insert_audit_log_events by auto
    with 2 show ?thesis by (simp add: events_grow_def)
  qed (use 1 events_grow_refl in auto)
qed

lemma insert_planned_event_grows: "insert_planned_event now w p db = Ok db' \<Longrightarrow> events_grow db db'"
  by (erule insert_planned_event_rows) (auto simp: events_grow_def intro: event_grows_refl)

lemma update_event_fields_tx_grows:
  "update_event_fields_tx now False p db = Ok (db', t) \<Longrightarrow> events_grow db db'"
  by (auto simp: update_event_fields_tx_def split: option.splits if_splits
      intro: events_grow_refl update_event_grows event_grows_functions)

lemma apply_event_part_grows:
  assumes ok: "event_store_ok (fst st)" and run: "apply_event_part txt now p pol st = Ok st'"
    and restricted: "pol \<noteq> PolicyTrusted"
  shows "event_store_ok (fst st') \<and> events_grow (fst st) (fst st')"
proof (rule apply_event_part_invariant [OF _ run, where
      P = "\<lambda>s. event_store_ok (fst s) \<and> events_grow (fst st) (fst s)"])
  show "event_store_ok (fst st) \<and> events_grow (fst st) (fst st)" using ok events_grow_refl by simp
  fix s s' :: progress
  obtain db out where s: "s = (db, out)" by (cases s)
  assume "event_store_ok (fst s) \<and> events_grow (fst st) (fst s)"
  then have inv: "event_store_ok db" "events_grow (fst st) db" using s by simp_all
  { fix x assume "apply_insert now (ap_workflow p) x s = Ok s'"
    then have "insert_planned_event now (ap_workflow p) x db = Ok (fst s')"
      by (auto simp: apply_insert_def s bind_result_Ok_iff split: option.splits)
    then show "event_store_ok (fst s') \<and> events_grow (fst st) (fst s')"
      using inv insert_planned_event_ok insert_planned_event_grows events_grow_trans by blast }
  { fix x assume "apply_presence txt now (ap_workflow p) x s = Ok s'"
    then have "\<exists>t. register_presence_tx txt now (ap_workflow p) x db = Ok (fst s', t)"
      by (auto simp: apply_presence_def s bind_result_Ok_iff)
    then show "event_store_ok (fst s') \<and> events_grow (fst st) (fst s')"
      using inv register_presence_tx_ok register_presence_tx_grows events_grow_trans by blast }
  { fix x assume "apply_update now (pol = PolicyTrusted) x s = Ok s'"
    then have "\<exists>t. update_event_fields_tx now False x db = Ok (fst s', t)"
      using restricted by (auto simp: apply_update_def s bind_result_Ok_iff)
    then show "event_store_ok (fst s') \<and> events_grow (fst st) (fst s')"
      using inv update_event_fields_tx_ok update_event_fields_tx_grows events_grow_trans by blast }
qed

text \<open>An optional count that is at least the one before it.\<close>

definition count_kept :: "int option \<Rightarrow> int option \<Rightarrow> bool" where
  "count_kept a b \<longleftrightarrow> (case a of None \<Rightarrow> True | Some x \<Rightarrow> (case b of None \<Rightarrow> False | Some y \<Rightarrow> x \<le> y))"

lemma count_kept_monotonic: "count_kept a (monotonic_int a b)"
  by (auto simp: count_kept_def monotonic_int_def split: option.splits)

definition fixture_grows :: "fixture \<Rightarrow> fixture \<Rightarrow> bool" where
  "fixture_grows f f' \<longleftrightarrow> fx_id f' = fx_id f \<and> fx_state f' = fx_state f \<and>
     fx_completed_at f' = fx_completed_at f \<and>
     tm_id (fx_home f') = tm_id (fx_home f) \<and> tm_id (fx_away f') = tm_id (fx_away f) \<and>
     lg_id (fx_league f') = lg_id (fx_league f) \<and>
     count_kept (fx_home_score f) (fx_home_score f') \<and> count_kept (fx_away_score f) (fx_away_score f') \<and>
     count_kept (fx_home_penalty f) (fx_home_penalty f') \<and> count_kept (fx_away_penalty f) (fx_away_penalty f')"

lemma merge_positive_scores:
  "fx_home_score (merge_positive_fixture c obs) = monotonic_int (fx_home_score c) (fx_home_score obs)"
  "fx_away_score (merge_positive_fixture c obs) = monotonic_int (fx_away_score c) (fx_away_score obs)"
  "fx_home_penalty (merge_positive_fixture c obs) = monotonic_int (fx_home_penalty c) (fx_home_penalty obs)"
  "fx_away_penalty (merge_positive_fixture c obs) = monotonic_int (fx_away_penalty c) (fx_away_penalty obs)"
  "fx_home (merge_positive_fixture c obs) = merge_team (fx_home c) (fx_home obs)"
  "fx_away (merge_positive_fixture c obs) = merge_team (fx_away c) (fx_away obs)"
  "fx_league (merge_positive_fixture c obs) = merge_league (fx_league c) (fx_league obs)"
  "fx_id (merge_positive_fixture c obs) = fx_id c"
  by (simp_all add: merge_positive_fixture_def Let_def update_result_def merge_clock_def split: prod.splits)

lemma merge_ids [simp]:
  "tm_id (merge_team c obs) = tm_id c" "lg_id (merge_league l lobs) = lg_id l"
  by (simp_all add: merge_team_def merge_league_def)

lemma copy_active_grows:
  "fixture_grows row ((copy_active_columns (merge_positive_fixture row obs) row)\<lparr> fx_updated_at := now \<rparr>)"
  by (simp add: fixture_grows_def copy_active_columns_def copy_ingest_columns_def copy_staging_columns_def
      merge_positive_scores count_kept_monotonic)

text \<open>C13: An observation applied under the positive-only policy loses nothing: every stored event
  survives with its identity, clock, detail, known assist and removal flag and no lower debounce
  count, the fixture keeps its state, teams and league and no score falls, and nothing is removed,
  dropped or completed.\<close>

theorem positive_only_loses_nothing:
  assumes run: "apply_active txt mode now clock raw db = (db', Ok out)" and fresh: "fresh_active raw db observed"
    and policy: "mr_policy out = PolicyPositiveOnly"
    and ok: "fixtures_keyed db" "event_store_ok db"
  shows "events_grow db db' \<and> mr_removed out = [] \<and> mr_unknown_dropped out = 0 \<and> \<not> mr_completed out \<and>
    (\<exists>f f'. mu_fixtures db (fx_id observed) = Some f \<and> mu_fixtures db' (fx_id observed) = Some f' \<and>
            fixture_grows f f')"
  using run fresh
proof (cases rule: apply_active_cases)
  case (skipped out0)
  then show ?thesis using policy commit_mutation_result_out by fastforce
next
  case (written current pol out0 db2 out2 gen)
  have out: "out = out2" and db': "db' = db2\<lparr> mu_receipts := mu_receipts db' \<rparr>"
    using commit_mutation_result_out [OF written(9)] by simp_all
  have pol: "pol = PolicyPositiveOnly"
    using write_active_header [OF written(8)] policy out written(4) by simp
  let ?t = "merge_positive_fixture current observed"
  let ?db1 = "update_active_fixture_tx now ?t db"
  have target: "active_target pol current observed = ?t" by (simp add: active_target_def pol)
  from written(8) show ?thesis
  proof (rule write_active_cases, unfold target)
    fix st1 st2
    assume 1: "apply_event_part txt now (normalize_active raw) pol (?db1, out0\<lparr> mr_applied := True,
          mr_fixture_changed := fixture_publicly_changed (Some current) (Some ?t) \<rparr>) = Ok st1"
      and 2: "(if pol = PolicyTrusted then apply_trusted_part now clock (normalize_active raw) ?t st1
          else Ok st1) = Ok st2"
      and res: "db2 = fst st2" "mr_removed out2 = mr_removed (snd st2)"
        "mr_unknown_dropped out2 = mr_unknown_dropped (snd st2)" "mr_completed out2 = mr_completed (snd st2)"
    have st2: "st2 = st1" using 2 pol by simp
    have events: "ed_events ?db1 = ed_events db" by (simp add: update_active_fixture_tx_def)
    have ok1: "event_store_ok ?db1"
      using ok(2) event_store_ok_cong [of ?db1 db] by (simp add: update_active_fixture_tx_def)
    have grow: "events_grow ?db1 (fst st1)"
      using apply_event_part_grows [OF _ 1] ok1 pol by simp
    have "events_grow db db'"
    proof -
      have "ed_events db' = ed_events (fst st1)"
        using written(9) res(1) st2 by (auto simp: commit_mutation_result_def Let_def)
      then show ?thesis
        using events_grow_trans [OF events_grow_refl [OF events] grow] by (simp add: events_grow_def)
    qed
    moreover have "mr_removed out = [] \<and> mr_unknown_dropped out = 0 \<and> \<not> mr_completed out"
      using apply_event_part_losses [OF 1] written(5-7) out res(2-4) st2 by (simp add: same_losses_def)
    moreover have "mu_fixtures db' (fx_id observed) =
        Some ((copy_active_columns ?t current)\<lparr> fx_updated_at := now \<rparr>)"
    proof -
      have "fx_id current = fx_id observed" using written(1) ok(1) fixtures_keyed_id by blast
      then have "mu_fixtures ?db1 (fx_id observed) = Some ((copy_active_columns ?t current)\<lparr> fx_updated_at := now \<rparr>)"
        using written(1,2)
        by (simp add: update_active_fixture_tx_def update_fixture_row_fixtures merge_positive_scores in_state_def)
      moreover have "mu_fixtures (fst st1) = mu_fixtures ?db1"
        using apply_event_part_rest [OF 1] by (simp add: same_rest_def)
      moreover have "mu_fixtures db' = mu_fixtures db2"
        using written(9) by (auto simp: commit_mutation_result_def Let_def)
      ultimately show ?thesis using res(1) st2 by simp
    qed
    ultimately show ?thesis using written(1) copy_active_grows by blast
  qed
qed

section \<open>Completion\<close>

lemma update_fixture_row_keyed:
  "fixtures_keyed db \<Longrightarrow> (\<And>row. fx_id (f row) = fx_id row) \<Longrightarrow> fixtures_keyed (update_fixture_row now fid g f db)"
  by (auto simp: fixtures_keyed_def update_fixture_row_fixtures split: option.splits if_splits)

lemma copy_columns_id [simp]:
  "fx_id (copy_staging_columns f row) = fx_id row"
  "fx_id (copy_ingest_columns f row) = fx_id row"
  "fx_id (copy_active_columns f row) = fx_id row"
  by (simp_all add: copy_active_columns_def copy_ingest_columns_def copy_staging_columns_def)

lemma completion_tables:
  "ed_events db' = ed_events db \<Longrightarrow> no_pending_events db' fid = no_pending_events db fid"
  "ed_events db' = ed_events db \<Longrightarrow> ed_downstream db' = ed_downstream db \<Longrightarrow>
     no_open_downstream db' fid = no_open_downstream db fid"
  by (simp_all add: no_pending_events_def no_open_downstream_def)

lemma terminal_status_texts:
  "as_short s \<in> set [''ft'', ''aet'', ''pen'', ''canc'', ''abd'', ''wo'', ''awd''] \<Longrightarrow> status_terminal s"
  by (auto simp: status_terminal_def)

definition settled_completion :: "mutation_db \<Rightarrow> int \<Rightarrow> instant \<Rightarrow> bool" where
  "settled_completion db fid cutoff \<longleftrightarrow>
     (\<exists>f. mu_fixtures db fid = Some f \<and> fx_state f = StateCompleted \<and> fx_completed_at f \<noteq> None \<and>
          status_terminal (fx_status f) \<and>
          (\<exists>at. fx_terminal_observed_at f = Some at \<and> at \<le> column_time cutoff)) \<and>
     no_pending_events db fid \<and> no_open_downstream db fid"

lemma complete_fixture_settled:
  assumes "fixtures_keyed db" "complete_fixture_if_ready_tx now f cp db = Ok (db', True)"
  shows "settled_completion db' (fx_id f) (cp_terminal_before cp)"
  using assms(2)
proof (rule complete_fixture_cases)
  fix row
  assume row: "mu_fixtures db (fx_id f) = Some row" "completion_ready db row (cp_terminal_before cp)"
    and tables: "ed_events db' = ed_events db" "ed_downstream db' = ed_downstream db"
    and fixtures: "mu_fixtures db' = (mu_fixtures db)(fx_id f := Some (row\<lparr> fx_state := StateCompleted,
         fx_completed_at := Some (column_time (cp_completed_at cp)), fx_updated_at := now \<rparr>))"
  have "fx_id row = fx_id f" using row(1) assms(1) fixtures_keyed_id by blast
  moreover have "status_terminal (fx_status row)"
    using row(2) unfolding completion_ready_def by (blast intro: terminal_status_texts)
  moreover have "\<exists>at. fx_terminal_observed_at row = Some at \<and> at \<le> column_time (cp_terminal_before cp)"
    using row(2) by (auto simp: completion_ready_def split: option.splits)
  ultimately show ?thesis
    using row(2) completion_tables [of db' db "fx_id f"] tables
    by (simp add: settled_completion_def fixtures completion_ready_def)
qed simp

text \<open>C8: A guarded write completes a fixture only under the trusted policy and on settled evidence:
  the stored status is terminal and was first seen so no later than the grace cutoff, no event of
  the fixture is still being confirmed, and no downstream work of the fixture is open.\<close>

theorem completion_needs_settled_evidence:
  assumes run: "apply_active txt mode now clock raw db = (db', Ok out)" and fresh: "fresh_active raw db observed"
    and completed: "mr_completed out" and keyed: "fixtures_keyed db"
  shows "mr_policy out = PolicyTrusted \<and>
    settled_completion db' (fx_id observed) (cp_terminal_before (ap_completion raw))"
  using run fresh
proof (cases rule: apply_active_cases)
  case (skipped out0)
  then show ?thesis using completed commit_mutation_result_out by blast
next
  case (written current pol out0 db2 out2 gen)
  have out: "out = out2" using commit_mutation_result_out [OF written(9)] by simp
  let ?t = "active_target pol current observed"
  let ?db1 = "update_active_fixture_tx now ?t db"
  let ?p = "normalize_active raw"
  have cur: "fx_id current = fx_id observed" using written(1) keyed fixtures_keyed_id by blast
  have id: "fx_id ?t = fx_id observed" by (simp add: active_target_def merge_positive_scores cur)
  from written(8) show ?thesis
  proof (rule write_active_cases)
    fix st1 st2
    assume 1: "apply_event_part txt now ?p pol (?db1, out0\<lparr> mr_applied := True,
          mr_fixture_changed := fixture_publicly_changed (Some current) (Some ?t) \<rparr>) = Ok st1"
      and 2: "(if pol = PolicyTrusted then apply_trusted_part now clock ?p ?t st1 else Ok st1) = Ok st2"
      and res: "db2 = fst st2" "mr_policy out2 = mr_policy (snd st2)" "mr_completed out2 = mr_completed (snd st2)"
    have pol: "pol = PolicyTrusted"
    proof (rule ccontr)
      assume "pol \<noteq> PolicyTrusted"
      then have "mr_completed (snd st1)" using 2 res(3) completed out by simp
      with apply_event_part_losses [OF 1] written(7) show False by (simp add: same_losses_def)
    qed
    then obtain s1 db1 out1 where folds:
      "fold_result (apply_delete (fx_id ?t)) (ap_unknown_deletes ?p) st1 = Ok s1"
      "fold_result (apply_absence now clock (ap_workflow ?p)) (ap_absences ?p) s1 = Ok (db1, out1)"
      "complete_fixture_if_ready_tx now ?t (ap_completion ?p) db1 = Ok (fst st2, True)"
      using 2 completed res(3) out by (fastforce simp: apply_trusted_part_def bind_result_Ok_iff)
    have "same_rest (fst st1) (fst s1)"
      by (rule fold_result_invariant [OF _ _ folds(1), where P = "\<lambda>s. same_rest (fst st1) (fst s)"])
        (auto intro: same_rest_step apply_delete_rest)
    moreover have "same_rest (fst s1) db1"
      using fold_result_invariant [OF _ _ folds(2), where P = "\<lambda>s. same_rest (fst s1) (fst s)"]
      by (auto intro: same_rest_step apply_absence_rest)
    ultimately have "mu_fixtures db1 = mu_fixtures ?db1"
      using apply_event_part_rest [OF 1] by (simp add: same_rest_def)
    moreover have "fixtures_keyed ?db1"
      unfolding update_active_fixture_tx_def using keyed by (rule update_fixture_row_keyed) simp
    ultimately have "fixtures_keyed db1" by (simp add: fixtures_keyed_def)
    then have "settled_completion (fst st2) (fx_id observed) (cp_terminal_before (ap_completion ?p))"
      using complete_fixture_settled [OF _ folds(3)] id by simp
    moreover have "mu_fixtures db' = mu_fixtures db2" "ed_events db' = ed_events db2" "ed_downstream db' = ed_downstream db2"
      using written(9) by (auto simp: commit_mutation_result_def Let_def)
    ultimately have "settled_completion db' (fx_id observed) (cp_terminal_before (ap_completion raw))"
      using res(1) completion_tables [of db' db2] by (simp add: settled_completion_def normalize_active_def)
    moreover have "mr_policy out = PolicyTrusted"
      using write_active_header [OF written(8)] written(4) pol out by simp
    ultimately show ?thesis by blast
  qed
qed

section \<open>Passive writers\<close>

lemma apply_fixture_cases:
  assumes run: "apply_fixture mode now raw db = (db', Ok out)" and fresh: "fresh_fixture_plan raw db observed"
  obtains
    (skipped) out0 gen where "\<not> mr_applied out0"
      "commit_mutation_result db (normalize_guard (fp_guard raw)) (fx_id observed) gen out0 = (db', Ok out)"
  | (written) pol db2 out2 gen where "pol \<noteq> PolicyRejected"
      "write_fixture now (normalize_fixture_plan raw) (mu_fixtures db (fx_id observed)) observed pol db = Ok (Some db2)"
      "commit_mutation_result db2 (normalize_guard (fp_guard raw)) (fx_id observed) gen out2 = (db', Ok out)"
      "mr_applied out2" "mr_policy out2 = pol"
proof -
  let ?p = "normalize_fixture_plan raw"
  let ?c = "mu_fixtures db (fx_id observed)"
  have receipt: "load_receipt db (fp_guard ?p) (fx_id observed) = Ok None"
    using fresh load_receipt_fresh [of "fp_guard ?p"] by (simp add: fresh_fixture_plan_def)
  obtain provider where provider: "provider_policy_of db = Ok provider"
    using run fresh by (auto simp: apply_fixture_def Let_def fresh_fixture_plan_def split: if_splits result.splits)
  obtain provider_at gen provider_pol where prov: "provider = (provider_at, gen, provider_pol)"
    by (cases provider)
  have body: "decide_and_write_fixture mode now ?p observed ?c provider db = (db', Ok out)"
    using run fresh receipt provider
    by (auto simp: apply_fixture_def Let_def fresh_fixture_plan_def split: if_splits)
  show ?thesis
  proof (cases "fixture_plan_stale ?p ?c")
    case True
    with body prov show ?thesis
      by (intro skipped [of "zero_result\<lparr> mr_stale := True, mr_fixture := ?c \<rparr>" gen])
        (auto simp: decide_and_write_fixture_def commit_stale_receipt_def zero_result_def)
  next
    case live: False
    obtain fixture_pol where fpol: "fixture_policy_of db ?c = Ok fixture_pol"
      using body prov live by (auto simp: decide_and_write_fixture_def Let_def split: result.splits)
    define out0 where "out0 = decide_fixture mode ?p provider_pol fixture_pol"
    have out0: "\<not> mr_applied out0" by (simp add: out0_def decide_fixture_def zero_result_def split: prod.splits)
    show ?thesis
    proof (cases "mr_policy out0 = PolicyRejected")
      case True
      with body prov live fpol out0 show ?thesis
        by (intro skipped [of "out0\<lparr> mr_fixture := ?c \<rparr>" gen])
          (auto simp: decide_and_write_fixture_def Let_def out0_def [symmetric])
    next
      case False
      obtain r where w: "write_fixture now ?p ?c observed (mr_policy out0) db = Ok r"
        using body prov live fpol False
        by (auto simp: decide_and_write_fixture_def Let_def out0_def [symmetric] split: result.splits)
      show ?thesis
      proof (cases r)
        case None
        with body prov live fpol False w show ?thesis
          by (intro skipped [of "zero_result\<lparr> mr_stale := True, mr_fixture := ?c \<rparr>" gen])
            (auto simp: decide_and_write_fixture_def Let_def out0_def [symmetric] commit_stale_receipt_def zero_result_def)
      next
        case (Some db2)
        then obtain stored where
          "commit_mutation_result db2 (fp_guard ?p) (fx_id observed) gen
            (classify_changes (out0\<lparr> mr_applied := True, mr_fixture := Some stored \<rparr>) ?c) = (db', Ok out)"
          using body prov live fpol False w
          by (auto simp: decide_and_write_fixture_def Let_def out0_def [symmetric] split: result.splits)
        then show ?thesis using written [OF False w [unfolded Some]] by simp
      qed
    qed
  qed
qed

text \<open>What a passive write may do to the fixture it addresses.\<close>

definition lifecycle_step :: "fixture_plan \<Rightarrow> fixture \<Rightarrow> fixture \<Rightarrow> bool" where
  "lifecycle_step raw f f' \<longleftrightarrow>
     fx_state f' = fx_state f \<and> fx_activated_at f' = fx_activated_at f \<and>
     fx_completed_at f' = fx_completed_at f \<and> fx_terminal_observed_at f' = fx_terminal_observed_at f \<or>
     fp_mode raw = MutationModeStaging \<and> fp_activate raw \<and>
     fx_state f = StateStaging \<and> fx_state f' = StateActive \<and> fx_activated_at f' \<noteq> None \<and>
     fx_completed_at f' = fx_completed_at f \<and> fx_terminal_observed_at f' = fx_terminal_observed_at f"

lemma copy_staging_lifecycle [simp]:
  "fx_state (copy_staging_columns f row) = fx_state row"
  "fx_activated_at (copy_staging_columns f row) = fx_activated_at row"
  "fx_completed_at (copy_staging_columns f row) = fx_completed_at row"
  "fx_terminal_observed_at (copy_staging_columns f row) = fx_terminal_observed_at row"
  by (simp_all add: copy_staging_columns_def)

lemma copy_ingest_lifecycle [simp]:
  "fx_state (copy_ingest_columns f row) = fx_state row"
  "fx_activated_at (copy_ingest_columns f row) = fx_activated_at row"
  "fx_completed_at (copy_ingest_columns f row) = fx_completed_at row"
  "fx_terminal_observed_at (copy_ingest_columns f row) = fx_terminal_observed_at row"
  by (simp_all add: copy_ingest_columns_def)

lemma lifecycle_step_refl [simp]: "lifecycle_step raw f f"
  by (simp add: lifecycle_step_def)

lemma update_row_lifecycle:
  assumes "mu_fixtures db k = Some f" "\<And>row. c row \<Longrightarrow> lifecycle_step raw row ((g row)\<lparr> fx_updated_at := now \<rparr>)"
  shows "\<exists>f'. mu_fixtures (update_fixture_row now fid c g db) k = Some f' \<and> lifecycle_step raw f f'"
  using assms by (cases "mu_fixtures db fid") (auto simp: update_fixture_row_fixtures)

lemma activation_lifecycle:
  assumes "activate_staging_fixture_tx now t r db = Ok db2" "mu_fixtures db k = Some f"
    and "fp_mode raw = MutationModeStaging" "fp_activate raw"
  shows "\<exists>f'. mu_fixtures db2 k = Some f' \<and> lifecycle_step raw f f'"
proof -
  let ?g = "\<lambda>row. (copy_staging_columns t row)\<lparr> fx_state := StateActive,
    fx_activated_at := map_option column_time (fx_activated_at t) \<rparr>"
  have t: "fx_activated_at t \<noteq> None"
    and log: "insert_audit_log r (update_fixture_row now (fx_id t) (in_state StateStaging) ?g db) = Ok db2"
    using assms(1) by (auto simp: activate_staging_fixture_tx_def split: if_splits)
  have "mu_fixtures db2 = mu_fixtures (update_fixture_row now (fx_id t) (in_state StateStaging) ?g db)"
    using log by (auto simp: insert_audit_log_Ok)
  moreover have "\<exists>f'. mu_fixtures (update_fixture_row now (fx_id t) (in_state StateStaging) ?g db) k = Some f' \<and>
      lifecycle_step raw f f'"
    by (rule update_row_lifecycle [OF assms(2)]) (use t assms(3,4) in \<open>auto simp: lifecycle_step_def in_state_def\<close>)
  ultimately show ?thesis by simp
qed

lemma write_fixture_lifecycle:
  assumes "write_fixture now (normalize_fixture_plan raw) current observed pol db = Ok (Some db2)"
    and current: "current = mu_fixtures db (fx_id observed)" and k: "mu_fixtures db k = Some f"
  shows "\<exists>f'. mu_fixtures db2 k = Some f' \<and> lifecycle_step raw f f'"
proof (cases current)
  case None
  then obtain u where "insert_fixture now observed db = Ok db2"
    using assms(1) by (auto simp: write_fixture_def bind_result_Ok_iff)
  then have "mu_fixtures db2 = (mu_fixtures db)(fx_id observed := Some (fixture_row now observed))"
    by (auto simp: insert_fixture_def bind_result_Ok_iff split: if_splits)
  moreover have "k \<noteq> fx_id observed" using None current k by auto
  ultimately show ?thesis using k by auto
next
  case (Some c)
  let ?p = "normalize_fixture_plan raw"
  let ?t = "fixture_target ?p pol c observed"
  have mode: "fp_mode ?p = fp_mode raw" "fp_activate ?p = fp_activate raw"
    "fp_activation_audit ?p = fp_activation_audit raw"
    by (simp_all add: normalize_fixture_plan_def)
  have w: "write_existing_fixture now ?p c ?t db = Ok (Some db2)"
    using assms(1) Some by (simp add: write_fixture_def)
  consider "db2 = update_ingest_fixture_tx now (keep_lifecycle c ?t) db"
    | r where "activate_staging_fixture_tx now ?t r db = Ok db2" "fp_mode raw = MutationModeStaging" "fp_activate raw"
    | "db2 = update_staging_fixture_tx now ?t db"
    using w by (auto simp: write_existing_fixture_def mode bind_result_Ok_iff
        split: mutation_mode.splits if_splits option.splits)
  then show ?thesis
  proof cases
    case 1
    show ?thesis
      unfolding 1 update_ingest_fixture_tx_def
      by (rule update_row_lifecycle [OF k]) (simp add: lifecycle_step_def)
  next
    case 2
    then show ?thesis using activation_lifecycle [OF 2(1) k] by blast
  next
    case 3
    show ?thesis
      unfolding 3 update_staging_fixture_tx_def
      by (rule update_row_lifecycle [OF k]) (simp add: lifecycle_step_def)
  qed
qed

text \<open>A passive write, from ingestion or from staging, never changes the lifecycle columns of any
  stored fixture, except that an activating staging write moves a staging fixture to active with
  an activation time.\<close>

theorem passive_writers_keep_lifecycle:
  assumes run: "apply_fixture mode now raw db = (db', Ok out)" and fresh: "fresh_fixture_plan raw db observed"
    and row: "mu_fixtures db k = Some f"
  shows "\<exists>f'. mu_fixtures db' k = Some f' \<and> lifecycle_step raw f f'"
  using run fresh
proof (cases rule: apply_fixture_cases)
  case (skipped out0 gen)
  then have "mu_fixtures db' = mu_fixtures db" by (auto simp: commit_mutation_result_def Let_def)
  then show ?thesis using row by auto
next
  case (written pol db2 out2 gen)
  then have "mu_fixtures db' = mu_fixtures db2" by (auto simp: commit_mutation_result_def Let_def)
  then show ?thesis using write_fixture_lifecycle [OF written(2) refl row] by simp
qed

section \<open>Concrete runs\<close>

definition stored_live :: fixture where
  "stored_live = (new_fixture 1000 1 \<lparr> as_short = ''2h'', as_long = ''Second Half'' \<rparr> 0
     \<lparr> tm_id = 40, tm_name = ''Liverpool'' \<rparr> \<lparr> tm_id = 50, tm_name = ''Everton'' \<rparr>
     \<lparr> lg_id = 39, lg_name = ''Premier League'', lg_season = 2026, lg_country = ''England'', lg_round = ''1'' \<rparr>)
     \<lparr> fx_state := StateActive, fx_activated_at := Some 1000, fx_elapsed := Some 60,
       fx_home_score := Some 0, fx_away_score := Some 0, fx_last_polled_at := Some 2000 \<rparr>"

definition observed_goal :: fixture where
  "observed_goal = stored_live\<lparr> fx_elapsed := Some 61, fx_home_score := Some 1, fx_last_polled_at := Some 3000 \<rparr>"

definition live_db :: mutation_db where
  "live_db = event_db.extend empty_event_db (mutation_db.fields (\<lambda>k. if k = 1 then Some stored_live else None)
     (\<lambda>k. if k = 1 then Some ((new_fixture_health 1)\<lparr> fh_last_poll_id := ''poll-3'', fh_last_observed_at := 3000,
             fh_evidence := (fh_evidence (new_fixture_health 1))\<lparr> fhe_version := health_evidence_version \<rparr> \<rparr>)
           else None) (Some 3000) 0 PolicyTrusted [])"

definition goal_plan :: "mutation_policy \<Rightarrow> active_plan" where
  "goal_plan pol = \<lparr> ap_guard = \<lparr> og_observation_id = ''poll-3'', og_observed_at = 3000,
       og_expected_generation = 0, og_require_health = True \<rparr>,
     ap_fixture = Some observed_goal, ap_baseline_exists = True, ap_baseline_polled = Some 2000,
     ap_local_policy = pol, ap_workflow = ''workflow-3'',
     ap_inserts = [\<lparr> pi_event = Some seen_event, pi_audit = None \<rparr>], ap_presences = [], ap_updates = [],
     ap_absences = [], ap_unknown_deletes = [],
     ap_completion = \<lparr> cp_terminal_before = 0, cp_completed_at = 0, cp_grace_seconds = 0,
       cp_provider_parity = None \<rparr> \<rparr>"

definition goal_run :: "mutation_policy \<Rightarrow> mutation_db \<times> mutation_result result" where
  "goal_run pol = apply_active (\<lambda>_. []) EnforcementEnforce 9000 9000 (goal_plan pol) live_db"

lemma live_db_keyed: "fixtures_keyed live_db"
  by (simp add: fixtures_keyed_def live_db_def mutation_db.defs event_db.defs stored_live_def new_fixture_def)

lemma live_db_events: "event_store_ok live_db"
  by (simp add: event_store_ok_def live_db_def mutation_db.defs event_db.defs empty_event_db_def)

lemma goal_plan_fresh: "fresh_active (goal_plan PolicyPositiveOnly) live_db observed_goal"
  "fresh_active (goal_plan PolicyRejected) live_db observed_goal"
  by (unfold fresh_active_def) code_simp+

lemma goal_run_Ok:
  assumes "is_ok (snd (goal_run pol))"
  shows "apply_active (\<lambda>_. []) EnforcementEnforce 9000 9000 (goal_plan pol) live_db =
    (fst (goal_run pol), Ok (the_ok (snd (goal_run pol))))"
  using assms by (cases "goal_run pol"; cases "snd (goal_run pol)") (auto simp: goal_run_def)

lemma goal_run_restricted:
  "is_ok (snd (goal_run PolicyPositiveOnly)) \<and>
   mr_policy (the_ok (snd (goal_run PolicyPositiveOnly))) = PolicyPositiveOnly"
  by code_simp


theorem active_write_retry_returns_receipt_witness:
  "apply_active (\<lambda>_. []) EnforcementEnforce 9999 9999 (goal_plan PolicyPositiveOnly) (fst (goal_run PolicyPositiveOnly)) =
     (fst (goal_run PolicyPositiveOnly), Ok (the_ok (snd (goal_run PolicyPositiveOnly))))"
  using goal_run_restricted by (intro active_write_retry_returns_receipt [OF live_db_keyed goal_run_Ok]) simp


theorem positive_only_loses_nothing_witness:
  "events_grow live_db (fst (goal_run PolicyPositiveOnly))"
  using positive_only_loses_nothing [OF goal_run_Ok goal_plan_fresh(1) _ live_db_keyed live_db_events]
    goal_run_restricted by blast

text \<open>A match seen finished, whose grace period has passed, and the ingestion of a later fixture list.\<close>

definition final_plan :: active_plan where
  "final_plan = (goal_plan PolicyTrusted)\<lparr> ap_inserts := [],
     ap_fixture := Some (observed_goal\<lparr> fx_status := \<lparr> as_short = ''ft'', as_long = ''Match Finished'' \<rparr>,
       fx_terminal_observed_at := Some 1000 \<rparr>),
     ap_completion := \<lparr> cp_terminal_before = 2000, cp_completed_at = 3000, cp_grace_seconds = 60,
       cp_provider_parity = None \<rparr> \<rparr>"

definition final_run :: "mutation_db \<times> mutation_result result" where
  "final_run = apply_active (\<lambda>_. []) EnforcementEnforce 9000 9000 final_plan live_db"

lemma final_run_completes: "is_ok (snd final_run) \<and> mr_completed (the_ok (snd final_run))"
  by code_simp

lemma final_plan_fresh: "fresh_active final_plan live_db (the (ap_fixture final_plan))"
  by (unfold fresh_active_def) code_simp

theorem completion_needs_settled_evidence_witness:
  "settled_completion (fst final_run) 1 2000"
proof -
  have run: "apply_active (\<lambda>_. []) EnforcementEnforce 9000 9000 final_plan live_db =
      (fst final_run, Ok (the_ok (snd final_run)))"
    using final_run_completes by (cases final_run; cases "snd final_run") (auto simp: final_run_def)
  have "fx_id (the (ap_fixture final_plan)) = 1" "cp_terminal_before (ap_completion final_plan) = 2000"
    by code_simp+
  then show ?thesis
    using completion_needs_settled_evidence [OF run final_plan_fresh _ live_db_keyed] final_run_completes by simp
qed

definition ingest_plan :: fixture_plan where
  "ingest_plan = \<lparr> fp_guard = \<lparr> og_observation_id = ''ingest-4'', og_observed_at = 4000,
       og_expected_generation = 0, og_require_health = False \<rparr>,
     fp_mode = MutationModeIngest, fp_fixture = Some (observed_goal\<lparr> fx_last_polled_at := Some 4000 \<rparr>),
     fp_baseline_exists = True, fp_baseline_polled = Some 2000, fp_local_policy = PolicyTrusted,
     fp_activate = False, fp_activation_audit = None \<rparr>"

definition ingest_run :: "mutation_db \<times> mutation_result result" where
  "ingest_run = apply_fixture EnforcementEnforce 9000 ingest_plan live_db"

theorem passive_writers_keep_lifecycle_witness:
  "\<exists>f'. mu_fixtures (fst ingest_run) 1 = Some f' \<and> lifecycle_step ingest_plan stored_live f'"
proof (rule passive_writers_keep_lifecycle)
  have "is_ok (snd ingest_run)" by code_simp
  then show "apply_fixture EnforcementEnforce 9000 ingest_plan live_db = (fst ingest_run, Ok (the_ok (snd ingest_run)))"
    by (cases ingest_run; cases "snd ingest_run") (auto simp: ingest_run_def)
  show "fresh_fixture_plan ingest_plan live_db (the (fp_fixture ingest_plan))"
    by (unfold fresh_fixture_plan_def) code_simp
  show "mu_fixtures live_db 1 = Some stored_live"
    by (simp add: live_db_def mutation_db.defs event_db.defs)
qed

end
