(* ===== verification/HealthCollection.thy ===== *)
theory HealthCollection
  imports Reconcile MutationSafety
begin

text \<open>
  The step between a provider fetch and the health assessment,
  \<open>internal/activity/monitor/provider_health.go\<close>: failed chunks become one observation for each
  requested fixture, fetched fixtures become the comparison the reconciler itself would make, and
  the finished poll goes to the health store. Fixtures and events are read from the tables of the
  mutation store; the health tables are a separate argument.
\<close>

section \<open>What a fetch returns\<close>

datatype fetch_failure_kind = FailureTransport | FailureContract | FailureOther go_string

record provider_fetch_failure =
  pf_ids :: "int list"
  pf_kind :: fetch_failure_kind
  pf_contract_reason :: go_string

record fetch_output =
  fl_fixtures :: "api_fixture list"
  fl_failed_ids :: "int list"
  fl_failures :: "provider_fetch_failure list"

text \<open>An observation that carries no facts.\<close>

definition no_facts :: fixture_comparison where
  "no_facts = \<lparr> fc_stored = zero_facts, fc_observed = zero_facts, fc_stored_events = [],
     fc_confirmed_events = [], fc_observed_events = [] \<rparr>"

definition failed_observation :: "int \<Rightarrow> availability \<Rightarrow> go_string \<Rightarrow> health_observation" where
  "failed_observation fid availability reason = \<lparr> ob_fixture_id = fid, ob_availability = availability,
     ob_failure_reason = reason, ob_interrupted = False, ob_baseline_last_polled = None,
     ob_comparison = no_facts \<rparr>"

section \<open>Failures\<close>

type_synonym failure_map = "int \<Rightarrow> health_observation option"

definition chunk_failures :: "failure_map \<Rightarrow> provider_fetch_failure \<Rightarrow> failure_map" where
  "chunk_failures failed chunk =
     (let availability = (if pf_kind chunk = FailureContract then AvailabilityContract else AvailabilityTransport)
      in foldl (\<lambda>m i. m(i \<mapsto> failed_observation i availability (pf_contract_reason chunk))) failed (pf_ids chunk))"

definition unlisted_failure :: "failure_map \<Rightarrow> int \<Rightarrow> failure_map" where
  "unlisted_failure failed i =
     (if failed i = None then failed(i \<mapsto> failed_observation i AvailabilityTransport []) else failed)"

definition unclassified_failure :: "int list \<Rightarrow> failure_map \<Rightarrow> int \<Rightarrow> failure_map" where
  "unclassified_failure returned failed i =
     (if failed i = None \<and> i \<notin> set returned
      then failed(i \<mapsto> failed_observation i AvailabilityUnobserved ''fetch_failed_unclassified'') else failed)"

definition failure_table :: "int list \<Rightarrow> fetch_output \<Rightarrow> bool \<Rightarrow> failure_map" where
  "failure_table ids out catastrophic =
     (let chunks = foldl chunk_failures Map.empty (fl_failures out);
          unlisted = foldl unlisted_failure chunks (fl_failed_ids out)
      in if catastrophic then foldl (unclassified_failure (map af_id (fl_fixtures out))) unlisted ids
         else unlisted)"

definition health_fetch_failures :: "int list \<Rightarrow> fetch_output \<Rightarrow> bool \<Rightarrow> health_observation list" where
  "health_fetch_failures ids out catastrophic =
     concat (map (\<lambda>i. case failure_table ids out catastrophic i of None \<Rightarrow> [] | Some ob \<Rightarrow> [ob]) ids)"

section \<open>Comparisons\<close>

text \<open>Which local reads fail is an argument; a failed read is reported as unobserved, not as a fault
  of the provider.\<close>

record read_faults =
  rd_fixture :: "int \<Rightarrow> bool"
  rd_history :: "int \<Rightarrow> bool"

definition health_comparison :: "read_faults \<Rightarrow> mutation_db \<Rightarrow> api_fixture \<Rightarrow> instant \<Rightarrow> health_observation" where
  "health_comparison rd db f at =
     (case (if rd_fixture rd (af_id f) then None else mu_fixtures db (af_id f)) of
        None \<Rightarrow> failed_observation (af_id f) AvailabilityUnobserved ''fixture_read_failed''
      | Some stored \<Rightarrow>
          if (case fx_last_polled_at stored of None \<Rightarrow> False | Some polled \<Rightarrow> at < polled)
          then failed_observation (af_id f) AvailabilityUnobserved ''newer_canonical_snapshot''
          else
            let rows = list_all_by_fixture db (af_id f);
                baseline = (failed_observation (af_id f) AvailabilityUnobserved [])
                             \<lparr> ob_baseline_last_polled := fx_last_polled_at stored \<rparr>
            in if rd_history rd (af_id f)
               then baseline\<lparr> ob_failure_reason := ''event_history_read_failed'' \<rparr>
               else (case assign_event_sequences (af_events f) rows (incomplete_goal_teams f) of
                  Err _ \<Rightarrow> baseline\<lparr> ob_failure_reason := ''event_matching_failed'' \<rparr>
                | Ok sequences \<Rightarrow> baseline\<lparr> ob_availability := AvailabilityUsable,
                    ob_comparison := provider_fixture_comparison stored rows f sequences \<rparr>))"

section \<open>The poll\<close>

record collect_input =
  ci_poll_id :: go_string
  ci_observed_at :: instant
  ci_requested :: "int list"
  ci_fetch :: fetch_output
  ci_failed :: bool

definition find_fetched :: "api_fixture list \<Rightarrow> int \<Rightarrow> api_fixture option" where
  "find_fetched fs i = find (\<lambda>f. af_id f = i) fs"

definition find_failure :: "health_observation list \<Rightarrow> int \<Rightarrow> health_observation option" where
  "find_failure obs i = find (\<lambda>ob. ob_fixture_id ob = i) (rev obs)"

definition requested_observation :: "read_faults \<Rightarrow> mutation_db \<Rightarrow> collect_input \<Rightarrow> int \<Rightarrow> health_observation" where
  "requested_observation rd db inp i =
     (case find_failure (health_fetch_failures (ci_requested inp) (ci_fetch inp) (ci_failed inp)) i of
        Some ob \<Rightarrow> ob
      | None \<Rightarrow>
          (case find_fetched (fl_fixtures (ci_fetch inp)) i of
             Some f \<Rightarrow> health_comparison rd db f (ci_observed_at inp)
           | None \<Rightarrow> failed_observation i AvailabilityUnobserved ''missing_fetch_result''))"

definition collected_poll :: "read_faults \<Rightarrow> mutation_db \<Rightarrow> collect_input \<Rightarrow> health_poll" where
  "collected_poll rd db inp = \<lparr> hp_id = ci_poll_id inp, hp_at = ci_observed_at inp,
     hp_observations = map (requested_observation rd db inp) (ci_requested inp) \<rparr>"

definition collect_provider_health ::
  "read_faults \<Rightarrow> mutation_db \<Rightarrow> collect_input \<Rightarrow> health_db \<Rightarrow> health_db \<times> health_result result" where
  "collect_provider_health rd db inp hdb =
     (if \<not> distinct (map af_id (fl_fixtures (ci_fetch inp)))
      then (hdb, Err ''duplicate fixture in health input'')
      else health_observe hdb (collected_poll rd db inp))"

section \<open>Every requested fixture is observed once\<close>

text \<open>The spec of a requested fixture's availability.\<close>

definition failing_chunk :: "fetch_output \<Rightarrow> int \<Rightarrow> provider_fetch_failure option" where
  "failing_chunk out i = find (\<lambda>c. i \<in> set (pf_ids c)) (rev (fl_failures out))"

definition expected_failure :: "int list \<Rightarrow> fetch_output \<Rightarrow> bool \<Rightarrow> int \<Rightarrow> health_observation option" where
  "expected_failure ids out catastrophic i =
     (case failing_chunk out i of
        Some c \<Rightarrow> Some (failed_observation i
          (if pf_kind c = FailureContract then AvailabilityContract else AvailabilityTransport) (pf_contract_reason c))
      | None \<Rightarrow>
          if i \<in> set (fl_failed_ids out) then Some (failed_observation i AvailabilityTransport [])
          else if catastrophic \<and> i \<in> set ids \<and> i \<notin> af_id ` set (fl_fixtures out)
          then Some (failed_observation i AvailabilityUnobserved ''fetch_failed_unclassified'')
          else None)"

lemma foldl_assign: "foldl (\<lambda>m i. m(i \<mapsto> g i)) m is j = (if j \<in> set is then Some (g j) else m j)"
  by (induction "is" arbitrary: m) auto

lemma chunk_failures_apply: "chunk_failures m c i = (if i \<in> set (pf_ids c) then Some (failed_observation i
    (if pf_kind c = FailureContract then AvailabilityContract else AvailabilityTransport) (pf_contract_reason c)) else m i)"
  by (simp add: chunk_failures_def Let_def foldl_assign)

lemma chunks_apply:
  "foldl chunk_failures m cs i =
     (case find (\<lambda>c. i \<in> set (pf_ids c)) (rev cs) of
        Some c \<Rightarrow> Some (failed_observation i
          (if pf_kind c = FailureContract then AvailabilityContract else AvailabilityTransport) (pf_contract_reason c))
      | None \<Rightarrow> m i)"
  by (induction cs rule: rev_induct) (auto simp: chunk_failures_apply)

lemma unlisted_apply:
  "foldl unlisted_failure m is i = (if m i = None \<and> i \<in> set is then Some (failed_observation i AvailabilityTransport []) else m i)"
  by (induction "is" arbitrary: m) (auto simp: unlisted_failure_def)

lemma unclassified_apply:
  "foldl (unclassified_failure returned) m is i =
     (if m i = None \<and> i \<in> set is \<and> i \<notin> set returned
      then Some (failed_observation i AvailabilityUnobserved ''fetch_failed_unclassified'') else m i)"
  by (induction "is" arbitrary: m) (auto simp: unclassified_failure_def)

lemma failure_table_apply: "failure_table ids out catastrophic i = expected_failure ids out catastrophic i"
  by (auto simp: failure_table_def Let_def chunks_apply unlisted_apply unclassified_apply expected_failure_def
      failing_chunk_def split: option.splits)

lemma expected_failure_id: "expected_failure ids out c i = Some ob \<Longrightarrow> ob_fixture_id ob = i"
  by (auto simp: expected_failure_def failed_observation_def split: option.splits if_splits)

lemma find_hit: "find P xs = Some x \<Longrightarrow> x \<in> set xs \<and> P x"
  by (induction xs) (auto split: if_splits)

lemma find_failure_expected:
  assumes "i \<in> set ids"
  shows "find_failure (health_fetch_failures ids out c) i = expected_failure ids out c i"
proof (cases "expected_failure ids out c i")
  case None
  have "ob_fixture_id ob \<noteq> i" if "ob \<in> set (health_fetch_failures ids out c)" for ob
    using that None expected_failure_id
    by (auto simp: health_fetch_failures_def failure_table_apply split: option.splits)
  then show ?thesis using None by (auto simp: find_failure_def find_None_iff)
next
  case (Some ob)
  have mem: "ob' \<in> set (health_fetch_failures ids out c) \<Longrightarrow> ob_fixture_id ob' = i \<Longrightarrow> ob' = ob" for ob'
    using Some expected_failure_id
    by (auto simp: health_fetch_failures_def failure_table_apply split: option.splits)
  have "ob \<in> set (health_fetch_failures ids out c)"
    using Some assms by (force simp: health_fetch_failures_def failure_table_apply)
  then have "find_failure (health_fetch_failures ids out c) i \<noteq> None"
    using expected_failure_id [OF Some] by (auto simp: find_failure_def find_None_iff)
  then obtain ob' where ob': "find_failure (health_fetch_failures ids out c) i = Some ob'" by auto
  then have "ob' \<in> set (health_fetch_failures ids out c)" "ob_fixture_id ob' = i"
    using find_hit [OF ob' [unfolded find_failure_def]] by simp_all
  then show ?thesis using mem ob' Some by simp
qed

section \<open>The finished poll\<close>

lemma health_comparison_id [simp]: "ob_fixture_id (health_comparison rd db f at) = af_id f"
  by (simp add: health_comparison_def failed_observation_def Let_def split: option.split result.split)

text \<open>The observation of one requested fixture, read off the fetch without the intermediate maps: a
  reported failure wins over a returned fixture, the last chunk naming a fixture wins over earlier
  ones, and a fixture that is neither failed nor returned is unobserved.\<close>

definition expected_observation :: "read_faults \<Rightarrow> mutation_db \<Rightarrow> collect_input \<Rightarrow> int \<Rightarrow> health_observation" where
  "expected_observation rd db inp i =
     (case (expected_failure (ci_requested inp) (ci_fetch inp) (ci_failed inp) i,
            find_fetched (fl_fixtures (ci_fetch inp)) i) of
        (Some ob, _) \<Rightarrow> ob
      | (None, Some f) \<Rightarrow> health_comparison rd db f (ci_observed_at inp)
      | (None, None) \<Rightarrow> failed_observation i AvailabilityUnobserved ''missing_fetch_result'')"

lemma requested_is_expected:
  "i \<in> set (ci_requested inp) \<Longrightarrow> requested_observation rd db inp i = expected_observation rd db inp i"
  by (simp add: requested_observation_def expected_observation_def find_failure_expected split: option.split)

lemma expected_observation_id: "ob_fixture_id (expected_observation rd db inp i) = i"
proof -
  have "find_fetched fs i = Some f \<Longrightarrow> af_id f = i" for fs f
    unfolding find_fetched_def using find_hit by fastforce
  then show ?thesis
    by (auto simp: expected_observation_def failed_observation_def dest: expected_failure_id split: option.split)
qed

text \<open>C24: collecting a poll through the failure maps (chunk by chunk, then the unlisted failures, then
  the unclassified rest) gives, for every requested fixture and in the order requested, exactly the
  observation the declarative rule names, under the requested fixture's own identity.\<close>

theorem collected_poll_meets_specification:
  "hp_observations (collected_poll rd db inp) = map (expected_observation rd db inp) (ci_requested inp) \<and>
   map ob_fixture_id (hp_observations (collected_poll rd db inp)) = ci_requested inp"
  by (simp add: collected_poll_def requested_is_expected expected_observation_id comp_def cong: map_cong)

section \<open>The health store accepts the poll\<close>

lemma validate_observations_ok:
  assumes "distinct (map ob_fixture_id obs)" "set (map ob_fixture_id obs) \<inter> set seen = {}"
    "\<And>ob seen. ob \<in> set obs \<Longrightarrow> ob_fixture_id ob \<notin> set seen \<Longrightarrow>
       validate_observation seen ob = Ok (ob_fixture_id ob # seen)"
  shows "is_ok (validate_observations seen obs)"
  using assms
proof (induction obs arbitrary: seen)
  case (Cons ob obs)
  have "validate_observation seen ob = Ok (ob_fixture_id ob # seen)" using Cons.prems(2,3) by simp
  moreover have "is_ok (validate_observations (ob_fixture_id ob # seen) obs)"
    using Cons.prems by (intro Cons.IH) auto
  ultimately show ?case by simp
qed simp

lemma observed_event_facts_length: "length (observed_event_facts es sequences) \<le> length es"
proof -
  have "length (concat (map (\<lambda>(i, e). case (trackable_type e, sequences i) of
     (Some t, Some n) \<Rightarrow> [observed_event_fact e t n] | _ \<Rightarrow> []) (enumerate k es))) \<le> length es" for k
    by (induction es arbitrary: k) (auto simp: le_SucI split: option.split)
  then show ?thesis by (simp add: observed_event_facts_def)
qed

lemma failed_observation_valid:
  assumes "0 < i" "i \<notin> set seen" "length reason \<le> 100"
    "a = AvailabilityTransport \<or> a = AvailabilityContract \<or> a = AvailabilityUnobserved"
  shows "validate_observation seen (failed_observation i a reason) = Ok (i # seen)"
  using assms by (auto simp: validate_observation_def failed_observation_def)

lemma health_comparison_valid:
  assumes "fixtures_keyed db" "0 < af_id f" "af_id f \<notin> set seen" "length (af_events f) \<le> 256"
    "length (list_all_by_fixture db (af_id f)) \<le> 256"
  shows "validate_observation seen (health_comparison rd db f at) = Ok (af_id f # seen)"
proof -
  have "length (filter P (list_all_by_fixture db (af_id f))) \<le> 256" for P
    using length_filter_le assms(5) le_trans by blast
  then have short: "\<not> 256 < length (filter P (list_all_by_fixture db (af_id f)))" for P
    by (simp add: not_less)
  have "length (observed_event_facts (af_events f) s) \<le> 256" for s
    using observed_event_facts_length assms(4) le_trans by blast
  then have facts: "\<not> 256 < length (observed_event_facts (af_events f) s)" for s
    by (simp add: not_less)
  have usable: "validate_observation seen ((failed_observation (af_id f) AvailabilityUnobserved [])
      \<lparr> ob_baseline_last_polled := b, ob_availability := AvailabilityUsable,
        ob_comparison := provider_fixture_comparison stored (list_all_by_fixture db (af_id f)) f s \<rparr>) =
      Ok (af_id f # seen)" if "mu_fixtures db (af_id f) = Some stored" for b s stored
    using fixtures_keyed_id [OF assms(1) that] assms(2,3) short facts
    by (simp add: validate_observation_def failed_observation_def provider_fixture_comparison_def Let_def
        provider_fixture_facts_def observed_facts_def)
  have failed: "validate_observation seen ((failed_observation (af_id f) AvailabilityUnobserved [])
      \<lparr> ob_baseline_last_polled := b, ob_failure_reason := reason \<rparr>) = Ok (af_id f # seen)"
    if "length reason \<le> 100" for b reason
    using assms(2,3) that by (simp add: validate_observation_def failed_observation_def)
  show ?thesis
  proof (cases "mu_fixtures db (af_id f)")
    case (Some stored)
    then show ?thesis
      using usable [OF Some] failed failed_observation_valid [OF assms(2,3)]
      by (cases "assign_event_sequences (af_events f) (list_all_by_fixture db (af_id f)) (incomplete_goal_teams f)";
          cases "fx_last_polled_at stored") (simp_all add: health_comparison_def Let_def)
  qed (use assms(2,3) failed_observation_valid in \<open>simp add: health_comparison_def\<close>)
qed

lemma expected_observation_valid:
  assumes "fixtures_keyed db" "0 < i" "i \<notin> set seen"
    "\<And>c. c \<in> set (fl_failures (ci_fetch inp)) \<Longrightarrow> length (pf_contract_reason c) \<le> 100"
    "\<And>f. f \<in> set (fl_fixtures (ci_fetch inp)) \<Longrightarrow> length (af_events f) \<le> 256"
    "length (list_all_by_fixture db i) \<le> 256"
  shows "validate_observation seen (expected_observation rd db inp i) = Ok (i # seen)"
proof (cases "expected_failure (ci_requested inp) (ci_fetch inp) (ci_failed inp) i")
  case (Some ob)
  have chunk: "length (pf_contract_reason c) \<le> 100" if "failing_chunk (ci_fetch inp) i = Some c" for c
    using find_hit [OF that [unfolded failing_chunk_def]] assms(4) by simp
  have "validate_observation seen ob = Ok (i # seen)"
  proof (cases "failing_chunk (ci_fetch inp) i")
    case (Some c)
    then show ?thesis
      using chunk [OF Some] \<open>_ = Some ob\<close> assms(2,3)
      by (auto simp: expected_failure_def failed_observation_valid)
  qed (use \<open>_ = Some ob\<close> assms(2,3) in
    \<open>auto simp: expected_failure_def failed_observation_valid split: if_splits\<close>)
  then show ?thesis using Some by (simp add: expected_observation_def)
next
  case None
  show ?thesis
  proof (cases "find_fetched (fl_fixtures (ci_fetch inp)) i")
    case (Some f)
    then have "f \<in> set (fl_fixtures (ci_fetch inp))" "af_id f = i"
      unfolding find_fetched_def using find_hit by fastforce+
    then show ?thesis
      using None Some assms health_comparison_valid [of db f] by (simp add: expected_observation_def)
  qed (use None assms(2,3) failed_observation_valid in \<open>simp add: expected_observation_def\<close>)
qed

text \<open>a poll collected for distinct positive fixtures, under a usable poll identity and within the
  stores' bounds (1024 fixtures, 256 events and rows for each, reasons of at most 100 characters),
  satisfies every condition the health store validates, whatever failed, was missing or was
  returned twice.\<close>

theorem collected_poll_is_accepted:
  assumes "fixtures_keyed db"
    "ci_poll_id inp \<noteq> []" "length (ci_poll_id inp) \<le> 200" "ci_observed_at inp \<noteq> 0"
    "ci_requested inp \<noteq> []" "length (ci_requested inp) \<le> max_health_fixtures"
    "distinct (ci_requested inp)" "\<forall>i\<in>set (ci_requested inp). 0 < i"
    "\<forall>c\<in>set (fl_failures (ci_fetch inp)). length (pf_contract_reason c) \<le> 100"
    "\<forall>f\<in>set (fl_fixtures (ci_fetch inp)). length (af_events f) \<le> 256"
    "\<forall>i\<in>set (ci_requested inp). length (list_all_by_fixture db i) \<le> 256"
  shows "is_ok (validate_health_poll (collected_poll rd db inp))"
proof -
  let ?obs = "map (expected_observation rd db inp) (ci_requested inp)"
  have obs: "hp_observations (collected_poll rd db inp) = ?obs"
    by (simp add: collected_poll_def requested_is_expected)
  have "is_ok (validate_observations [] ?obs)"
    using assms
    by (intro validate_observations_ok)
      (auto simp: comp_def expected_observation_id intro!: expected_observation_valid)
  then have "\<exists>seen. validate_observations [] (hp_observations (collected_poll rd db inp)) = Ok seen"
    unfolding obs by (cases "validate_observations [] ?obs") auto
  then show ?thesis
    using assms(2-6) by (auto simp: validate_health_poll_def collected_poll_def)
qed

definition empty_tables :: mutation_db where
  "empty_tables = live_db\<lparr> mu_fixtures := Map.empty, ed_events := [] \<rparr>"

definition rd_down :: read_faults where
  "rd_down = \<lparr> rd_fixture = (\<lambda>_. False), rd_history = (\<lambda>_. True) \<rparr>"

definition broken_fetch :: collect_input where
  "broken_fetch = \<lparr> ci_poll_id = ''poll'', ci_observed_at = 5, ci_requested = [3, 7],
     ci_fetch = \<lparr> fl_fixtures = [], fl_failed_ids = [3],
       fl_failures = [\<lparr> pf_ids = [3], pf_kind = FailureContract, pf_contract_reason = ''contract'' \<rparr>] \<rparr>,
     ci_failed = True \<rparr>"

theorem collected_poll_is_accepted_witness:
  "is_ok (validate_health_poll (collected_poll rd_down empty_tables broken_fetch))"
  by (rule collected_poll_is_accepted)
    (simp_all add: empty_tables_def broken_fetch_def fixtures_keyed_def max_health_fixtures_def
      list_all_by_fixture_def)

end
