(* ===== verification/FixtureStore.thy ===== *)
theory FixtureStore
  imports MutationStore
begin

text \<open>
  The writers of \<open>internal/infra/pg/fixture_repo.go\<close> beside the guarded ones: the insert-or-refresh
  of ingestion, the two poll refreshes, the audited lifecycle transition and the completion query.
  They share the tables and the row writes of the mutation store. A timestamp that crosses into a
  query keeps microseconds; a comparison made in Go keeps the full instant.
\<close>

section \<open>Ingestion\<close>

text \<open>The upsert: a conflict refreshes the provider columns only for a newer observation, and the
  state is read back from whichever row is there.\<close>

definition newer_poll :: "fixture \<Rightarrow> fixture \<Rightarrow> bool" where
  "newer_poll f row \<longleftrightarrow>
     (case map_option column_time (fx_last_polled_at f) of
        None \<Rightarrow> False
      | Some at \<Rightarrow> (case fx_last_polled_at row of None \<Rightarrow> True | Some stored \<Rightarrow> stored < at))"

definition store_from_ingest :: "instant \<Rightarrow> fixture \<Rightarrow> mutation_db \<Rightarrow> (mutation_db \<times> fixture_state) result" where
  "store_from_ingest now f db =
     bind_result (validate_fixture f) (\<lambda>_.
       case mu_fixtures db (fx_id f) of
         None \<Rightarrow> Ok (db\<lparr> mu_fixtures := (mu_fixtures db)(fx_id f := Some (fixture_row now f)) \<rparr>, fx_state f)
       | Some row \<Rightarrow> Ok (update_fixture_row now (fx_id f) (newer_poll f) (copy_ingest_columns f) db, fx_state row))"

section \<open>Poll refreshes\<close>

text \<open>\<open>WHERE id AND state AND (last_polled_at IS NULL OR $n >= last_polled_at)\<close>; an absent parameter
  makes the comparison unknown, which does not select.\<close>

definition not_older_poll :: "fixture \<Rightarrow> fixture \<Rightarrow> bool" where
  "not_older_poll f row \<longleftrightarrow>
     (case fx_last_polled_at row of
        None \<Rightarrow> True
      | Some stored \<Rightarrow> (case map_option column_time (fx_last_polled_at f) of None \<Rightarrow> False | Some at \<Rightarrow> stored \<le> at))"

definition row_selected :: "mutation_db \<Rightarrow> int \<Rightarrow> (fixture \<Rightarrow> bool) \<Rightarrow> bool" where
  "row_selected db k guard \<longleftrightarrow> (case mu_fixtures db k of None \<Rightarrow> False | Some row \<Rightarrow> guard row)"

definition refresh_active_poll :: "instant \<Rightarrow> fixture \<Rightarrow> mutation_db \<Rightarrow> (mutation_db \<times> bool) result" where
  "refresh_active_poll now f db =
     (if fx_state f \<noteq> StateActive then Err ''pg.FixtureRepo.RefreshActivePoll: fixture is not active''
      else bind_result (validate_fixture f) (\<lambda>_.
        let guard = (\<lambda>row. in_state StateActive row \<and> not_older_poll f row) in
        Ok (update_fixture_row now (fx_id f) guard (copy_active_columns f) db, row_selected db (fx_id f) guard)))"

definition refresh_staging_poll :: "instant \<Rightarrow> fixture \<Rightarrow> mutation_db \<Rightarrow> (mutation_db \<times> bool) result" where
  "refresh_staging_poll now f db =
     (if fx_state f \<noteq> StateStaging then Err ''pg.FixtureRepo.RefreshStagingPoll: fixture is not staging''
      else bind_result (validate_fixture f) (\<lambda>_.
        let guard = (\<lambda>row. in_state StateStaging row \<and> not_older_poll f row) in
        Ok (update_fixture_row now (fx_id f) guard (copy_staging_columns f) db, row_selected db (fx_id f) guard)))"

section \<open>Audited transitions\<close>

text \<open>The state a transition starts from, given its audit and the fixture it wants.\<close>

definition expected_state :: "fixture \<Rightarrow> audit_record \<Rightarrow> fixture_state result" where
  "expected_state f r =
     (case au_kind r of
        KindFixtureActivated \<Rightarrow>
          if fx_state f \<noteq> StateActive then Err ''activation audit requires active fixture'' else Ok StateStaging
      | KindFixtureCompleted \<Rightarrow>
          if fx_state f \<noteq> StateCompleted then Err ''completion audit requires completed fixture'' else Ok StateActive
      | _ \<Rightarrow> Err ''invalid fixture audit kind'')"

definition older_than_stored :: "fixture \<Rightarrow> fixture \<Rightarrow> bool" where
  "older_than_stored f row \<longleftrightarrow>
     (case fx_last_polled_at row of
        None \<Rightarrow> False
      | Some stored \<Rightarrow> (case fx_last_polled_at f of None \<Rightarrow> True | Some at \<Rightarrow> at < stored))"

definition write_transition :: "instant \<Rightarrow> fixture \<Rightarrow> audit_record \<Rightarrow> mutation_db \<Rightarrow> mutation_db" where
  "write_transition now f r db =
     (if au_kind r = KindFixtureActivated
      then update_fixture_row now (fx_id f) (in_state StateStaging)
             (\<lambda>row. (copy_staging_columns f row)\<lparr> fx_state := StateActive,
                fx_activated_at := map_option column_time (fx_activated_at f) \<rparr>) db
      else update_fixture_row now (fx_id f) (in_state StateActive)
             (\<lambda>row. row\<lparr> fx_state := StateCompleted,
                fx_completed_at := map_option column_time (fx_completed_at f) \<rparr>) db)"

definition transition_with_audit ::
  "instant \<Rightarrow> fixture \<Rightarrow> audit_record \<Rightarrow> mutation_db \<Rightarrow> (mutation_db \<times> bool) result" where
  "transition_with_audit now f r db =
     (if \<not> audit_valid r then Err ''pg.FixtureRepo.TransitionWithAudit: invalid audit record''
      else if au_fixture_id r \<noteq> fx_id f
      then Err ''pg.FixtureRepo.TransitionWithAudit: audit fixture does not match fixture''
      else bind_result (validate_fixture f) (\<lambda>_.
        bind_result (expected_state f r) (\<lambda>expected.
        bind_result (locked_fixture db (fx_id f)) (\<lambda>row.
          if fx_state row = fx_state f then Ok (db, False)
          else if fx_state row \<noteq> expected
          then Err ''pg.FixtureRepo.TransitionWithAudit: transition is not allowed''
          else if older_than_stored f row then Ok (db, False)
          else bind_result (insert_audit_log r (write_transition now f r db)) (\<lambda>db'. Ok (db', True))))))"

section \<open>Completion\<close>

definition assess_completion :: "mutation_db \<Rightarrow> int \<Rightarrow> instant \<Rightarrow> (bool \<times> bool option) result" where
  "assess_completion db fid terminal_before =
     bind_result (locked_fixture db fid) (\<lambda>row.
       Ok (completion_ready db row terminal_before, durable_parity db row))"

end
