(* ===== verification/Lifecycle.thy ===== *)
theory Lifecycle
  imports FixtureStore MutationSafety
begin

text \<open>
  The lifecycle of a stored fixture under every writer of the table: the guarded active and passive
  writes of the mutation store and the five writes of the fixture repository. Any sequence of them
  keeps each row valid and only moves it forward. The audited transition writes state and audit
  record together.
\<close>

section \<open>One row\<close>

fun state_rank :: "fixture_state \<Rightarrow> nat" where
  "state_rank StateStaging = 0"
| "state_rank StateActive = 1"
| "state_rank StateCompleted = 2"
| "state_rank (StateOther _) = 3"

text \<open>A row moves forward: its identity stays, its state does not go back, and a moment that its state
  has fixed stays as it is.\<close>

definition forward :: "fixture \<Rightarrow> fixture \<Rightarrow> bool" where
  "forward f f' \<longleftrightarrow> fx_id f' = fx_id f \<and> state_rank (fx_state f) \<le> state_rank (fx_state f') \<and>
     (fx_state f \<noteq> StateStaging \<longrightarrow> fx_activated_at f' = fx_activated_at f) \<and>
     (fx_state f = StateCompleted \<longrightarrow> fx_completed_at f' = fx_completed_at f)"

definition row_step :: "fixture \<Rightarrow> fixture \<Rightarrow> bool" where
  "row_step f f' \<longleftrightarrow> validate_fixture f' = Ok () \<and> forward f f'"

lemma forward_refl [simp]: "forward f f"
  by (simp add: forward_def)

lemma validate_fixture_states:
  "validate_fixture f = Ok () \<longleftrightarrow>
     (fx_state f = StateStaging \<and> fx_activated_at f = None \<and> fx_completed_at f = None \<and> fx_terminal_observed_at f = None) \<or>
     (fx_state f = StateActive \<and> fx_activated_at f \<noteq> None \<and> fx_completed_at f = None) \<or>
     (fx_state f = StateCompleted \<and> fx_activated_at f \<noteq> None \<and> fx_completed_at f \<noteq> None)"
  by (auto simp: validate_fixture_def split: fixture_state.split)

lemma forward_trans: "validate_fixture f = Ok () \<Longrightarrow> validate_fixture g = Ok () \<Longrightarrow> validate_fixture h = Ok () \<Longrightarrow>
    forward f g \<Longrightarrow> forward g h \<Longrightarrow> forward f h"
  by (auto simp: forward_def validate_fixture_states)

section \<open>The table\<close>

definition table_ok :: "mutation_db \<Rightarrow> bool" where
  "table_ok db \<longleftrightarrow> (\<forall>k f. mu_fixtures db k = Some f \<longrightarrow> fx_id f = k \<and> validate_fixture f = Ok ())"

definition table_step :: "mutation_db \<Rightarrow> mutation_db \<Rightarrow> bool" where
  "table_step db db' \<longleftrightarrow> table_ok db' \<and>
     (\<forall>k f. mu_fixtures db k = Some f \<longrightarrow> (\<exists>f'. mu_fixtures db' k = Some f' \<and> forward f f'))"

lemma table_step_same: "table_ok db \<Longrightarrow> mu_fixtures db' = mu_fixtures db \<Longrightarrow> table_step db db'"
  by (auto simp: table_step_def table_ok_def)

lemma table_step_trans:
  assumes "table_ok a" "table_step a b" "table_step b c"
  shows "table_step a c"
proof -
  have "\<exists>f''. mu_fixtures c k = Some f'' \<and> forward f f''" if f: "mu_fixtures a k = Some f" for k f
  proof -
    obtain f' where f': "mu_fixtures b k = Some f'" "forward f f'" using assms(2) f by (auto simp: table_step_def)
    then obtain f'' where f'': "mu_fixtures c k = Some f''" "forward f' f''" using assms(3) by (auto simp: table_step_def)
    have "validate_fixture f = Ok ()" "validate_fixture f' = Ok ()" "validate_fixture f'' = Ok ()"
      using assms f f'(1) f''(1) by (auto simp: table_step_def table_ok_def)
    then show ?thesis using forward_trans f' f'' by blast
  qed
  then show ?thesis using assms(3) by (simp add: table_step_def)
qed

lemma update_row_step:
  assumes "table_ok db" "\<And>row. guard row \<Longrightarrow> validate_fixture row = Ok () \<Longrightarrow> row_step row ((g row)\<lparr> fx_updated_at := now \<rparr>)"
  shows "table_step db (update_fixture_row now fid guard g db)"
proof (cases "mu_fixtures db fid")
  case None
  then show ?thesis using assms(1) by (intro table_step_same) (simp_all add: update_fixture_row_fixtures)
next
  case (Some row)
  show ?thesis
  proof (cases "guard row")
    case True
    have row: "fx_id row = fid" "validate_fixture row = Ok ()" using assms(1) Some by (auto simp: table_ok_def)
    then have "row_step row ((g row)\<lparr> fx_updated_at := now \<rparr>)" using assms(2) True by blast
    then show ?thesis
      using assms(1) Some True row
      by (auto simp: table_step_def table_ok_def update_fixture_row_fixtures row_step_def forward_def)
  qed (use Some assms(1) in \<open>auto intro: table_step_same simp: update_fixture_row_fixtures\<close>)
qed

text \<open>The columns a refresh copies leave the lifecycle alone, except that an active row takes over the
  terminal observation.\<close>

lemma copied_row_step:
  "validate_fixture row = Ok () \<Longrightarrow> row_step row ((copy_staging_columns f row)\<lparr> fx_updated_at := now \<rparr>)"
  "validate_fixture row = Ok () \<Longrightarrow> row_step row ((copy_ingest_columns f row)\<lparr> fx_updated_at := now \<rparr>)"
  "validate_fixture row = Ok () \<Longrightarrow> fx_state row = StateActive \<Longrightarrow>
     row_step row ((copy_active_columns f row)\<lparr> fx_updated_at := now \<rparr>)"
  by (auto simp: row_step_def forward_def validate_fixture_states copy_staging_columns_def copy_ingest_columns_def
      copy_active_columns_def)

lemma activated_row_step:
  "validate_fixture row = Ok () \<Longrightarrow> fx_state row = StateStaging \<Longrightarrow> activated \<noteq> None \<Longrightarrow>
     row_step row ((copy_staging_columns f row)\<lparr> fx_state := StateActive, fx_activated_at := activated, fx_updated_at := now \<rparr>)"
  by (auto simp: row_step_def forward_def validate_fixture_states copy_staging_columns_def)

lemma completed_row_step:
  "validate_fixture row = Ok () \<Longrightarrow> fx_state row = StateActive \<Longrightarrow> completed \<noteq> None \<Longrightarrow>
     row_step row (row\<lparr> fx_state := StateCompleted, fx_completed_at := completed, fx_updated_at := now \<rparr>)"
  by (auto simp: row_step_def forward_def validate_fixture_states)

lemma inserted_row_step:
  assumes "table_ok db" "mu_fixtures db (fx_id f) = None" "validate_fixture f = Ok ()"
    "mu_fixtures db' = (mu_fixtures db)(fx_id f := Some (fixture_row now f))"
  shows "table_step db db'"
proof -
  have "validate_fixture (fixture_row now f) = Ok ()" "fx_id (fixture_row now f) = fx_id f"
    using assms(3) by (auto simp: fixture_row_def validate_fixture_states)
  then show ?thesis using assms(1,2,4) by (auto simp: table_step_def table_ok_def)
qed

section \<open>The guarded writers\<close>

lemma activation_step:
  assumes "table_ok db" "activate_staging_fixture_tx now t r db = Ok db2"
  shows "table_step db db2"
proof -
  let ?g = "\<lambda>row. (copy_staging_columns t row)\<lparr> fx_state := StateActive,
    fx_activated_at := map_option column_time (fx_activated_at t) \<rparr>"
  have t: "fx_activated_at t \<noteq> None"
    and log: "insert_audit_log r (update_fixture_row now (fx_id t) (in_state StateStaging) ?g db) = Ok db2"
    using assms(2) by (auto simp: activate_staging_fixture_tx_def split: if_splits)
  have "table_step db (update_fixture_row now (fx_id t) (in_state StateStaging) ?g db)"
    using assms(1) t by (intro update_row_step) (auto simp: in_state_def intro!: activated_row_step)
  moreover have "mu_fixtures db2 = mu_fixtures (update_fixture_row now (fx_id t) (in_state StateStaging) ?g db)"
    using log by (auto simp: insert_audit_log_Ok)
  ultimately show ?thesis by (simp add: table_step_def table_ok_def)
qed

lemma completion_step:
  assumes "table_ok db" "complete_fixture_if_ready_tx now f cp db = Ok (db', b)"
  shows "table_step db db'"
  using assms(2)
proof (cases rule: complete_fixture_cases)
  case 1
  then show ?thesis using assms(1) by (intro table_step_same) simp_all
next
  case (2 row)
  have "fx_id row = fx_id f" "validate_fixture row = Ok ()" using assms(1) 2(1) by (auto simp: table_ok_def)
  moreover have "fx_state row = StateActive" using 2(2) by (simp add: completion_ready_def)
  ultimately have "row_step row (row\<lparr> fx_state := StateCompleted,
      fx_completed_at := Some (column_time (cp_completed_at cp)), fx_updated_at := now \<rparr>)"
    by (intro completed_row_step) simp_all
  then show ?thesis
    using assms(1) 2(1,7) \<open>fx_id row = fx_id f\<close>
    by (auto simp: table_step_def table_ok_def row_step_def forward_def)
qed

lemma write_active_step:
  assumes "table_ok db" "write_active txt now clock p current observed pol out0 db = Ok (db2, out2)"
  shows "table_step db db2"
  using assms(2)
proof (rule write_active_cases)
  fix st1 st2
  let ?target = "active_target pol current observed"
  let ?db1 = "update_active_fixture_tx now ?target db"
  assume 1: "apply_event_part txt now p pol (?db1, out0\<lparr> mr_applied := True, mr_fixture_changed :=
      fixture_publicly_changed (Some current) (Some ?target) \<rparr>) = Ok st1"
    and 2: "(if pol = PolicyTrusted then apply_trusted_part now clock p ?target st1 else Ok st1) = Ok st2"
    and 3: "db2 = fst st2"
  have first: "table_step db ?db1"
    unfolding update_active_fixture_tx_def
    by (rule update_row_step [OF assms(1)]) (simp add: in_state_def copied_row_step(3))
  have "mu_fixtures (fst st1) = mu_fixtures ?db1"
    using apply_event_part_rest [OF 1] by (simp add: same_rest_def)
  then have mid: "table_step db (fst st1)" using first by (simp add: table_step_def table_ok_def)
  then have ok1: "table_ok (fst st1)" by (simp add: table_step_def)
  show "table_step db db2"
  proof (cases "pol = PolicyTrusted")
    case False
    then show ?thesis using 2 3 mid by simp
  next
    case True
    obtain db' out where st2: "st2 = (db', out)" by (cases st2)
    then have "apply_trusted_part now clock p ?target st1 = Ok (db', out)" using 2 True by simp
    then show ?thesis
    proof (cases rule: apply_trusted_part_cases)
      case (1 db0 out0' db1 out1 completed)
      have "same_rest (fst st1) db0"
        by (rule fold_result_invariant [where P = "\<lambda>s. same_rest (fst st1) (fst s)", OF _ _ 1(1), simplified])
          (auto dest: apply_delete_rest intro: same_rest_trans)
      moreover have "same_rest db0 db1"
        by (rule fold_result_invariant [where P = "\<lambda>s. same_rest db0 (fst s)", OF _ _ 1(2), simplified])
          (auto dest: apply_absence_rest intro: same_rest_trans)
      ultimately have same: "mu_fixtures db1 = mu_fixtures (fst st1)" by (simp add: same_rest_def)
      then have "table_ok db1" using ok1 by (simp add: table_ok_def)
      from completion_step [OF this 1(3)] have "table_step (fst st1) db'"
        using same by (simp add: table_step_def)
      with assms(1) mid have "table_step db db'" by (rule table_step_trans)
      then show ?thesis using 3 st2 by simp
    qed
  qed
qed

lemma write_fixture_step:
  assumes "table_ok db" "write_fixture now p (mu_fixtures db (fx_id observed)) observed pol db = Ok (Some db2)"
  shows "table_step db db2"
proof (cases "mu_fixtures db (fx_id observed)")
  case None
  then have insert: "insert_fixture now observed db = Ok db2"
    using assms(2) by (auto simp: write_fixture_def bind_result_Ok_iff)
  then have "validate_fixture observed = Ok ()"
    "mu_fixtures db2 = (mu_fixtures db)(fx_id observed := Some (fixture_row now observed))"
    by (auto simp: insert_fixture_def bind_result_Ok_iff split: if_splits)
  then show ?thesis using inserted_row_step [OF assms(1) None] by blast
next
  case (Some c)
  let ?t = "fixture_target p pol c observed"
  have "write_existing_fixture now p c ?t db = Ok (Some db2)"
    using assms(2) Some by (simp add: write_fixture_def)
  then consider "db2 = update_ingest_fixture_tx now (keep_lifecycle c ?t) db"
    | r where "activate_staging_fixture_tx now ?t r db = Ok db2"
    | "db2 = update_staging_fixture_tx now ?t db"
    by (auto simp: write_existing_fixture_def bind_result_Ok_iff split: mutation_mode.splits if_splits option.splits)
  then show ?thesis
  proof cases
    case 1
    show ?thesis unfolding 1 update_ingest_fixture_tx_def
      by (rule update_row_step [OF assms(1)]) (rule copied_row_step(2))
  next
    case 2
    then show ?thesis using activation_step [OF assms(1)] by blast
  next
    case 3
    show ?thesis unfolding 3 update_staging_fixture_tx_def
      by (rule update_row_step [OF assms(1)]) (rule copied_row_step(1))
  qed
qed

lemma committed_step:
  assumes "table_step db db2" "commit_mutation_result db2 g fid gen out2 = (db', Ok out)"
  shows "table_step db db'"
proof -
  have "mu_fixtures db' = mu_fixtures db2" using assms(2) by (auto simp: commit_mutation_result_def Let_def)
  then show ?thesis using assms(1) by (simp add: table_step_def table_ok_def)
qed

lemma active_not_fresh:
  assumes "apply_active txt mode now clock raw db = (db', Ok out)" "\<And>observed. \<not> fresh_active raw db observed"
  shows "db' = db"
  using assms load_receipt_None_fresh
  by (fastforce simp: apply_active_def Let_def fresh_active_def split: if_splits result.splits option.splits)

lemma fixture_not_fresh:
  assumes "apply_fixture mode now raw db = (db', Ok out)" "\<And>observed. \<not> fresh_fixture_plan raw db observed"
  shows "db' = db"
  using assms load_receipt_None_fresh
  by (fastforce simp: apply_fixture_def Let_def fresh_fixture_plan_def split: if_splits result.splits option.splits)

lemma apply_active_step:
  assumes "table_ok db" "apply_active txt mode now clock raw db = (db', Ok out)"
  shows "table_step db db'"
proof (cases "\<exists>observed. fresh_active raw db observed")
  case True
  then obtain observed where fresh: "fresh_active raw db observed" by blast
  from assms(2) this show ?thesis
  proof (cases rule: apply_active_cases)
    case (skipped out0)
    then show ?thesis using committed_step [of db db] table_step_same [OF assms(1) refl] by blast
  next
    case (written current pol out0 db2 out2 gen)
    then show ?thesis using committed_step [OF write_active_step [OF assms(1)]] by blast
  qed
qed (use active_not_fresh [OF assms(2)] table_step_same [OF assms(1)] in auto)

lemma apply_fixture_step:
  assumes "table_ok db" "apply_fixture mode now raw db = (db', Ok out)"
  shows "table_step db db'"
proof (cases "\<exists>observed. fresh_fixture_plan raw db observed")
  case True
  then obtain observed where fresh: "fresh_fixture_plan raw db observed" by blast
  from assms(2) this show ?thesis
  proof (cases rule: apply_fixture_cases)
    case (skipped out0 gen)
    then show ?thesis using committed_step [of db db] table_step_same [OF assms(1) refl] by blast
  next
    case (written pol db2 out2 gen)
    then show ?thesis using committed_step [OF write_fixture_step [OF assms(1)]] by blast
  qed
qed (use fixture_not_fresh [OF assms(2)] table_step_same [OF assms(1)] in auto)

section \<open>The fixture repository\<close>

lemma store_from_ingest_step:
  assumes "table_ok db" "store_from_ingest now f db = Ok (db', state)"
  shows "table_step db db'"
proof (cases "mu_fixtures db (fx_id f)")
  case None
  then have "validate_fixture f = Ok ()" "mu_fixtures db' = (mu_fixtures db)(fx_id f := Some (fixture_row now f))"
    using assms(2) by (auto simp: store_from_ingest_def bind_result_Ok_iff)
  then show ?thesis using inserted_row_step [OF assms(1) None] by blast
next
  case (Some row)
  then have db': "db' = update_fixture_row now (fx_id f) (newer_poll f) (copy_ingest_columns f) db"
    using assms(2) by (auto simp: store_from_ingest_def bind_result_Ok_iff)
  show ?thesis unfolding db' by (rule update_row_step [OF assms(1)]) (rule copied_row_step(2))
qed

lemma refresh_active_step:
  assumes "table_ok db" "refresh_active_poll now f db = Ok (db', hit)"
  shows "table_step db db'"
proof -
  have db': "db' = update_fixture_row now (fx_id f) (\<lambda>row. in_state StateActive row \<and> not_older_poll f row) (copy_active_columns f) db"
    using assms(2) by (auto simp: refresh_active_poll_def bind_result_Ok_iff Let_def split: if_splits)
  show ?thesis unfolding db' by (rule update_row_step [OF assms(1)]) (simp add: in_state_def copied_row_step(3))
qed

lemma refresh_staging_step:
  assumes "table_ok db" "refresh_staging_poll now f db = Ok (db', hit)"
  shows "table_step db db'"
proof -
  have db': "db' = update_fixture_row now (fx_id f) (\<lambda>row. in_state StateStaging row \<and> not_older_poll f row) (copy_staging_columns f) db"
    using assms(2) by (auto simp: refresh_staging_poll_def bind_result_Ok_iff Let_def split: if_splits)
  show ?thesis unfolding db' by (rule update_row_step [OF assms(1)]) (simp add: copied_row_step(1))
qed

lemma transition_cases:
  assumes "transition_with_audit now f r db = Ok (db', changed)"
  obtains "db' = db" "\<not> changed"
  | row expected where "changed" "audit_valid r" "au_fixture_id r = fx_id f" "validate_fixture f = Ok ()"
    "expected_state f r = Ok expected" "mu_fixtures db (fx_id f) = Some row" "fx_state row = expected"
    "\<not> older_than_stored f row" "insert_audit_log r (write_transition now f r db) = Ok db'"
  using assms
  by (auto simp: transition_with_audit_def bind_result_Ok_iff locked_fixture_def split: if_splits option.splits)

lemma expected_state_kinds:
  "expected_state f r = Ok e \<longleftrightarrow>
     au_kind r = KindFixtureActivated \<and> fx_state f = StateActive \<and> e = StateStaging \<or>
     au_kind r = KindFixtureCompleted \<and> fx_state f = StateCompleted \<and> e = StateActive"
  by (auto simp: expected_state_def split: audit_kind.splits if_splits)

lemma write_transition_step:
  assumes "table_ok db" "validate_fixture f = Ok ()" "expected_state f r = Ok e"
  shows "table_step db (write_transition now f r db)"
proof (cases "au_kind r = KindFixtureActivated")
  case True
  then have "fx_activated_at f \<noteq> None"
    using assms(2,3) by (auto simp: expected_state_kinds validate_fixture_states)
  then show ?thesis
    unfolding write_transition_def if_P [OF True]
    by (intro update_row_step [OF assms(1)]) (simp add: in_state_def activated_row_step)
next
  case False
  then have "fx_completed_at f \<noteq> None"
    using assms(2,3) by (auto simp: expected_state_kinds validate_fixture_states)
  then show ?thesis
    unfolding write_transition_def if_not_P [OF False]
    by (intro update_row_step [OF assms(1)]) (simp add: in_state_def completed_row_step)
qed

lemma transition_step:
  assumes "table_ok db" "transition_with_audit now f r db = Ok (db', changed)"
  shows "table_step db db'"
  using assms(2)
proof (cases rule: transition_cases)
  case 1
  then show ?thesis using assms(1) by (intro table_step_same) simp_all
next
  case (2 row e)
  have "mu_fixtures db' = mu_fixtures (write_transition now f r db)" using 2(9) by (auto simp: insert_audit_log_Ok)
  then show ?thesis
    using write_transition_step [OF assms(1) 2(4,5), of now] by (simp add: table_step_def table_ok_def)
qed

section \<open>Every writer\<close>

inductive fixture_write :: "mutation_db \<Rightarrow> mutation_db \<Rightarrow> bool" where
  guarded_active: "apply_active txt mode now clock p db = (db', Ok out) \<Longrightarrow> fixture_write db db'"
| guarded_passive: "apply_fixture mode now q db = (db', Ok out) \<Longrightarrow> fixture_write db db'"
| ingested: "store_from_ingest now f db = Ok (db', state) \<Longrightarrow> fixture_write db db'"
| refreshed_active: "refresh_active_poll now f db = Ok (db', hit) \<Longrightarrow> fixture_write db db'"
| refreshed_staging: "refresh_staging_poll now f db = Ok (db', hit) \<Longrightarrow> fixture_write db db'"
| transitioned: "transition_with_audit now f r db = Ok (db', changed) \<Longrightarrow> fixture_write db db'"

lemma fixture_write_step: "fixture_write db db' \<Longrightarrow> table_ok db \<Longrightarrow> table_step db db'"
  by (induction rule: fixture_write.induct)
    (blast intro: apply_active_step apply_fixture_step store_from_ingest_step refresh_active_step
      refresh_staging_step transition_step)+

text \<open>C7: whatever sequence of writers runs over the fixture table (guarded or not, from ingestion,
  staging, polling or a transition), every stored fixture stays, under its own identity, satisfies
  the state and timestamp constraints, never goes back in its lifecycle, and keeps its activation
  time once active and its completion time once completed.\<close>

theorem stored_fixtures_move_forward:
  assumes "fixture_write\<^sup>*\<^sup>* db db'" "table_ok db" "mu_fixtures db k = Some f"
  shows "table_ok db' \<and> (\<exists>f'. mu_fixtures db' k = Some f' \<and> forward f f')"
proof -
  have "table_step db db'"
    using assms(1)
  proof (induction rule: rtranclp_induct)
    case base
    then show ?case using assms(2) by (intro table_step_same) simp_all
  next
    case (step y z)
    then have "table_step y z" using fixture_write_step by (simp add: table_step_def)
    then show ?case using table_step_trans [OF assms(2)] step.IH by blast
  qed
  then show ?thesis using assms(3) by (simp add: table_step_def)
qed

lemma live_db_row: "mu_fixtures live_db k = (if k = 1 then Some stored_live else None)"
  by (simp add: live_db_def mutation_db.defs event_db.defs)

lemma live_db_table: "table_ok live_db"
  by (auto simp: table_ok_def live_db_row stored_live_def new_fixture_def validate_fixture_states split: if_splits)

theorem stored_fixtures_move_forward_witness:
  "table_ok (fst (goal_run PolicyTrusted)) \<and>
   (\<exists>f'. mu_fixtures (fst (goal_run PolicyTrusted)) 1 = Some f' \<and> forward stored_live f')"
proof (rule stored_fixtures_move_forward [OF _ live_db_table])
  have "is_ok (snd (goal_run PolicyTrusted))" by code_simp
  then obtain out where "goal_run PolicyTrusted = (fst (goal_run PolicyTrusted), Ok out)"
    by (cases "goal_run PolicyTrusted"; cases "snd (goal_run PolicyTrusted)") auto
  then have "fixture_write live_db (fst (goal_run PolicyTrusted))"
    unfolding goal_run_def by (rule guarded_active)
  then show "fixture_write\<^sup>*\<^sup>* live_db (fst (goal_run PolicyTrusted))" by (rule r_into_rtranclp)
  show "mu_fixtures live_db 1 = Some stored_live" by (simp add: live_db_row)
qed

section \<open>State and audit together\<close>

text \<open>C37: an audited transition is one step: when it reports a change, the row has the new state and
  exactly the given audit record has been appended; when it reports none, nothing was written; and
  repeating it afterwards, at any time, succeeds without a second change or a second record.\<close>

theorem transition_and_audit_are_one_step:
  assumes "transition_with_audit now f r db = Ok (db', changed)"
  shows "if changed
    then map_option fx_state (mu_fixtures db' (fx_id f)) = Some (fx_state f) \<and>
      ed_audit db' = ed_audit db @ [r] \<and> transition_with_audit later f r db' = Ok (db', False)
    else db' = db"
  using assms
proof (cases rule: transition_cases)
  case (2 row e)
  have kinds: "au_kind r = KindFixtureActivated \<and> fx_state f = StateActive \<and> e = StateStaging \<or>
      au_kind r = KindFixtureCompleted \<and> fx_state f = StateCompleted \<and> e = StateActive"
    using 2(5) by (simp add: expected_state_kinds)
  have log: "mu_fixtures db' = mu_fixtures (write_transition now f r db)"
      "ed_audit db' = ed_audit (write_transition now f r db) @ [r]"
    using 2(9) by (auto simp: insert_audit_log_Ok)
  obtain row' where row': "mu_fixtures db' (fx_id f) = Some row'" "fx_state row' = fx_state f"
    using kinds 2(6,7) log(1)
    by (auto simp: write_transition_def update_fixture_row_fixtures in_state_def)
  have "ed_audit (write_transition now f r db) = ed_audit db"
    by (simp add: write_transition_def update_fixture_row_def split: option.split)
  moreover have "transition_with_audit later f r db' = Ok (db', False)"
    using 2(2-5) row' by (simp add: transition_with_audit_def locked_fixture_def)
  ultimately show ?thesis using 2(1) row' log(2) by simp
qed simp

definition finished_live :: fixture where
  "finished_live = stored_live\<lparr> fx_state := StateCompleted, fx_completed_at := Some 9000 \<rparr>"

definition finished_audit :: audit_record where
  "finished_audit = the_ok (new_audit KindFixtureCompleted 0 1 (CompletedPayload
     \<lparr> fcp_fixture_id = 1, fcp_terminal_observed_at = 2000, fcp_completed_at = 9000, fcp_grace_seconds = 60,
       fcp_provider_parity = None, fcp_durable_parity = None, fcp_penalty_decided = Some False \<rparr>))"

definition finish_run :: "(mutation_db \<times> bool) result" where
  "finish_run = transition_with_audit 9000 finished_live finished_audit live_db"

lemma finish_run_changes: "is_ok finish_run \<and> snd (the_ok finish_run)"
  by code_simp

lemma finish_run_Ok: "finish_run = Ok (fst (the_ok finish_run), True)"
proof -
  obtain x where x: "finish_run = Ok x" using finish_run_changes by (auto simp: is_ok_iff)
  show ?thesis using finish_run_changes unfolding x by (cases x) simp
qed

theorem transition_and_audit_are_one_step_witness:
  "map_option fx_state (mu_fixtures (fst (the_ok finish_run)) 1) = Some StateCompleted"
proof -
  have "transition_with_audit 9000 finished_live finished_audit live_db = Ok (fst (the_ok finish_run), True)"
    using finish_run_Ok unfolding finish_run_def [symmetric] .
  from transition_and_audit_are_one_step [OF this] show ?thesis
    by (simp add: finished_live_def stored_live_def new_fixture_def)
qed

end
