(* ===== verification/Activation.thy ===== *)
theory Activation
  imports HealthCollection Lifecycle
begin

text \<open>
  From staging to active, \<open>internal/activity/monitor/activation.go\<close>: the activation of fixtures whose kickoff
  is near, and the poll of staging fixtures with its two ways to activate, a live status and a corrected
  kickoff. The rows a query returns come in the order of an argument, the identities of the table; logs are
  left out.
\<close>

section \<open>Reads\<close>

definition rows_at :: "(fixture \<Rightarrow> bool) \<Rightarrow> int list \<Rightarrow> mutation_db \<Rightarrow> fixture list" where
  "rows_at P ids db = filter P (List.map_filter (mu_fixtures db) ids)"

definition list_by_state :: "int list \<Rightarrow> fixture_state \<Rightarrow> mutation_db \<Rightarrow> fixture list" where
  "list_by_state ids s db = rows_at (in_state s) ids db"

definition list_staging_before_kickoff :: "int list \<Rightarrow> instant \<Rightarrow> mutation_db \<Rightarrow> fixture list" where
  "list_staging_before_kickoff ids threshold db =
     rows_at (\<lambda>f. fx_state f = StateStaging \<and> fx_kickoff f \<le> column_time threshold) ids db"

section \<open>Upcoming fixtures\<close>

record upcoming_output =
  uo_considered :: int
  uo_activated :: int
  uo_errors :: "go_string list"

definition upcoming_error :: "go_string \<Rightarrow> int \<Rightarrow> upcoming_output \<Rightarrow> upcoming_output" where
  "upcoming_error what fid out = out\<lparr> uo_errors := uo_errors out @ [what @ itoa fid] \<rparr>"

definition activate_one ::
  "instant \<Rightarrow> instant \<Rightarrow> duration \<Rightarrow> mutation_db \<times> upcoming_output \<Rightarrow> fixture \<Rightarrow> mutation_db \<times> upcoming_output" where
  "activate_one db_now now lookahead = (\<lambda>(db, out) f.
     if \<not> should_activate_now f now lookahead then (db, out)
     else case activate f now of
       Err _ \<Rightarrow> (db, upcoming_error ''activate fixture='' (fx_id f) out)
     | Ok f1 \<Rightarrow>
         (case fixture_activated_audit (fx_id f) now ''kickoff_soon'' of
            Err _ \<Rightarrow> (db, upcoming_error ''build activation audit fixture='' (fx_id f) out)
          | Ok r \<Rightarrow>
              (case transition_with_audit db_now f1 r db of
                 Err _ \<Rightarrow> (db, upcoming_error ''activate fixture='' (fx_id f) out)
               | Ok (db1, done_now) \<Rightarrow> (db1, if done_now then out\<lparr> uo_activated := uo_activated out + 1 \<rparr> else out))))"

definition activate_upcoming ::
  "instant \<Rightarrow> instant \<Rightarrow> duration \<Rightarrow> int list \<Rightarrow> mutation_db \<Rightarrow> mutation_db \<times> upcoming_output" where
  "activate_upcoming db_now now lookahead ids db =
     (let candidates = list_staging_before_kickoff ids (now + lookahead) db in
      foldl (activate_one db_now now lookahead)
        (db, \<lparr> uo_considered = int (length candidates), uo_activated = 0, uo_errors = [] \<rparr>) candidates)"

section \<open>The staging poll\<close>

record staging_input =
  sg_window :: duration
  sg_observation :: go_string
  sg_observed_at :: instant
  sg_legacy :: bool

record staging_output =
  so_considered :: int
  so_polled :: int
  so_missed :: int
  so_emergency :: int
  so_kickoff :: int
  so_errors :: "go_string list"

definition staging_error :: "go_string \<Rightarrow> int \<Rightarrow> staging_output \<Rightarrow> staging_output" where
  "staging_error what fid out = out\<lparr> so_errors := so_errors out @ [what @ itoa fid] \<rparr>"

text \<open>The fixture a response makes of a staging row, and why it is activated, if it is.\<close>

definition staged_fixture ::
  "instant \<Rightarrow> duration \<Rightarrow> instant \<Rightarrow> fixture \<Rightarrow> api_fixture \<Rightarrow> (fixture \<times> go_string) result" where
  "staged_fixture now window observed_at f a =
     (let f1 = record_staging_poll (update_metadata_from_api f a) (api_status_of a) (af_date a) observed_at in
      if status_live (api_status_of a)
      then bind_result (activate f1 now) (\<lambda>f2. Ok (f2, ''already_started''))
      else if should_activate_now f1 now window
      then bind_result (activate f1 now) (\<lambda>f2. Ok (f2, ''kickoff_correction''))
      else Ok (f1, ''''))"

definition staging_audit :: "int \<Rightarrow> instant \<Rightarrow> go_string \<Rightarrow> audit_record option result" where
  "staging_audit fid now reason =
     (if reason = '''' then Ok None
      else bind_result (fixture_activated_audit fid now reason) (\<lambda>r. Ok (Some r)))"

definition staging_plan ::
  "staging_input \<Rightarrow> instant \<Rightarrow> fixture \<Rightarrow> fixture \<Rightarrow> go_string \<Rightarrow> audit_record option \<Rightarrow> fixture_plan" where
  "staging_plan i observed_at baseline f reason r =
     \<lparr> fp_guard = \<lparr> og_observation_id = sg_observation i, og_observed_at = observed_at,
         og_expected_generation = 0, og_require_health = False \<rparr>,
       fp_mode = MutationModeStaging, fp_fixture = Some f, fp_baseline_exists = True,
       fp_baseline_polled = fx_last_polled_at baseline,
       fp_local_policy = fv_policy (assess_fixture
         (no_facts\<lparr> fc_stored := provider_fixture_facts baseline, fc_observed := provider_fixture_facts f \<rparr>)),
       fp_activate = (reason \<noteq> ''''), fp_activation_audit = r \<rparr>"

text \<open>Which writer takes the row: the guarded store when one is configured and the history asks for it, the
  fixture repository otherwise. An \<open>Err\<close> of \<open>staging_write\<close> is an error of this fixture alone.\<close>

record staging_env =
  se_enforcement :: enforcement_mode
  se_guarded :: bool
  se_db_now :: instant
  se_now :: instant

definition staging_write ::
  "staging_env \<Rightarrow> staging_input \<Rightarrow> instant \<Rightarrow> fixture \<Rightarrow> fixture \<Rightarrow> go_string \<Rightarrow> audit_record option \<Rightarrow>
   mutation_db \<Rightarrow> mutation_db \<times> bool result" where
  "staging_write e i observed_at baseline f reason audit db =
     (if se_guarded e \<and> \<not> sg_legacy i
      then (case apply_fixture (se_enforcement e) (se_db_now e) (staging_plan i observed_at baseline f reason audit) db of
              (db1, Err x) \<Rightarrow> (db1, Err x)
            | (db1, Ok r) \<Rightarrow> (db1, Ok (mr_applied r \<and> \<not> mr_stale r)))
      else case (case audit of Some r \<Rightarrow> transition_with_audit (se_db_now e) f r db
                 | None \<Rightarrow> refresh_staging_poll (se_db_now e) f db) of
             Err x \<Rightarrow> (db, Err x)
           | Ok (db1, applied) \<Rightarrow> (db1, Ok applied))"

definition count_staged :: "go_string \<Rightarrow> staging_output \<Rightarrow> staging_output" where
  "count_staged reason out =
     (if reason = ''already_started'' then out\<lparr> so_emergency := so_emergency out + 1, so_polled := so_polled out + 1 \<rparr>
      else if reason = ''kickoff_correction'' then out\<lparr> so_kickoff := so_kickoff out + 1, so_polled := so_polled out + 1 \<rparr>
      else out\<lparr> so_polled := so_polled out + 1 \<rparr>)"

definition lacks_identity :: "staging_env \<Rightarrow> staging_input \<Rightarrow> bool" where
  "lacks_identity e i \<longleftrightarrow> se_guarded e \<and> \<not> sg_legacy i \<and> sg_observation i = []"

definition identity_required :: go_string where
  "identity_required = ''monitor.PollStagingFixtures: guarded observation ID is required''"

text \<open>One row: an error of the row is listed and the loop goes on; the missing observation identity of the
  guarded path (the third component) ends the activity.\<close>

definition poll_staged ::
  "staging_env \<Rightarrow> staging_input \<Rightarrow> instant \<Rightarrow> mutation_db \<Rightarrow> staging_output \<Rightarrow> fixture \<Rightarrow> api_fixture \<Rightarrow>
   mutation_db \<times> staging_output \<times> go_string option" where
  "poll_staged e i observed_at db out baseline a =
     (case staged_fixture (se_now e) (sg_window i) observed_at baseline a of
        Err _ \<Rightarrow> (db, staging_error (if status_live (api_status_of a) then ''emergency activate fixture=''
                                    else ''kickoff activate fixture='') (fx_id baseline) out, None)
      | Ok (f, reason) \<Rightarrow>
          (case staging_audit (fx_id f) (se_now e) reason of
             Err _ \<Rightarrow> (db, staging_error ''build activation audit fixture='' (fx_id f) out, None)
           | Ok audit \<Rightarrow>
               if lacks_identity e i then (db, out, Some identity_required)
               else (case staging_write e i observed_at baseline f reason audit db of
                  (db1, Err _) \<Rightarrow> (db1, staging_error ''persist fixture='' (fx_id f) out, None)
                | (db1, Ok applied) \<Rightarrow> (db1, if applied then count_staged reason out else out, None))))"

text \<open>The last response with the row's identity is the one used.\<close>

definition response_for :: "int \<Rightarrow> api_fixture list \<Rightarrow> api_fixture option" where
  "response_for k responses = List.find (\<lambda>a. af_id a = k) (rev responses)"

fun staging_loop ::
  "staging_env \<Rightarrow> staging_input \<Rightarrow> instant \<Rightarrow> api_fixture list \<Rightarrow> fixture list \<Rightarrow> mutation_db \<Rightarrow> staging_output \<Rightarrow>
   mutation_db \<times> staging_output \<times> go_string option" where
  "staging_loop e i observed_at responses [] db out = (db, out, None)"
| "staging_loop e i observed_at responses (f # fs) db out =
     (case response_for (fx_id f) responses of
        None \<Rightarrow> staging_loop e i observed_at responses fs db out
      | Some a \<Rightarrow>
          (case poll_staged e i observed_at db out f a of
             (db1, out1, Some x) \<Rightarrow> (db1, out1, Some x)
           | (db1, out1, None) \<Rightarrow> staging_loop e i observed_at responses fs db1 out1))"

text \<open>The fetch is a parameter, of the identities asked for; its flag is the catastrophic error.\<close>

definition poll_staging_fixtures ::
  "(int list \<Rightarrow> fetch_output \<times> bool) \<Rightarrow> staging_env \<Rightarrow> staging_input \<Rightarrow> int list \<Rightarrow> mutation_db \<Rightarrow>
   mutation_db \<times> staging_output \<times> go_string option" where
  "poll_staging_fixtures fetch e i ids db =
     (let observed_at = (if sg_observed_at i = 0 then se_now e else sg_observed_at i);
          candidates = list_by_state ids StateStaging db;
          out = \<lparr> so_considered = int (length candidates), so_polled = 0, so_missed = 0, so_emergency = 0,
                  so_kickoff = 0, so_errors = [] \<rparr>
      in if candidates = [] then (db, out, None)
         else (let (got, catastrophic) = fetch (map fx_id candidates);
                   out1 = out\<lparr> so_missed := int (length (fl_failed_ids got)) \<rparr>
               in if catastrophic then (db, out1, Some ''monitor.PollStagingFixtures: fetch'')
                  else staging_loop e i observed_at (fl_fixtures got) candidates db out1))"

section \<open>The staging workflow\<close>

text \<open>The poll and the reaping of orphaned browsers, whose results are arguments; a failed poll is listed,
  and ends the run only for histories older than the independent reaping.\<close>

record staging_workflow_output =
  sw_counts :: staging_output
  sw_errors :: "go_string list"

definition no_staging_counts :: staging_output where
  "no_staging_counts = \<lparr> so_considered = 0, so_polled = 0, so_missed = 0, so_emergency = 0, so_kickoff = 0,
     so_errors = [] \<rparr>"

definition poll_errors :: "staging_output result \<Rightarrow> go_string list" where
  "poll_errors r = (case r of Ok o' \<Rightarrow> so_errors o' | Err x \<Rightarrow> [''PollStagingFixtures: '' @ x])"

definition reap_errors :: "unit result \<Rightarrow> go_string list" where
  "reap_errors r = (case r of Ok _ \<Rightarrow> [] | Err x \<Rightarrow> [''ReapOrphanedFirefox: '' @ x])"

definition staging_poll_workflow ::
  "duration \<Rightarrow> duration result \<Rightarrow> bool \<Rightarrow> (duration \<Rightarrow> staging_output result) \<Rightarrow> unit result \<Rightarrow>
   staging_workflow_output result" where
  "staging_poll_workflow window config reaper_v2 poll reap =
     bind_result (if window = 0 then (case config of Ok w \<Rightarrow> Ok w | Err x \<Rightarrow> Err (''read monitor config: '' @ x))
                  else Ok window) (\<lambda>w.
       let polled = poll w;
           counts = (case polled of Ok o' \<Rightarrow> o'\<lparr> so_errors := [] \<rparr> | Err _ \<Rightarrow> no_staging_counts)
       in Ok \<lparr> sw_counts = counts,
               sw_errors = poll_errors polled @
                 (if \<not> is_ok polled \<and> \<not> reaper_v2 then [] else reap_errors reap) \<rparr>)"

section \<open>Due fixtures are activated\<close>

text \<open>The row a due fixture becomes, and its audit record.\<close>

definition activated_row :: "instant \<Rightarrow> instant \<Rightarrow> fixture \<Rightarrow> fixture" where
  "activated_row db_now now f = f\<lparr> fx_kickoff := column_time (fx_kickoff f),
     fx_last_polled_at := map_option column_time (fx_last_polled_at f), fx_state := StateActive,
     fx_activated_at := Some (column_time now), fx_updated_at := db_now \<rparr>"

definition activated_record :: "instant \<Rightarrow> go_string \<Rightarrow> int \<Rightarrow> audit_record" where
  "activated_record now reason fid = \<lparr> au_kind = KindFixtureActivated, au_event_id = 0, au_fixture_id = fid,
     au_payload = ActivatedPayload \<lparr> fap_fixture_id = fid, fap_activated_at = now, fap_reason = reason \<rparr> \<rparr>"

definition due :: "instant \<Rightarrow> fixture \<Rightarrow> bool" where
  "due threshold f \<longleftrightarrow> fx_state f = StateStaging \<and> fx_kickoff f \<le> column_time threshold"

lemma column_time_le: "column_time at \<le> at"
  unfolding column_time_def by (simp add: minus_mod_eq_div_mult [symmetric])

lemma fixture_activated_audit_Ok:
  "fixture_activated_audit fid at reason = Ok r \<longleftrightarrow> fid \<noteq> 0 \<and> r = activated_record at reason fid"
  by (auto simp: fixture_activated_audit_def new_audit_def activated_record_def)

lemma activated_record_valid: "fid \<noteq> 0 \<Longrightarrow> audit_valid (activated_record at reason fid)"
  using fixture_activated_audit_Ok [of fid at reason "activated_record at reason fid"]
  unfolding fixture_activated_audit_def by (auto intro: new_audit_valid)

text \<open>Activating a stored staging row through its audited transition.\<close>

lemma activation_is_written:
  assumes row: "mu_fixtures db (fx_id f) = Some f" and state: "fx_state f = StateStaging"
    and valid: "validate_fixture f = Ok ()" and key: "fx_id f \<noteq> 0"
  shows "transition_with_audit db_now (f\<lparr> fx_state := StateActive, fx_activated_at := Some now, fx_updated_at := now \<rparr>)
     (activated_record now reason (fx_id f)) db =
     Ok (db\<lparr> mu_fixtures := (mu_fixtures db)(fx_id f \<mapsto> activated_row db_now now f),
             ed_audit := ed_audit db @ [activated_record now reason (fx_id f)] \<rparr>, True)"
proof -
  let ?f = "f\<lparr> fx_state := StateActive, fx_activated_at := Some now, fx_updated_at := now \<rparr>"
  let ?r = "activated_record now reason (fx_id f)"
  have "\<not> older_than_stored ?f f"
    by (simp add: older_than_stored_def split: option.split)
  moreover have "validate_fixture ?f = Ok ()"
    using valid state by (simp add: validate_fixture_states)
  moreover have "expected_state ?f ?r = Ok StateStaging"
    by (simp add: expected_state_kinds activated_record_def)
  moreover have "write_transition db_now ?f ?r db =
      db\<lparr> mu_fixtures := (mu_fixtures db)(fx_id f \<mapsto> activated_row db_now now f) \<rparr>"
    using row state by (simp add: write_transition_def activated_record_def update_fixture_row_def in_state_def
        copy_staging_columns_def activated_row_def)
  ultimately show ?thesis
    using row state activated_record_valid [OF key]
    by (simp add: transition_with_audit_def activated_record_def locked_fixture_def insert_audit_log_def)
qed

lemma activate_one_due:
  assumes "mu_fixtures db (fx_id f) = Some f" "due (now + lookahead) f" "validate_fixture f = Ok ()" "fx_id f \<noteq> 0"
  shows "activate_one db_now now lookahead (db, out) f =
     (db\<lparr> mu_fixtures := (mu_fixtures db)(fx_id f \<mapsto> activated_row db_now now f),
          ed_audit := ed_audit db @ [activated_record now ''kickoff_soon'' (fx_id f)] \<rparr>,
      out\<lparr> uo_activated := uo_activated out + 1 \<rparr>)"
proof -
  have state: "fx_state f = StateStaging" using assms(2) by (simp add: due_def)
  have "should_activate_now f now lookahead"
    using assms(2) column_time_le [of "now + lookahead"] by (simp add: should_activate_now_def due_def)
  moreover have "fixture_activated_audit (fx_id f) now ''kickoff_soon'' =
      Ok (activated_record now ''kickoff_soon'' (fx_id f))"
    using assms(4) by (simp add: fixture_activated_audit_Ok)
  ultimately show ?thesis
    using state activation_is_written [OF assms(1) state assms(3,4)]
    by (simp add: activate_one_def activate_def)
qed

lemma activate_all_due:
  assumes "distinct (map fx_id fs)"
    and "\<And>f. f \<in> set fs \<Longrightarrow> mu_fixtures db (fx_id f) = Some f \<and> due (now + lookahead) f \<and>
      validate_fixture f = Ok () \<and> fx_id f \<noteq> 0"
  shows "foldl (activate_one db_now now lookahead) (db, out) fs =
     (db\<lparr> mu_fixtures := (\<lambda>k. if k \<in> fx_id ` set fs then map_option (activated_row db_now now) (mu_fixtures db k)
                            else mu_fixtures db k),
          ed_audit := ed_audit db @ map (\<lambda>f. activated_record now ''kickoff_soon'' (fx_id f)) fs \<rparr>,
      out\<lparr> uo_activated := uo_activated out + int (length fs) \<rparr>)"
  using assms
proof (induction fs arbitrary: db out)
  case Nil
  then show ?case by simp
next
  case (Cons f fs)
  let ?db = "db\<lparr> mu_fixtures := (mu_fixtures db)(fx_id f \<mapsto> activated_row db_now now f),
     ed_audit := ed_audit db @ [activated_record now ''kickoff_soon'' (fx_id f)] \<rparr>"
  have rest: "mu_fixtures ?db (fx_id g) = Some g \<and> due (now + lookahead) g \<and>
      validate_fixture g = Ok () \<and> fx_id g \<noteq> 0" if "g \<in> set fs" for g
  proof -
    have "fx_id g \<noteq> fx_id f" using Cons.prems(1) imageI [OF that, of fx_id] by auto
    then show ?thesis using Cons.prems(2) [of g] that by simp
  qed
  have tail: "distinct (map fx_id fs)" using Cons.prems(1) by simp
  have f: "mu_fixtures db (fx_id f) = Some f" using Cons.prems(2) [of f] by simp
  have apart: "fx_id f \<notin> fx_id ` set fs" using Cons.prems(1) by simp
  show ?case
    using Cons.prems(2) [of f] apart f
    by (simp add: activate_one_due Cons.IH [OF tail rest] fun_eq_iff)
qed

text \<open>C28: an activation sweep activates exactly the stored staging fixtures whose kickoff is at most the
  lookahead away: each of them becomes active with the sweep's time, gets one audit record and is counted,
  in one sweep and without an error; every other row is left as it is.\<close>

theorem due_fixtures_are_activated:
  assumes "table_ok db" "distinct ids" "0 \<notin> set ids"
    and "selected = filter (\<lambda>k. case mu_fixtures db k of None \<Rightarrow> False | Some f \<Rightarrow> due (now + lookahead) f) ids"
  shows "activate_upcoming db_now now lookahead ids db =
     (db\<lparr> mu_fixtures := (\<lambda>k. if k \<in> set selected then map_option (activated_row db_now now) (mu_fixtures db k)
                            else mu_fixtures db k),
          ed_audit := ed_audit db @ map (activated_record now ''kickoff_soon'') selected \<rparr>,
      \<lparr> uo_considered = int (length selected), uo_activated = int (length selected), uo_errors = [] \<rparr>)"
proof -
  let ?rows = "list_staging_before_kickoff ids (now + lookahead) db"
  have keyed: "mu_fixtures db k = Some f \<Longrightarrow> fx_id f = k \<and> validate_fixture f = Ok ()" for k f
    using assms(1) by (simp add: table_ok_def)
  have rows: "map fx_id ?rows = selected"
    unfolding assms(4) list_staging_before_kickoff_def rows_at_def due_def [symmetric]
    by (induction ids) (auto simp: List.map_filter_simps keyed split: option.splits)
  have sel: "mu_fixtures db (fx_id f) = Some f \<and> due (now + lookahead) f \<and> validate_fixture f = Ok () \<and> fx_id f \<noteq> 0"
    if "f \<in> set ?rows" for f
    using that keyed assms(3)
    by (auto simp: list_staging_before_kickoff_def rows_at_def due_def List.map_filter_def)
  have "distinct (map fx_id ?rows)" using assms(2) by (simp add: rows assms(4))
  note run = activate_all_due [OF this sel, of db_now]
  have "set selected = fx_id ` set ?rows" "length selected = length ?rows"
      "map (activated_record now ''kickoff_soon'') selected =
        map (\<lambda>f. activated_record now ''kickoff_soon'' (fx_id f)) ?rows"
    by (simp_all add: rows [symmetric] comp_def)
  then show ?thesis
    by (simp add: activate_upcoming_def Let_def run)
qed

section \<open>Why a staging poll activates\<close>

text \<open>The stored row \<open>g\<close> under \<open>k\<close> keeps its lifecycle columns, or it was staging and is now active because
  of the response used for it.\<close>

definition same_lifecycle :: "fixture \<Rightarrow> fixture \<Rightarrow> bool" where
  "same_lifecycle g g' \<longleftrightarrow> fx_state g' = fx_state g \<and> fx_activated_at g' = fx_activated_at g \<and>
     fx_completed_at g' = fx_completed_at g"

definition activation_cause :: "instant \<Rightarrow> duration \<Rightarrow> api_fixture \<Rightarrow> bool" where
  "activation_cause now window a \<longleftrightarrow> status_live (api_status_of a) \<or> af_date a \<le> now + window"

definition polled_row :: "bool \<Rightarrow> fixture \<Rightarrow> fixture \<Rightarrow> bool" where
  "polled_row cause g g' \<longleftrightarrow> same_lifecycle g g' \<or>
     fx_state g = StateStaging \<and> fx_state g' = StateActive \<and> fx_activated_at g' \<noteq> None \<and> cause"

lemma same_lifecycle_refl [simp]: "same_lifecycle g g"
  by (simp add: same_lifecycle_def)

lemma polled_row_refl [simp]: "polled_row c g g"
  by (simp add: polled_row_def)

lemma polled_row_trans: "polled_row c g g' \<Longrightarrow> polled_row c g' g'' \<Longrightarrow> polled_row c g g''"
  by (auto simp: polled_row_def same_lifecycle_def)

lemma staged_fixture_Ok:
  assumes "staged_fixture now window observed_at f a = Ok (f', reason)" "fx_state f = StateStaging"
  shows "fx_id f' = fx_id f" "reason \<noteq> [] \<Longrightarrow> activation_cause now window a"
    "reason \<noteq> [] \<longleftrightarrow> fx_state f' = StateActive"
  using assms
  by (auto simp: staged_fixture_def Let_def record_staging_poll_def update_metadata_from_api_def update_metadata_def
      activate_def should_activate_now_def activation_cause_def bind_result_Ok_iff split: if_splits)

lemma fixture_target_id: "fx_id current = fx_id observed \<Longrightarrow> fx_id (fixture_target p pol current observed) = fx_id observed"
  by (simp add: fixture_target_def merge_positive_scores(8) Let_def)

lemma write_fixture_other:
  assumes "write_fixture now p (mu_fixtures db (fx_id observed)) observed pol db = Ok (Some db2)"
    and "table_ok db" "k \<noteq> fx_id observed"
  shows "mu_fixtures db2 k = mu_fixtures db k"
proof (cases "mu_fixtures db (fx_id observed)")
  case None
  with assms show ?thesis
    by (auto simp: write_fixture_def insert_fixture_def bind_result_Ok_iff split: if_splits)
next
  case (Some c)
  then have "fx_id c = fx_id observed" using assms(2) by (simp add: table_ok_def)
  then have "fx_id (fixture_target p pol c observed) = fx_id observed" by (rule fixture_target_id)
  with Some assms(1,3) show ?thesis
    by (auto simp: write_fixture_def write_existing_fixture_def bind_result_Ok_iff update_ingest_fixture_tx_def
        update_staging_fixture_tx_def activate_staging_fixture_tx_def insert_audit_log_Ok update_fixture_row_fixtures
        keep_lifecycle_def
        split: mutation_mode.splits if_splits option.splits)
qed

lemma apply_fixture_other:
  assumes "apply_fixture mode now raw db = (db', Ok out)" "table_ok db" "map_option fx_id (fp_fixture raw) = Some j" "k \<noteq> j"
  shows "mu_fixtures db' k = mu_fixtures db k"
proof (cases "\<exists>observed. fresh_fixture_plan raw db observed")
  case True
  then obtain observed where fresh: "fresh_fixture_plan raw db observed" by blast
  then have "fx_id observed = j"
    using assms(3) by (auto simp: fresh_fixture_plan_def validate_fixture_plan_def bind_result_Ok_iff
        normalize_fixture_plan_def normalize_polled_def split: option.splits if_splits)
  from assms(1) fresh show ?thesis
  proof (cases rule: apply_fixture_cases)
    case (skipped out0 gen)
    then show ?thesis by (auto simp: commit_mutation_result_def Let_def)
  next
    case (written pol db2 out2 gen)
    then show ?thesis
      using write_fixture_other [OF written(2) assms(2)] assms(4) \<open>fx_id observed = j\<close>
      by (auto simp: commit_mutation_result_def Let_def)
  qed
qed (use fixture_not_fresh [OF assms(1)] in auto)

lemma commit_mutation_result_Ok [simp]: "commit_mutation_result db g fid gen out \<noteq> (db', Err e)"
  by (simp add: commit_mutation_result_def Let_def)

lemma apply_fixture_error: "apply_fixture mode now raw db = (db', Err e) \<Longrightarrow> db' = db"
  by (auto simp: apply_fixture_def decide_and_write_fixture_def commit_stale_receipt_def Let_def
      split: if_splits result.splits option.splits prod.splits)

lemma staging_write_row:
  assumes wrote: "staging_write e i at baseline f reason audit db = (db1, r)" and db: "table_ok db"
    and f: "fx_id f = fx_id baseline" "reason \<noteq> [] \<longleftrightarrow> fx_state f = StateActive" "audit \<noteq> None \<longleftrightarrow> reason \<noteq> []"
    and g: "mu_fixtures db k = Some g"
  shows "\<exists>g'. mu_fixtures db1 k = Some g' \<and> (if k = fx_id f then polled_row (reason \<noteq> []) g g' else g' = g)"
proof (cases "se_guarded e \<and> \<not> sg_legacy i")
  case guarded: True
  let ?p = "staging_plan i at baseline f reason audit"
  show ?thesis
  proof (cases r)
    case (Err x)
    then have "db1 = db"
      using wrote guarded apply_fixture_error [of _ _ ?p db] by (auto simp: staging_write_def split: prod.splits result.splits)
    then show ?thesis using g by auto
  next
    case (Ok b)
    then obtain out where run: "apply_fixture (se_enforcement e) (se_db_now e) ?p db = (db1, result.Ok out)"
      using wrote guarded by (auto simp: staging_write_def split: prod.splits result.splits)
    have id: "map_option fx_id (fp_fixture ?p) = Some (fx_id f)" by (simp add: staging_plan_def)
    show ?thesis
    proof (cases "k = fx_id f")
      case False
      then show ?thesis using apply_fixture_other [OF run db id] g by simp
    next
      case True
      show ?thesis
      proof (cases "\<exists>observed. fresh_fixture_plan ?p db observed")
        case True
        then obtain observed where "fresh_fixture_plan ?p db observed" by blast
        from passive_writers_keep_lifecycle [OF run this g] \<open>k = fx_id f\<close> show ?thesis
          by (auto simp: lifecycle_step_def polled_row_def same_lifecycle_def staging_plan_def)
      next
        case False
        then have "db1 = db" using fixture_not_fresh [OF run] by blast
        then show ?thesis using g \<open>k = fx_id f\<close> by simp
      qed
    qed
  qed
next
  case legacy: False
  show ?thesis
  proof (cases audit)
    case None
    then have "db1 = db \<or> db1 = update_fixture_row (se_db_now e) (fx_id f)
        (\<lambda>row. in_state StateStaging row \<and> not_older_poll f row) (copy_staging_columns f) db"
      using wrote legacy by (auto simp: staging_write_def refresh_staging_poll_def bind_result_Ok_iff Let_def
          split: result.splits if_splits)
    then show ?thesis
      using g by (cases "k = fx_id f") (auto simp: update_fixture_row_fixtures polled_row_def same_lifecycle_def
          copy_staging_columns_def split: option.splits)
  next
    case (Some a)
    show ?thesis
    proof (cases "transition_with_audit (se_db_now e) f a db")
      case (Err x)
      then have "db1 = db" using wrote legacy Some by (simp add: staging_write_def)
      then show ?thesis using g by auto
    next
      case (Ok res)
      then obtain changed where run: "transition_with_audit (se_db_now e) f a db = result.Ok (db1, changed)"
        using wrote legacy Some by (cases res) (simp add: staging_write_def)
      from run show ?thesis
      proof (cases rule: transition_cases)
        case 1
        then show ?thesis using g by auto
      next
        case (2 row expected)
        have kind: "au_kind a = KindFixtureActivated" "expected = StateStaging" "fx_state f = StateActive"
          using 2(5) f(2,3) Some by (auto simp: expected_state_kinds)
        have "mu_fixtures db1 = mu_fixtures (write_transition (se_db_now e) f a db)"
          using 2(9) by (auto simp: insert_audit_log_Ok)
        moreover have "fx_activated_at f \<noteq> None" using 2(4) kind by (auto simp: validate_fixture_states)
        ultimately show ?thesis
          using g 2(6,7) kind f(2)
          by (auto simp: write_transition_def update_fixture_row_fixtures in_state_def polled_row_def same_lifecycle_def)
      qed
    qed
  qed
qed

lemma staging_write_step:
  assumes "staging_write e i at baseline f reason audit db = (db1, r)" "table_ok db"
  shows "table_step db db1"
  using assms apply_fixture_step [OF assms(2)] transition_step [OF assms(2)] refresh_staging_step [OF assms(2)]
    table_step_same [OF assms(2) refl] apply_fixture_error
  by (fastforce simp: staging_write_def split: if_splits prod.splits result.splits option.splits)

text \<open>One row of the poll.\<close>

definition polled_db :: "(int \<Rightarrow> api_fixture option) \<Rightarrow> instant \<Rightarrow> duration \<Rightarrow> mutation_db \<Rightarrow> mutation_db \<Rightarrow> bool" where
  "polled_db used now window db db' \<longleftrightarrow> table_step db db' \<and>
     (\<forall>k g. mu_fixtures db k = Some g \<longrightarrow>
        (\<exists>g'. mu_fixtures db' k = Some g' \<and>
           (case used k of None \<Rightarrow> g' = g | Some a \<Rightarrow> polled_row (activation_cause now window a) g g')))"

lemma polled_db_refl: "table_ok db \<Longrightarrow> polled_db used now window db db"
  by (auto simp: polled_db_def table_step_same split: option.split)

lemma polled_db_trans:
  assumes "table_ok a" "polled_db used now window a b" "polled_db used now window b c"
  shows "polled_db used now window a c"
proof -
  have "table_step a c" using assms table_step_trans by (auto simp: polled_db_def)
  moreover have "\<exists>g'. mu_fixtures c k = Some g' \<and>
      (case used k of None \<Rightarrow> g' = g | Some r \<Rightarrow> polled_row (activation_cause now window r) g g')"
    if g: "mu_fixtures a k = Some g" for k g
  proof -
    obtain h where h: "mu_fixtures b k = Some h"
        "case used k of None \<Rightarrow> h = g | Some r \<Rightarrow> polled_row (activation_cause now window r) g h"
      using assms(2) g unfolding polled_db_def by blast
    obtain g' where "mu_fixtures c k = Some g'"
        "case used k of None \<Rightarrow> g' = h | Some r \<Rightarrow> polled_row (activation_cause now window r) h g'"
      using assms(3) h(1) unfolding polled_db_def by blast
    with h(2) show ?thesis by (cases "used k") (auto intro: polled_row_trans)
  qed
  ultimately show ?thesis by (simp add: polled_db_def)
qed

lemma poll_staged_db:
  assumes run: "poll_staged e i at db out f a = (db1, out1, x)" and db: "table_ok db"
    and f: "fx_state f = StateStaging" "used (fx_id f) = Some a"
  shows "polled_db used (se_now e) (sg_window i) db db1"
proof (cases "db1 = db")
  case True
  then show ?thesis using polled_db_refl [OF db] by simp
next
  case False
  obtain f' reason audit r where staged: "staged_fixture (se_now e) (sg_window i) at f a = Ok (f', reason)"
      and audit: "staging_audit (fx_id f') (se_now e) reason = Ok audit"
      and wrote: "staging_write e i at f f' reason audit db = (db1, r)"
    using run False by (auto simp: poll_staged_def split: result.splits prod.splits if_splits)
  note facts = staged_fixture_Ok [OF staged f(1)]
  have "audit \<noteq> None \<longleftrightarrow> reason \<noteq> []"
    using audit by (auto simp: staging_audit_def bind_result_Ok_iff split: if_splits)
  note row = staging_write_row [OF wrote db facts(1) facts(3) this]
  have "\<exists>g'. mu_fixtures db1 k = Some g' \<and>
      (case used k of None \<Rightarrow> g' = g | Some b \<Rightarrow> polled_row (activation_cause (se_now e) (sg_window i) b) g g')"
    if "mu_fixtures db k = Some g" for k g
  proof (cases "k = fx_id f'")
    case True
    then show ?thesis using row [OF that] facts(1,2) f(2) by (auto simp: polled_row_def)
  next
    case False
    then show ?thesis using row [OF that] by (auto split: option.split)
  qed
  then show ?thesis using staging_write_step [OF wrote db] by (simp add: polled_db_def)
qed

lemma staging_loop_db:
  assumes "staging_loop e i at rs fs db out = (db', out', x)" "table_ok db" "\<And>f. f \<in> set fs \<Longrightarrow> fx_state f = StateStaging"
  shows "polled_db (\<lambda>k. response_for k rs) (se_now e) (sg_window i) db db'"
  using assms
proof (induction fs arbitrary: db out)
  case Nil
  then show ?case by (simp add: polled_db_refl)
next
  case (Cons f fs)
  show ?case
  proof (cases "response_for (fx_id f) rs")
    case None
    then show ?thesis using Cons by simp
  next
    case (Some a)
    obtain db1 out1 y where step: "poll_staged e i at db out f a = (db1, out1, y)"
      by (cases "poll_staged e i at db out f a")
    have first: "polled_db (\<lambda>k. response_for k rs) (se_now e) (sg_window i) db db1"
      by (rule poll_staged_db [OF step Cons.prems(2)]) (use Cons.prems(3) Some in auto)
    then have "table_ok db1" by (simp add: polled_db_def table_step_def)
    show ?thesis
    proof (cases y)
      case None
      then have "staging_loop e i at rs fs db1 out1 = (db', out', x)" using Cons.prems(1) Some step by simp
      from Cons.IH [OF this \<open>table_ok db1\<close>] Cons.prems(3)
      have "polled_db (\<lambda>k. response_for k rs) (se_now e) (sg_window i) db1 db'" by simp
      with Cons.prems(2) first show ?thesis by (rule polled_db_trans)
    next
      case (Some z)
      then have "db' = db1" using Cons.prems(1) \<open>response_for (fx_id f) rs = Some a\<close> step by simp
      then show ?thesis using first by simp
    qed
  qed
qed

text \<open>C29: a staging poll, guarded or not, keeps every stored fixture and moves none backward; a row without a
  response keeps every column; a row with one keeps its state and its activation and completion times unless
  it was staging and the response used for it is live or dated before the end of the activation window, in
  which case it may be active, with an activation time.\<close>

theorem staging_polls_activate_for_cause:
  assumes "poll_staging_fixtures fetch e i ids db = (db', out, x)" "table_ok db"
    and "used = (\<lambda>k. response_for k (fl_fixtures (fst (fetch (map fx_id (list_by_state ids StateStaging db))))))"
  shows "polled_db used (se_now e) (sg_window i) db db'"
proof (cases "db' = db")
  case True
  then show ?thesis using polled_db_refl [OF assms(2)] by simp
next
  case False
  have staging: "f \<in> set (list_by_state ids StateStaging db) \<Longrightarrow> fx_state f = StateStaging" for f
    by (auto simp: list_by_state_def rows_at_def in_state_def)
  from False assms(1) show ?thesis
    unfolding assms(3) poll_staging_fixtures_def Let_def
    by (auto split: if_splits prod.splits intro: staging_loop_db [OF _ assms(2) staging])
qed

section \<open>Concrete runs\<close>

definition waiting :: "int \<Rightarrow> instant \<Rightarrow> fixture" where
  "waiting k kickoff = new_fixture 1000 k \<lparr> as_short = ''ns'', as_long = ''Not Started'' \<rparr> kickoff
     \<lparr> tm_id = 40, tm_name = ''Liverpool'' \<rparr> \<lparr> tm_id = 50, tm_name = ''Everton'' \<rparr>
     \<lparr> lg_id = 39, lg_name = ''Premier League'', lg_season = 2026, lg_country = ''England'', lg_round = ''1'' \<rparr>"

definition waiting_db :: mutation_db where
  "waiting_db = live_db\<lparr> mu_fixtures := (\<lambda>k. if k = 1 then Some (waiting 1 60000000)
     else if k = 2 then Some (waiting 2 90000000) else None) \<rparr>"

lemma waiting_db_table: "table_ok waiting_db"
  by (auto simp: table_ok_def waiting_db_def waiting_def new_fixture_def validate_fixture_states)

theorem due_fixtures_are_activated_witness:
  "uo_activated (snd (activate_upcoming 9000 8000000 52000000 [2, 1] waiting_db)) = 1 \<and>
   ed_audit (fst (activate_upcoming 9000 8000000 52000000 [2, 1] waiting_db)) =
     ed_audit waiting_db @ [activated_record 8000000 ''kickoff_soon'' 1] \<and>
   map_option fx_state (mu_fixtures (fst (activate_upcoming 9000 8000000 52000000 [2, 1] waiting_db)) 1) = Some StateActive"
proof -
  have "[1] = filter (\<lambda>k. case mu_fixtures waiting_db k of None \<Rightarrow> False
      | Some f \<Rightarrow> due (8000000 + 52000000) f) [2, 1 :: int]"
    by (simp add: waiting_db_def waiting_def new_fixture_def due_def column_time_def)
  from due_fixtures_are_activated [OF waiting_db_table _ _ this, of 9000] show ?thesis
    by (simp add: waiting_db_def activated_row_def)
qed

definition response_at :: "int \<Rightarrow> instant \<Rightarrow> go_string \<Rightarrow> api_fixture" where
  "response_at k date short = \<lparr> af_id = k, af_date = date,
     af_status = \<lparr> afs_long = short, afs_short = short, afs_elapsed = None, afs_extra = None \<rparr>,
     af_league = \<lparr> afl_id = 39, afl_name = ''Premier League'', afl_country = ''England'', afl_season = 2026,
       afl_round = ''1'' \<rparr>,
     af_home = \<lparr> aft_id = 40, aft_name = ''Liverpool'', aft_winner = None \<rparr>,
     af_away = \<lparr> aft_id = 50, aft_name = ''Everton'', aft_winner = None \<rparr>,
     af_goals_home = None, af_goals_away = None, af_penalty_home = None, af_penalty_away = None, af_events = [] \<rparr>"

definition answering :: "api_fixture list \<Rightarrow> int list \<Rightarrow> fetch_output \<times> bool" where
  "answering rs ids = (\<lparr> fl_fixtures = rs, fl_failed_ids = [], fl_failures = [] \<rparr>, False)"

definition poll_env :: "bool \<Rightarrow> staging_env" where
  "poll_env guarded = \<lparr> se_enforcement = EnforcementEnforce, se_guarded = guarded, se_db_now = 9000000, se_now = 8000000 \<rparr>"

definition poll_input :: staging_input where
  "poll_input = \<lparr> sg_window = 1000000, sg_observation = ''poll-8'', sg_observed_at = 7000000, sg_legacy = False \<rparr>"

definition poll_of :: "bool \<Rightarrow> api_fixture list \<Rightarrow> mutation_db \<times> staging_output \<times> go_string option" where
  "poll_of guarded rs = poll_staging_fixtures (answering rs) (poll_env guarded) poll_input [1, 2] waiting_db"

lemma poll_of_runs:
  "let (db, out, x) = poll_of True [response_at 1 60000000 ''1h''] in
     map_option fx_state (mu_fixtures db 1) = Some StateActive \<and> so_emergency out = 1 \<and> x = None"
  "let (db, out, x) = poll_of True [response_at 2 0 ''ns''] in
     map_option fx_state (mu_fixtures db 2) = Some StateActive \<and> map_option fx_kickoff (mu_fixtures db 2) = Some 0 \<and>
     so_kickoff out = 1 \<and> x = None"
  by code_simp+

theorem staging_polls_activate_for_cause_witness:
  "map_option fx_state (mu_fixtures (fst (poll_of True [response_at 1 60000000 ''1h''])) 1) = Some StateActive \<and>
   mu_fixtures (fst (poll_of True [response_at 1 60000000 ''1h''])) 2 = Some (waiting 2 90000000)"
proof -
  obtain out x where run: "poll_of True [response_at 1 60000000 ''1h''] =
      (fst (poll_of True [response_at 1 60000000 ''1h'']), out, x)"
    by (cases "poll_of True [response_at 1 60000000 ''1h'']") auto
  have row: "mu_fixtures waiting_db 2 = Some (waiting 2 90000000)" by (simp add: waiting_db_def)
  from staging_polls_activate_for_cause [OF run [unfolded poll_of_def] waiting_db_table refl] row
  have "mu_fixtures (fst (poll_of True [response_at 1 60000000 ''1h''])) 2 = Some (waiting 2 90000000)"
    unfolding poll_of_def polled_db_def by (fastforce simp: answering_def response_for_def response_at_def)
  then show ?thesis using poll_of_runs(1) by (auto simp: Let_def split: prod.splits)
qed

text \<open>A response without a date leaves the kickoff to \<open>update_metadata_from_api\<close>, but the poll then records
  the zero time itself, which is always inside the window: the fixture is activated, with the zero kickoff.\<close>

lemma dateless_response_activates:
  assumes "fx_state f = StateStaging" "af_date a = 0" "\<not> status_live (api_status_of a)" "0 \<le> now + window"
  shows "\<exists>f'. staged_fixture now window observed_at f a = Ok (f', ''kickoff_correction'') \<and>
     fx_state f' = StateActive \<and> fx_kickoff f' = 0"
  using assms
  by (auto simp: staged_fixture_def Let_def record_staging_poll_def update_metadata_from_api_def update_metadata_def
      activate_def should_activate_now_def bind_result_Ok_iff)

end
