(* ===== verification/FrameHash.thy ===== *)
theory FrameHash
  imports Prelude
begin

text \<open>
  The perceptual hash of a frame, \<open>internal/domain/video/hash.go\<close>: luma, histogram equalisation, area
  average to nine by eight cells, one bit for each horizontal neighbour. Pixels are bytes; sums and
  indexes are unbounded, as their values stay far below the range of Go's \<open>int\<close>. Decoding a PNG file
  is left out; an image is what \<open>image.Image\<close> gives: grey bytes, or 16-bit channels.
\<close>

unbundle bit_operations_syntax

section \<open>Versions\<close>

definition legacy_frame_hash_version :: go_string where
  "legacy_frame_hash_version = ''dhash-v1-unversioned''"

definition frame_hash_v2_prefix :: go_string where
  "frame_hash_v2_prefix = ''dhash-v2-gray640-equalized-area9x8''"

text \<open>The decimal text of the sampling interval, \<open>strconv.FormatFloat\<close>, is an argument.\<close>

definition current_frame_hash_version :: "('a \<Rightarrow> go_string) \<Rightarrow> 'a \<Rightarrow> go_string" where
  "current_frame_hash_version format_float interval_secs =
     frame_hash_v2_prefix @ ''@'' @ format_float interval_secs @ ''s''"

definition normalize_frame_hash_version :: "go_string \<Rightarrow> go_string" where
  "normalize_frame_hash_version v = (if v = '''' then legacy_frame_hash_version else v)"

definition compatible_frame_hash_versions :: "go_string \<Rightarrow> go_string \<Rightarrow> bool" where
  "compatible_frame_hash_versions a b \<longleftrightarrow> normalize_frame_hash_version a = normalize_frame_hash_version b"

section \<open>Greyscale\<close>

record gray_image =
  gi_pix :: "8 word list"
  gi_w :: nat
  gi_h :: nat

datatype go_image =
  GrayImage "8 word list" nat nat nat
| ColourImage "(16 word \<times> 16 word \<times> 16 word) list" nat nat

definition luma :: "16 word \<times> 16 word \<times> 16 word \<Rightarrow> nat" where
  "luma = (\<lambda>(r, g, b). (299 * unat (drop_bit 8 r) + 587 * unat (drop_bit 8 g) + 114 * unat (drop_bit 8 b)) div 1000)"

text \<open>A grey image has its rows at multiples of a stride; only the first \<open>w\<close> bytes of a row are its pixels.\<close>

definition gray_rows :: "'a list \<Rightarrow> nat \<Rightarrow> nat \<Rightarrow> nat \<Rightarrow> 'a list" where
  "gray_rows pix stride w h = concat (map (\<lambda>y. take w (drop (y * stride) pix)) [0..<h])"

fun to_gray :: "go_image \<Rightarrow> gray_image" where
  "to_gray (GrayImage pix stride w h) = \<lparr> gi_pix = gray_rows pix stride w h, gi_w = w, gi_h = h \<rparr>"
| "to_gray (ColourImage pix w h) = \<lparr> gi_pix = map (\<lambda>c. word_of_nat (luma c)) pix, gi_w = w, gi_h = h \<rparr>"

section \<open>Equalisation\<close>

definition histogram :: "8 word list \<Rightarrow> nat list" where
  "histogram pix = foldl (\<lambda>h p. h[unat p := h ! unat p + 1]) (replicate 256 0) pix"

definition cumulative :: "nat list \<Rightarrow> nat list" where
  "cumulative hist = snd (foldl (\<lambda>(sum, cdf) c. (sum + c, cdf @ [sum + c])) (0, []) hist)"

definition lut_value :: "int \<Rightarrow> int \<Rightarrow> nat \<Rightarrow> 8 word" where
  "lut_value cdf_min denom c =
     (let v = (int c - cdf_min) * 255 in if v < 0 then 0 else word_of_int (v div denom))"

text \<open>A negative numerator gives at most 0 under Go's division too, and is replaced by 0.\<close>

definition equalize :: "gray_image \<Rightarrow> gray_image" where
  "equalize g =
     (let cdf = cumulative (histogram (gi_pix g));
          cdf_min = (case find (\<lambda>c. c \<noteq> 0) cdf of None \<Rightarrow> 0 | Some c \<Rightarrow> int c);
          denom = int (length (gi_pix g)) - cdf_min
      in if denom \<le> 0 then g
         else let lut = map (lut_value cdf_min denom) cdf
              in g\<lparr> gi_pix := map (\<lambda>p. lut ! unat p) (gi_pix g) \<rparr>)"

section \<open>Cells\<close>

definition cell_range :: "nat \<Rightarrow> nat \<Rightarrow> nat \<Rightarrow> nat list" where
  "cell_range i extent cells =
     (let lo = i * extent div cells; hi = (i + 1) * extent div cells;
          hi' = (if hi \<le> lo then lo + 1 else hi)
      in [lo..<min hi' extent])"

definition cell_average :: "gray_image \<Rightarrow> nat \<Rightarrow> nat \<Rightarrow> nat \<Rightarrow> nat \<Rightarrow> 8 word" where
  "cell_average g tw th ty tx =
     (let pixels = concat (map (\<lambda>yy. map (\<lambda>xx. gi_pix g ! (yy * gi_w g + xx)) (cell_range tx (gi_w g) tw))
                     (cell_range ty (gi_h g) th));
          n = (if length pixels = 0 then 1 else length pixels)
      in word_of_nat (sum_list (map unat pixels) div n))"

definition downscale :: "gray_image \<Rightarrow> nat \<Rightarrow> nat \<Rightarrow> 8 word list" where
  "downscale g tw th = concat (map (\<lambda>ty. map (cell_average g tw th ty) [0..<tw]) [0..<th])"

section \<open>The hash\<close>

definition dhash_w :: nat where "dhash_w = 9"
definition dhash_h :: nat where "dhash_h = 8"

definition hash_bit :: "8 word list \<Rightarrow> 64 word \<times> nat \<Rightarrow> nat \<times> nat \<Rightarrow> 64 word \<times> nat" where
  "hash_bit cells = (\<lambda>(hash, n) (row, col).
     (if cells ! (row * dhash_w + col) < cells ! (row * dhash_w + col + 1)
      then hash OR push_bit (63 - n) 1 else hash, n + 1))"

definition gray_hash :: "gray_image \<Rightarrow> 64 word" where
  "gray_hash g =
     (let cells = downscale (equalize g) dhash_w dhash_h
      in fst (foldl (hash_bit cells) (0, 0)
           (concat (map (\<lambda>row. map (Pair row) [0..<dhash_w - 1]) [0..<dhash_h]))))"

definition dhash :: "go_image \<Rightarrow> 64 word" where
  "dhash img = gray_hash (to_gray img)"

section \<open>Bounds\<close>

lemma drop_byte: "unat (drop_bit 8 (c :: 16 word)) < 256"
proof -
  have "unat c < 2 ^ 16" using unsigned_less [of c, where 'a = nat] by simp
  then show ?thesis by (simp add: drop_bit_eq_div unat_div_distrib)
qed

lemma luma_byte: "luma c < 256"
  using drop_byte [of "fst c"] drop_byte [of "fst (snd c)"] drop_byte [of "snd (snd c)"]
  by (auto simp: luma_def split: prod.split)

lemma sum_list_byte: "sum_list (map (unat :: 8 word \<Rightarrow> nat) pixels) \<le> 255 * length pixels"
proof (induction pixels)
  case (Cons p pixels)
  have "unat p < 256" using unsigned_less [of p, where 'a = nat] by simp
  then show ?case using Cons by simp
qed simp

lemma histogram_eq: "histogram pix = map (\<lambda>i. length (filter (\<lambda>p. unat p = i) pix)) [0..<256]"
proof (induction pix rule: rev_induct)
  case Nil
  show ?case by (simp add: histogram_def map_replicate_const)
next
  case (snoc p pix)
  have "unat p < 256" using unsigned_less [of p, where 'a = nat] by simp
  then show ?case
    using snoc by (intro nth_equalityI) (auto simp: histogram_def nth_list_update)
qed

lemma cumulative_fold:
  "foldl (\<lambda>(sum, cdf) c. (sum + c, cdf @ [sum + c])) (s, cdf0) hist =
     (s + sum_list hist, cdf0 @ map (\<lambda>i. s + sum_list (take (Suc i) hist)) [0..<length hist])"
proof (induction hist arbitrary: s cdf0)
  case (Cons c hist)
  then show ?case
    using Cons [of "s + c" "cdf0 @ [s + c]"] by (simp add: map_upt_Suc add.assoc del: upt_Suc)
qed simp

lemma cumulative_eq: "cumulative hist = map (\<lambda>i. sum_list (take (Suc i) hist)) [0..<length hist]"
  by (simp add: cumulative_def cumulative_fold)

text \<open>The table of the image counts the pixels up to a value.\<close>

definition darker :: "8 word list \<Rightarrow> nat \<Rightarrow> nat" where
  "darker pix i = length (filter (\<lambda>p. unat p \<le> i) pix)"

lemma counts_up_to:
  "k \<le> 256 \<Longrightarrow> sum_list (take k (map (\<lambda>i. length (filter (\<lambda>p. unat p = i) pix)) [0..<256])) =
     length (filter (\<lambda>p. unat (p :: 8 word) < k) pix)"
proof (induction k)
  case (Suc k)
  have "length (filter (\<lambda>p. unat p < Suc k) pix) =
      length (filter (\<lambda>p. unat p < k) pix) + length (filter (\<lambda>p. unat p = k) pix)"
    by (induction pix) auto
  then show ?case using Suc by (simp add: take_Suc_conv_app_nth)
qed simp

lemma table_eq: "cumulative (histogram pix) = map (darker pix) [0..<256]"
  unfolding cumulative_eq histogram_eq
  by (rule map_cong) (simp_all add: counts_up_to darker_def less_Suc_eq_le)


section \<open>What equalisation does\<close>

definition darkest_count :: "8 word list \<Rightarrow> int" where
  "darkest_count pix = (case find (\<lambda>c. c \<noteq> 0) (map (darker pix) [0..<256]) of None \<Rightarrow> 0 | Some c \<Rightarrow> int c)"

lemma darker_zero: "darker pix i = 0 \<longleftrightarrow> (\<forall>p\<in>set pix. i < unat p)"
  by (auto simp: darker_def filter_empty_conv not_le)

lemma darkest_count_least:
  assumes "p \<in> set pix" "\<And>q. q \<in> set pix \<Longrightarrow> p \<le> q"
  shows "darkest_count pix = int (darker pix (unat p))"
proof -
  have "unat p < 256" using unsigned_less [of p, where 'a = nat] by simp
  moreover have "darker pix (unat p) \<noteq> 0" using assms(1) by (auto simp: darker_zero)
  moreover have "darker pix j = 0" if "j < unat p" for j
  proof -
    have "j < unat q" if "q \<in> set pix" for q
      using assms(2) [OF that] \<open>j < unat p\<close> by (simp add: word_le_nat_alt)
    then show ?thesis by (simp add: darker_zero)
  qed
  ultimately have "find (\<lambda>c. c \<noteq> 0) (map (darker pix) [0..<256]) = Some (darker pix (unat p))"
    unfolding find_Some_iff by (intro exI [of _ "unat p"]) auto
  then show ?thesis by (simp add: darkest_count_def)
qed

lemma equalize_eq:
  "equalize g =
     (let denom = int (length (gi_pix g)) - darkest_count (gi_pix g)
      in if denom \<le> 0 then g
         else g\<lparr> gi_pix := map (\<lambda>p. lut_value (darkest_count (gi_pix g)) denom (darker (gi_pix g) (unat p))) (gi_pix g) \<rparr>)"
proof -
  have "unat p < 256" for p :: "8 word" using unsigned_less [of p, where 'a = nat] by simp
  then show ?thesis by (simp add: equalize_def Let_def table_eq darkest_count_def)
qed

lemma darker_map:
  assumes "strict_mono_on (set pix) f" "p \<in> set pix"
  shows "darker (map f pix) (unat (f p)) = darker pix (unat p)"
proof -
  have "f q \<le> f p \<longleftrightarrow> q \<le> p" if "q \<in> set pix" for q
    using assms that by (simp add: strict_mono_on_less_eq)
  then have "filter (\<lambda>q. unat (f q) \<le> unat (f p)) pix = filter (\<lambda>q. unat q \<le> unat p) pix"
    by (intro filter_cong) (simp_all add: word_le_nat_alt [symmetric])
  then show ?thesis by (simp add: darker_def filter_map comp_def)
qed

lemma darkest_count_map:
  assumes "strict_mono_on (set pix) f"
  shows "darkest_count (map f pix) = darkest_count pix"
proof (cases "pix = []")
  case False
  define p where "p = Min (set pix)"
  have p: "p \<in> set pix" "\<And>q. q \<in> set pix \<Longrightarrow> p \<le> q" using False by (auto simp: p_def)
  then have "f p \<le> f q" if "q \<in> set pix" for q using assms that by (simp add: strict_mono_on_less_eq)
  then show ?thesis
    using darkest_count_least [OF p] darkest_count_least [of "f p" "map f pix"] p(1) darker_map [OF assms p(1)]
    by auto
qed simp

section \<open>Cells and bits\<close>

lemma nth_grid:
  assumes "ty < th" "tx < tw"
  shows "concat (map (\<lambda>ty. map (f ty) [0..<tw]) [0..<th]) ! (ty * tw + tx) = f ty tx"
  using assms
proof (induction th)
  case (Suc th)
  let ?rows = "concat (map (\<lambda>ty. map (f ty) [0..<tw]) [0..<th])"
  have len: "length ?rows = th * tw" by (simp add: length_concat comp_def sum_list_triv)
  show ?case
  proof (cases "ty = th")
    case True
    then show ?thesis using Suc.prems len by (simp add: nth_append)
  next
    case False
    then have "ty < th" using Suc.prems by simp
    moreover from this have "ty * tw + tx < th * tw"
      using Suc.prems(2) by (metis add.commute less_le_trans mult_Suc mult_le_mono1 nat_add_left_cancel_less Suc_leI)
    ultimately show ?thesis using Suc.IH Suc.prems len by (simp add: nth_append)
  qed
qed simp

lemma hash_bits_fold:
  assumes "length xs \<le> 64"
  shows "snd (foldl (hash_bit cells) (0, 0) xs) = length xs \<and>
    (\<forall>i<64. bit (fst (foldl (hash_bit cells) (0, 0) xs)) i \<longleftrightarrow>
       63 - i < length xs \<and> (case xs ! (63 - i) of (row, col) \<Rightarrow>
         cells ! (row * dhash_w + col) < cells ! (row * dhash_w + col + 1)))"
  using assms
proof (induction xs rule: rev_induct)
  case (snoc x xs)
  let ?h = "foldl (hash_bit cells) (0, 0) xs"
  obtain hash n where h: "?h = (hash, n)" by (cases ?h)
  obtain row col where x: "x = (row, col)" by (cases x)
  have n: "n = length xs" "n < 64" using snoc h by auto
  have old: "bit hash i \<longleftrightarrow> 63 - i < length xs \<and> (case xs ! (63 - i) of (row, col) \<Rightarrow>
      cells ! (row * dhash_w + col) < cells ! (row * dhash_w + col + 1))" if "i < 64" for i
    using snoc h that by auto
  have new: "bit (push_bit (63 - n) (1 :: 64 word)) i \<longleftrightarrow> i = 63 - n" if "i < 64" for i
    using that n by (auto simp: bit_exp_iff)
  have at: "63 - i < length (xs @ [x]) \<longleftrightarrow> 63 - i < length xs \<or> i = 63 - n" "63 - i < length xs \<Longrightarrow> i \<noteq> 63 - n"
    "i = 63 - n \<Longrightarrow> 63 - i = length xs" if "i < 64" for i
    using that n by auto
  show ?case
    using h x n old new at by (auto simp: hash_bit_def nth_append bit_or_iff split: if_splits)
qed simp

definition grid_positions :: "(nat \<times> nat) list" where
  "grid_positions = concat (map (\<lambda>row. map (Pair row) [0..<dhash_w - 1]) [0..<dhash_h])"

lemma grid_positions_nth: "row < 8 \<Longrightarrow> col < 8 \<Longrightarrow> grid_positions ! (8 * row + col) = (row, col)"
  using nth_grid [of row 8 col 8 Pair] by (simp add: grid_positions_def dhash_w_def dhash_h_def mult.commute)

lemma grid_positions_length: "length grid_positions = 64"
  by (simp add: grid_positions_def length_concat comp_def dhash_w_def dhash_h_def sum_list_triv)

lemma gray_hash_fold:
  "gray_hash g = fst (foldl (hash_bit (downscale (equalize g) dhash_w dhash_h)) (0, 0) grid_positions)"
  by (simp only: gray_hash_def Let_def grid_positions_def)

lemma gray_hash_bit:
  assumes "row < 8" "col < 8"
  shows "bit (gray_hash g) (63 - (8 * row + col)) \<longleftrightarrow>
    cell_average (equalize g) 9 8 row col < cell_average (equalize g) 9 8 row (col + 1)"
proof -
  let ?cells = "downscale (equalize g) dhash_w dhash_h"
  have at: "63 - (63 - (8 * row + col)) = 8 * row + col" "8 * row + col < 64" using assms by auto
  have "?cells ! (row * 9 + c) = cell_average (equalize g) 9 8 row c" if "c < 9" for c
    using nth_grid [of row 8 c 9] that assms by (simp add: downscale_def dhash_w_def dhash_h_def)
  from this [of col] this [of "col + 1"] show ?thesis
    using hash_bits_fold [of grid_positions ?cells] grid_positions_nth [OF assms] assms at
    by (simp add: gray_hash_fold grid_positions_length dhash_w_def)
qed

text \<open>the frame hash is the grid of horizontal comparisons: the bit of row \<open>r\<close> and column \<open>c\<close>,
  counted from the most significant one, is set exactly when that cell of the equalised frame is
  darker than its right neighbour.\<close>

theorem dhash_compares_neighbours:
  "{(row, col). row < 8 \<and> col < 8 \<and> bit (dhash img) (63 - (8 * row + col))} =
   {(row, col). row < 8 \<and> col < 8 \<and>
      cell_average (equalize (to_gray img)) 9 8 row col < cell_average (equalize (to_gray img)) 9 8 row (col + 1)}"
  by (auto simp: dhash_def gray_hash_bit)

lemma gray_hash_eqI:
  assumes "\<And>row col. row < 8 \<Longrightarrow> col < 8 \<Longrightarrow>
    (cell_average (equalize g) 9 8 row col < cell_average (equalize g) 9 8 row (col + 1)) =
    (cell_average (equalize h) 9 8 row col < cell_average (equalize h) 9 8 row (col + 1))"
  shows "gray_hash g = gray_hash h"
proof (rule bit_word_eqI)
  fix n assume "n < LENGTH(64)"
  then have n: "n < 64" by simp
  define row col where "row = (63 - n) div 8" and "col = (63 - n) mod 8"
  have "row < 8" "col < 8" "63 - (8 * row + col) = n" using n by (auto simp: row_def col_def)
  then show "bit (gray_hash g) n = bit (gray_hash h) n"
    using gray_hash_bit [of row col] assms [of row col] by metis
qed

section \<open>Flat frames\<close>

lemma cell_range_bound: "x \<in> set (cell_range i extent cells) \<Longrightarrow> x < extent"
  by (simp add: cell_range_def Let_def)

lemma cell_range_nonempty:
  assumes "i < cells" "0 < extent"
  shows "cell_range i extent cells \<noteq> []"
proof -
  have "i * extent div cells < extent"
    using assms by (metis div_less_iff_less_mult gr_implies_not0 linorder_neqE_nat mult.commute mult_less_mono1)
  then show ?thesis by (auto simp: cell_range_def Let_def)
qed

lemma flat_cell:
  assumes "\<forall>p\<in>set (gi_pix g). p = v" "length (gi_pix g) = gi_w g * gi_h g" "ty < th" "tx < tw"
  shows "cell_average g tw th ty tx = (if gi_pix g = [] then 0 else v)"
proof -
  let ?xs = "cell_range tx (gi_w g) tw" and ?ys = "cell_range ty (gi_h g) th"
  let ?pixels = "concat (map (\<lambda>yy. map (\<lambda>xx. gi_pix g ! (yy * gi_w g + xx)) ?xs) ?ys)"
  have inside: "yy * gi_w g + xx < length (gi_pix g)" if "yy \<in> set ?ys" "xx \<in> set ?xs" for yy xx
  proof -
    have "yy < gi_h g" "xx < gi_w g" using that cell_range_bound by blast+
    then have "yy * gi_w g + xx < Suc yy * gi_w g" by simp
    also have "\<dots> \<le> gi_h g * gi_w g" using \<open>yy < gi_h g\<close> by (intro mult_le_mono1) simp
    finally show ?thesis using assms(2) by (simp add: mult.commute)
  qed
  then have all: "\<forall>p\<in>set ?pixels. p = v" using assms(1) nth_mem by fastforce
  have sum: "sum_list (map unat ps) = length ps * unat v" if "\<forall>p\<in>set ps. p = v" for ps :: "8 word list"
    using that by (induction ps) auto
  show ?thesis
  proof (cases "gi_pix g = []")
    case True
    then have "?xs = []" if "yy \<in> set ?ys" for yy using inside [OF that] by (cases ?xs) auto
    then have "?pixels = []" by auto
    then show ?thesis using True unfolding cell_average_def Let_def by (simp only: list.size list.map sum_list.Nil) simp
  next
    case False
    then have "0 < gi_w g * gi_h g" using assms(2) by (metis length_greater_0_conv)
    then have "0 < gi_w g" "0 < gi_h g" by simp_all
    then have "?pixels \<noteq> []" using cell_range_nonempty [OF assms(3)] cell_range_nonempty [OF assms(4)] by auto
    then show ?thesis using False sum [OF all] by (simp add: cell_average_def Let_def)
  qed
qed

lemma flat_hash:
  assumes "\<forall>p\<in>set (gi_pix g). p = v" "length (gi_pix g) = gi_w g * gi_h g" "equalize g = g"
  shows "gray_hash g = 0"
proof (rule bit_word_eqI)
  fix n assume "n < LENGTH(64)"
  then have n: "n < 64" by simp
  define row col where "row = (63 - n) div 8" and "col = (63 - n) mod 8"
  have "row < 8" "col < 8" "63 - (8 * row + col) = n" using n by (auto simp: row_def col_def)
  then show "bit (gray_hash g) n = bit (0 :: 64 word) n"
    using gray_hash_bit [of row col g] flat_cell [OF assms(1,2), of row 8 _ 9] assms(3) by simp
qed

section \<open>Contrast\<close>

lemma flat_iff:
  assumes "int (length pix) - darkest_count pix \<le> 0"
  shows "\<exists>v. \<forall>p\<in>set pix. p = v"
proof (cases "pix = []")
  case False
  define v where "v = Min (set pix)"
  have v: "v \<in> set pix" "\<And>q. q \<in> set pix \<Longrightarrow> v \<le> q" using False by (auto simp: v_def)
  then have "length pix \<le> length (filter (\<lambda>p. unat p \<le> unat v) pix)"
    using assms darkest_count_least [OF v] by (simp add: darker_def)
  then have "filter (\<lambda>p. unat p \<le> unat v) pix = pix"
    by (metis filter_id_conv le_antisym length_filter_le length_filter_less linorder_not_le)
  then have "\<forall>p\<in>set pix. p \<le> v" by (simp add: filter_id_conv word_le_nat_alt)
  then show ?thesis using v(2) by (metis order_antisym)
qed simp

lemma gray_hash_map:
  assumes "strict_mono_on (set pix) f" "length pix = w * h"
  shows "gray_hash \<lparr> gi_pix = map f pix, gi_w = w, gi_h = h \<rparr> = gray_hash \<lparr> gi_pix = pix, gi_w = w, gi_h = h \<rparr>"
  (is "gray_hash ?f = gray_hash ?g")
proof -
  have count: "darkest_count (map f pix) = darkest_count pix" by (rule darkest_count_map [OF assms(1)])
  show ?thesis
  proof (cases "int (length pix) - darkest_count pix \<le> 0")
    case True
    then obtain v where "\<forall>p\<in>set pix. p = v" using flat_iff by blast
    moreover from this have "\<forall>p\<in>set (map f pix). p = f v" by auto
    moreover have "equalize ?g = ?g" "equalize ?f = ?f" using True count by (simp_all add: equalize_eq)
    ultimately show ?thesis using flat_hash [of ?g v] flat_hash [of ?f "f v"] assms(2) by simp
  next
    case False
    then have "equalize ?f = equalize ?g"
      using count darker_map [OF assms(1)] by (simp add: equalize_eq comp_def cong: map_cong)
    then show ?thesis by (simp add: gray_hash_def)
  qed
qed

lemma gray_rows_map: "gray_rows (map f pix) stride w h = map f (gray_rows pix stride w h)"
  by (simp add: gray_rows_def map_concat comp_def take_map drop_map)

lemma gray_rows_subset: "set (gray_rows pix stride w h) \<subseteq> set pix"
  by (auto simp: gray_rows_def dest: in_set_takeD in_set_dropD)

lemma gray_rows_length:
  "\<forall>y<h. y * stride + w \<le> length pix \<Longrightarrow> length (gray_rows pix stride w h) = w * h"
proof (induction h)
  case (Suc h)
  then have "h * stride + w \<le> length pix" "length (gray_rows pix stride w h) = w * h" by auto
  then show ?case by (simp add: gray_rows_def)
qed (simp add: gray_rows_def)

text \<open>the hash does not see brightness and contrast: replacing every pixel value by a strictly
  increasing function of it, which is what a different encode does to the same footage, leaves the
  frame hash as it was, flat frames included.\<close>

theorem dhash_ignores_contrast:
  assumes "strict_mono_on (set pix) f" "\<forall>y<h. y * stride + w \<le> length pix"
  shows "dhash (GrayImage (map f pix) stride w h) = dhash (GrayImage pix stride w h)"
proof -
  have "strict_mono_on (set (gray_rows pix stride w h)) f"
    using assms(1) gray_rows_subset by (rule monotone_on_subset)
  then show ?thesis
    using gray_hash_map gray_rows_length [OF assms(2)] by (simp add: dhash_def gray_rows_map)
qed

theorem dhash_ignores_contrast_witness:
  "dhash (GrayImage (map (\<lambda>p. 2 * p + 10) [10, 100, 20, 5]) 2 2 2) = dhash (GrayImage [10, 100, 20, 5] 2 2 2)"
proof (rule dhash_ignores_contrast)
  show "strict_mono_on (set [10, 100, 20, 5 :: 8 word]) (\<lambda>p. 2 * p + 10)"
    by (auto simp: strict_mono_on_def)
  show "\<forall>y<2. y * 2 + 2 \<le> length [10, 100, 20, 5 :: 8 word]"
    by auto
qed

text \<open>no conversion of the hash loses bits: the weighted luma of 16-bit channels fits a byte, and so
  does the average of any cell, which therefore is the average and not its remainder.\<close>

theorem pixel_values_fit_a_byte:
  "luma c < 256 \<and> unat (word_of_nat (luma c) :: 8 word) = luma c \<and>
   sum_list (map unat (pixels :: 8 word list)) div (if length pixels = 0 then 1 else length pixels) < 256"
proof -
  have "sum_list (map unat pixels) div (if length pixels = 0 then 1 else length pixels) \<le> 255"
    using sum_list_byte [of pixels] by (auto intro: div_le_mono [of _ "255 * length pixels", THEN order_trans])
  then show ?thesis using luma_byte [of c] by (simp add: unat_of_nat take_bit_nat_eq_self)
qed

end
