(* ===== verification/Clip.thy ===== *)
theory Clip
  imports Prelude Complex_Main FrameHash "HOL-Library.Product_Lexorder" "HOL-Library.List_Lexorder" "HOL-Library.Char_ord"
begin

text \<open>
  Clips and their public links: \<open>internal/domain/video/video.go\<close> (assets, shares and their
  invariants), \<open>rank.go\<close> (the public order), \<open>quality.go\<close> (which of two clips to keep) and
  \<open>filter.go\<close>/\<open>prefilter.go\<close> (the metadata gates before hashing). A \<open>float64\<close> is a rational number
  and each float operation is the exact one rounded to 53 significant bits, to even; overflow,
  subnormals and NaN do not occur for the sizes, rates and durations of a clip.
\<close>

section \<open>Floating point\<close>

fun nat_log2 :: "nat \<Rightarrow> nat" where
  "nat_log2 n = (if n < 2 then 0 else Suc (nat_log2 (n div 2)))"

declare nat_log2.simps [simp del]

definition two_power :: "int \<Rightarrow> rat" where
  "two_power e = (if 0 \<le> e then 2 ^ nat e else 1 / 2 ^ nat (- e))"

definition binary_exponent :: "rat \<Rightarrow> int" where
  "binary_exponent x =
     (let (n, d) = quotient_of x; e = int (nat_log2 (nat n)) - int (nat_log2 (nat d))
      in if two_power e \<le> x then e else e - 1)"

definition round_half_even :: "rat \<Rightarrow> int" where
  "round_half_even z =
     (let f = floor z; r = z - of_int f
      in if r < 1 / 2 then f else if 1 / 2 < r then f + 1 else if even f then f else f + 1)"

definition round_magnitude :: "nat \<Rightarrow> rat \<Rightarrow> rat" where
  "round_magnitude bits x =
     (let ulp = two_power (binary_exponent x + 1 - int bits)
      in ulp * of_int (round_half_even (x / ulp)))"

definition round_float :: "nat \<Rightarrow> rat \<Rightarrow> rat" where
  "round_float bits x =
     (if x = 0 then 0 else if x < 0 then - round_magnitude bits (- x) else round_magnitude bits x)"

abbreviation float64 :: "rat \<Rightarrow> rat" where
  "float64 \<equiv> round_float 53"

section \<open>Assets\<close>

record video_asset =
  va_id :: uuid
  va_event_id :: uuid
  va_fixture_id :: int
  va_bucket :: go_string
  va_key :: go_string
  va_reclaimed_at :: "instant option"
  va_md5 :: "8 word list"
  va_media_fingerprint :: go_string
  va_hash_version :: go_string
  va_hashes :: "64 word list"
  va_width :: int
  va_height :: int
  va_duration_ms :: int
  va_file_size :: int
  va_bitrate :: "int option"
  va_frame_rate :: "rat option"
  va_aspect_ratio :: rat
  va_popularity :: int
  va_superseded_by :: "uuid option"
  va_first_seen_at :: instant

definition compute_aspect :: "int \<Rightarrow> int \<Rightarrow> rat" where
  "compute_aspect width height =
     (if height = 0 then 0
      else round_float 24 (round_float 24 (of_int width) / round_float 24 (of_int height)))"

text \<open>The fresh identity is an argument.\<close>

definition new_asset ::
  "uuid \<Rightarrow> uuid \<Rightarrow> int \<Rightarrow> go_string \<Rightarrow> go_string \<Rightarrow> 8 word list \<Rightarrow> go_string \<Rightarrow> 64 word list \<Rightarrow> int \<Rightarrow> int \<Rightarrow> int \<Rightarrow>
   int \<Rightarrow> instant \<Rightarrow> video_asset" where
  "new_asset fresh eid fid bucket key md5 version hashes width height duration size_bytes seen =
     \<lparr> va_id = fresh, va_event_id = eid, va_fixture_id = fid, va_bucket = bucket, va_key = key,
       va_reclaimed_at = None, va_md5 = md5, va_media_fingerprint = '''',
       va_hash_version = normalize_frame_hash_version version, va_hashes = hashes, va_width = width,
       va_height = height, va_duration_ms = duration, va_file_size = size_bytes, va_bitrate = None,
       va_frame_rate = None, va_aspect_ratio = compute_aspect width height, va_popularity = 1,
       va_superseded_by = None, va_first_seen_at = seen \<rparr>"

definition bump_popularity :: "video_asset \<Rightarrow> video_asset" where
  "bump_popularity a = a\<lparr> va_popularity := va_popularity a + 1 \<rparr>"

definition superseded_by_set :: "uuid \<Rightarrow> video_asset \<Rightarrow> video_asset" where
  "superseded_by_set successor a = a\<lparr> va_superseded_by := Some successor \<rparr>"

definition hex_digit :: "char \<Rightarrow> bool" where
  "hex_digit c \<longleftrightarrow> c \<in> set ''0123456789abcdefABCDEF''"

text \<open>\<open>hex.DecodeString\<close>: whether it succeeds; the bytes are half the characters.\<close>

definition hex_decodes :: "go_string \<Rightarrow> bool" where
  "hex_decodes s \<longleftrightarrow> even (length s) \<and> list_all hex_digit s"

definition media_fingerprint_version :: go_string where
  "media_fingerprint_version = ''media-v1''"

definition media_fingerprint_unknown_duration_version :: go_string where
  "media_fingerprint_unknown_duration_version = ''media-v2''"

text \<open>\<open>strings.Cut\<close> at the first colon.\<close>

definition cut_colon :: "go_string \<Rightarrow> go_string \<times> go_string \<times> bool" where
  "cut_colon s =
     (let version = takeWhile (\<lambda>c. c \<noteq> CHR '':'') s; rest = dropWhile (\<lambda>c. c \<noteq> CHR '':'') s
      in (version, drop 1 rest, rest \<noteq> []))"

definition fingerprint_valid :: "go_string \<Rightarrow> bool" where
  "fingerprint_valid s \<longleftrightarrow> (case cut_colon s of (version, digest, ok) \<Rightarrow>
     ok \<and> (version = media_fingerprint_version \<or> version = media_fingerprint_unknown_duration_version) \<and>
     length digest = 64 \<and> hex_decodes digest)"

definition validate_asset :: "video_asset \<Rightarrow> unit result" where
  "validate_asset a =
     (if va_id a = 0 \<or> va_event_id a = 0 \<or> va_fixture_id a \<le> 0
      then Err ''incomplete asset, event, or fixture identity''
      else if va_bucket a = '''' \<or> va_key a = '''' then Err ''storage location is empty''
      else if length (va_md5 a) \<noteq> 16 then Err ''md5 must be 16 bytes''
      else if va_media_fingerprint a \<noteq> '''' \<and> \<not> fingerprint_valid (va_media_fingerprint a)
      then Err ''invalid media fingerprint''
      else if normalize_frame_hash_version (va_hash_version a) = '''' \<or> va_hashes a = []
      then Err ''frame-hash contract is empty''
      else if va_width a \<le> 0 \<or> va_height a \<le> 0 \<or> va_duration_ms a \<le> 0 \<or> va_file_size a \<le> 0
      then Err ''non-positive media shape''
      else if (case va_bitrate a of None \<Rightarrow> False | Some r \<Rightarrow> r \<le> 0) then Err ''bitrate must be positive moment present''
      else if (case va_frame_rate a of None \<Rightarrow> False | Some r \<Rightarrow> r \<le> 0)
      then Err ''frame rate must be positive moment present''
      else if va_popularity a < 1 then Err ''popularity must be >= 1''
      else if va_superseded_by a = Some (va_id a) then Err ''asset cannot supersede itself''
      else if (case va_reclaimed_at a of None \<Rightarrow> False | Some t \<Rightarrow> t < va_first_seen_at a)
      then Err ''object reclaimed before first observation''
      else Ok ())"

section \<open>Shares\<close>

datatype share_state = ShareActive | ShareRemoved | ShareSuperseded | ShareStateOther go_string

fun share_state_valid :: "share_state \<Rightarrow> bool" where
  "share_state_valid (ShareStateOther _) = False"
| "share_state_valid _ = True"

datatype clip_removal = ClipVar | ClipPolicy | ClipAssetGone | ClipRemovalOther go_string

fun clip_removal_valid :: "clip_removal \<Rightarrow> bool" where
  "clip_removal_valid (ClipRemovalOther _) = False"
| "clip_removal_valid _ = True"

record video_share =
  vs_id :: go_string
  vs_asset_id :: uuid
  vs_event_id :: uuid
  vs_timestamp_verified :: bool
  vs_extracted_minute :: "int option"
  vs_state :: share_state
  vs_removed_reason :: "clip_removal option"
  vs_removed_at :: "instant option"
  vs_rank :: int
  vs_created_at :: instant

text \<open>The random identity, or the failure to get one, is an argument.\<close>

definition new_share ::
  "go_string option \<Rightarrow> uuid \<Rightarrow> uuid \<Rightarrow> bool \<Rightarrow> int option \<Rightarrow> int \<Rightarrow> instant \<Rightarrow> video_share result" where
  "new_share fresh asset_id event_id verified minute rank created =
     (case fresh of
        None \<Rightarrow> Err ''video.NewShare: generate id''
      | Some share_id \<Rightarrow>
          if rank < 1 then Err ''video.NewShare: rank must be >= 1''
          else Ok \<lparr> vs_id = share_id, vs_asset_id = asset_id, vs_event_id = event_id,
            vs_timestamp_verified = verified, vs_extracted_minute = minute, vs_state = ShareActive,
            vs_removed_reason = None, vs_removed_at = None, vs_rank = rank, vs_created_at = created \<rparr>)"

definition remove_share :: "clip_removal \<Rightarrow> instant \<Rightarrow> video_share \<Rightarrow> video_share result" where
  "remove_share why moment s =
     (if \<not> clip_removal_valid why then Err ''video: unknown removal reason''
      else if vs_state s = ShareRemoved
      then if vs_removed_reason s = Some why then Ok s else Err ''video: share already removed''
      else Ok (s\<lparr> vs_state := ShareRemoved, vs_removed_reason := Some why, vs_removed_at := Some moment \<rparr>))"

definition validate_share :: "video_share \<Rightarrow> unit result" where
  "validate_share s =
     (if vs_rank s < 1 then Err ''rank must be >= 1''
      else case vs_state s of
        ShareStateOther _ \<Rightarrow> Err ''invalid State''
      | ShareRemoved \<Rightarrow>
          if vs_removed_reason s = None \<or> vs_removed_at s = None
          then Err ''removed requires RemovedReason + RemovedAt'' else Ok ()
      | _ \<Rightarrow> if vs_removed_reason s \<noteq> None \<or> vs_removed_at s \<noteq> None
             then Err ''live/superseded with RemovedReason/At set'' else Ok ())"

section \<open>Public order\<close>

definition compare_shares :: "video_share \<Rightarrow> video_share \<Rightarrow> video_asset \<Rightarrow> video_asset \<Rightarrow> int" where
  "compare_shares a b a_asset b_asset =
     (if vs_timestamp_verified a \<noteq> vs_timestamp_verified b then if vs_timestamp_verified a then -1 else 1
      else if va_popularity a_asset \<noteq> va_popularity b_asset
      then if va_popularity a_asset > va_popularity b_asset then -1 else 1
      else if va_file_size a_asset \<noteq> va_file_size b_asset
      then if va_file_size a_asset > va_file_size b_asset then -1 else 1
      else if vs_created_at a < vs_created_at b then -1
      else if vs_created_at a > vs_created_at b then 1
      else if vs_id a < vs_id b then -1
      else if vs_id a > vs_id b then 1
      else 0)"

section \<open>Quality\<close>

record clip_quality =
  cq_duration_ms :: int
  cq_bitrate :: "int option"
  cq_width :: int
  cq_height :: int

definition duration_cap_ms :: int where "duration_cap_ms = 60000"
definition duration_band :: rat where "duration_band = float64 (15 / 100)"
definition density_margin :: rat where "density_margin = float64 (110 / 100)"

definition spatial_bitrate_density :: "clip_quality \<Rightarrow> rat" where
  "spatial_bitrate_density q =
     (case cq_bitrate q of
        None \<Rightarrow> 0
      | Some rate \<Rightarrow>
          if rate \<le> 0 \<or> cq_width q \<le> 0 \<or> cq_height q \<le> 0 then 0
          else float64 (float64 (of_int rate) / float64 (of_int (cq_width q * cq_height q))))"

definition pixels :: "clip_quality \<Rightarrow> int" where
  "pixels q = cq_width q * cq_height q"

definition capped_duration_ms :: "clip_quality \<Rightarrow> int" where
  "capped_duration_ms q = (if cq_duration_ms q > duration_cap_ms then duration_cap_ms else cq_duration_ms q)"

definition is_upgrade :: "clip_quality \<Rightarrow> clip_quality \<Rightarrow> bool" where
  "is_upgrade challenger incumbent =
     (let cd = float64 (of_int (capped_duration_ms challenger));
          idur = float64 (of_int (capped_duration_ms incumbent));
          hi = max cd idur
      in if 0 < hi \<and> duration_band < float64 (\<bar>float64 (cd - idur)\<bar> / hi) then idur < cd
         else
           let c_density = spatial_bitrate_density challenger; i_density = spatial_bitrate_density incumbent
           in if 0 < c_density \<and> 0 < i_density \<and> float64 (i_density * density_margin) \<le> c_density then True
              else if 0 < c_density \<and> 0 < i_density \<and> float64 (c_density * density_margin) \<le> i_density then False
              else pixels incumbent < pixels challenger)"

section \<open>Filters\<close>

record filter_thresholds =
  ft_min_duration :: rat
  ft_max_duration :: rat
  ft_min_aspect :: rat
  ft_max_aspect :: rat
  ft_min_short_edge :: int
  ft_min_frame_rate :: rat

text \<open>A rejection is its slug with the number Go formats into it.\<close>

datatype filter_reason = InvalidDimensions | DurationTooShort rat | DurationTooLong rat
  | AspectTooNarrow rat | AspectTooWide rat | FramerateTooLow rat | ShortEdgeTooSmall int

definition aspect_of :: "int \<Rightarrow> int \<Rightarrow> rat" where
  "aspect_of width height = float64 (float64 (of_int width) / float64 (of_int height))"

definition hard_filter :: "int \<Rightarrow> int \<Rightarrow> rat \<Rightarrow> rat \<Rightarrow> filter_thresholds \<Rightarrow> filter_reason option" where
  "hard_filter width height duration frame_rate t =
     (let aspect = aspect_of width height; short_edge = (if width < height then width else height)
      in if width \<le> 0 \<or> height \<le> 0 then Some InvalidDimensions
         else if duration < ft_min_duration t then Some (DurationTooShort duration)
         else if ft_max_duration t < duration then Some (DurationTooLong duration)
         else if aspect < ft_min_aspect t then Some (AspectTooNarrow aspect)
         else if ft_max_aspect t < aspect then Some (AspectTooWide aspect)
         else if frame_rate < ft_min_frame_rate t then Some (FramerateTooLow frame_rate)
         else if short_edge < ft_min_short_edge t then Some (ShortEdgeTooSmall short_edge)
         else None)"

definition pre_filter :: "int \<Rightarrow> int \<Rightarrow> rat \<Rightarrow> filter_thresholds \<Rightarrow> filter_reason option" where
  "pre_filter width height duration t =
     (let aspect = aspect_of width height
      in if width \<le> 0 \<or> height \<le> 0 then None
         else if 0 < duration \<and> duration < ft_min_duration t then Some (DurationTooShort duration)
         else if 0 < duration \<and> ft_max_duration t < duration then Some (DurationTooLong duration)
         else if aspect < ft_min_aspect t then Some (AspectTooNarrow aspect)
         else if ft_max_aspect t < aspect then Some (AspectTooWide aspect)
         else None)"

section \<open>Rounding\<close>

lemma nat_log2_bounds: "0 < n \<Longrightarrow> 2 ^ nat_log2 n \<le> n \<and> n < 2 ^ Suc (nat_log2 n)"
proof (induction n rule: nat_log2.induct)
  case (1 n)
  show ?case
  proof (cases "n < 2")
    case True
    then show ?thesis using 1 by (simp add: nat_log2.simps [of n])
  next
    case False
    then have "2 ^ nat_log2 (n div 2) \<le> n div 2 \<and> n div 2 < 2 ^ Suc (nat_log2 (n div 2))"
      using 1 by simp
    then show ?thesis using False by (simp add: nat_log2.simps [of n]) linarith
  qed
qed

lemma two_power_pos: "0 < two_power e"
  by (simp add: two_power_def)

lemma two_power_powi: "two_power e = 2 powi e"
  by (simp add: two_power_def power_int_def inverse_eq_divide power_one_over)

lemma binary_exponent_le:
  assumes "0 < x"
  shows "two_power (binary_exponent x) \<le> x"
proof -
  obtain n d where q: "quotient_of x = (n, d)" by (cases "quotient_of x")
  then have d: "0 < d" and x: "x = of_int n / of_int d"
    using quotient_of_denom_pos quotient_of_div by auto
  then have n: "0 < n" using assms by (simp add: zero_less_divide_iff)
  define k l where "k = nat_log2 (nat n)" and "l = nat_log2 (nat d)"
  have kn: "2 ^ k \<le> nat n" and ld: "nat d < 2 ^ Suc l"
    using nat_log2_bounds [of "nat n"] nat_log2_bounds [of "nat d"] n d by (simp_all only: k_def l_def zero_less_nat_eq)
  have "of_nat (2 ^ k) \<le> (of_nat (nat n) :: rat)" "of_nat (nat d) \<le> (of_nat (2 ^ Suc l) :: rat)"
    using kn less_imp_le [OF ld] of_nat_le_iff by blast+
  then have "(2 :: rat) ^ k \<le> of_int n" "of_int d \<le> (2 :: rat) ^ Suc l" using n d by simp_all
  then have "(2 :: rat) ^ k / 2 ^ Suc l \<le> x" unfolding x using d n by (intro frac_le) auto
  moreover have "two_power (int k - int l - 1) = (2 :: rat) ^ k / 2 ^ Suc l"
    by (simp add: two_power_powi power_int_diff power_int_add)
  ultimately show ?thesis
    using q by (auto simp: binary_exponent_def Let_def k_def l_def)
qed

lemma round_half_even_near: "\<bar>of_int (round_half_even z) - z\<bar> \<le> 1 / 2"
proof -
  define f where "f = floor z"
  have "of_int f \<le> z" "z < of_int f + 1" unfolding f_def by (rule of_int_floor_le, linarith)
  then show ?thesis by (auto simp: round_half_even_def Let_def f_def [symmetric] abs_le_iff)
qed

lemma float64_near:
  assumes "0 < x"
  shows "\<bar>float64 x - x\<bar> \<le> x / 1000000"
proof -
  define ulp where "ulp = two_power (binary_exponent x - 52)"
  have pos: "0 < ulp" by (simp add: ulp_def two_power_pos)
  have "two_power (binary_exponent x) = ulp * 2 ^ 52"
    by (simp add: ulp_def two_power_powi power_int_diff)
  then have small: "ulp * 2 ^ 52 \<le> x" using binary_exponent_le [OF assms] by simp
  have "float64 x - x = ulp * (of_int (round_half_even (x / ulp)) - x / ulp)"
    using assms pos by (simp add: algebra_simps round_float_def round_magnitude_def Let_def ulp_def [symmetric] right_diff_distrib)
  then have "\<bar>float64 x - x\<bar> = ulp * \<bar>of_int (round_half_even (x / ulp)) - x / ulp\<bar>"
    using pos by (simp add: abs_mult)
  also have "\<dots> \<le> ulp * (1 / 2)" using pos round_half_even_near by (intro mult_left_mono) auto
  also have "\<dots> \<le> x / 1000000" using small assms by simp
  finally show ?thesis .
qed

lemma float64_lower: "0 < x \<Longrightarrow> x - x / 1000000 \<le> float64 x"
  using float64_near [of x] unfolding abs_le_iff by linarith

lemma float64_upper: "0 < x \<Longrightarrow> float64 x \<le> x + x / 1000000"
  using float64_near [of x] unfolding abs_le_iff by linarith

lemma round_half_even_int: "round_half_even (of_int n) = n"
  by (simp add: round_half_even_def)

lemma float64_int:
  assumes "0 < n" "n < 2 ^ 52"
  shows "float64 (of_int n) = of_int n"
proof -
  define e where "e = binary_exponent (of_int n)"
  have "two_power e \<le> of_int n" using binary_exponent_le [of "of_int n"] assms(1) by (simp add: e_def)
  moreover have "(of_int n :: rat) < 2 ^ 52" using assms(2) by (metis of_int_less_iff of_int_numeral of_int_power)
  ultimately have "two_power e < 2 ^ 52" by (rule le_less_trans)
  then have small: "two_power e < 2 ^ 52" .
  have "e \<le> 52"
  proof (rule ccontr)
    assume "\<not> e \<le> 52"
    then have "two_power e = 2 ^ nat e" "52 \<le> nat e" by (simp_all add: two_power_def)
    then have "2 ^ 52 \<le> two_power e" by (metis one_le_numeral power_increasing)
    then show False using small by linarith
  qed
  then have ulp: "two_power (e - 52) = 1 / 2 ^ nat (52 - e)" by (simp add: two_power_def)
  have "round_half_even (of_int n * 2 ^ nat (52 - e)) = n * 2 ^ nat (52 - e)"
    using round_half_even_int [of "n * 2 ^ nat (52 - e)"] by simp
  then show ?thesis
    using assms(1) by (simp add: round_float_def round_magnitude_def Let_def e_def [symmetric] ulp)
qed

lemma float64_pos: "0 < x \<Longrightarrow> 0 < float64 x"
  using float64_lower [of x] by linarith

lemma float64_minus: "float64 (- x) = - float64 x"
  by (simp add: round_float_def)

section \<open>Shares stay well formed\<close>

text \<open>What happens to a share: it is minted and removed, or an attempt fails and leaves it.\<close>

inductive share_reachable :: "video_share \<Rightarrow> bool" where
  minted: "new_share fresh asset_id event_id verified minute rank moment = Ok s \<Longrightarrow> share_reachable s"
| removed: "share_reachable s \<Longrightarrow> remove_share why moment s = Ok s' \<Longrightarrow> share_reachable s'"

lemma new_share_valid: "new_share fresh asset_id event_id verified minute rank moment = Ok s \<Longrightarrow> validate_share s = Ok ()"
  by (auto simp: new_share_def validate_share_def split: option.splits if_splits)

lemma remove_share_cases:
  assumes "remove_share why moment s = Ok s'"
  obtains "vs_state s = ShareRemoved" "vs_removed_reason s = Some why" "s' = s"
  | "vs_state s \<noteq> ShareRemoved" "clip_removal_valid why"
    "s' = s\<lparr> vs_state := ShareRemoved, vs_removed_reason := Some why, vs_removed_at := Some moment \<rparr>"
  using assms by (auto simp: remove_share_def split: if_splits)

lemma remove_share_valid:
  assumes "remove_share why moment s = Ok s'" "validate_share s = Ok ()"
  shows "validate_share s' = Ok ()"
  using assms(1) by (cases rule: remove_share_cases) (use assms(2) in \<open>auto simp: validate_share_def split: if_splits\<close>)

text \<open>every share the operations can produce satisfies the storage constraints: it was minted with a
  rank of at least one, a live share has no removal fields and a removed one has both; and removal is
  final: whatever is asked of a removed share afterwards fails or returns it unchanged.\<close>

theorem shares_stay_wellformed:
  assumes "share_reachable s"
  shows "validate_share s = Ok () \<and>
    (vs_state s = ShareRemoved \<longrightarrow> (case remove_share why moment s of Ok s' \<Rightarrow> s' = s | Err _ \<Rightarrow> True))"
proof
  show "validate_share s = Ok ()"
    using assms by induction (auto intro: new_share_valid remove_share_valid)
  show "vs_state s = ShareRemoved \<longrightarrow> (case remove_share why moment s of Ok s' \<Rightarrow> s' = s | Err _ \<Rightarrow> True)"
    by (auto simp: remove_share_def)
qed

definition sample_share :: video_share where
  "sample_share = the_ok (new_share (Some ''s_0123456789ab'') 1 2 True (Some 45) 1 7)"

theorem shares_stay_wellformed_witness:
  "validate_share sample_share = Ok () \<and>
   (vs_state sample_share = ShareRemoved \<longrightarrow>
      (case remove_share ClipVar 9 sample_share of Ok s' \<Rightarrow> s' = sample_share | Err _ \<Rightarrow> True))"
  by (rule shares_stay_wellformed, rule minted [of "Some ''s_0123456789ab''" 1 2 True "Some 45" 1 7])
    (simp add: sample_share_def new_share_def)

section \<open>The public order is total\<close>

definition share_key :: "video_share \<Rightarrow> video_asset \<Rightarrow> bool \<times> int \<times> int \<times> instant \<times> go_string" where
  "share_key s a = (\<not> vs_timestamp_verified s, - va_popularity a, - va_file_size a, vs_created_at s, vs_id s)"

text \<open>the comparator is the lexicographic order on (verified first, more popular, larger file, older,
  smaller public identity): it answers -1, 0 or 1 as one key is below, equal to or above the other.
  As that order is total and equal keys have equal identities, sorting by it does not depend on the
  order in which the database returns the rows.\<close>

theorem compare_shares_is_lexicographic:
  "compare_shares a b a_asset b_asset =
     (if share_key a a_asset < share_key b b_asset then -1
      else if share_key b b_asset < share_key a a_asset then 1 else 0)"
proof (cases "vs_timestamp_verified a = vs_timestamp_verified b \<and> va_popularity a_asset = va_popularity b_asset \<and>
    va_file_size a_asset = va_file_size b_asset")
  case True
  then show ?thesis by (auto simp: compare_shares_def share_key_def less_prod_def')
next
  case False
  then show ?thesis by (auto simp: compare_shares_def share_key_def less_prod_def')
qed

section \<open>Upgrades\<close>

lemma density_nonneg: "spatial_bitrate_density q = 0 \<or> 0 < cq_width q * cq_height q"
  by (auto simp: spatial_bitrate_density_def mult_pos_pos split: option.splits)

lemma margin_grows: "0 < x \<Longrightarrow> x < float64 (x * density_margin)"
proof -
  assume x: "0 < x"
  have "\<bar>density_margin - 11 / 10\<bar> \<le> 11 / 10 / 1000000"
    using float64_near [of "11 / 10"] by (simp add: density_margin_def)
  then have "- (density_margin - 11 / 10) \<le> 11 / 10 / 1000000" unfolding abs_le_iff by blast
  then have m: "density_margin \<ge> 1089 / 1000" by simp
  then have "0 < x * density_margin" using x by simp
  then have "x * density_margin - x * density_margin / 1000000 \<le> float64 (x * density_margin)"
    by (rule float64_lower)
  moreover have "x * 1089 / 1000 \<le> x * density_margin" using m x by simp
  ultimately show "x < float64 (x * density_margin)" using x by linarith
qed

text \<open>The two tiers: lengths that differ by more than the band, and the densities.\<close>

definition lengths_apart :: "clip_quality \<Rightarrow> clip_quality \<Rightarrow> bool" where
  "lengths_apart a b =
     (let cd = float64 (of_int (capped_duration_ms a)); idur = float64 (of_int (capped_duration_ms b)); hi = max cd idur
      in 0 < hi \<and> duration_band < float64 (\<bar>float64 (cd - idur)\<bar> / hi))"

definition denser :: "clip_quality \<Rightarrow> clip_quality \<Rightarrow> bool" where
  "denser a b \<longleftrightarrow> 0 < spatial_bitrate_density a \<and> 0 < spatial_bitrate_density b \<and>
     float64 (spatial_bitrate_density b * density_margin) \<le> spatial_bitrate_density a"

lemma is_upgrade_tiers:
  "is_upgrade a b \<longleftrightarrow>
     (if lengths_apart a b then float64 (of_int (capped_duration_ms b)) < float64 (of_int (capped_duration_ms a))
      else denser a b \<or> \<not> denser b a \<and> pixels b < pixels a)"
  unfolding is_upgrade_def Let_def lengths_apart_def denser_def by (simp only: if_True if_False simp_thms split: if_split) blast

lemma lengths_apart_commute: "lengths_apart a b = lengths_apart b a"
proof -
  have "\<bar>float64 (x - y)\<bar> = \<bar>float64 (y - x)\<bar>" for x y
    using float64_minus [of "x - y"] by simp
  then show ?thesis unfolding lengths_apart_def Let_def by (metis max.commute)
qed

lemma denser_asymmetric: "\<not> (denser a b \<and> denser b a)"
  using margin_grows [of "spatial_bitrate_density a"] margin_grows [of "spatial_bitrate_density b"]
  unfolding denser_def by linarith

text \<open>replacing a clip cannot go back and forth: when a challenger is a meaningful upgrade over the
  incumbent, the incumbent is not one over the challenger, under the rounding of the float
  arithmetic too; in particular no clip is an upgrade over itself.\<close>

theorem upgrade_is_asymmetric:
  assumes "is_upgrade a b"
  shows "\<not> is_upgrade b a"
  using assms denser_asymmetric [of a b] lengths_apart_commute [of a b] by (auto simp: is_upgrade_tiers split: if_splits)

text \<open>The relation is not transitive, so a cluster can have no best member: each of these clips is an
  upgrade over the next, and the last over the first.\<close>

definition hd_clip :: "int \<Rightarrow> int \<Rightarrow> clip_quality" where
  "hd_clip duration rate = \<lparr> cq_duration_ms = duration, cq_bitrate = Some rate, cq_width = 1280, cq_height = 720 \<rparr>"

lemma hd_clip_apart:
  assumes "0 < d" "d < e" "e \<le> 60000"
  shows "lengths_apart (hd_clip d r) (hd_clip e q) \<longleftrightarrow> duration_band < float64 (of_int (e - d) / of_int e)"
    "lengths_apart (hd_clip e q) (hd_clip d r) \<longleftrightarrow> duration_band < float64 (of_int (e - d) / of_int e)"
proof -
  have exact: "float64 (of_int n) = of_int n" if "0 < n" "n \<le> 60000" for n
    using that by (intro float64_int) simp_all
  have "float64 (of_int d) = of_int d" "float64 (of_int e) = of_int e" "float64 (of_int (e - d)) = of_int (e - d)"
    by (rule exact, use assms in linarith, use assms in linarith)+
  then show "lengths_apart (hd_clip e q) (hd_clip d r) \<longleftrightarrow> duration_band < float64 (of_int (e - d) / of_int e)"
    using assms
    by (simp add: lengths_apart_def Let_def hd_clip_def capped_duration_ms_def duration_cap_ms_def max_def)
  then show "lengths_apart (hd_clip d r) (hd_clip e q) \<longleftrightarrow> duration_band < float64 (of_int (e - d) / of_int e)"
    by (simp add: lengths_apart_commute)
qed

lemma hd_clip_density:
  assumes "0 < r" "r < 2 ^ 52"
  shows "spatial_bitrate_density (hd_clip d r) = float64 (of_int r / 921600)"
proof -
  have "float64 (of_int 921600) = of_int 921600" by (rule float64_int) simp_all
  then show ?thesis using float64_int [OF assms] assms by (simp add: spatial_bitrate_density_def hd_clip_def)
qed

lemma hd_clip_denser:
  assumes "0 < q" "r < 2 ^ 52" "6 * q \<le> 5 * r"
  shows "denser (hd_clip d r) (hd_clip e q)"
proof -
  define x y :: rat where "x = of_int q / 921600" and "y = of_int r / 921600"
  have pos: "0 < r" "q < 2 ^ 52" using assms by auto
  have "(6 :: rat) * of_int q \<le> 5 * of_int r" using assms(3) by (metis of_int_le_iff of_int_mult of_int_numeral)
  then have le: "6 * x \<le> 5 * y" by (simp add: x_def y_def)
  have xy: "0 < x" "0 < y" using assms(1) pos by (simp_all add: x_def y_def)
  have margin: "density_margin \<le> 1101 / 1000" "0 < density_margin"
    using float64_upper [of "11 / 10"] float64_pos [of "11 / 10"] by (simp_all add: density_margin_def)
  define p where "p = float64 x * density_margin"
  have "p \<le> (x + x / 1000000) * (1101 / 1000)"
    unfolding p_def using xy margin float64_upper [OF xy(1)] float64_pos [OF xy(1)] by (intro mult_mono) auto
  moreover have "float64 p \<le> p + p / 1000000"
    unfolding p_def using float64_pos [OF xy(1)] margin by (intro float64_upper) simp
  moreover have "(x + x / 1000000) * (1101 / 1000) \<le> 1102 / 1000 * x" using xy by simp
  ultimately have "float64 p \<le> float64 y" using float64_lower [OF xy(2)] le xy by linarith
  then show ?thesis
    using hd_clip_density [OF pos(1) assms(2)] hd_clip_density [OF assms(1) pos(2)] float64_pos [OF xy(1)]
      float64_pos [OF xy(2)] by (simp add: denser_def x_def y_def p_def)
qed

lemma upgrade_can_cycle:
  "is_upgrade (hd_clip 10000 4000000) (hd_clip 11000 3000000)"
  "is_upgrade (hd_clip 11000 3000000) (hd_clip 12000 2000000)"
  "is_upgrade (hd_clip 12000 2000000) (hd_clip 10000 4000000)"
proof -
  have band: "15 / 100 - 15 / 100 / 1000000 \<le> duration_band" "duration_band \<le> 15 / 100 + 15 / 100 / 1000000"
    using float64_lower [of "15 / 100"] float64_upper [of "15 / 100"] by (simp_all add: duration_band_def)
  have near: "\<not> duration_band < float64 (1000 / 11000)" "\<not> duration_band < float64 (1000 / 12000)"
    "duration_band < float64 (2000 / 12000)"
    using band float64_upper [of "1000 / 11000"] float64_upper [of "1000 / 12000"] float64_lower [of "2000 / 12000"]
    by simp_all
  show "is_upgrade (hd_clip 10000 4000000) (hd_clip 11000 3000000)"
    "is_upgrade (hd_clip 11000 3000000) (hd_clip 12000 2000000)"
    "is_upgrade (hd_clip 12000 2000000) (hd_clip 10000 4000000)"
    using near hd_clip_apart [of 10000 11000] hd_clip_apart [of 11000 12000] hd_clip_apart [of 10000 12000]
      hd_clip_denser [of 3000000 4000000] hd_clip_denser [of 2000000 3000000]
      float64_int [of 10000] float64_int [of 12000]
    by (simp_all add: is_upgrade_tiers) (simp add: hd_clip_def capped_duration_ms_def duration_cap_ms_def)
qed

theorem upgrade_is_asymmetric_witness:
  "\<not> is_upgrade (hd_clip 11000 3000000) (hd_clip 10000 4000000)"
  by (rule upgrade_is_asymmetric [OF upgrade_can_cycle(1)])

section \<open>The gates agree\<close>

text \<open>the gate before the download only repeats what the full gate decides: whatever it rejects the
  full gate rejects too, at every frame rate, and for a known duration with the same reason and the
  same number. So skipping the download never loses a clip that the full gate would have kept.\<close>

theorem pre_filter_agrees_with_hard_filter:
  assumes "pre_filter width height duration t = Some reason"
  shows "hard_filter width height duration frame_rate t = Some reason \<or>
    duration \<le> 0 \<and> hard_filter width height duration frame_rate t \<noteq> None"
  using assms by (auto simp: pre_filter_def hard_filter_def Let_def split: if_splits)

definition default_thresholds :: filter_thresholds where
  "default_thresholds = \<lparr> ft_min_duration = 5, ft_max_duration = 90, ft_min_aspect = 1, ft_max_aspect = 2,
     ft_min_short_edge = 360, ft_min_frame_rate = 24 \<rparr>"

theorem pre_filter_agrees_with_hard_filter_witness:
  "hard_filter 1280 720 3 30 default_thresholds = Some (DurationTooShort 3) \<or>
   (3 :: rat) \<le> 0 \<and> hard_filter 1280 720 3 30 default_thresholds \<noteq> None"
  by (rule pre_filter_agrees_with_hard_filter) (simp add: pre_filter_def default_thresholds_def Let_def)

end
