(* ===== verification/ClipMatch.thy ===== *)
theory ClipMatch
  imports Prelude "HOL-Library.Product_Lexorder"
begin

text \<open>
  The perceptual match of two clips, \<open>internal/domain/video/match.go\<close>: the Hamming distance of two
  frame hashes, the two-pointer scan for the longest aligned window with a bounded number of
  mismatched frames, and the policy gate on its length. Frame hashes are 64-bit words. Slice indexes
  are natural numbers and the frame offset between the clips is an integer, as in the source.
\<close>

unbundle bit_operations_syntax

section \<open>Hamming distance\<close>

text \<open>\<open>bits.OnesCount64\<close>.\<close>

definition ones_count64 :: "64 word \<Rightarrow> nat" where
  "ones_count64 w = length (filter (bit w) [0..<64])"

definition hamming :: "64 word \<Rightarrow> 64 word \<Rightarrow> nat" where
  "hamming a b = ones_count64 (a XOR b)"

section \<open>The scan\<close>

record alignment =
  al_left :: nat
  al_right :: nat
  al_frames :: nat
  al_gaps :: nat

definition no_alignment :: alignment where
  "no_alignment = \<lparr> al_left = 0, al_right = 0, al_frames = 0, al_gaps = 0 \<rparr>"

definition stronger_alignment :: "alignment \<Rightarrow> alignment \<Rightarrow> bool" where
  "stronger_alignment c i =
     (if al_frames c \<noteq> al_frames i then al_frames i < al_frames c
      else if al_gaps c \<noteq> al_gaps i then al_gaps c < al_gaps i
      else if al_left c + al_right c \<noteq> al_left i + al_right i
      then al_left c + al_right c < al_left i + al_right i
      else if al_left c \<noteq> al_left i then al_left c < al_left i
      else al_right c < al_right i)"

definition frame_misses :: "64 word list \<Rightarrow> 64 word list \<Rightarrow> int \<Rightarrow> nat \<Rightarrow> nat \<Rightarrow> bool" where
  "frame_misses a b max_hamming l r \<longleftrightarrow> max_hamming < int (hamming (a ! l) (b ! r))"

definition right_of :: "nat \<Rightarrow> int \<Rightarrow> nat" where
  "right_of l d = nat (int l + d)"

definition left_start :: "int \<Rightarrow> nat" where
  "left_start d = nat (max 0 (- d))"

definition overlap :: "64 word list \<Rightarrow> 64 word list \<Rightarrow> int \<Rightarrow> nat" where
  "overlap a b d = nat (min (int (length a)) (int (length b) - d) - int (left_start d))"

text \<open>The inner loop drops frames at the left end while the window has too many misses. It never
  drops past the frame just added, which is where the recursion stops otherwise.\<close>

function shrink_window :: "(nat \<Rightarrow> bool) \<Rightarrow> nat \<Rightarrow> nat \<Rightarrow> nat \<Rightarrow> nat \<Rightarrow> nat \<times> nat" where
  "shrink_window miss max_gaps hi lo misses =
     (if max_gaps < misses \<and> lo \<le> hi
      then shrink_window miss max_gaps hi (Suc lo) (if miss lo then misses - 1 else misses)
      else (lo, misses))"
  by auto
termination by (relation "measure (\<lambda>(_, _, hi, lo, _). Suc hi - lo)") auto

declare shrink_window.simps [simp del]

type_synonym scan_state = "nat \<times> nat \<times> alignment"

definition scan_frame ::
  "64 word list \<Rightarrow> 64 word list \<Rightarrow> int \<Rightarrow> nat \<Rightarrow> int \<Rightarrow> scan_state \<Rightarrow> nat \<Rightarrow> scan_state" where
  "scan_frame a b max_hamming max_gaps d = (\<lambda>(lo, misses, best) hi.
     let start = left_start d;
         miss = (\<lambda>i. frame_misses a b max_hamming (start + i) (right_of (start + i) d));
         (lo', misses') = shrink_window miss max_gaps hi lo (if miss hi then misses + 1 else misses);
         candidate = \<lparr> al_left = start + lo', al_right = right_of (start + lo') d,
                       al_frames = Suc hi - lo', al_gaps = misses' \<rparr>
     in (lo', misses', if stronger_alignment candidate best then candidate else best))"

definition scan_offset ::
  "64 word list \<Rightarrow> 64 word list \<Rightarrow> int \<Rightarrow> nat \<Rightarrow> alignment \<Rightarrow> int \<Rightarrow> alignment" where
  "scan_offset a b max_hamming max_gaps best d =
     snd (snd (foldl (scan_frame a b max_hamming max_gaps d) (0, 0, best) [0..<overlap a b d]))"

definition best_alignment :: "64 word list \<Rightarrow> 64 word list \<Rightarrow> int \<Rightarrow> int \<Rightarrow> alignment" where
  "best_alignment a b max_hamming max_gaps =
     (if a = [] \<or> b = [] then no_alignment
      else foldl (scan_offset a b max_hamming (nat (if max_gaps < 0 then 0 else max_gaps))) no_alignment
             [- (int (length a) - 1)..int (length b) - 1])"

definition clip_match :: "64 word list \<Rightarrow> 64 word list \<Rightarrow> int \<Rightarrow> int \<Rightarrow> int \<Rightarrow> bool" where
  "clip_match a b max_hamming min_run max_gaps =
     (let run = (if min_run \<le> 0 then 1 else min_run)
      in if int (length a) < run \<or> int (length b) < run then False
         else run \<le> int (al_frames (best_alignment a b max_hamming max_gaps)))"

section \<open>The distance is a metric\<close>

lemma hamming_card: "hamming a b = card {i. i < 64 \<and> bit a i \<noteq> bit b i}"
proof -
  have "hamming a b = card (set (filter (bit (a XOR b)) [0..<64]))"
    unfolding hamming_def ones_count64_def by (rule distinct_card [symmetric]) simp
  also have "set (filter (bit (a XOR b)) [0..<64]) = {i. i < 64 \<and> bit a i \<noteq> bit b i}"
    by (auto simp: bit_xor_iff)
  finally show ?thesis .
qed

text \<open>the frame distance is a metric on 64-bit hashes, with values from 0 to 64: zero exactly on
  equal hashes, symmetric, and subject to the triangle inequality, so that two frames each within
  \<open>maxHamming\<close> of a third are within twice that of each other.\<close>

theorem hamming_is_metric:
  "hamming a b \<le> 64 \<and> (hamming a b = 0 \<longleftrightarrow> a = b) \<and> hamming a b = hamming b a \<and>
   hamming a c \<le> hamming a b + hamming b c"
proof -
  have fin: "finite {i :: nat. i < 64 \<and> P i}" for P by simp
  have "card {i :: nat. i < 64 \<and> bit a i \<noteq> bit b i} \<le> card {..<64 :: nat}"
    by (rule card_mono) auto
  then have upper: "hamming a b \<le> 64" by (simp add: hamming_card)
  have "hamming a b = 0 \<longleftrightarrow> (\<forall>i < 64. bit a i = bit b i)"
    unfolding hamming_card by (subst card_0_eq) auto
  also have "\<dots> \<longleftrightarrow> a = b" by (auto intro!: bit_word_eqI)
  finally have zero: "hamming a b = 0 \<longleftrightarrow> a = b" .
  have sym: "hamming a b = hamming b a"
    unfolding hamming_card by (rule arg_cong [where f = card]) auto
  have "card {i :: nat. i < 64 \<and> bit a i \<noteq> bit c i} \<le>
      card ({i. i < 64 \<and> bit a i \<noteq> bit b i} \<union> {i. i < 64 \<and> bit b i \<noteq> bit c i})"
    by (rule card_mono) auto
  also have "\<dots> \<le> hamming a b + hamming b c" unfolding hamming_card by (rule card_Un_le)
  finally have "hamming a c \<le> hamming a b + hamming b c" by (simp add: hamming_card)
  with upper zero sym show ?thesis by simp
qed

section \<open>Windows\<close>

text \<open>A window of two sequences, and the ones the policy tolerates.\<close>

definition window_gaps :: "64 word list \<Rightarrow> 64 word list \<Rightarrow> int \<Rightarrow> nat \<Rightarrow> nat \<Rightarrow> nat \<Rightarrow> nat" where
  "window_gaps a b max_hamming l r k = length (filter (\<lambda>i. frame_misses a b max_hamming (l + i) (r + i)) [0..<k])"

definition tolerated :: "64 word list \<Rightarrow> 64 word list \<Rightarrow> int \<Rightarrow> nat \<Rightarrow> alignment \<Rightarrow> bool" where
  "tolerated a b max_hamming max_gaps w \<longleftrightarrow>
     al_left w + al_frames w \<le> length a \<and> al_right w + al_frames w \<le> length b \<and> 0 < al_frames w \<and>
     al_gaps w = window_gaps a b max_hamming (al_left w) (al_right w) (al_frames w) \<and> al_gaps w \<le> max_gaps"

definition strength :: "alignment \<Rightarrow> int \<times> nat \<times> nat \<times> nat \<times> nat" where
  "strength w = (- int (al_frames w), al_gaps w, al_left w + al_right w, al_left w, al_right w)"

lemma stronger_strength: "stronger_alignment c i \<longleftrightarrow> strength c < strength i"
  by (auto simp: stronger_alignment_def strength_def less_prod_def')

lemma more_frames_stronger: "al_frames w < al_frames v \<Longrightarrow> strength v < strength w"
  by (simp add: strength_def)

lemma strength_inject: "strength v = strength w \<Longrightarrow> v = w"
  by (simp add: strength_def)

section \<open>The two-pointer scan\<close>

definition misses_in :: "(nat \<Rightarrow> bool) \<Rightarrow> nat \<Rightarrow> nat \<Rightarrow> nat" where
  "misses_in miss l h = length (filter miss [l..<h])"

lemma misses_in_empty: "misses_in miss l l = 0"
  by (simp add: misses_in_def)

lemma misses_in_last:
  "l \<le> h \<Longrightarrow> misses_in miss l (Suc h) = misses_in miss l h + (if miss h then 1 else 0)"
  by (simp add: misses_in_def)

lemma misses_in_first:
  "l < h \<Longrightarrow> misses_in miss l h = (if miss l then 1 else 0) + misses_in miss (Suc l) h"
  by (simp add: misses_in_def upt_conv_Cons)

text \<open>The left pointer is the least start from which the misses up to \<open>h\<close> are tolerated.\<close>

definition tight :: "(nat \<Rightarrow> bool) \<Rightarrow> nat \<Rightarrow> nat \<Rightarrow> nat \<Rightarrow> nat \<Rightarrow> bool" where
  "tight miss g h lo m \<longleftrightarrow>
     lo \<le> h \<and> m = misses_in miss lo h \<and> (\<forall>l<lo. g < misses_in miss l h)"

lemma shrink_window_tight:
  assumes "tight miss g (Suc hi) lo m"
  shows "tight miss g (Suc hi) (fst (shrink_window miss g hi lo m)) (snd (shrink_window miss g hi lo m)) \<and>
    snd (shrink_window miss g hi lo m) \<le> g"
  using assms
proof (induction miss g hi lo m rule: shrink_window.induct)
  case (1 miss g hi lo m)
  show ?case
  proof (cases "g < m \<and> lo \<le> hi")
    case True
    have "misses_in miss lo (Suc hi) = (if miss lo then 1 else 0) + misses_in miss (Suc lo) (Suc hi)"
      using True by (intro misses_in_first) simp
    then have "tight miss g (Suc hi) (Suc lo) (if miss lo then m - 1 else m)"
      using "1.prems" True by (auto simp: tight_def less_Suc_eq)
    then show ?thesis using "1.IH" True by (simp add: shrink_window.simps [of miss g hi lo m])
  next
    case False
    have "m \<le> g"
    proof (cases "lo \<le> hi")
      case outer: False
      then have "lo = Suc hi" using "1.prems" by (simp add: tight_def)
      then show ?thesis using "1.prems" by (simp add: tight_def misses_in_empty)
    qed (use False in simp)
    then show ?thesis using False "1.prems" by (auto simp: shrink_window.simps [of miss g hi lo m])
  qed
qed

lemma misses_in_mono: "l \<le> h \<Longrightarrow> misses_in miss l h \<le> misses_in miss l (Suc h)"
  by (simp add: misses_in_last)

lemma tight_extend:
  assumes "tight miss g hi lo m"
  shows "tight miss g (Suc hi) lo (if miss hi then m + 1 else m)"
proof -
  have "g < misses_in miss l (Suc hi)" if "l < lo" for l
    using assms that misses_in_mono [of l hi miss] by (fastforce simp: tight_def)
  then show ?thesis using assms by (auto simp: tight_def misses_in_last)
qed

text \<open>The window of the scan's pointers.\<close>

definition pointed :: "(nat \<Rightarrow> bool) \<Rightarrow> int \<Rightarrow> nat \<Rightarrow> nat \<Rightarrow> alignment" where
  "pointed miss d lo h = \<lparr> al_left = left_start d + lo, al_right = right_of (left_start d + lo) d,
     al_frames = h - lo, al_gaps = misses_in miss lo h \<rparr>"

lemma tight_strongest:
  assumes "tight miss g h lo m" "l \<le> h" "misses_in miss l h \<le> g"
  shows "strength (pointed miss d lo h) \<le> strength (pointed miss d l h)"
proof -
  have "lo \<le> l" using assms by (meson not_le tight_def)
  then consider "lo = l" | "lo < l" by linarith
  then show ?thesis
  proof cases
    case 2
    then have "al_frames (pointed miss d l h) < al_frames (pointed miss d lo h)"
      using assms(2) by (simp add: pointed_def)
    then show ?thesis using more_frames_stronger less_imp_le by blast
  qed simp
qed

text \<open>What one offset contributes: the result is the incumbent or a tolerated pointed window, and none
  of the incumbent and the tolerated pointed windows is stronger.\<close>

definition strongest_up_to :: "(nat \<Rightarrow> bool) \<Rightarrow> nat \<Rightarrow> int \<Rightarrow> alignment \<Rightarrow> nat \<Rightarrow> alignment \<Rightarrow> bool" where
  "strongest_up_to miss g d best0 n best \<longleftrightarrow>
     (best = best0 \<or> (\<exists>l h. 0 < h \<and> l \<le> h \<and> h \<le> n \<and> misses_in miss l h \<le> g \<and> best = pointed miss d l h)) \<and>
     strength best \<le> strength best0 \<and>
     (\<forall>h l. 0 < h \<longrightarrow> h \<le> n \<longrightarrow> l \<le> h \<longrightarrow> misses_in miss l h \<le> g \<longrightarrow> strength best \<le> strength (pointed miss d l h))"

definition offset_misses :: "64 word list \<Rightarrow> 64 word list \<Rightarrow> int \<Rightarrow> int \<Rightarrow> nat \<Rightarrow> bool" where
  "offset_misses a b mh d i = frame_misses a b mh (left_start d + i) (right_of (left_start d + i) d)"

lemma scan_frame_step:
  assumes "tight (offset_misses a b mh d) g hi lo m" "strongest_up_to (offset_misses a b mh d) g d best0 hi best"
    and step: "scan_frame a b mh g d (lo, m, best) hi = (lo', m', best')"
  shows "tight (offset_misses a b mh d) g (Suc hi) lo' m'"
    "strongest_up_to (offset_misses a b mh d) g d best0 (Suc hi) best'"
proof -
  let ?miss = "offset_misses a b mh d"
  let ?m = "if ?miss hi then m + 1 else m"
  have best': "best' = (if stronger_alignment (pointed ?miss d lo' (Suc hi)) best
      then pointed ?miss d lo' (Suc hi) else best)" if "m' = misses_in ?miss lo' (Suc hi)"
    using step that by (auto simp: scan_frame_def Let_def offset_misses_def [abs_def] pointed_def split: prod.splits)
  have shrunk: "shrink_window ?miss g hi lo ?m = (lo', m')"
    using step by (auto simp: scan_frame_def Let_def offset_misses_def [abs_def] split: prod.splits)
  from shrink_window_tight [OF tight_extend [OF assms(1)]] shrunk
  have tight': "tight ?miss g (Suc hi) lo' m'" and small: "m' \<le> g" by auto
  show "tight ?miss g (Suc hi) lo' m'" by (fact tight')
  have m': "m' = misses_in ?miss lo' (Suc hi)" and lo': "lo' \<le> Suc hi" using tight' by (auto simp: tight_def)
  let ?w = "pointed ?miss d lo' (Suc hi)"
  have "strength ?w \<le> strength (pointed ?miss d l (Suc hi))" if "l \<le> Suc hi" "misses_in ?miss l (Suc hi) \<le> g" for l
    using tight_strongest [OF tight' that] .
  moreover have "strength best' \<le> strength ?w" "strength best' \<le> strength best" "best' = best \<or> best' = ?w"
    using best' [OF m'] by (auto simp: stronger_strength)
  moreover have "misses_in ?miss lo' (Suc hi) \<le> g" using small m' by simp
  ultimately show "strongest_up_to ?miss g d best0 (Suc hi) best'"
    using assms(2) lo' unfolding strongest_up_to_def
    by (smt (verit) le_Suc_eq order_trans zero_less_Suc)
qed

lemma scan_frames:
  assumes "foldl (scan_frame a b mh g d) (0, 0, best0) [0..<n] = (lo, m, best)"
  shows "tight (offset_misses a b mh d) g n lo m \<and> strongest_up_to (offset_misses a b mh d) g d best0 n best"
  using assms
proof (induction n arbitrary: lo m best)
  case 0
  then show ?case by (auto simp: tight_def misses_in_empty strongest_up_to_def)
next
  case (Suc n)
  obtain lo1 m1 best1 where one: "foldl (scan_frame a b mh g d) (0, 0, best0) [0..<n] = (lo1, m1, best1)"
    by (metis prod_cases3)
  with Suc.prems have "scan_frame a b mh g d (lo1, m1, best1) n = (lo, m, best)" by simp
  with Suc.IH [OF one] show ?case using scan_frame_step [of a b mh d g n lo1 m1 best0 best1] by simp
qed

lemma scan_offset_strongest:
  "strongest_up_to (offset_misses a b mh d) g d best0 (overlap a b d) (scan_offset a b mh g best0 d)"
proof -
  obtain lo m best where "foldl (scan_frame a b mh g d) (0, 0, best0) [0..<overlap a b d] = (lo, m, best)"
    by (metis prod_cases3)
  with scan_frames [OF this] show ?thesis by (simp add: scan_offset_def)
qed

section \<open>Pointed windows are the windows of the two sequences\<close>

lemma right_of_start: "right_of (left_start d + l) d = nat (max 0 d) + l"
  by (auto simp: right_of_def left_start_def max_def)

lemma misses_in_window:
  assumes "l \<le> h"
  shows "misses_in (offset_misses a b mh d) l h =
    window_gaps a b mh (left_start d + l) (right_of (left_start d + l) d) (h - l)"
proof -
  have "[l..<h] = map (\<lambda>i. i + l) [0..<h - l]" using assms by (simp add: map_add_upt)
  moreover have "offset_misses a b mh d (i + l) =
      frame_misses a b mh (left_start d + l + i) (right_of (left_start d + l) d + i)" for i
    unfolding offset_misses_def right_of_start by (simp add: ac_simps)
  ultimately show ?thesis by (simp add: misses_in_def window_gaps_def filter_map comp_def)
qed

lemma pointed_tolerated:
  assumes "l < h" "h \<le> overlap a b d" "misses_in (offset_misses a b mh d) l h \<le> g"
  shows "tolerated a b mh g (pointed (offset_misses a b mh d) d l h)"
proof -
  have "left_start d + h \<le> length a" "nat (max 0 d) + h \<le> length b"
    using assms(1,2) by (auto simp: overlap_def left_start_def)
  then show ?thesis
    using assms(1,3) misses_in_window [of l h a b mh d]
    by (simp add: tolerated_def pointed_def right_of_start)
qed

lemma tolerated_pointed:
  assumes "tolerated a b mh g w" and d: "d = int (al_right w) - int (al_left w)"
  shows "\<exists>l h. l < h \<and> h \<le> overlap a b d \<and> misses_in (offset_misses a b mh d) l h \<le> g \<and>
    w = pointed (offset_misses a b mh d) d l h"
proof -
  define l where "l = al_left w - left_start d"
  define h where "h = l + al_frames w"
  have bounds: "al_left w + al_frames w \<le> length a" "al_right w + al_frames w \<le> length b" "0 < al_frames w"
    using assms(1) by (auto simp: tolerated_def)
  have left: "left_start d + l = al_left w" and right: "right_of (left_start d + l) d = al_right w"
    by (auto simp: l_def d left_start_def right_of_def)
  have "l < h" "h - l = al_frames w" using bounds by (auto simp: h_def)
  moreover from this have gaps: "misses_in (offset_misses a b mh d) l h = al_gaps w"
    using misses_in_window [of l h a b mh d] left right assms(1) by (simp add: tolerated_def)
  moreover have "h \<le> overlap a b d" using bounds by (auto simp: h_def l_def d overlap_def left_start_def)
  moreover have "w = pointed (offset_misses a b mh d) d l h"
    using left right gaps \<open>h - l = al_frames w\<close> by (simp add: pointed_def)
  moreover have "misses_in (offset_misses a b mh d) l h \<le> g" using gaps assms(1) by (simp add: tolerated_def)
  ultimately show ?thesis by blast
qed

section \<open>All offsets\<close>

text \<open>A window without frames never replaces the incumbent, so what an offset returns is the
  incumbent or a tolerated window.\<close>

lemma empty_pointed_weaker:
  assumes "strength best0 \<le> strength no_alignment" "h \<le> l" "strength (pointed miss d l h) \<le> strength best0"
    "0 < h"
  shows False
proof -
  have "strength (pointed miss d l h) \<le> strength no_alignment" using assms(1,3) by (rule order_trans [rotated])
  then show False using assms(2,4) by (simp add: strength_def pointed_def no_alignment_def)
qed

definition best_so_far :: "64 word list \<Rightarrow> 64 word list \<Rightarrow> int \<Rightarrow> nat \<Rightarrow> int set \<Rightarrow> alignment \<Rightarrow> bool" where
  "best_so_far a b mh g ds best \<longleftrightarrow>
     (best = no_alignment \<or> tolerated a b mh g best) \<and> strength best \<le> strength no_alignment \<and>
     (\<forall>w. tolerated a b mh g w \<longrightarrow> int (al_right w) - int (al_left w) \<in> ds \<longrightarrow> strength best \<le> strength w)"

lemma best_so_far_step:
  assumes "best_so_far a b mh g ds best"
  shows "best_so_far a b mh g (insert d ds) (scan_offset a b mh g best d)"
proof -
  let ?best' = "scan_offset a b mh g best d" and ?miss = "offset_misses a b mh d"
  have strongest: "strongest_up_to ?miss g d best (overlap a b d) ?best'" by (rule scan_offset_strongest)
  then have le: "strength ?best' \<le> strength best" by (simp add: strongest_up_to_def)
  have base: "strength best \<le> strength no_alignment" using assms by (simp add: best_so_far_def)
  have "?best' = no_alignment \<or> tolerated a b mh g ?best'"
  proof (cases "?best' = best")
    case False
    then obtain l h where w: "0 < h" "l \<le> h" "h \<le> overlap a b d" "misses_in ?miss l h \<le> g"
        "?best' = pointed ?miss d l h"
      using strongest by (auto simp: strongest_up_to_def)
    have "\<not> h \<le> l" using empty_pointed_weaker [OF base _ _ w(1), of l ?miss d] le w(5) by auto
    then show ?thesis using pointed_tolerated [of l h a b d mh g] w by simp
  qed (use assms in \<open>simp add: best_so_far_def\<close>)
  moreover have "strength ?best' \<le> strength w"
    if tol: "tolerated a b mh g w" and at: "int (al_right w) - int (al_left w) \<in> insert d ds" for w
  proof (cases "int (al_right w) - int (al_left w) = d")
    case True
    then obtain l h where "l < h" "h \<le> overlap a b d" "misses_in ?miss l h \<le> g" "w = pointed ?miss d l h"
      using tolerated_pointed [OF tol] by metis
    then show ?thesis using strongest by (simp add: strongest_up_to_def)
  next
    case False
    then have "strength best \<le> strength w" using assms tol at by (simp add: best_so_far_def)
    with le show ?thesis by (rule order_trans)
  qed
  ultimately show ?thesis using le base by (auto simp: best_so_far_def)
qed

lemma best_so_far_offsets: "best_so_far a b mh g (set ds) (foldl (scan_offset a b mh g) no_alignment ds)"
proof (induction ds rule: rev_induct)
  case Nil
  show ?case by (simp add: best_so_far_def)
next
  case (snoc d ds)
  then show ?case using best_so_far_step by simp
qed

definition allowed_gaps :: "int \<Rightarrow> nat" where
  "allowed_gaps max_gaps = nat (max 0 max_gaps)"

lemma allowed_gaps_eq: "nat (if max_gaps < 0 then 0 else max_gaps) = allowed_gaps max_gaps"
  by (simp add: allowed_gaps_def max_def)

lemma tolerated_offset:
  assumes "tolerated a b mh g w"
  shows "int (al_right w) - int (al_left w) \<in> set [- (int (length a) - 1)..int (length b) - 1]"
  using assms by (auto simp: tolerated_def)

lemma best_alignment_best:
  "(best_alignment a b mh mg = no_alignment \<or> tolerated a b mh (allowed_gaps mg) (best_alignment a b mh mg)) \<and>
   (\<forall>w. tolerated a b mh (allowed_gaps mg) w \<longrightarrow> strength (best_alignment a b mh mg) \<le> strength w)"
proof (cases "a = [] \<or> b = []")
  case True
  then have "\<not> tolerated a b mh (allowed_gaps mg) w" for w by (auto simp: tolerated_def)
  then show ?thesis using True by (simp add: best_alignment_def)
next
  case False
  let ?ds = "[- (int (length a) - 1)..int (length b) - 1]"
  have "best_alignment a b mh mg = foldl (scan_offset a b mh (allowed_gaps mg)) no_alignment ?ds"
    using False by (simp only: best_alignment_def allowed_gaps_eq if_False)
  then show ?thesis
    using best_so_far_offsets [of a b mh "allowed_gaps mg" ?ds] tolerated_offset [of a b mh "allowed_gaps mg"]
    unfolding best_so_far_def by metis
qed

text \<open>the two-pointer scan returns the strongest window there is: if no aligned window has at least
  one frame and at most the allowed mismatches it returns no alignment, and otherwise it returns a
  window that exists in both sequences, with the gaps it reports, and no window of any length at any
  offset is stronger (longer, then fewer gaps, then earlier).\<close>

theorem best_alignment_is_strongest_window:
  "(if \<exists>w. tolerated a b max_hamming (allowed_gaps max_gaps) w
    then tolerated a b max_hamming (allowed_gaps max_gaps) (best_alignment a b max_hamming max_gaps)
    else best_alignment a b max_hamming max_gaps = no_alignment) \<and>
   {w. tolerated a b max_hamming (allowed_gaps max_gaps) w \<and>
       stronger_alignment w (best_alignment a b max_hamming max_gaps)} = {}"
proof -
  have "best_alignment a b max_hamming max_gaps = no_alignment \<Longrightarrow> tolerated a b max_hamming (allowed_gaps max_gaps) w \<Longrightarrow> False" for w
    using best_alignment_best [of a b max_hamming max_gaps] more_frames_stronger [of no_alignment w]
    by (auto simp: tolerated_def no_alignment_def)
  then show ?thesis
    using best_alignment_best [of a b max_hamming max_gaps] by (auto simp: stronger_strength not_less [symmetric])
qed

lemma window_gaps_card:
  "window_gaps a b max_hamming l r k =
     card {i. i < k \<and> max_hamming < int (hamming (a ! (l + i)) (b ! (r + i)))}"
proof -
  have "window_gaps a b max_hamming l r k =
      card (set (filter (\<lambda>i. frame_misses a b max_hamming (l + i) (r + i)) [0..<k]))"
    unfolding window_gaps_def by (rule distinct_card [symmetric]) simp
  also have "set (filter (\<lambda>i. frame_misses a b max_hamming (l + i) (r + i)) [0..<k]) =
      {i. i < k \<and> max_hamming < int (hamming (a ! (l + i)) (b ! (r + i)))}"
    by (auto simp: frame_misses_def)
  finally show ?thesis .
qed

lemma long_window_iff:
  assumes "1 \<le> n"
  shows "(\<exists>w. tolerated a b mh (allowed_gaps mg) w \<and> n \<le> int (al_frames w)) \<longleftrightarrow>
    n \<le> int (al_frames (best_alignment a b mh mg))"
proof
  assume "\<exists>w. tolerated a b mh (allowed_gaps mg) w \<and> n \<le> int (al_frames w)"
  then obtain w where w: "tolerated a b mh (allowed_gaps mg) w" "n \<le> int (al_frames w)" by blast
  then have "strength (best_alignment a b mh mg) \<le> strength w" using best_alignment_best by blast
  then have "\<not> al_frames (best_alignment a b mh mg) < al_frames w"
    using more_frames_stronger [of "best_alignment a b mh mg" w] by auto
  then show "n \<le> int (al_frames (best_alignment a b mh mg))" using w(2) by linarith
next
  assume "n \<le> int (al_frames (best_alignment a b mh mg))"
  moreover from this assms have "best_alignment a b mh mg \<noteq> no_alignment" by (auto simp: no_alignment_def)
  ultimately show "\<exists>w. tolerated a b mh (allowed_gaps mg) w \<and> n \<le> int (al_frames w)"
    using best_alignment_best [of a b mh mg] by blast
qed

lemma clip_match_frames:
  "clip_match a b mh min_run mg \<longleftrightarrow> max 1 min_run \<le> int (al_frames (best_alignment a b mh mg))"
proof -
  have "int (al_frames (best_alignment a b mh mg)) \<le> int (length a)"
    "int (al_frames (best_alignment a b mh mg)) \<le> int (length b)"
    using best_alignment_best [of a b mh mg] by (auto simp: tolerated_def no_alignment_def)
  then show ?thesis by (auto simp: clip_match_def Let_def max_def)
qed

text \<open>C27: the optimised match decides exactly the existence of shared footage: two clips match if and
  only if at some pair of positions there are \<open>minRun\<close> or more consecutive frames (at least one) in
  both, of which at most \<open>maxGaps\<close> differ in more than \<open>maxHamming\<close> bits.\<close>

theorem clip_match_iff_shared_window:
  "clip_match a b max_hamming min_run max_gaps \<longleftrightarrow>
     (\<exists>l r k. max 1 min_run \<le> int k \<and> l + k \<le> length a \<and> r + k \<le> length b \<and>
        card {i. i < k \<and> max_hamming < int (hamming (a ! (l + i)) (b ! (r + i)))} \<le> allowed_gaps max_gaps)"
  (is "_ \<longleftrightarrow> ?shared")
proof -
  have "?shared \<longleftrightarrow> (\<exists>w. tolerated a b max_hamming (allowed_gaps max_gaps) w \<and> max 1 min_run \<le> int (al_frames w))"
  proof
    assume ?shared
    then obtain l r k where k: "max 1 min_run \<le> int k" "l + k \<le> length a" "r + k \<le> length b"
        "window_gaps a b max_hamming l r k \<le> allowed_gaps max_gaps" unfolding window_gaps_card by blast
    then have "tolerated a b max_hamming (allowed_gaps max_gaps) \<lparr> al_left = l, al_right = r, al_frames = k,
        al_gaps = window_gaps a b max_hamming l r k \<rparr>" by (simp add: tolerated_def)
    then show "\<exists>w. tolerated a b max_hamming (allowed_gaps max_gaps) w \<and> max 1 min_run \<le> int (al_frames w)"
      using k(1) by (metis alignment.select_convs(3))
  next
    assume "\<exists>w. tolerated a b max_hamming (allowed_gaps max_gaps) w \<and> max 1 min_run \<le> int (al_frames w)"
    then show ?shared unfolding window_gaps_card [symmetric] tolerated_def by metis
  qed
  also have "\<dots> \<longleftrightarrow> clip_match a b max_hamming min_run max_gaps"
    unfolding clip_match_frames by (rule long_window_iff) simp
  finally show ?thesis by simp
qed

lemma clip_match_commute: "clip_match a b mh mr mg = clip_match b a mh mr mg"
proof -
  have "clip_match a b mh mr mg \<Longrightarrow> clip_match b a mh mr mg" for a b
  proof -
    assume "clip_match a b mh mr mg"
    then obtain w where w: "tolerated a b mh (allowed_gaps mg) w" "max 1 mr \<le> int (al_frames w)"
      using long_window_iff [of "max 1 mr" a b mh mg] unfolding clip_match_frames by auto
    have "hamming x y = hamming y x" for x y by (simp add: hamming_def xor.commute)
    let ?w = "\<lparr> al_left = al_right w, al_right = al_left w, al_frames = al_frames w, al_gaps = al_gaps w \<rparr>"
    have "tolerated b a mh (allowed_gaps mg) ?w \<and> max 1 mr \<le> int (al_frames ?w)"
      using w \<open>\<And>x y. hamming x y = hamming y x\<close> by (simp add: tolerated_def window_gaps_card)
    then have "\<exists>w. tolerated b a mh (allowed_gaps mg) w \<and> max 1 mr \<le> int (al_frames w)" by (rule exI)
    then show "clip_match b a mh mr mg" unfolding clip_match_frames by (subst long_window_iff [symmetric]) simp_all
  qed
  then show ?thesis by blast
qed

end
