(* ===== verification/Vision.thy ===== *)
theory Vision
  imports Prelude "HOL-Library.Multiset"
begin

text \<open>
  The broadcast-clock check of \<open>internal/domain/vision\<close>: the field parsers of \<open>clock.go\<close>,
  the literal period labels of \<open>period_label.go\<close>, the running-stoppage correction of
  \<open>running_stoppage.go\<close> and the clip verdict of \<open>evaluate.go\<close>. The regular expressions of
  the parsers are written out as matchers over byte strings; letters are upper-cased on ASCII.
  The last part proves that the verdict is a function of what single readings support: a clip
  is verified exactly when both majority gates pass and some reading supports a minute inside
  the window, and the order of the frames does not matter.
\<close>

section \<open>Periods\<close>

datatype period = PeriodUnknown | PeriodFirstHalf | PeriodSecondHalf | PeriodExtraFirst
  | PeriodExtraSecond | PeriodOther go_string

fun period_valid :: "period \<Rightarrow> bool" where
  "period_valid PeriodUnknown = False"
| "period_valid (PeriodOther _) = False"
| "period_valid _ = True"

fun period_string :: "period \<Rightarrow> go_string" where
  "period_string PeriodFirstHalf = ''1H''"
| "period_string PeriodSecondHalf = ''2H''"
| "period_string PeriodExtraFirst = ''ET1''"
| "period_string PeriodExtraSecond = ''ET2''"
| "period_string PeriodUnknown = ''unknown''"
| "period_string (PeriodOther _) = ''unknown''"

definition period_of :: "int \<Rightarrow> period" where
  "period_of base =
     (if base \<le> 45 then PeriodFirstHalf
      else if base \<le> 90 then PeriodSecondHalf
      else if base \<le> 105 then PeriodExtraFirst
      else PeriodExtraSecond)"

definition is_extra_time :: "period \<Rightarrow> bool" where
  "is_extra_time p \<longleftrightarrow> p = PeriodExtraFirst \<or> p = PeriodExtraSecond"

definition is_period_boundary :: "int \<Rightarrow> bool" where
  "is_period_boundary m \<longleftrightarrow> m = 45 \<or> m = 90 \<or> m = 105 \<or> m = 120"

section \<open>Observations and readings\<close>

record frame_observation =
  fo_soccer :: bool
  fo_screen :: bool
  fo_clock :: "go_string option"
  fo_period :: "period option"
  fo_period_label :: "go_string option"
  fo_added :: "go_string option"
  fo_stoppage_clock :: "go_string option"

record clock_reading =
  cr_frame_index :: int
  cr_minute :: int
  cr_alternatives :: "int list"
  cr_period :: period
  cr_period_pinned :: bool
  cr_stoppage :: bool
  cr_exact_minute :: bool
  cr_ambiguous :: bool

record parsed_timer =
  pt_minute :: int
  pt_second :: int
  pt_seconds_known :: bool

definition empty_timer :: parsed_timer where
  "empty_timer = \<lparr> pt_minute = 0, pt_second = 0, pt_seconds_known = False \<rparr>"

section \<open>Matchers\<close>

text \<open>The class \<open>\s\<close> of the regular expressions, a word character, and \<open>\b\<close>.\<close>

definition re_space :: "char \<Rightarrow> bool" where
  "re_space c \<longleftrightarrow> code_of c \<in> {9, 10, 12, 13, 32}"

definition re_word :: "char \<Rightarrow> bool" where
  "re_word c \<longleftrightarrow> is_digit_char c \<or> is_letter_char c \<or> c = CHR ''_''"

definition word_boundary :: "char option \<Rightarrow> char option \<Rightarrow> bool" where
  "word_boundary prev after \<longleftrightarrow>
     (case prev of None \<Rightarrow> False | Some c \<Rightarrow> re_word c) \<noteq>
     (case after of None \<Rightarrow> False | Some c \<Rightarrow> re_word c)"

definition head_char :: "go_string \<Rightarrow> char option" where
  "head_char s = (case s of [] \<Rightarrow> None | c # _ \<Rightarrow> Some c)"

definition skip_re_space :: "go_string \<Rightarrow> go_string" where
  "skip_re_space s = dropWhile re_space s"

fun strip_prefix :: "go_string \<Rightarrow> go_string \<Rightarrow> go_string option" where
  "strip_prefix [] s = Some s"
| "strip_prefix (p # ps) [] = None"
| "strip_prefix (p # ps) (c # s) = (if p = c then strip_prefix ps s else None)"

fun strip_any :: "go_string list \<Rightarrow> go_string \<Rightarrow> (go_string \<times> go_string) option" where
  "strip_any [] s = None"
| "strip_any (p # ps) s =
     (case strip_prefix p s of Some rest \<Rightarrow> Some (p, rest) | None \<Rightarrow> strip_any ps s)"

text \<open>The words of an alternative, which \<open>\s*\<close> separates, matched at the head of the text.\<close>

fun match_words :: "go_string list \<Rightarrow> go_string \<Rightarrow> go_string option" where
  "match_words [] s = Some s"
| "match_words [w] s = strip_prefix w s"
| "match_words (w # v # ws) s =
     (case strip_prefix w s of None \<Rightarrow> None | Some rest \<Rightarrow> match_words (v # ws) (skip_re_space rest))"

text \<open>\<open>\b(...)\b\<close> at the head of the text: the rest and the last character consumed.\<close>

fun match_hint :: "go_string list list \<Rightarrow> char option \<Rightarrow> go_string \<Rightarrow> (char \<times> go_string) option" where
  "match_hint [] prev s = None"
| "match_hint (alt # alts) prev s =
     (case match_words alt s of
        None \<Rightarrow> match_hint alts prev s
      | Some rest \<Rightarrow>
          let final = last (last alt) in
          if length rest < length s \<and> word_boundary prev (head_char s) \<and>
             word_boundary (Some final) (head_char rest)
          then Some (final, rest) else match_hint alts prev s)"

fun search_hint :: "go_string list list \<Rightarrow> char option \<Rightarrow> go_string \<Rightarrow> bool" where
  "search_hint alts prev [] = False"
| "search_hint alts prev (c # s) =
     (match_hint alts prev (c # s) \<noteq> None \<or> search_hint alts (Some c) s)"

lemma match_hint_shorter:
  "match_hint alts prev s = Some (c, rest) \<Longrightarrow> length rest < length s"
  by (induction alts) (auto simp: Let_def split: option.splits if_splits)

text \<open>\<open>ReplaceAllString(text, "")\<close>: leftmost matches, scanned on past each match.\<close>

function remove_hints :: "go_string list list \<Rightarrow> char option \<Rightarrow> go_string \<Rightarrow> go_string" where
  "remove_hints alts prev [] = []"
| "remove_hints alts prev (c # s) =
     (case match_hint alts prev (c # s) of
        Some (final, rest) \<Rightarrow> remove_hints alts (Some final) rest
      | None \<Rightarrow> c # remove_hints alts (Some c) s)"
  by pat_completeness auto
termination
  by (relation "measure (\<lambda>(alts, prev, s). length s)")
    (auto dest: match_hint_shorter)

definition et_alternatives :: "go_string list list" where
  "et_alternatives = [[''ET''], [''AET''], [''EXTRA'', ''TIME'']]"

definition second_half_alternatives :: "go_string list list" where
  "second_half_alternatives = [[''2H''], [''2ND'', ''HALF'']]"

definition first_half_alternatives :: "go_string list list" where
  "first_half_alternatives = [[''1H''], [''1ST'', ''HALF'']]"

definition period_hint_alternatives :: "go_string list list" where
  "period_hint_alternatives =
     et_alternatives @ second_half_alternatives @ first_half_alternatives"

text \<open>\<open>^(45|90|105|120)\s*\+\s*(\d{1,2})(?::(\d{2}))?$\<close>: base, minutes and seconds.\<close>

definition match_compact_stoppage :: "go_string \<Rightarrow> (go_string \<times> go_string \<times> go_string) option" where
  "match_compact_stoppage s =
     (case strip_any [''45'', ''90'', ''105'', ''120''] s of
        None \<Rightarrow> None
      | Some (base, s1) \<Rightarrow>
          (case skip_re_space s1 of
             [] \<Rightarrow> None
           | c # s2 \<Rightarrow>
               if c \<noteq> CHR ''+'' then None
               else
                 let s3 = skip_re_space s2;
                     digits = takeWhile is_digit_char s3;
                     rest = dropWhile is_digit_char s3
                 in if digits = [] \<or> 2 < length digits then None
                    else if rest = [] then Some (base, digits, [])
                    else if hd rest = CHR '':'' \<and> length (tl rest) = 2 \<and>
                            list_all is_digit_char (tl rest)
                    then Some (base, digits, tl rest)
                    else None))"

text \<open>\<open>^(\d{1,3}):(\d{2})$\<close> and \<open>^(\d{1,3})$\<close>.\<close>

definition match_mmss :: "go_string \<Rightarrow> (go_string \<times> go_string) option" where
  "match_mmss s =
     (let digits = takeWhile is_digit_char s; rest = dropWhile is_digit_char s in
      if digits \<noteq> [] \<and> length digits \<le> 3 \<and> rest \<noteq> [] \<and> hd rest = CHR '':'' \<and>
         length (tl rest) = 2 \<and> list_all is_digit_char (tl rest)
      then Some (digits, tl rest) else None)"

definition match_bare_minutes :: "go_string \<Rightarrow> bool" where
  "match_bare_minutes s \<longleftrightarrow> s \<noteq> [] \<and> length s \<le> 3 \<and> list_all is_digit_char s"

text \<open>\<open>^\+?\s*(\d{1,2})\s*['\<close> or the prime, three bytes in UTF-8, \<open>]?$\<close>.\<close>

definition prime_sign :: go_string where
  "prime_sign = [CHR 0xE2, CHR 0x80, CHR 0xB2]"

definition match_added :: "go_string \<Rightarrow> go_string option" where
  "match_added s =
     (let s1 = (case s of [] \<Rightarrow> [] | c # cs \<Rightarrow> if c = CHR ''+'' then cs else c # cs);
          s2 = skip_re_space s1;
          digits = takeWhile is_digit_char s2;
          rest = skip_re_space (dropWhile is_digit_char s2)
      in if digits = [] \<or> 2 < length digits then None
         else if rest = [] \<or> rest = [CHR 0x27] \<or> rest = prime_sign then Some digits
         else None)"

section \<open>Field parsers\<close>

definition parse_timer :: "go_string \<Rightarrow> bool \<Rightarrow> parsed_timer option" where
  "parse_timer s allow_bare =
     (case match_mmss s of
        Some (m, sec) \<Rightarrow>
          if digits_value sec < 60
          then Some \<lparr> pt_minute = digits_value m, pt_second = digits_value sec, pt_seconds_known = True \<rparr>
          else None
      | None \<Rightarrow>
          if allow_bare \<and> match_bare_minutes s
          then Some \<lparr> pt_minute = digits_value s, pt_second = 0, pt_seconds_known = False \<rparr>
          else None)"

definition embedded_period :: "bool \<Rightarrow> bool \<Rightarrow> bool \<Rightarrow> int \<Rightarrow> period" where
  "embedded_period has_et has_2h has_1h minute =
     (if has_2h then PeriodSecondHalf
      else if has_1h then PeriodFirstHalf
      else if has_et then period_of minute
      else PeriodUnknown)"

definition bool_count :: "bool list \<Rightarrow> int" where
  "bool_count values = int (length (filter (\<lambda>v. v) values))"

definition exact_reading :: clock_reading where
  "exact_reading = \<lparr> cr_frame_index = 0, cr_minute = 0, cr_alternatives = [], cr_period = PeriodUnknown,
     cr_period_pinned = False, cr_stoppage = False, cr_exact_minute = True, cr_ambiguous = False \<rparr>"

definition no_clock_texts :: "go_string list" where
  "no_clock_texts = ['''', ''NONE'', ''HT'', ''FT'', ''HALF TIME'', ''FULL TIME'']"

text \<open>The compact form, such as 45+2, with a base of digits and the captured minutes.\<close>

definition compact_reading ::
  "clock_reading \<Rightarrow> bool \<Rightarrow> bool \<Rightarrow> bool \<Rightarrow> go_string \<Rightarrow> go_string \<Rightarrow> clock_reading" where
  "compact_reading r has_et has_2h has_1h base_text added_text =
     (let base = digits_value base_text;
          minute = base + digits_value added_text;
          r1 = r\<lparr> cr_minute := minute, cr_period := period_of base, cr_period_pinned := True,
                  cr_stoppage := True \<rparr>;
          hinted = embedded_period has_et has_2h has_1h minute
      in if period_valid hinted \<and> hinted \<noteq> cr_period r1
         then r1\<lparr> cr_period := PeriodUnknown, cr_ambiguous := True \<rparr>
         else r1)"

text \<open>The relative-clock offsets a hint inside the timer text asks for.\<close>

definition hinted_reading ::
  "clock_reading \<Rightarrow> bool \<Rightarrow> bool \<Rightarrow> bool \<Rightarrow> int \<Rightarrow> clock_reading" where
  "hinted_reading r has_et has_2h has_1h shown =
     (let r1 = r\<lparr> cr_minute := shown, cr_period := period_of shown \<rparr> in
      if has_et then
        let minute = (if shown \<le> 30 then 90 + shown else shown) in
        r1\<lparr> cr_minute := minute, cr_period := period_of minute, cr_period_pinned := True \<rparr>
      else if has_2h then
        (if shown < 45 then r1\<lparr> cr_minute := 45 + shown \<rparr>
         else if shown = 45 then r1\<lparr> cr_alternatives := [90] \<rparr>
         else r1)\<lparr> cr_period := PeriodSecondHalf, cr_period_pinned := True \<rparr>
      else if has_1h then r1\<lparr> cr_period := PeriodFirstHalf, cr_period_pinned := True \<rparr>
      else r1)"

definition parse_clock_field :: "go_string \<Rightarrow> (clock_reading \<times> parsed_timer) option" where
  "parse_clock_field raw =
     (let t = to_upper (trim_space raw) in
      if t \<in> set no_clock_texts then None
      else
        let has_et = search_hint et_alternatives None t;
            has_2h = search_hint second_half_alternatives None t;
            has_1h = search_hint first_half_alternatives None t;
            r = exact_reading\<lparr> cr_ambiguous := 1 < bool_count [has_et, has_2h, has_1h] \<rparr>;
            clean = trim_space (remove_hints period_hint_alternatives None t)
        in (case match_compact_stoppage clean of
              Some (base, added, sec) \<Rightarrow>
                if sec \<noteq> [] \<and> 60 \<le> digits_value sec then None
                else Some (compact_reading r has_et has_2h has_1h base added, empty_timer)
            | None \<Rightarrow>
                (case parse_timer clean True of
                   None \<Rightarrow> None
                 | Some timer \<Rightarrow>
                     Some (hinted_reading r has_et has_2h has_1h (pt_minute timer), timer))))"

definition parse_added_field :: "go_string \<Rightarrow> int option" where
  "parse_added_field raw =
     (let t = to_upper (trim_space raw) in
      if t \<in> set ['''', ''NONE'', ''N/A''] then None
      else map_option digits_value (match_added t))"

definition trim_plus :: "go_string \<Rightarrow> go_string" where
  "trim_plus s = (case s of [] \<Rightarrow> [] | c # cs \<Rightarrow> if c = CHR ''+'' then cs else s)"

definition parse_stoppage_clock_field :: "go_string \<Rightarrow> int option" where
  "parse_stoppage_clock_field raw =
     (let t = trim_space (trim_plus (trim_space raw)) in
      if to_upper t \<in> set ['''', ''NONE'', ''N/A''] then None
      else (case parse_timer t False of
              None \<Rightarrow> None
            | Some timer \<Rightarrow> if pt_minute timer < 100 then Some (pt_minute timer) else None))"

section \<open>Period labels\<close>

text \<open>The superscript letters the label replacer rewrites, as UTF-8 bytes.\<close>

definition superscript_letters :: "(go_string \<times> go_string) list" where
  "superscript_letters =
     [([CHR 0xCB, CHR 0xA2], ''s''), ([CHR 0xE1, CHR 0xB5, CHR 0x97], ''t''),
      ([CHR 0xE1, CHR 0xB5, CHR 0x89], ''e''), ([CHR 0xCA, CHR 0xB3], ''r''),
      ([CHR 0xE1, CHR 0xB5, CHR 0x88], ''d''), ([CHR 0xE2, CHR 0x81, CHR 0xBF], ''n'')]"

fun replace_at :: "(go_string \<times> go_string) list \<Rightarrow> go_string \<Rightarrow> (go_string \<times> go_string) option" where
  "replace_at [] s = None"
| "replace_at ((old, new) # pairs) s =
     (case strip_prefix old s of
        Some rest \<Rightarrow> if length rest < length s then Some (new, rest) else replace_at pairs s
      | None \<Rightarrow> replace_at pairs s)"

lemma replace_at_shorter: "replace_at pairs s = Some (new, rest) \<Longrightarrow> length rest < length s"
  by (induction pairs s rule: replace_at.induct) (auto split: option.splits if_splits)

function replace_all :: "(go_string \<times> go_string) list \<Rightarrow> go_string \<Rightarrow> go_string" where
  "replace_all pairs [] = []"
| "replace_all pairs (c # s) =
     (case replace_at pairs (c # s) of
        Some (new, rest) \<Rightarrow> new @ replace_all pairs rest
      | None \<Rightarrow> c # replace_all pairs s)"
  by pat_completeness auto
termination
  by (relation "measure (\<lambda>(pairs, s). length s)") (auto dest: replace_at_shorter)

definition period_from_label :: "go_string \<Rightarrow> period option" where
  "period_from_label label =
     (let t = to_upper (filter (\<lambda>c. \<not> is_space_char c) (replace_all superscript_letters label)) in
      if t \<in> set [''1H'', ''H1'', ''1ST'', ''1RE'', ''1ER'', ''1P'', ''HALF1'', ''1STHALF'']
      then Some PeriodFirstHalf
      else if t \<in> set [''2H'', ''H2'', ''2ND'', ''2E'', ''2P'', ''HALF2'', ''2NDHALF'']
      then Some PeriodSecondHalf
      else if t \<in> set [''ET1'', ''1ET'', ''1STEXTRATIME''] then Some PeriodExtraFirst
      else if t \<in> set [''ET2'', ''2ET'', ''2NDEXTRATIME''] then Some PeriodExtraSecond
      else None)"

text \<open>The three results of \<open>framePeriodEvidence\<close>: no evidence, one period, or a conflict.\<close>

datatype period_evidence = NoPeriodEvidence | PeriodHint period | PeriodConflict

definition frame_period_evidence :: "frame_observation \<Rightarrow> period_evidence" where
  "frame_period_evidence f =
     (case fo_period_label f of
        Some label \<Rightarrow>
          let literal = period_from_label label in
          (case fo_period f of
             Some p \<Rightarrow>
               if literal = None \<or> \<not> period_valid p \<or> literal \<noteq> Some p then PeriodConflict
               else PeriodHint p
           | None \<Rightarrow> (case literal of None \<Rightarrow> NoPeriodEvidence | Some p \<Rightarrow> PeriodHint p))
      | None \<Rightarrow>
          (case fo_period f of
             None \<Rightarrow> NoPeriodEvidence
           | Some p \<Rightarrow> if period_valid p then PeriodHint p else PeriodConflict))"

section \<open>Composing one frame\<close>

text \<open>\<open>possibleMinutes\<close>: the interpretations of one reading, the primary first.\<close>

fun add_distinct :: "int list \<Rightarrow> int list \<Rightarrow> int list" where
  "add_distinct acc [] = acc"
| "add_distinct acc (c # cs) = (if c \<in> set acc then add_distinct acc cs else add_distinct (acc @ [c]) cs)"

definition possible_minutes :: "clock_reading \<Rightarrow> int list" where
  "possible_minutes r = add_distinct [cr_minute r] (cr_alternatives r)"

definition normalize_displayed_minute :: "int \<Rightarrow> period \<Rightarrow> int \<times> bool" where
  "normalize_displayed_minute minute p =
     (case p of
        PeriodFirstHalf \<Rightarrow> (minute, True)
      | PeriodSecondHalf \<Rightarrow> if minute < 45 then (45 + minute, True) else (minute, True)
      | PeriodExtraFirst \<Rightarrow>
          if minute \<le> 15 then (90 + minute, True)
          else if 90 \<le> minute then (minute, True)
          else (minute, False)
      | PeriodExtraSecond \<Rightarrow>
          if minute \<le> 15 then (105 + minute, True)
          else if minute \<le> 30 then (90 + minute, True)
          else if 105 \<le> minute then (minute, True)
          else (minute, False)
      | _ \<Rightarrow> (minute, False))"

definition boundary_alternatives :: "int \<Rightarrow> period \<Rightarrow> int \<Rightarrow> int list" where
  "boundary_alternatives displayed p primary =
     (if p = PeriodSecondHalf \<and> displayed = 45 then (if 90 = primary then [] else [90])
      else if p = PeriodExtraSecond \<and> displayed = 15 then (if 105 = primary then [] else [105])
      else [])"

text \<open>\<open>runningStoppageRecognitionMinutes\<close> and the ends the loop tries, in order.\<close>

definition running_stoppage_recognition_minutes :: int where
  "running_stoppage_recognition_minutes = 15"

definition period_ends :: "int list" where
  "period_ends = [45, 90, 105, 120]"

definition with_running_stoppage :: "clock_reading \<Rightarrow> go_string option \<Rightarrow> clock_reading" where
  "with_running_stoppage r added =
     (case added of
        None \<Rightarrow> r
      | Some text \<Rightarrow>
          if cr_period_pinned r \<or> cr_ambiguous r \<or> cr_stoppage r then r
          else (case parse_added_field text of
                  None \<Rightarrow> r
                | Some allowance \<Rightarrow>
                    if allowance \<le> 0 then r
                    else (case find (\<lambda>e. e < cr_minute r \<and>
                                 cr_minute r < e + running_stoppage_recognition_minutes) period_ends of
                            None \<Rightarrow> r
                          | Some e \<Rightarrow> r\<lparr> cr_period := period_of e, cr_period_pinned := True,
                                          cr_stoppage := True \<rparr>)))"

text \<open>The end minute of a period, which only the four known periods have.\<close>

fun period_end :: "period \<Rightarrow> int option" where
  "period_end PeriodFirstHalf = Some 45"
| "period_end PeriodSecondHalf = Some 90"
| "period_end PeriodExtraFirst = Some 105"
| "period_end PeriodExtraSecond = Some 120"
| "period_end _ = None"

definition frozen_boundary :: "clock_reading \<Rightarrow> parsed_timer \<Rightarrow> int option" where
  "frozen_boundary r timer =
     (if cr_ambiguous r \<or> cr_stoppage r \<or> \<not> pt_seconds_known timer \<or> pt_second timer \<noteq> 0 then None
      else (case period_end (cr_period r) of
              None \<Rightarrow> None
            | Some e \<Rightarrow> if e \<in> set (possible_minutes r) then Some e else None))"

text \<open>The period field or label merged into the reading of the main timer.\<close>

definition merge_period_evidence :: "clock_reading \<Rightarrow> period_evidence \<Rightarrow> clock_reading" where
  "merge_period_evidence r evidence =
     (case evidence of
        PeriodConflict \<Rightarrow> r\<lparr> cr_period := PeriodUnknown, cr_ambiguous := True \<rparr>
      | NoPeriodEvidence \<Rightarrow> r
      | PeriodHint hint \<Rightarrow>
          if cr_period_pinned r then
            (if cr_period r \<noteq> hint then r\<lparr> cr_period := PeriodUnknown, cr_ambiguous := True \<rparr> else r)
          else
            let displayed = cr_minute r;
                (minute, normalizable) = normalize_displayed_minute displayed hint
            in r\<lparr> cr_minute := minute,
                  cr_alternatives := boundary_alternatives displayed hint minute,
                  cr_period := hint, cr_period_pinned := True,
                  cr_ambiguous := cr_ambiguous r \<or> \<not> normalizable \<rparr>)"

definition optional_field :: "(go_string \<Rightarrow> int option) \<Rightarrow> go_string option \<Rightarrow> int option" where
  "optional_field parse field = (case field of None \<Rightarrow> None | Some raw \<Rightarrow> parse raw)"

text \<open>The auxiliary timers beside a frozen end boundary.\<close>

definition freeze_at_boundary :: "clock_reading \<Rightarrow> int \<Rightarrow> frame_observation \<Rightarrow> clock_reading" where
  "freeze_at_boundary r boundary f =
     (case optional_field parse_stoppage_clock_field (fo_stoppage_clock f) of
        Some stop \<Rightarrow> r\<lparr> cr_minute := boundary + stop, cr_alternatives := [], cr_stoppage := True \<rparr>
      | None \<Rightarrow>
          if optional_field parse_added_field (fo_added f) \<noteq> None
          then r\<lparr> cr_minute := boundary, cr_alternatives := [], cr_stoppage := True,
                  cr_exact_minute := False \<rparr>
          else r)"

definition parse_frame_clock :: "int \<Rightarrow> frame_observation \<Rightarrow> clock_reading option" where
  "parse_frame_clock i f =
     (case fo_clock f of
        None \<Rightarrow> None
      | Some raw \<Rightarrow>
          (case parse_clock_field raw of
             None \<Rightarrow> None
           | Some (r0, timer) \<Rightarrow>
               let r1 = merge_period_evidence (r0\<lparr> cr_frame_index := i \<rparr>) (frame_period_evidence f);
                   r2 = with_running_stoppage r1 (fo_added f)
               in Some (case frozen_boundary r2 timer of
                          None \<Rightarrow> r2
                        | Some boundary \<Rightarrow> freeze_at_boundary r2 boundary f)))"

section \<open>The clip verdict\<close>

datatype clip_outcome = OutcomeUnset | OutcomeVerified | OutcomeUnverified | OutcomeRejected

record expected_time =
  ex_elapsed :: int
  ex_extra :: int

record clip_evaluation =
  ev_outcome :: clip_outcome
  ev_matched_minute :: "int option"
  ev_reason :: go_string
  ev_soccer_votes :: int
  ev_screen_votes :: int
  ev_frame_count :: int
  ev_detected_minute :: "int option"
  ev_detected_period :: go_string
  ev_expected_minute :: int
  ev_expected_period :: go_string
  ev_clock_readings :: "clock_reading list"

definition verify_clip :: "clip_evaluation \<Rightarrow> int \<Rightarrow> go_string \<Rightarrow> clip_evaluation" where
  "verify_clip ev minute reason =
     ev\<lparr> ev_outcome := OutcomeVerified, ev_matched_minute := Some minute, ev_reason := reason \<rparr>"

definition expected_minute :: "expected_time \<Rightarrow> int" where
  "expected_minute ex = ex_elapsed ex + ex_extra ex - 1"

text \<open>The four flags of the loop over the readings.\<close>

record clock_scan =
  cs_soft_keep :: bool
  cs_unpinned :: bool
  cs_contradiction :: bool
  cs_has_exact :: bool

definition scan_start :: clock_scan where
  "scan_start = \<lparr> cs_soft_keep = False, cs_unpinned = False, cs_contradiction = False,
     cs_has_exact = False \<rparr>"

datatype scan_step = ScanContinue clock_scan | ScanVerified int go_string

fun direct_match :: "nat \<Rightarrow> int list \<Rightarrow> int \<Rightarrow> int \<Rightarrow> (int \<times> go_string) option" where
  "direct_match i [] expected tol = None"
| "direct_match i (m # ms) expected tol =
     (if \<bar>m - expected\<bar> \<le> tol
      then Some (m, if 0 < i then ''clock matches minute+period via alternate display convention''
                    else ''clock matches minute+period'')
      else direct_match (Suc i) ms expected tol)"

definition period_conflict_kept :: "clock_reading \<Rightarrow> expected_time \<Rightarrow> int \<Rightarrow> bool" where
  "period_conflict_kept r ex tol \<longleftrightarrow>
     list_ex (\<lambda>m. \<bar>m - expected_minute ex\<bar> \<le> tol \<and> cr_period r \<noteq> period_of (ex_elapsed ex) \<and>
        (\<not> (cr_period_pinned r \<or> cr_stoppage r) \<and> is_period_boundary m \<or>
         is_extra_time (period_of (ex_elapsed ex)) \<or> is_extra_time (cr_period r)))
       (possible_minutes r)"

definition scan_reading :: "expected_time \<Rightarrow> int \<Rightarrow> clock_scan \<Rightarrow> clock_reading \<Rightarrow> scan_step" where
  "scan_reading ex tol cs r =
     (if cr_ambiguous r then ScanContinue (cs\<lparr> cs_soft_keep := True \<rparr>)
      else if cr_stoppage r \<and> \<not> cr_exact_minute r \<and> cr_period r = period_of (ex_elapsed ex)
      then ScanContinue (cs\<lparr> cs_unpinned := True,
             cs_contradiction := cs_contradiction cs \<or> expected_minute ex + tol < cr_minute r \<rparr>)
      else
        let cs1 = cs\<lparr> cs_has_exact := cs_has_exact cs \<or> cr_exact_minute r \<rparr>;
            direct = (if cr_exact_minute r \<and> cr_period r = period_of (ex_elapsed ex)
                      then direct_match 0 (possible_minutes r) (expected_minute ex) tol else None)
        in (case direct of
              Some (m, reason) \<Rightarrow> ScanVerified m reason
            | None \<Rightarrow>
                if 0 < ex_extra ex \<and> \<not> cr_period_pinned r \<and>
                   \<bar>ex_elapsed ex + cr_minute r - expected_minute ex\<bar> \<le> tol
                then ScanVerified (ex_elapsed ex + cr_minute r) ''OCR leading-digit rebase''
                else ScanContinue (cs1\<lparr> cs_soft_keep :=
                       cs_soft_keep cs1 \<or> period_conflict_kept r ex tol \<rparr>)))"

fun scan_readings :: "expected_time \<Rightarrow> int \<Rightarrow> clock_scan \<Rightarrow> clock_reading list \<Rightarrow> scan_step" where
  "scan_readings ex tol cs [] = ScanContinue cs"
| "scan_readings ex tol cs (r # rs) =
     (case scan_reading ex tol cs r of
        ScanVerified m reason \<Rightarrow> ScanVerified m reason
      | ScanContinue cs' \<Rightarrow> scan_readings ex tol cs' rs)"

text \<open>The dash of the ambiguity reason, three bytes in UTF-8.\<close>

definition em_dash :: go_string where
  "em_dash = [CHR 0xE2, CHR 0x80, CHR 0x94]"

definition scan_verdict :: "clock_reading list \<Rightarrow> clock_scan \<Rightarrow> clip_outcome \<times> go_string" where
  "scan_verdict readings cs =
     (if readings = [] then (OutcomeUnverified, ''no clock visible'')
      else if cs_contradiction cs
      then (OutcomeRejected, ''frozen period boundary is later than expected window'')
      else if cs_soft_keep cs
      then (OutcomeUnverified, ''clock interpretation ambiguous '' @ em_dash @ '' kept, not clock-verified'')
      else if cs_unpinned cs \<and> \<not> cs_has_exact cs
      then (OutcomeUnverified, ''frozen boundary with no elapsed timer '' @ em_dash @ '' minute unverified'')
      else (OutcomeRejected, ''clock present but does not match expected (wrong minute or wrong half)''))"

fun collect_readings :: "int \<Rightarrow> frame_observation list \<Rightarrow> clock_reading list" where
  "collect_readings i [] = []"
| "collect_readings i (f # fs) =
     (case parse_frame_clock i f of
        None \<Rightarrow> collect_readings (i + 1) fs
      | Some r \<Rightarrow> r # collect_readings (i + 1) fs)"

definition votes :: "(frame_observation \<Rightarrow> bool) \<Rightarrow> frame_observation list \<Rightarrow> int" where
  "votes p frames = int (length (filter p frames))"

definition empty_evaluation :: "frame_observation list \<Rightarrow> clip_evaluation" where
  "empty_evaluation frames =
     \<lparr> ev_outcome = OutcomeUnset, ev_matched_minute = None, ev_reason = [], ev_soccer_votes = 0,
       ev_screen_votes = 0, ev_frame_count = int (length frames), ev_detected_minute = None,
       ev_detected_period = [], ev_expected_minute = 0, ev_expected_period = [],
       ev_clock_readings = [] \<rparr>"

definition evaluate_clip :: "frame_observation list \<Rightarrow> expected_time \<Rightarrow> int \<Rightarrow> clip_evaluation" where
  "evaluate_clip frames ex tol =
     (let ev0 = empty_evaluation frames in
      if frames = [] then ev0\<lparr> ev_outcome := OutcomeRejected, ev_reason := ''no frames'' \<rparr>
      else
        let ev1 = ev0\<lparr> ev_soccer_votes := votes fo_soccer frames,
                       ev_screen_votes := votes fo_screen frames \<rparr>;
            majority = int (length frames) div 2 + 1
        in if ev_soccer_votes ev1 < majority
           then ev1\<lparr> ev_outcome := OutcomeRejected, ev_reason := ''not soccer (minority soccer vote)'' \<rparr>
           else if majority \<le> ev_screen_votes ev1
           then ev1\<lparr> ev_outcome := OutcomeRejected,
                     ev_reason := ''screen recording (majority screen vote)'' \<rparr>
           else if ex_elapsed ex \<le> 0
           then ev1\<lparr> ev_outcome := OutcomeUnverified, ev_reason := ''API minute unavailable'' \<rparr>
           else
             let readings = collect_readings 0 frames;
                 ev2 = ev1\<lparr> ev_expected_minute := expected_minute ex,
                   ev_expected_period := period_string (period_of (ex_elapsed ex)),
                   ev_detected_minute := (if readings = [] then None else Some (cr_minute (last readings))),
                   ev_detected_period := (if readings = [] then [] else period_string (cr_period (last readings))),
                   ev_clock_readings := readings \<rparr>
             in (case scan_readings ex tol scan_start readings of
                   ScanVerified m reason \<Rightarrow> verify_clip ev2 m reason
                 | ScanContinue cs \<Rightarrow>
                     let (outcome, reason) = scan_verdict readings cs in
                     ev2\<lparr> ev_outcome := outcome, ev_reason := reason \<rparr>))"

section \<open>What a reading supports\<close>

text \<open>
  The specification of the loop over the readings. A reading whose stoppage is a lower bound
  supports no minute; an unambiguous reading of the right period supports each interpretation
  of its exact minute; a reading with no pinned period supports, for a stoppage goal, the
  minute with the dropped leading digits put back. Only minutes inside the window count.
\<close>

definition lower_bound_only :: "expected_time \<Rightarrow> clock_reading \<Rightarrow> bool" where
  "lower_bound_only ex r \<longleftrightarrow>
     cr_stoppage r \<and> \<not> cr_exact_minute r \<and> cr_period r = period_of (ex_elapsed ex)"

definition usable_reading :: "expected_time \<Rightarrow> clock_reading \<Rightarrow> bool" where
  "usable_reading ex r \<longleftrightarrow> \<not> cr_ambiguous r \<and> \<not> lower_bound_only ex r"

definition supports_minute :: "expected_time \<Rightarrow> int \<Rightarrow> clock_reading \<Rightarrow> int \<Rightarrow> bool" where
  "supports_minute ex tol r m \<longleftrightarrow>
     usable_reading ex r \<and> \<bar>m - expected_minute ex\<bar> \<le> tol \<and>
     (cr_exact_minute r \<and> cr_period r = period_of (ex_elapsed ex) \<and> m \<in> set (possible_minutes r) \<or>
      0 < ex_extra ex \<and> \<not> cr_period_pinned r \<and> m = ex_elapsed ex + cr_minute r)"

definition reading_flags :: "expected_time \<Rightarrow> int \<Rightarrow> clock_scan \<Rightarrow> clock_reading list \<Rightarrow> clock_scan" where
  "reading_flags ex tol cs rs =
     \<lparr> cs_soft_keep = (cs_soft_keep cs \<or>
         list_ex (\<lambda>r. cr_ambiguous r \<or> usable_reading ex r \<and> period_conflict_kept r ex tol) rs),
       cs_unpinned = (cs_unpinned cs \<or>
         list_ex (\<lambda>r. \<not> cr_ambiguous r \<and> lower_bound_only ex r) rs),
       cs_contradiction = (cs_contradiction cs \<or>
         list_ex (\<lambda>r. \<not> cr_ambiguous r \<and> lower_bound_only ex r \<and>
                      expected_minute ex + tol < cr_minute r) rs),
       cs_has_exact = (cs_has_exact cs \<or>
         list_ex (\<lambda>r. usable_reading ex r \<and> cr_exact_minute r) rs) \<rparr>"

lemma direct_match_None:
  "direct_match i ms expected tol = None \<longleftrightarrow> (\<forall>m\<in>set ms. tol < \<bar>m - expected\<bar>)"
  by (induction i ms expected tol rule: direct_match.induct) auto

lemma direct_match_Some:
  "direct_match i ms expected tol = Some (m, reason) \<Longrightarrow> m \<in> set ms \<and> \<bar>m - expected\<bar> \<le> tol"
  by (induction i ms expected tol rule: direct_match.induct) (auto split: if_splits)

lemma scan_reading_verified:
  assumes "scan_reading ex tol cs r = ScanVerified m reason"
  shows "supports_minute ex tol r m"
proof -
  have usable: "usable_reading ex r"
    using assms by (auto simp: scan_reading_def usable_reading_def lower_bound_only_def split: if_splits)
  show ?thesis
  proof (cases "if cr_exact_minute r \<and> cr_period r = period_of (ex_elapsed ex)
      then direct_match 0 (possible_minutes r) (expected_minute ex) tol else None")
    case None
    with assms usable show ?thesis
      by (auto simp: scan_reading_def Let_def supports_minute_def split: if_splits)
  next
    case (Some p)
    moreover obtain m' reason' where "p = (m', reason')" by (cases p)
    ultimately show ?thesis
      using assms usable
      by (auto simp: scan_reading_def Let_def supports_minute_def split: if_splits dest: direct_match_Some)
  qed
qed

lemma scan_reading_continue:
  assumes "scan_reading ex tol cs r = ScanContinue cs'"
  shows "(\<forall>m. \<not> supports_minute ex tol r m) \<and> cs' = reading_flags ex tol cs [r]"
proof (cases "usable_reading ex r")
  case False
  with assms show ?thesis
    by (auto simp: scan_reading_def supports_minute_def usable_reading_def lower_bound_only_def
        reading_flags_def split: if_splits)
next
  case True
  then have guards: "\<not> cr_ambiguous r" "\<not> (cr_stoppage r \<and> \<not> cr_exact_minute r \<and>
      cr_period r = period_of (ex_elapsed ex))"
    by (auto simp: usable_reading_def lower_bound_only_def)
  define direct where "direct = (if cr_exact_minute r \<and> cr_period r = period_of (ex_elapsed ex)
      then direct_match 0 (possible_minutes r) (expected_minute ex) tol else None)"
  have unfolded: "scan_reading ex tol cs r =
      (case direct of Some (m, reason) \<Rightarrow> ScanVerified m reason
       | None \<Rightarrow> if 0 < ex_extra ex \<and> \<not> cr_period_pinned r \<and>
                    \<bar>ex_elapsed ex + cr_minute r - expected_minute ex\<bar> \<le> tol
                 then ScanVerified (ex_elapsed ex + cr_minute r) ''OCR leading-digit rebase''
                 else ScanContinue (cs\<lparr> cs_has_exact := cs_has_exact cs \<or> cr_exact_minute r,
                   cs_soft_keep := cs_soft_keep cs \<or> period_conflict_kept r ex tol \<rparr>))"
    using guards by (auto simp: scan_reading_def direct_def Let_def split: option.splits)
  have none: "direct = None"
    using assms unfolded by (cases direct) auto
  then have "\<not> (0 < ex_extra ex \<and> \<not> cr_period_pinned r \<and>
      \<bar>ex_elapsed ex + cr_minute r - expected_minute ex\<bar> \<le> tol)"
    using assms unfolded by (auto split: if_splits)
  moreover from this none have "cs' = cs\<lparr> cs_has_exact := cs_has_exact cs \<or> cr_exact_minute r,
      cs_soft_keep := cs_soft_keep cs \<or> period_conflict_kept r ex tol \<rparr>"
    using assms unfolded by auto
  ultimately show ?thesis
    using none True
    by (auto simp: direct_def direct_match_None supports_minute_def reading_flags_def
        usable_reading_def split: if_splits)
qed

lemma reading_flags_Nil [simp]: "reading_flags ex tol cs [] = cs"
  by (simp add: reading_flags_def)

lemma reading_flags_Cons:
  "reading_flags ex tol (reading_flags ex tol cs [r]) rs = reading_flags ex tol cs (r # rs)"
  by (simp add: reading_flags_def disj_assoc)

lemma scan_readings_verified:
  "scan_readings ex tol cs rs = ScanVerified m reason \<Longrightarrow> \<exists>r\<in>set rs. supports_minute ex tol r m"
proof (induction rs arbitrary: cs)
  case (Cons r rs)
  then show ?case
    by (cases "scan_reading ex tol cs r") (auto dest: scan_reading_verified)
qed simp

lemma scan_readings_continue:
  "scan_readings ex tol cs rs = ScanContinue cs' \<Longrightarrow>
     (\<forall>r\<in>set rs. \<forall>m. \<not> supports_minute ex tol r m) \<and> cs' = reading_flags ex tol cs rs"
proof (induction rs arbitrary: cs)
  case (Cons r rs)
  then obtain cs1 where step: "scan_reading ex tol cs r = ScanContinue cs1"
    by (cases "scan_reading ex tol cs r") auto
  with Cons.prems have "scan_readings ex tol cs1 rs = ScanContinue cs'" by simp
  with Cons.IH scan_reading_continue [OF step] show ?case
    using reading_flags_Cons [of ex tol cs r rs] by auto
qed simp

definition some_support :: "expected_time \<Rightarrow> int \<Rightarrow> clock_reading list \<Rightarrow> bool" where
  "some_support ex tol rs \<longleftrightarrow> (\<exists>r\<in>set rs. \<exists>m. supports_minute ex tol r m)"

lemma scan_readings_support:
  "some_support ex tol rs \<longleftrightarrow> (\<exists>m reason. scan_readings ex tol cs rs = ScanVerified m reason)"
  unfolding some_support_def
proof (cases "scan_readings ex tol cs rs")
  case (ScanContinue cs')
  then show "(\<exists>r\<in>set rs. \<exists>m. supports_minute ex tol r m) \<longleftrightarrow>
      (\<exists>m reason. scan_readings ex tol cs rs = ScanVerified m reason)"
    using scan_readings_continue [OF ScanContinue] by auto
next
  case (ScanVerified m reason)
  then show "(\<exists>r\<in>set rs. \<exists>m. supports_minute ex tol r m) \<longleftrightarrow>
      (\<exists>m reason. scan_readings ex tol cs rs = ScanVerified m reason)"
    using scan_readings_verified [OF ScanVerified] by blast
qed

section \<open>The verdict as a specification\<close>

definition soccer_gates :: "frame_observation list \<Rightarrow> bool" where
  "soccer_gates frames \<longleftrightarrow>
     int (length frames) < 2 * votes fo_soccer frames \<and> 2 * votes fo_screen frames \<le> int (length frames)"

lemma soccer_gates_iff:
  "soccer_gates frames \<longleftrightarrow> frames \<noteq> [] \<and>
     \<not> votes fo_soccer frames < int (length frames) div 2 + 1 \<and>
     \<not> int (length frames) div 2 + 1 \<le> votes fo_screen frames"
proof (cases frames)
  case Nil
  then show ?thesis by (simp add: soccer_gates_def votes_def)
next
  case (Cons f fs)
  have "int (length frames) < 2 * v \<longleftrightarrow> \<not> v < int (length frames) div 2 + 1" for v by presburger
  moreover have "2 * v \<le> int (length frames) \<longleftrightarrow> \<not> int (length frames) div 2 + 1 \<le> v" for v
    by presburger
  ultimately show ?thesis using Cons by (simp add: soccer_gates_def)
qed

lemma evaluate_clip_gates_fail:
  "\<not> soccer_gates frames \<Longrightarrow> ev_outcome (evaluate_clip frames ex tol) = OutcomeRejected \<and>
     ev_matched_minute (evaluate_clip frames ex tol) = None"
  by (auto simp: soccer_gates_iff evaluate_clip_def Let_def empty_evaluation_def)

lemma evaluate_clip_no_minute:
  "soccer_gates frames \<Longrightarrow> ex_elapsed ex \<le> 0 \<Longrightarrow>
     ev_outcome (evaluate_clip frames ex tol) = OutcomeUnverified \<and>
     ev_matched_minute (evaluate_clip frames ex tol) = None"
  by (auto simp: soccer_gates_iff evaluate_clip_def Let_def empty_evaluation_def)

lemma evaluate_clip_closed:
  assumes "\<not> (soccer_gates frames \<and> 0 < ex_elapsed ex)"
  shows "ev_outcome (evaluate_clip frames ex tol) \<noteq> OutcomeVerified \<and>
    ev_matched_minute (evaluate_clip frames ex tol) = None"
proof (cases "soccer_gates frames")
  case True
  with assms have "ex_elapsed ex \<le> 0" by simp
  with True show ?thesis using evaluate_clip_no_minute [of frames ex tol] by simp
next
  case False
  then show ?thesis using evaluate_clip_gates_fail [of frames ex tol] by simp
qed

lemma evaluate_clip_scan:
  assumes "soccer_gates frames" "0 < ex_elapsed ex"
  shows "ev_outcome (evaluate_clip frames ex tol) =
      (case scan_readings ex tol scan_start (collect_readings 0 frames) of
         ScanVerified m reason \<Rightarrow> OutcomeVerified
       | ScanContinue cs \<Rightarrow> fst (scan_verdict (collect_readings 0 frames) cs)) \<and>
    ev_matched_minute (evaluate_clip frames ex tol) =
      (case scan_readings ex tol scan_start (collect_readings 0 frames) of
         ScanVerified m reason \<Rightarrow> Some m | ScanContinue cs \<Rightarrow> None)"
  using assms
  by (auto simp: soccer_gates_iff evaluate_clip_def Let_def empty_evaluation_def verify_clip_def
      split: scan_step.splits prod.splits)

lemma scan_verdict_not_verified: "fst (scan_verdict rs cs) \<noteq> OutcomeVerified"
  by (simp add: scan_verdict_def)

text \<open>C23: A clip is verified exactly when a strict majority of its frames shows soccer, at most
  half of them shows a screen recording, the provider gave a positive minute, and some frame's
  unambiguous clock reading supports a minute inside the tolerance window; a matched minute is
  reported exactly then.\<close>

theorem clip_verified_iff_supported:
  "(ev_outcome (evaluate_clip frames ex tol) = OutcomeVerified \<longleftrightarrow>
      int (length frames) < 2 * votes fo_soccer frames \<and>
      2 * votes fo_screen frames \<le> int (length frames) \<and> 0 < ex_elapsed ex \<and>
      (\<exists>r\<in>set (collect_readings 0 frames). \<exists>m. supports_minute ex tol r m)) \<and>
   (ev_matched_minute (evaluate_clip frames ex tol) \<noteq> None \<longleftrightarrow>
      ev_outcome (evaluate_clip frames ex tol) = OutcomeVerified)"
proof (cases "soccer_gates frames \<and> 0 < ex_elapsed ex")
  case False
  then have "(int (length frames) < 2 * votes fo_soccer frames \<and>
      2 * votes fo_screen frames \<le> int (length frames) \<and> 0 < ex_elapsed ex \<and> s) \<longleftrightarrow> False" for s
    unfolding soccer_gates_def by blast
  then show ?thesis using evaluate_clip_closed [OF False, of tol] by (simp only: simp_thms)
next
  case True
  then show ?thesis
    using evaluate_clip_scan [of frames ex tol] scan_readings_support [of ex tol "collect_readings 0 frames" scan_start]
    by (auto simp: soccer_gates_def some_support_def [symmetric] scan_verdict_not_verified
        split: scan_step.splits)
qed

text \<open>The matched minute of a verified clip is within the tolerance of the minute before the
  provider's elapsed plus extra time, and some reading of the clip supports it.\<close>

theorem matched_minute_is_supported:
  assumes "ev_matched_minute (evaluate_clip frames ex tol) = Some m"
  shows "\<bar>m - (ex_elapsed ex + ex_extra ex - 1)\<bar> \<le> tol \<and>
    (\<exists>r\<in>set (collect_readings 0 frames). supports_minute ex tol r m)"
proof -
  have "soccer_gates frames" "0 < ex_elapsed ex"
    using assms evaluate_clip_closed [of frames ex tol] by auto
  then have "\<exists>reason. scan_readings ex tol scan_start (collect_readings 0 frames) = ScanVerified m reason"
    using assms evaluate_clip_scan [of frames ex tol] by (auto split: scan_step.splits)
  then have "\<exists>r\<in>set (collect_readings 0 frames). supports_minute ex tol r m"
    using scan_readings_verified by blast
  then show ?thesis by (auto simp: supports_minute_def expected_minute_def)
qed

section \<open>Well-formed frame clocks\<close>

text \<open>The first absolute minute a clock of a period can show.\<close>

fun period_start :: "period \<Rightarrow> int" where
  "period_start PeriodSecondHalf = 45"
| "period_start PeriodExtraFirst = 90"
| "period_start PeriodExtraSecond = 105"
| "period_start _ = 0"

definition frame_clock_ok :: "clock_reading \<Rightarrow> bool" where
  "frame_clock_ok r \<longleftrightarrow>
     period_valid (cr_period r) \<and>
     list_all (\<lambda>m. period_start (cr_period r) \<le> m) (cr_minute r # cr_alternatives r) \<and>
     (cr_stoppage r \<longrightarrow> the (period_end (cr_period r)) \<le> cr_minute r) \<and>
     (\<not> cr_exact_minute r \<longrightarrow> cr_stoppage r \<and> cr_minute r = the (period_end (cr_period r)))"

lemma period_of_valid [simp]: "period_valid (period_of m)"
  by (simp add: period_of_def)

lemma period_start_of: "0 \<le> m \<Longrightarrow> period_start (period_of m) \<le> m"
  by (simp add: period_of_def)

lemma period_end_exists: "period_valid p \<Longrightarrow> \<exists>e. period_end p = Some e"
  by (cases p) auto

lemma period_start_less_end: "period_valid p \<Longrightarrow> period_start p < the (period_end p)"
  by (cases p) auto

lemma digits_value_nonneg_acc:
  "0 \<le> n \<Longrightarrow> list_all is_digit_char s \<Longrightarrow> 0 \<le> foldl (\<lambda>n c. n * 10 + digit_value c) n s"
  by (induction s arbitrary: n) (auto simp: is_digit_char_def digit_value_def)

lemma digits_value_nonneg: "list_all is_digit_char s \<Longrightarrow> 0 \<le> digits_value s"
  by (simp add: digits_value_def digits_value_nonneg_acc)

lemma digits_takeWhile: "list_all is_digit_char (takeWhile is_digit_char s)"
  by (induction s) auto

lemma match_compact_digits:
  "match_compact_stoppage s = Some (base, added, sec) \<Longrightarrow>
     base \<in> set [''45'', ''90'', ''105'', ''120''] \<and> list_all is_digit_char added"
proof -
  have any: "strip_any ps t = Some (p, rest) \<Longrightarrow> p \<in> set ps" for ps t p rest
    by (induction ps) (auto split: option.splits)
  assume m: "match_compact_stoppage s = Some (base, added, sec)"
  then obtain s1 where base: "strip_any [''45'', ''90'', ''105'', ''120''] s = Some (base, s1)"
    by (auto simp: match_compact_stoppage_def Let_def simp del: strip_any.simps
        split: option.splits prod.splits list.splits if_splits)
  with m have "\<exists>t. added = takeWhile is_digit_char t"
    by (auto simp: match_compact_stoppage_def Let_def simp del: strip_any.simps
        split: option.splits prod.splits list.splits if_splits)
  with any [OF base] show ?thesis using digits_takeWhile by auto
qed

lemma parse_timer_nonneg: "parse_timer s bare = Some timer \<Longrightarrow> 0 \<le> pt_minute timer"
proof -
  have "match_mmss s = Some (m, sec) \<Longrightarrow> list_all is_digit_char m" for m sec
    by (auto simp: match_mmss_def Let_def digits_takeWhile split: if_splits)
  then show "parse_timer s bare = Some timer \<Longrightarrow> 0 \<le> pt_minute timer"
    by (auto simp: parse_timer_def match_bare_minutes_def digits_value_nonneg
        split: option.splits if_splits)
qed

lemma match_added_digits: "match_added s = Some ds \<Longrightarrow> list_all is_digit_char ds"
  by (auto simp: match_added_def Let_def digits_takeWhile split: if_splits)

lemma parse_stoppage_nonneg: "parse_stoppage_clock_field s = Some n \<Longrightarrow> 0 \<le> n"
  by (auto simp: parse_stoppage_clock_field_def Let_def parse_timer_nonneg split: option.splits if_splits)

lemma compact_base_value:
  "base \<in> set [''45'', ''90'', ''105'', ''120''] \<Longrightarrow>
     digits_value base \<in> {45, 90, 105, 120}"
proof -
  have "digits_value ''45'' = 45" "digits_value ''90'' = 90" "digits_value ''105'' = 105"
    "digits_value ''120'' = 120" by code_simp+
  then show "base \<in> set [''45'', ''90'', ''105'', ''120''] \<Longrightarrow> ?thesis" by (auto simp del: One_nat_def)
qed

lemma period_end_of_base: "b \<in> {45, 90, 105, 120} \<Longrightarrow> period_end (period_of b) = Some b"
  by (auto simp: period_of_def)

lemma compact_reading_ok:
  assumes "base \<in> set [''45'', ''90'', ''105'', ''120'']" "list_all is_digit_char added"
    and "cr_exact_minute r" "cr_alternatives r = []"
    and "\<not> cr_ambiguous (compact_reading r a b c base added)"
  shows "frame_clock_ok (compact_reading r a b c base added)"
proof -
  define v where "v = digits_value base"
  define n where "n = digits_value added"
  have v: "v \<in> {45, 90, 105, 120}" unfolding v_def using assms(1) by (rule compact_base_value)
  have n: "0 \<le> n" unfolding n_def using assms(2) by (rule digits_value_nonneg)
  have "compact_reading r a b c base added = r\<lparr> cr_minute := v + n, cr_period := period_of v,
      cr_period_pinned := True, cr_stoppage := True \<rparr>"
    using assms(5) by (auto simp: compact_reading_def Let_def v_def n_def split: if_splits)
  moreover have "period_start (period_of v) \<le> v + n" using v n period_start_of [of v] by auto
  moreover have "the (period_end (period_of v)) \<le> v + n" using period_end_of_base [OF v] n by simp
  ultimately show ?thesis using assms(3,4) by (simp add: frame_clock_ok_def)
qed

lemma hinted_reading_ok:
  assumes "0 \<le> shown" "cr_exact_minute r" "\<not> cr_stoppage r" "cr_alternatives r = []"
    and "bool_count [a, b, c] \<le> 1"
  shows "frame_clock_ok (hinted_reading r a b c shown)"
  using assms
  by (auto simp: hinted_reading_def Let_def frame_clock_ok_def period_start_of)

lemma period_from_label_valid: "period_from_label label = Some p \<Longrightarrow> period_valid p"
  unfolding period_from_label_def Let_def by (metis option.distinct(1) option.inject period_valid.simps(3,4,5,6))

lemma frame_period_evidence_valid: "frame_period_evidence f = PeriodHint p \<Longrightarrow> period_valid p"
  using period_from_label_valid
  by (auto simp: frame_period_evidence_def Let_def split: option.splits if_splits)

lemma normalize_displayed_minute_start:
  assumes "0 \<le> m" "normalize_displayed_minute m p = (m', True)"
  shows "period_start p \<le> m'"
  using assms by (cases p) (auto simp: normalize_displayed_minute_def split: if_splits)

lemma boundary_alternatives_start: "list_all (\<lambda>m. period_start p \<le> m) (boundary_alternatives d p m)"
  by (simp add: boundary_alternatives_def)

text \<open>What the main timer guarantees before the period evidence is merged.\<close>

definition main_timer_ok :: "clock_reading \<Rightarrow> bool" where
  "main_timer_ok r \<longleftrightarrow> 0 \<le> cr_minute r \<and> cr_exact_minute r \<and>
     (\<not> cr_ambiguous r \<longrightarrow> frame_clock_ok r) \<and> (\<not> cr_period_pinned r \<longrightarrow> \<not> cr_stoppage r)"

lemma parse_clock_field_ok:
  assumes "parse_clock_field raw = Some (r, timer)"
  shows "main_timer_ok r"
proof -
  define t where "t = to_upper (trim_space raw)"
  define a where "a = search_hint et_alternatives None t"
  define b where "b = search_hint second_half_alternatives None t"
  define c where "c = search_hint first_half_alternatives None t"
  define r0 where "r0 = exact_reading\<lparr> cr_ambiguous := 1 < bool_count [a, b, c] \<rparr>"
  define clean where "clean = trim_space (remove_hints period_hint_alternatives None t)"
  have r0: "cr_exact_minute r0" "cr_alternatives r0 = []" "\<not> cr_stoppage r0"
    by (simp_all add: r0_def exact_reading_def)
  consider (compact) base added sec where "match_compact_stoppage clean = Some (base, added, sec)"
      "r = compact_reading r0 a b c base added"
    | (timed) tm where "parse_timer clean True = Some tm" "r = hinted_reading r0 a b c (pt_minute tm)"
    using assms
    by (auto simp: parse_clock_field_def Let_def t_def [symmetric] a_def [symmetric] b_def [symmetric]
        c_def [symmetric] r0_def [symmetric] clean_def [symmetric] split: option.splits if_splits)
  then show ?thesis
  proof cases
    case compact
    note digits = match_compact_digits [OF compact(1)]
    have "0 \<le> cr_minute r" "cr_exact_minute r" "cr_period_pinned r"
      using digits compact_base_value [of base] digits_value_nonneg [of added] r0
      by (auto simp: compact(2) compact_reading_def Let_def)
    then show ?thesis
      using compact_reading_ok [of base added r0 a b c] digits r0 compact(2)
      by (auto simp: main_timer_ok_def)
  next
    case timed
    have "0 \<le> cr_minute r" "cr_exact_minute r" "\<not> cr_stoppage r"
      using parse_timer_nonneg [OF timed(1)] r0
      by (auto simp: timed(2) hinted_reading_def Let_def)
    moreover have "cr_ambiguous r \<longleftrightarrow> 1 < bool_count [a, b, c]"
      by (simp add: timed(2) hinted_reading_def Let_def r0_def)
    ultimately show ?thesis
      using hinted_reading_ok [of "pt_minute tm" r0 a b c] parse_timer_nonneg [OF timed(1)] r0 timed(2)
      by (auto simp: main_timer_ok_def)
  qed
qed

lemma merge_period_evidence_ok:
  assumes "main_timer_ok r" and "\<And>p. evidence = PeriodHint p \<Longrightarrow> period_valid p"
  shows "main_timer_ok (merge_period_evidence r evidence)"
proof (cases evidence)
  case (PeriodHint hint)
  show ?thesis
  proof (cases "cr_period_pinned r")
    case True
    with assms(1) PeriodHint show ?thesis by (auto simp: merge_period_evidence_def main_timer_ok_def)
  next
    case False
    obtain m ok where norm: "normalize_displayed_minute (cr_minute r) hint = (m, ok)" by fastforce
    have "0 \<le> m" using norm assms(1)
      by (cases hint) (auto simp: normalize_displayed_minute_def main_timer_ok_def split: if_splits)
    moreover have "ok \<Longrightarrow> period_start hint \<le> m"
      using norm assms(1) normalize_displayed_minute_start [of "cr_minute r" hint m]
      by (simp add: main_timer_ok_def)
    moreover have "period_valid hint" using assms(2) PeriodHint by simp
    ultimately show ?thesis
      using False PeriodHint norm assms(1) boundary_alternatives_start
      by (auto simp: merge_period_evidence_def main_timer_ok_def frame_clock_ok_def Let_def)
  qed
qed (use assms(1) in \<open>auto simp: merge_period_evidence_def main_timer_ok_def\<close>)

lemma find_SomeD: "find P xs = Some x \<Longrightarrow> x \<in> set xs \<and> P x"
  by (induction xs) (auto split: if_splits)

text \<open>Recognising running stoppage changes the period and nothing else, for a positive
  allowance and a minute strictly between an end and fifteen minutes past it.\<close>

lemma with_running_stoppage_cases:
  obtains "with_running_stoppage r added = r"
  | e where "e \<in> {45, 90, 105, 120}" "e < cr_minute r" "cr_minute r < e + 15" "\<not> cr_ambiguous r"
      "\<not> cr_period_pinned r" "\<not> cr_stoppage r"
      "with_running_stoppage r added =
         r\<lparr> cr_period := period_of e, cr_period_pinned := True, cr_stoppage := True \<rparr>"
proof (cases "with_running_stoppage r added = r")
  case False
  then obtain e where found: "find (\<lambda>e. e < cr_minute r \<and>
      cr_minute r < e + running_stoppage_recognition_minutes) period_ends = Some e"
    and "with_running_stoppage r added =
         r\<lparr> cr_period := period_of e, cr_period_pinned := True, cr_stoppage := True \<rparr>"
    and "\<not> cr_ambiguous r" "\<not> cr_period_pinned r" "\<not> cr_stoppage r"
    by (auto simp: with_running_stoppage_def split: option.splits if_splits)
  with find_SomeD [OF found] that(2) [of e] show ?thesis
    by (simp add: period_ends_def running_stoppage_recognition_minutes_def del: find.simps)
qed (rule that(1))

lemma with_running_stoppage_ok:
  assumes "main_timer_ok r" "cr_alternatives r = [] \<or> cr_period_pinned r"
  shows "main_timer_ok (with_running_stoppage r added)"
proof (cases rule: with_running_stoppage_cases [of r added])
  case (2 e)
  have alts: "cr_alternatives r = []" using 2 assms(2) by simp
  have e: "period_end (period_of e) = Some e" using 2(1) by (rule period_end_of_base)
  moreover have "period_start (period_of e) \<le> cr_minute r"
    using 2 period_start_of [of e] by auto
  ultimately show ?thesis
    using 2 assms(1) alts by (auto simp: main_timer_ok_def frame_clock_ok_def)
qed (use assms in simp)

lemma freeze_at_boundary_ok:
  assumes "main_timer_ok r" "frozen_boundary r timer = Some b"
  shows "frame_clock_ok (freeze_at_boundary r b f)"
proof -
  have e: "period_end (cr_period r) = Some b" "\<not> cr_ambiguous r"
    using assms(2) by (auto simp: frozen_boundary_def split: option.splits if_splits)
  then have ok: "frame_clock_ok r" using assms(1) by (simp add: main_timer_ok_def)
  have "period_start (cr_period r) \<le> b"
    using period_start_less_end [of "cr_period r"] ok e by (simp add: frame_clock_ok_def)
  note start = this
  show ?thesis
  proof (cases "optional_field parse_stoppage_clock_field (fo_stoppage_clock f)")
    case None
    with start ok e show ?thesis by (simp add: freeze_at_boundary_def frame_clock_ok_def)
  next
    case (Some stop)
    then have "0 \<le> stop"
      by (auto simp: optional_field_def parse_stoppage_nonneg split: option.splits)
    moreover have "cr_exact_minute r" using assms(1) by (simp add: main_timer_ok_def)
    ultimately show ?thesis
      using Some start ok e by (simp add: freeze_at_boundary_def frame_clock_ok_def)
  qed
qed

lemma alternatives_only_pinned:
  assumes "parse_clock_field raw = Some (r, timer)"
  shows "cr_alternatives r = [] \<or> cr_period_pinned r"
  using assms
  by (auto simp: parse_clock_field_def Let_def compact_reading_def hinted_reading_def exact_reading_def
      split: option.splits if_splits)

lemma merge_alternatives_only_pinned:
  "cr_alternatives r = [] \<or> cr_period_pinned r \<Longrightarrow>
     cr_alternatives (merge_period_evidence r e) = [] \<or> cr_period_pinned (merge_period_evidence r e)"
  by (auto simp: merge_period_evidence_def Let_def split: period_evidence.splits prod.splits)

lemma main_timer_ok_frame_index: "main_timer_ok r \<Longrightarrow> main_timer_ok (r\<lparr> cr_frame_index := i \<rparr>)"
  by (simp add: main_timer_ok_def frame_clock_ok_def)

text \<open>An unambiguous reading of a frame names one of the four periods, shows no minute before
  that period's start in either display convention, and carries stoppage only at or past the
  period's end, at which a lower-bound reading stands exactly.\<close>

theorem frame_clock_wellformed:
  assumes "parse_frame_clock i f = Some r" "\<not> cr_ambiguous r"
  shows "frame_clock_ok r"
proof -
  obtain raw r0 timer where field: "fo_clock f = Some raw" "parse_clock_field raw = Some (r0, timer)"
    using assms(1) by (auto simp: parse_frame_clock_def split: option.splits)
  define r1 where "r1 = merge_period_evidence (r0\<lparr> cr_frame_index := i \<rparr>) (frame_period_evidence f)"
  define r2 where "r2 = with_running_stoppage r1 (fo_added f)"
  have r1: "main_timer_ok r1"
    unfolding r1_def using field(2) frame_period_evidence_valid
    by (intro merge_period_evidence_ok main_timer_ok_frame_index parse_clock_field_ok) auto
  have "cr_alternatives r1 = [] \<or> cr_period_pinned r1"
    unfolding r1_def using alternatives_only_pinned [OF field(2)]
    by (intro merge_alternatives_only_pinned) simp
  then have r2: "main_timer_ok r2" unfolding r2_def using r1 by (rule with_running_stoppage_ok [rotated])
  have "r = (case frozen_boundary r2 timer of None \<Rightarrow> r2 | Some b \<Rightarrow> freeze_at_boundary r2 b f)"
    using assms(1) field unfolding r2_def r1_def by (auto simp: parse_frame_clock_def Let_def)
  then show ?thesis
    using r2 assms(2) freeze_at_boundary_ok [OF r2]
    by (cases "frozen_boundary r2 timer") (auto simp: main_timer_ok_def)
qed

text \<open>A frame showing 45:00 in the first half beside a board of four minutes.\<close>

definition sample_frame :: frame_observation where
  "sample_frame = \<lparr> fo_soccer = True, fo_screen = False, fo_clock = Some ''45:00'', fo_period = None,
     fo_period_label = None, fo_added = Some ''+4'', fo_stoppage_clock = Some ''+1:48'' \<rparr>"

definition sample_reading :: clock_reading where
  "sample_reading = \<lparr> cr_frame_index = 0, cr_minute = 46, cr_alternatives = [],
     cr_period = PeriodFirstHalf, cr_period_pinned = False, cr_stoppage = True,
     cr_exact_minute = True, cr_ambiguous = False \<rparr>"

lemma sample_frame_reading: "parse_frame_clock 0 sample_frame = Some sample_reading"
  by code_simp

theorem frame_clock_wellformed_witness: "frame_clock_ok sample_reading"
  using frame_clock_wellformed [OF sample_frame_reading] by (simp add: sample_reading_def)

theorem matched_minute_is_supported_witness:
  "\<exists>r\<in>set (collect_readings 0 [sample_frame]).
     supports_minute \<lparr> ex_elapsed = 45, ex_extra = 2 \<rparr> 1 r 46"
  using matched_minute_is_supported [of "[sample_frame]" "\<lparr> ex_elapsed = 45, ex_extra = 2 \<rparr>" 1 46]
  by (simp add: evaluate_clip_def votes_def Let_def sample_frame_reading scan_reading_def scan_start_def
      sample_reading_def possible_minutes_def period_of_def expected_minute_def verify_clip_def
      sample_frame_def [THEN arg_cong, of fo_soccer] sample_frame_def [THEN arg_cong, of fo_screen])

section \<open>The verdict and the order of the frames\<close>

abbreviation forget_index :: "clock_reading \<Rightarrow> clock_reading" where
  "forget_index r \<equiv> r\<lparr> cr_frame_index := 0 \<rparr>"

lemma merge_period_evidence_index:
  "merge_period_evidence (r\<lparr> cr_frame_index := i \<rparr>) e = (merge_period_evidence r e)\<lparr> cr_frame_index := i \<rparr>"
  by (auto simp: merge_period_evidence_def Let_def split: period_evidence.splits prod.splits)

lemma with_running_stoppage_index:
  "with_running_stoppage (r\<lparr> cr_frame_index := i \<rparr>) a = (with_running_stoppage r a)\<lparr> cr_frame_index := i \<rparr>"
  by (auto simp: with_running_stoppage_def split: option.splits)

lemma possible_minutes_index [simp]: "possible_minutes (r\<lparr> cr_frame_index := i \<rparr>) = possible_minutes r"
  by (simp add: possible_minutes_def)

lemma frozen_boundary_index: "frozen_boundary (r\<lparr> cr_frame_index := i \<rparr>) timer = frozen_boundary r timer"
  by (cases "period_end (cr_period r)") (simp_all add: frozen_boundary_def)

lemma freeze_at_boundary_index:
  "freeze_at_boundary (r\<lparr> cr_frame_index := i \<rparr>) b f = (freeze_at_boundary r b f)\<lparr> cr_frame_index := i \<rparr>"
  by (auto simp: freeze_at_boundary_def split: option.splits)

lemmas index_simps = merge_period_evidence_index with_running_stoppage_index frozen_boundary_index
  freeze_at_boundary_index

lemma parse_frame_clock_index:
  "map_option forget_index (parse_frame_clock i f) = map_option forget_index (parse_frame_clock j f)"
  by (simp add: parse_frame_clock_def Let_def index_simps split: option.splits)

definition readings_of :: "frame_observation list \<Rightarrow> clock_reading list" where
  "readings_of frames = concat (map (\<lambda>f.
     case map_option forget_index (parse_frame_clock 0 f) of None \<Rightarrow> [] | Some r \<Rightarrow> [r]) frames)"

lemma collect_readings_forget: "map forget_index (collect_readings i frames) = readings_of frames"
proof (induction frames arbitrary: i)
  case (Cons f frames)
  then show ?case
    unfolding readings_of_def list.map concat.simps parse_frame_clock_index [of 0 f i]
    by (cases "parse_frame_clock i f") auto
qed (simp add: readings_of_def)

lemma reading_predicates_forget:
  "cr_ambiguous (forget_index r) = cr_ambiguous r"
  "usable_reading ex (forget_index r) = usable_reading ex r"
  "lower_bound_only ex (forget_index r) = lower_bound_only ex r"
  "supports_minute ex tol (forget_index r) = supports_minute ex tol r"
  "period_conflict_kept (forget_index r) ex tol = period_conflict_kept r ex tol"
  by (simp_all add: usable_reading_def lower_bound_only_def supports_minute_def [abs_def]
      period_conflict_kept_def)

lemma reading_flags_forget:
  "reading_flags ex tol cs (map forget_index rs) = reading_flags ex tol cs rs"
  by (simp add: reading_flags_def list_ex_iff reading_predicates_forget)

lemma some_support_forget: "some_support ex tol (map forget_index rs) = some_support ex tol rs"
  by (simp add: some_support_def reading_predicates_forget)

lemma reading_flags_set: "set rs = set rs' \<Longrightarrow> reading_flags ex tol cs rs = reading_flags ex tol cs rs'"
  by (simp add: reading_flags_def list_ex_iff)

text \<open>The outcome as a function of the gates and the set of readings.\<close>

definition outcome_spec :: "expected_time \<Rightarrow> int \<Rightarrow> clock_reading list \<Rightarrow> clip_outcome" where
  "outcome_spec ex tol rs =
     (if some_support ex tol rs then OutcomeVerified
      else fst (scan_verdict rs (reading_flags ex tol scan_start rs)))"

lemma evaluate_clip_outcome:
  "ev_outcome (evaluate_clip frames ex tol) =
     (if \<not> soccer_gates frames then OutcomeRejected
      else if ex_elapsed ex \<le> 0 then OutcomeUnverified
      else outcome_spec ex tol (readings_of frames))"
proof (cases "soccer_gates frames \<and> 0 < ex_elapsed ex")
  case True
  let ?rs = "collect_readings 0 frames"
  have empty: "readings_of frames = [] \<longleftrightarrow> ?rs = []"
    unfolding collect_readings_forget [of 0, symmetric] by simp
  have "outcome_spec ex tol (readings_of frames) = outcome_spec ex tol ?rs"
    unfolding outcome_spec_def scan_verdict_def empty
    unfolding collect_readings_forget [of 0, symmetric]
    by (simp add: some_support_forget reading_flags_forget)
  moreover have "ev_outcome (evaluate_clip frames ex tol) = outcome_spec ex tol ?rs"
  proof (cases "scan_readings ex tol scan_start ?rs")
    case (ScanContinue cs)
    then show ?thesis
      using True evaluate_clip_scan [of frames ex tol] scan_readings_support [of ex tol ?rs scan_start]
        scan_readings_continue [OF ScanContinue]
      by (simp add: outcome_spec_def)
  next
    case (ScanVerified m reason)
    then show ?thesis
      using True evaluate_clip_scan [of frames ex tol] scan_readings_support [of ex tol ?rs scan_start]
      by (simp add: outcome_spec_def)
  qed
  ultimately show ?thesis using True by simp
next
  case False
  then show ?thesis
    using evaluate_clip_gates_fail [of frames ex tol] evaluate_clip_no_minute [of frames ex tol] by auto
qed

text \<open>The verdict does not depend on the order in which the frames of a clip are listed.\<close>

theorem verdict_ignores_frame_order:
  assumes "mset frames = mset frames'"
  shows "ev_outcome (evaluate_clip frames ex tol) = ev_outcome (evaluate_clip frames' ex tol)"
proof -
  have frame_set: "set frames = set frames'" using assms by (rule mset_eq_setD)
  have gates: "soccer_gates frames = soccer_gates frames'"
    using mset_eq_length [OF assms] assms
    by (simp add: soccer_gates_def votes_def size_mset [symmetric] mset_filter del: size_mset)
  have readings: "set (readings_of frames) = set (readings_of frames')"
    using frame_set by (simp add: readings_of_def)
  then have "readings_of frames = [] \<longleftrightarrow> readings_of frames' = []"
    by (metis set_empty)
  then have "outcome_spec ex tol (readings_of frames) = outcome_spec ex tol (readings_of frames')"
    using readings reading_flags_set [OF readings]
    by (simp add: outcome_spec_def some_support_def scan_verdict_def)
  with gates show ?thesis by (simp add: evaluate_clip_outcome)
qed

definition other_frame :: frame_observation where
  "other_frame = sample_frame\<lparr> fo_clock := None, fo_soccer := False \<rparr>"

theorem verdict_ignores_frame_order_witness:
  "ev_outcome (evaluate_clip [sample_frame, other_frame, sample_frame] \<lparr> ex_elapsed = 45, ex_extra = 2 \<rparr> 1) =
   ev_outcome (evaluate_clip [other_frame, sample_frame, sample_frame] \<lparr> ex_elapsed = 45, ex_extra = 2 \<rparr> 1)"
  by (rule verdict_ignores_frame_order) simp

text \<open>A clip that passes the gates and has a provider minute is dropped exactly when it shows a
  clock, no reading supports the minute, and either a frozen boundary lies past the window or
  nothing asks to keep it: no ambiguous reading, no kept period conflict, and not a frozen
  boundary standing alone without an exact minute.\<close>

theorem clip_dropped_for_its_clock_iff:
  "(ev_outcome (evaluate_clip frames ex tol) = OutcomeRejected \<and> soccer_gates frames \<and> 0 < ex_elapsed ex) \<longleftrightarrow>
   (soccer_gates frames \<and> 0 < ex_elapsed ex \<and> readings_of frames \<noteq> [] \<and>
    \<not> some_support ex tol (readings_of frames) \<and>
    (let flags = reading_flags ex tol scan_start (readings_of frames) in
       cs_contradiction flags \<or>
       \<not> (cs_soft_keep flags \<or> cs_unpinned flags \<and> \<not> cs_has_exact flags)))"
  by (auto simp: evaluate_clip_outcome outcome_spec_def scan_verdict_def Let_def)

end
