(* ===== verification/Selection.thy ===== *)
theory Selection
  imports Clip ClipMatch Vision
begin

text \<open>
  Reversible clip selection: \<open>internal/domain/vision/evidence.go\<close> (the record of an accepted
  evaluation), \<open>internal/domain/video/selection_graph.go\<close> (validation of a snapshot of an event's
  clips and their lineage) and \<open>selection.go\<close> (the plan). The cache of comparisons is left out: it
  stores the value it would compute. Pointers that may be nil are options.
\<close>

section \<open>Accepted evidence\<close>

datatype go_float = GoNaN | GoInf bool | GoFinite rat

record evaluation_origin =
  eo_workflow_id :: go_string
  eo_run_id :: go_string
  eo_activity_id :: go_string
  eo_attempt :: int

record validation_evidence =
  ve_id :: uuid
  ve_event_id :: uuid
  ve_fixture_id :: int
  ve_md5 :: go_string
  ve_version :: int
  ve_evaluated_at :: instant
  ve_evaluator :: go_string
  ve_model :: go_string
  ve_prompt_sha256 :: go_string
  ve_schema_sha256 :: go_string
  ve_temperature :: "go_float option"
  ve_reasoning_effort :: go_string
  ve_origin :: evaluation_origin
  ve_expected :: expected_time
  ve_tolerance :: int
  ve_frame_positions :: "go_float list"
  ve_frame_quality :: int
  ve_frames :: "frame_observation list"
  ve_evaluation :: clip_evaluation

definition max_evidence_bytes :: nat where
  "max_evidence_bytes = 16 * 1024"

fun positions_valid :: "rat option \<Rightarrow> go_float list \<Rightarrow> bool" where
  "positions_valid previous [] = True"
| "positions_valid previous (GoFinite p # ps) =
     (0 \<le> p \<and> (case previous of None \<Rightarrow> True | Some q \<Rightarrow> q < p) \<and> positions_valid (Some p) ps)"
| "positions_valid previous (_ # ps) = False"

definition digest_decodes :: "nat \<Rightarrow> go_string \<Rightarrow> bool" where
  "digest_decodes n s \<longleftrightarrow> hex_decodes s \<and> length s div 2 = n"

text \<open>The length of the record's JSON text, or none when it cannot be encoded, is an argument.\<close>

definition validate_evidence ::
  "(validation_evidence \<Rightarrow> nat option) \<Rightarrow> validation_evidence \<Rightarrow> unit result" where
  "validate_evidence json_length e =
     (if ve_id e = 0 \<or> ve_version e \<noteq> 1 \<or> ve_evaluated_at e = 0 \<or> ve_evaluator e = ''''
      then Err ''missing validation identity, version or evaluation time''
      else if ve_event_id e = 0 \<or> ve_fixture_id e \<le> 0 \<or> \<not> digest_decodes 16 (ve_md5 e)
      then Err ''invalid validation event or exact content identity''
      else if ve_frames e = [] \<or> length (ve_frames e) > 3 \<or> length (ve_frame_positions e) \<noteq> 3 \<or>
        ev_frame_count (ve_evaluation e) \<noteq> int (length (ve_frames e)) \<or> ve_tolerance e < 0 \<or> ex_extra (ve_expected e) < 0
      then Err ''invalid validation sampling or clock context''
      else if \<not> positions_valid None (ve_frame_positions e) then Err ''invalid validation sample positions''
      else if (ev_outcome (ve_evaluation e) \<noteq> OutcomeVerified \<and> ev_outcome (ve_evaluation e) \<noteq> OutcomeUnverified) \<or>
        (ev_outcome (ve_evaluation e) = OutcomeVerified) \<noteq> (ev_matched_minute (ve_evaluation e) \<noteq> None)
      then Err ''validation evidence must describe its own accepted verdict''
      else if \<not> digest_decodes 32 (ve_prompt_sha256 e) \<or> \<not> digest_decodes 32 (ve_schema_sha256 e)
      then Err ''invalid validation contract digest''
      else if (case ve_temperature e of None \<Rightarrow> False | Some (GoFinite v) \<Rightarrow> v < 0 \<or> 2 < v | Some _ \<Rightarrow> True)
      then Err ''invalid validation temperature''
      else if ve_reasoning_effort e \<notin> set ['''', ''none'', ''low'', ''medium'', ''high'']
      then Err ''invalid validation reasoning effort''
      else case json_length e of
        None \<Rightarrow> Err ''validation evidence is not bounded JSON''
      | Some n \<Rightarrow> if max_evidence_bytes < n then Err ''validation evidence is not bounded JSON'' else Ok ())"

section \<open>Snapshots\<close>

record selection_policy =
  sp_max_hamming :: int
  sp_min_run :: int
  sp_max_gaps :: int
  sp_long_max_hamming :: int
  sp_long_min_run :: int
  sp_long_max_gaps :: int

definition matcher_valid :: "int \<Rightarrow> int \<Rightarrow> int \<Rightarrow> bool" where
  "matcher_valid h n g \<longleftrightarrow> 0 \<le> h \<and> h \<le> 64 \<and> 0 < n \<and> 0 \<le> g \<and> g < n"

definition selection_policy_valid :: "selection_policy \<Rightarrow> bool" where
  "selection_policy_valid p \<longleftrightarrow> matcher_valid (sp_max_hamming p) (sp_min_run p) (sp_max_gaps p) \<and>
     (sp_long_min_run p \<noteq> 0 \<longrightarrow> matcher_valid (sp_long_max_hamming p) (sp_long_min_run p) (sp_long_max_gaps p)) \<and>
     (sp_long_min_run p = 0 \<longrightarrow> sp_long_max_hamming p = 0 \<and> sp_long_max_gaps p = 0)"

text \<open>A node always has an asset: a nil asset is \<open>None\<close> in the snapshot and refused.\<close>

record selection_node =
  sn_asset :: video_asset
  sn_share :: "video_share option"
  sn_validation :: "validation_evidence option"

record selection_source =
  ss_id :: uuid
  ss_observed :: uuid
  ss_credited :: uuid

record selection_snapshot =
  sl_event_id :: uuid
  sl_fixture_id :: int
  sl_removed :: bool
  sl_nodes :: "selection_node option list"
  sl_sources :: "selection_source list"

definition selection_acceptance :: "selection_node \<Rightarrow> bool \<times> bool \<times> int option" where
  "selection_acceptance n =
     (case sn_share n of
        Some s \<Rightarrow> (vs_state s \<noteq> ShareRemoved, vs_timestamp_verified s, vs_extracted_minute s)
      | None \<Rightarrow> (case sn_validation n of
          Some e \<Rightarrow> (True, ev_outcome (ve_evaluation e) = OutcomeVerified, ev_matched_minute (ve_evaluation e))
        | None \<Rightarrow> (False, False, None)))"

definition selection_quality :: "selection_node \<Rightarrow> clip_quality" where
  "selection_quality n =
     \<lparr> cq_duration_ms = va_duration_ms (sn_asset n), cq_bitrate = va_bitrate (sn_asset n),
       cq_width = va_width (sn_asset n), cq_height = va_height (sn_asset n) \<rparr>"

section \<open>The graph\<close>

record selection_graph =
  sg_nodes :: "selection_node list"
  sg_roots :: "nat list"
  sg_eligible :: "bool list"
  sg_selected :: "nat list"
  sg_policy :: selection_policy

definition node_index :: "selection_node list \<Rightarrow> uuid \<Rightarrow> nat option" where
  "node_index nodes k =
     (let hits = filter (\<lambda>i. va_id (sn_asset (nodes ! i)) = k) [0..<length nodes]
      in if hits = [] then None else Some (hd hits))"

text \<open>The walk along recorded ownership. It stops with an error at the first node seen again, so the set
  of unseen nodes bounds it.\<close>

function lineage_root :: "selection_node list \<Rightarrow> nat set \<Rightarrow> nat \<Rightarrow> nat result" where
  "lineage_root nodes seen i =
     (if length nodes \<le> i then Err ''index out of range''
      else case va_superseded_by (sn_asset (nodes ! i)) of
        None \<Rightarrow> Ok i
      | Some owner \<Rightarrow>
          if i \<in> seen then Err ''selection lineage cycle''
          else case node_index nodes owner of
            None \<Rightarrow> Err ''selection lineage outside event''
          | Some next_node \<Rightarrow> lineage_root nodes (insert i seen) next_node)"
  by pat_completeness auto
termination
proof (relation "measure (\<lambda>(nodes, seen, i). card ({..<length nodes} - seen))")
  fix nodes :: "selection_node list" and seen i owner next_node
  assume "\<not> length nodes \<le> i" "i \<notin> seen"
  then have "i \<in> {..<length nodes} - seen" by simp
  then have "card ({..<length nodes} - insert i seen) < card ({..<length nodes} - seen)"
    by (intro psubset_card_mono) auto
  then show "((nodes, insert i seen, next_node), nodes, seen, i) \<in> measure (\<lambda>(nodes, seen, i). card ({..<length nodes} - seen))"
    by simp
qed simp

declare lineage_root.simps [simp del]

definition root_of :: "selection_node list \<Rightarrow> nat \<Rightarrow> nat result" where
  "root_of nodes i = lineage_root nodes {} i"

text \<open>The order of the nodes: detection time, then the text of the identity, which is the order of the
  128-bit words.\<close>

definition sort_nodes :: "selection_node list \<Rightarrow> selection_node list" where
  "sort_nodes nodes = sort_key (\<lambda>n. (va_first_seen_at (sn_asset n), va_id (sn_asset n))) nodes"

definition hex_char :: "nat \<Rightarrow> char" where
  "hex_char n = ''0123456789abcdef'' ! n"

definition hex_encode :: "8 word list \<Rightarrow> go_string" where
  "hex_encode bs = concat (map (\<lambda>b. [hex_char (unat b div 16), hex_char (unat b mod 16)]) bs)"

definition validate_node ::
  "(validation_evidence \<Rightarrow> nat option) \<Rightarrow> selection_snapshot \<Rightarrow> selection_node \<Rightarrow> uuid list \<times> go_string list \<Rightarrow>
   (uuid list \<times> go_string list) result" where
  "validate_node json_length s n = (\<lambda>(ids, md5s).
     let a = sn_asset n; md5 = hex_encode (va_md5 a)
     in bind_result (validate_asset a) (\<lambda>_.
        if va_event_id a \<noteq> sl_event_id s \<or> va_fixture_id a \<noteq> sl_fixture_id s
        then Err ''selection asset scope mismatch''
        else if va_id a \<in> set ids then Err ''duplicate selection asset''
        else if md5 \<in> set md5s then Err ''duplicate selection MD5''
        else if (case sn_share n of None \<Rightarrow> False | Some sh \<Rightarrow>
          vs_asset_id sh \<noteq> va_id a \<or> vs_event_id sh \<noteq> sl_event_id s \<or> \<not> share_state_valid (vs_state sh))
        then Err ''selection share scope or state mismatch''
        else case sn_validation n of
          None \<Rightarrow> Ok (va_id a # ids, md5 # md5s)
        | Some e \<Rightarrow> bind_result (validate_evidence json_length e) (\<lambda>_.
            if ve_event_id e \<noteq> sl_event_id s \<or> ve_fixture_id e \<noteq> sl_fixture_id s \<or> ve_md5 e \<noteq> md5
            then Err ''selection validation scope mismatch''
            else Ok (va_id a # ids, md5 # md5s))))"

definition node_eligible :: "uuid list \<Rightarrow> selection_node \<Rightarrow> bool" where
  "node_eligible ready n \<longleftrightarrow>
     fst (selection_acceptance n) \<and> va_id (sn_asset n) \<in> set ready \<and> va_reclaimed_at (sn_asset n) = None"

definition classify_node ::
  "selection_node list \<Rightarrow> uuid list \<Rightarrow> nat \<Rightarrow> nat list \<times> bool list \<times> nat list \<Rightarrow> (nat list \<times> bool list \<times> nat list) result" where
  "classify_node nodes ready i = (\<lambda>(roots, eligible, selected).
     let n = nodes ! i; active = (case sn_share n of None \<Rightarrow> False | Some sh \<Rightarrow> vs_state sh = ShareActive);
         ok = node_eligible ready n
     in if va_superseded_by (sn_asset n) = None \<and> (\<not> active \<or> \<not> ok) then Err ''selected media not prepared''
        else if va_superseded_by (sn_asset n) \<noteq> None \<and> active then Err ''hidden asset has active share''
        else bind_result (root_of nodes i) (\<lambda>root.
          Ok (roots @ [root], eligible @ [ok],
              if va_superseded_by (sn_asset n) = None then selected @ [i] else selected)))"

definition validate_credit ::
  "selection_node list \<Rightarrow> nat list \<Rightarrow> selection_source \<Rightarrow> uuid list \<times> nat list \<Rightarrow> (uuid list \<times> nat list) result" where
  "validate_credit nodes roots source = (\<lambda>(seen, observed).
     case (node_index nodes (ss_observed source), node_index nodes (ss_credited source)) of
       (Some i, Some owner) \<Rightarrow>
         if ss_id source = 0 \<or> ss_id source \<in> set seen \<or> roots ! i \<noteq> owner
         then Err ''incomplete or inconsistent source attribution''
         else Ok (ss_id source # seen, observed[i := observed ! i + 1])
     | _ \<Rightarrow> Err ''incomplete or inconsistent source attribution'')"

definition validate_credits :: "selection_node list \<Rightarrow> nat list \<Rightarrow> selection_source list \<Rightarrow> unit result" where
  "validate_credits nodes roots sources =
     bind_result (fold_result (validate_credit nodes roots) sources ([], replicate (length nodes) 0)) (\<lambda>(_, observed).
       if 0 \<in> set observed then Err ''incomplete or inconsistent source attribution'' else Ok ())"

definition new_selection_graph ::
  "(validation_evidence \<Rightarrow> nat option) \<Rightarrow> selection_snapshot \<Rightarrow> selection_policy \<Rightarrow> uuid list \<Rightarrow> selection_graph result" where
  "new_selection_graph json_length s policy prepared =
     (if sl_event_id s = 0 \<or> sl_fixture_id s \<le> 0 then Err ''invalid selection scope''
      else if None \<in> set (sl_nodes s) then Err ''nil selection asset''
      else
        let nodes = sort_nodes (map the (sl_nodes s))
        in bind_result (fold_result (validate_node json_length s) nodes ([], [])) (\<lambda>(ids, _).
           if \<not> set prepared \<subseteq> set ids then Err ''prepared asset outside selection snapshot''
           else bind_result (fold_result (classify_node nodes prepared) [0..<length nodes] ([], [], []))
             (\<lambda>(roots, eligible, selected).
               bind_result (validate_credits nodes roots (sl_sources s)) (\<lambda>_.
                 Ok \<lparr> sg_nodes = nodes, sg_roots = roots, sg_eligible = eligible, sg_selected = selected,
                      sg_policy = policy \<rparr>))))"

definition graph_matches :: "selection_graph \<Rightarrow> nat \<Rightarrow> nat \<Rightarrow> bool" where
  "graph_matches g i j =
     (if i = j then True
      else let p = sg_policy g in
        (case (selection_acceptance (sg_nodes g ! i), selection_acceptance (sg_nodes g ! j)) of
           ((ak, av, _), (bk, bv, _)) \<Rightarrow>
             ak \<and> bk \<and> av = bv \<and>
             compatible_frame_hash_versions (va_hash_version (sn_asset (sg_nodes g ! i))) (va_hash_version (sn_asset (sg_nodes g ! j))) \<and>
             (clip_match (va_hashes (sn_asset (sg_nodes g ! i))) (va_hashes (sn_asset (sg_nodes g ! j)))
                (sp_max_hamming p) (sp_min_run p) (sp_max_gaps p) \<or>
              0 < sp_long_min_run p \<and>
              clip_match (va_hashes (sn_asset (sg_nodes g ! i))) (va_hashes (sn_asset (sg_nodes g ! j)))
                (sp_long_max_hamming p) (sp_long_min_run p) (sp_long_max_gaps p))))"

definition graph_supported :: "selection_graph \<Rightarrow> nat \<Rightarrow> nat list \<Rightarrow> bool" where
  "graph_supported g observed selected \<longleftrightarrow> list_ex (graph_matches g observed) selected"

section \<open>The plan\<close>

record selection_owner =
  so_asset :: uuid
  so_keeper :: uuid
  so_direct :: bool

record selected_clip =
  sc_asset :: uuid
  sc_popularity :: int
  sc_verified :: bool
  sc_minute :: "int option"

definition selection_version :: go_string where
  "selection_version = ''direct-restoration-support-v2''"

record selection_plan =
  pn_version :: go_string
  pn_owners :: "selection_owner list"
  pn_selected :: "selected_clip list"
  pn_restored :: "uuid list"
  pn_ineligible :: "uuid list"

definition node_id :: "selection_graph \<Rightarrow> nat \<Rightarrow> uuid" where
  "node_id g i = va_id (sn_asset (sg_nodes g ! i))"

definition restore_node ::
  "selection_graph \<Rightarrow> nat list \<times> uuid list \<times> uuid list \<Rightarrow> nat \<Rightarrow> nat list \<times> uuid list \<times> uuid list" where
  "restore_node g = (\<lambda>(selected, restored, ineligible) i.
     if \<not> sg_eligible g ! i then (selected, restored, ineligible @ [node_id g i])
     else if \<not> graph_supported g i selected then (selected @ [i], restored @ [node_id g i], ineligible)
     else (selected, restored, ineligible))"

definition better_owner :: "selection_graph \<Rightarrow> nat \<Rightarrow> nat option \<Rightarrow> nat \<Rightarrow> nat option" where
  "better_owner g i owner candidate =
     (if graph_matches g i candidate \<and>
         (case owner of None \<Rightarrow> True
          | Some k \<Rightarrow> is_upgrade (selection_quality (sg_nodes g ! candidate)) (selection_quality (sg_nodes g ! k)))
      then Some candidate else owner)"

definition node_owner :: "selection_graph \<Rightarrow> nat list \<Rightarrow> nat \<Rightarrow> nat option" where
  "node_owner g selected i =
     (if i \<in> set selected then Some i
      else if \<not> sg_eligible g ! i then Some (sg_roots g ! i)
      else if sg_roots g ! i \<in> set selected \<and> graph_matches g i (sg_roots g ! i) then Some (sg_roots g ! i)
      else foldl (better_owner g i) None selected)"

definition plan_owner :: "selection_graph \<Rightarrow> nat list \<Rightarrow> nat \<Rightarrow> selection_owner list \<Rightarrow> selection_owner list result" where
  "plan_owner g selected i owners =
     (case node_owner g selected i of
        None \<Rightarrow> Err ''no selected owner''
      | Some k \<Rightarrow> Ok (owners @ [\<lparr> so_asset = node_id g i, so_keeper = node_id g k,
          so_direct = (i \<noteq> k \<and> sg_eligible g ! i \<and> graph_matches g i k) \<rparr>]))"

definition exact_counts :: "selection_node list \<Rightarrow> selection_source list \<Rightarrow> int list" where
  "exact_counts nodes sources =
     foldl (\<lambda>counts source. case node_index nodes (ss_observed source) of
              None \<Rightarrow> counts[0 := counts ! 0 + 1] | Some i \<Rightarrow> counts[i := counts ! i + 1])
       (replicate (length nodes) 0) sources"

definition support_count :: "selection_graph \<Rightarrow> int list \<Rightarrow> nat \<Rightarrow> int" where
  "support_count g exact i =
     foldl (\<lambda>count observed. if graph_matches g observed i then count + exact ! observed else count) 0
       [0..<length exact]"

definition plan_clip :: "selection_graph \<Rightarrow> int list \<Rightarrow> nat \<Rightarrow> selected_clip list \<Rightarrow> selected_clip list result" where
  "plan_clip g exact i clips =
     (let count = support_count g exact i
      in if count < 1 then Err ''incomplete or inconsistent source attribution''
         else case selection_acceptance (sg_nodes g ! i) of (_, verified, minute) \<Rightarrow>
           Ok (clips @ [\<lparr> sc_asset = node_id g i, sc_popularity = count, sc_verified = verified, sc_minute = minute \<rparr>]))"

definition plan_selection ::
  "(validation_evidence \<Rightarrow> nat option) \<Rightarrow> selection_snapshot \<Rightarrow> selection_policy \<Rightarrow> uuid list \<Rightarrow> selection_plan result" where
  "plan_selection json_length s policy prepared =
     (if sl_removed s then Err ''selection event removed''
      else if \<not> selection_policy_valid policy then Err ''invalid selection matcher policy''
      else bind_result (new_selection_graph json_length s policy prepared) (\<lambda>g.
        case foldl (restore_node g) (sg_selected g, [], []) [0..<length (sg_nodes g)] of
          (selected, restored, ineligible) \<Rightarrow>
            bind_result (fold_result (plan_owner g selected) [0..<length (sg_nodes g)] []) (\<lambda>owners.
              bind_result (fold_result (plan_clip g (exact_counts (sg_nodes g) (sl_sources s))) selected []) (\<lambda>clips.
                Ok \<lparr> pn_version = selection_version, pn_owners = owners, pn_selected = clips, pn_restored = restored, pn_ineligible = ineligible \<rparr>))))"

text \<open>The token of a snapshot; the JSON text and its digest are arguments, the text may fail.\<close>

definition selection_fingerprint ::
  "(selection_snapshot \<Rightarrow> 'a option) \<Rightarrow> ('a \<Rightarrow> 8 word list) \<Rightarrow> selection_snapshot \<Rightarrow> go_string result" where
  "selection_fingerprint json sha256 s =
     (if None \<in> set (sl_nodes s) then Err ''nil selection asset''
      else case json (s\<lparr> sl_nodes := sort_key (\<lambda>n. va_id (sn_asset (the n))) (sl_nodes s),
                        sl_sources := sort_key ss_id (sl_sources s) \<rparr>) of
        None \<Rightarrow> Err ''json'' | Some text \<Rightarrow> Ok (hex_encode (sha256 text)))"

section \<open>The lineage walk\<close>

definition owned_by :: "selection_node list \<Rightarrow> (nat \<times> nat) set" where
  "owned_by nodes = {(i, j). i < length nodes \<and>
     (\<exists>owner. va_superseded_by (sn_asset (nodes ! i)) = Some owner \<and> node_index nodes owner = Some j)}"

definition unowned :: "selection_node list \<Rightarrow> nat \<Rightarrow> bool" where
  "unowned nodes i \<longleftrightarrow> i < length nodes \<and> va_superseded_by (sn_asset (nodes ! i)) = None"

lemma owned_by_unique: "(i, j) \<in> owned_by nodes \<Longrightarrow> (i, k) \<in> owned_by nodes \<Longrightarrow> j = k"
  by (auto simp: owned_by_def)

lemma unowned_stops: "unowned nodes i \<Longrightarrow> (i, j) \<notin> owned_by nodes"
  by (auto simp: owned_by_def unowned_def)

lemma lineage_root_sound:
  "lineage_root nodes seen i = Ok r \<Longrightarrow> (i, r) \<in> (owned_by nodes)\<^sup>* \<and> unowned nodes r"
proof (induction nodes seen i rule: lineage_root.induct)
  case (1 nodes seen i)
  show ?case
  proof (cases "va_superseded_by (sn_asset (nodes ! i))")
    case None
    then show ?thesis using "1.prems" by (simp add: lineage_root.simps [of nodes seen i] unowned_def split: if_splits)
  next
    case (Some owner)
    then obtain j where j: "\<not> length nodes \<le> i" "i \<notin> seen" "node_index nodes owner = Some j"
        "lineage_root nodes (insert i seen) j = Ok r"
      using "1.prems" by (auto simp: lineage_root.simps [of nodes seen i] split: if_splits option.splits)
    then have "(i, j) \<in> owned_by nodes" using Some by (simp add: owned_by_def)
    then show ?thesis
      using "1.IH" [OF j(1) Some j(2,3,4)] by (meson converse_rtrancl_into_rtrancl)
  qed
qed

text \<open>Ownership is a function, so a node that reaches a root is on no cycle.\<close>

lemma root_not_on_cycle:
  assumes "(i, r) \<in> (owned_by nodes)\<^sup>*" "unowned nodes r"
  shows "(i, i) \<notin> (owned_by nodes)\<^sup>+"
  using assms
proof (induction rule: converse_rtrancl_induct)
  case base
  then show ?case by (meson tranclD unowned_stops)
next
  case (step i j)
  show ?case
  proof
    assume "(i, i) \<in> (owned_by nodes)\<^sup>+"
    then obtain k where "(i, k) \<in> owned_by nodes" "(k, i) \<in> (owned_by nodes)\<^sup>*" by (meson tranclD)
    then have "(j, i) \<in> (owned_by nodes)\<^sup>*" using owned_by_unique step(1) by metis
    then have "(j, j) \<in> (owned_by nodes)\<^sup>+" using step(1) by (meson rtrancl_into_trancl1)
    then show False using step by blast
  qed
qed

lemma lineage_root_complete:
  assumes "(i, r) \<in> (owned_by nodes)\<^sup>*" "unowned nodes r" "\<forall>k\<in>seen. (k, i) \<in> (owned_by nodes)\<^sup>+"
  shows "lineage_root nodes seen i = Ok r"
  using assms
proof (induction arbitrary: seen rule: converse_rtrancl_induct)
  case base
  then show ?case by (simp add: lineage_root.simps unowned_def)
next
  case (step i j)
  then obtain owner where i: "i < length nodes" "va_superseded_by (sn_asset (nodes ! i)) = Some owner"
      "node_index nodes owner = Some j" by (auto simp: owned_by_def)
  have "(i, r) \<in> (owned_by nodes)\<^sup>*" using step(1,2) by (meson converse_rtrancl_into_rtrancl)
  then have "i \<notin> seen" using root_not_on_cycle step.prems by blast
  moreover have "\<forall>k\<in>insert i seen. (k, j) \<in> (owned_by nodes)\<^sup>+"
    using step.prems(2) step(1) by (auto intro: trancl_into_trancl)
  ultimately show ?case
    using i step.IH [of "insert i seen"] step.prems(1) by (simp add: lineage_root.simps [of nodes seen i])
qed

text \<open>C26: the walk along recorded ownership ends for every input, cycles and dangling pointers included,
  and it answers with a root exactly when there is one: the answer is a clip without an owner that
  is reached from the start, and whenever such a clip is reached the walk returns it.\<close>

theorem lineage_walk_finds_the_root:
  "root_of nodes i = Ok r \<longleftrightarrow> (i, r) \<in> (owned_by nodes)\<^sup>* \<and> unowned nodes r"
  using lineage_root_sound [of nodes "{}" i r] lineage_root_complete [of i r nodes "{}"]
  by (auto simp: root_of_def)

lemma root_of_unowned: "root_of nodes i = Ok r \<Longrightarrow> unowned nodes r"
  using lineage_root_sound by (auto simp: root_of_def)

section \<open>Classification\<close>

lemma classify_nodes:
  assumes "fold_result (classify_node nodes ready) [0..<m] ([], [], []) = Ok (roots, eligible, selected)" "m \<le> length nodes"
  shows "length roots = m \<and> length eligible = m \<and> (\<forall>i<m. root_of nodes i = Ok (roots ! i)) \<and>
    set selected = {i. i < m \<and> unowned nodes i} \<and> (\<forall>i\<in>set selected. eligible ! i) \<and>
    (\<forall>i<m. eligible ! i = node_eligible ready (nodes ! i))"
  using assms
proof (induction m arbitrary: roots eligible selected)
  case (Suc m)
  obtain st where st: "fold_result (classify_node nodes ready) [0..<m] ([], [], []) = Ok st"
      "classify_node nodes ready m st = Ok (roots, eligible, selected)"
    using Suc.prems by (auto simp: fold_result_append bind_result_Ok_iff)
  obtain roots0 eligible0 selected0 where [simp]: "st = (roots0, eligible0, selected0)" by (cases st)
  have ih: "length roots0 = m \<and> length eligible0 = m \<and> (\<forall>i<m. root_of nodes i = Ok (roots0 ! i)) \<and>
      set selected0 = {i. i < m \<and> unowned nodes i} \<and> (\<forall>i\<in>set selected0. eligible0 ! i) \<and>
      (\<forall>i<m. eligible0 ! i = node_eligible ready (nodes ! i))"
    using Suc.IH [of roots0 eligible0 selected0] st Suc.prems(2) by simp
  obtain root where root: "root_of nodes m = Ok root" "roots = roots0 @ [root]"
      "eligible = eligible0 @ [node_eligible ready (nodes ! m)]"
      "selected = (if va_superseded_by (sn_asset (nodes ! m)) = None then selected0 @ [m] else selected0)"
      "va_superseded_by (sn_asset (nodes ! m)) = None \<Longrightarrow> node_eligible ready (nodes ! m)"
    using st(2) by (auto simp: classify_node_def Let_def bind_result_Ok_iff split: if_splits)
  have new: "set selected = {i. i < Suc m \<and> unowned nodes i}"
    using ih root(4) Suc.prems(2) by (auto simp: unowned_def less_Suc_eq)
  show ?case
    using ih root(1-3,5) new root(4) by (auto simp: nth_append less_Suc_eq split: if_splits)
qed simp

section \<open>Restoration\<close>

text \<open>After the restoration loop: the roots of the snapshot come first and stay, every eligible clip seen
  so far matches a selected one, and each restored clip was eligible and matched none before it.\<close>

definition restored_upto ::
  "selection_graph \<Rightarrow> nat \<Rightarrow> nat list \<Rightarrow> uuid list \<Rightarrow> uuid list \<Rightarrow> bool" where
  "restored_upto g m selected restored ineligible \<longleftrightarrow>
     (\<exists>added. selected = sg_selected g @ added \<and> restored = map (node_id g) added \<and> set added \<subseteq> {..<m} \<and>
        (\<forall>k<length added. sg_eligible g ! (added ! k) \<and>
           \<not> graph_supported g (added ! k) (sg_selected g @ take k added))) \<and>
     ineligible = map (node_id g) (filter (\<lambda>i. \<not> sg_eligible g ! i) [0..<m]) \<and>
     (\<forall>i<m. sg_eligible g ! i \<longrightarrow> graph_supported g i selected)"

lemma graph_matches_self: "graph_matches g i i"
  by (simp add: graph_matches_def)

lemma restore_nodes:
  assumes "foldl (restore_node g) (sg_selected g, [], []) [0..<m] = (selected, restored, ineligible)"
  shows "restored_upto g m selected restored ineligible"
  using assms
proof (induction m arbitrary: selected restored ineligible)
  case 0
  then show ?case by (simp add: restored_upto_def)
next
  case (Suc m)
  obtain sel0 res0 ine0 where st: "foldl (restore_node g) (sg_selected g, [], []) [0..<m] = (sel0, res0, ine0)"
    by (metis prod_cases3)
  then obtain added where ih: "sel0 = sg_selected g @ added" "res0 = map (node_id g) added" "set added \<subseteq> {..<m}"
      "\<forall>k<length added. sg_eligible g ! (added ! k) \<and> \<not> graph_supported g (added ! k) (sg_selected g @ take k added)"
      "ine0 = map (node_id g) (filter (\<lambda>i. \<not> sg_eligible g ! i) [0..<m])"
      "\<forall>i<m. sg_eligible g ! i \<longrightarrow> graph_supported g i sel0"
    using Suc.IH [OF st] unfolding restored_upto_def by blast
  have step: "restore_node g (sel0, res0, ine0) m = (selected, restored, ineligible)"
    using Suc.prems st by simp
  have more: "graph_supported g i sel0 \<Longrightarrow> graph_supported g i (sel0 @ xs)" for i xs
    by (auto simp: graph_supported_def)
  show ?case
  proof (cases "sg_eligible g ! m \<and> \<not> graph_supported g m sel0")
    case True
    then have "selected = sg_selected g @ (added @ [m])" "restored = map (node_id g) (added @ [m])" "ineligible = ine0"
      using step ih(1,2) by (auto simp: restore_node_def)
    moreover have "graph_supported g m (sel0 @ [m])" by (simp add: graph_supported_def graph_matches_self)
    ultimately show ?thesis
      unfolding restored_upto_def using True ih more [of _ "[m]"]
      by (intro conjI exI [of _ "added @ [m]"]) (auto simp: nth_append less_Suc_eq)
  next
    case False
    then have "selected = sel0" "restored = res0"
      "ineligible = map (node_id g) (filter (\<lambda>i. \<not> sg_eligible g ! i) [0..<Suc m])"
      using step ih(5) by (auto simp: restore_node_def split: if_splits)
    then show ?thesis
      unfolding restored_upto_def using False ih by (intro conjI exI [of _ added]) (auto simp: less_Suc_eq)
  qed
qed

section \<open>Owners\<close>

lemma better_owners:
  "foldl (better_owner g i) None ks = Some k \<Longrightarrow> k \<in> set ks \<and> graph_matches g i k"
proof (induction ks arbitrary: k rule: rev_induct)
  case (snoc c ks)
  then show ?case
    by (cases "foldl (better_owner g i) None ks") (auto simp: better_owner_def split: if_splits)
qed simp

lemma node_owner_selected:
  assumes "node_owner g selected i = Some k" "sg_eligible g ! i \<or> sg_roots g ! i \<in> set selected"
  shows "k \<in> set selected"
  using assms better_owners [of g i selected k] by (auto simp: node_owner_def split: if_splits)

lemma plan_owner_collect:
  "plan_owner g selected i owners =
     (case map_option (\<lambda>k. \<lparr> so_asset = node_id g i, so_keeper = node_id g k,
          so_direct = (i \<noteq> k \<and> sg_eligible g ! i \<and> graph_matches g i k) \<rparr>) (node_owner g selected i) of
        None \<Rightarrow> Err ''no selected owner'' | Some y \<Rightarrow> Ok (owners @ [y]))"
  by (simp add: plan_owner_def split: option.split)

definition clip_of :: "selection_graph \<Rightarrow> int list \<Rightarrow> nat \<Rightarrow> selected_clip" where
  "clip_of g exact i =
     \<lparr> sc_asset = node_id g i, sc_popularity = support_count g exact i,
       sc_verified = fst (snd (selection_acceptance (sg_nodes g ! i))),
       sc_minute = snd (snd (selection_acceptance (sg_nodes g ! i))) \<rparr>"

lemma plan_clip_collect:
  "plan_clip g exact i clips =
     (case (if support_count g exact i < 1 then None else Some (clip_of g exact i)) of
        None \<Rightarrow> Err ''incomplete or inconsistent source attribution'' | Some y \<Rightarrow> Ok (clips @ [y]))"
  by (simp add: plan_clip_def Let_def clip_of_def split: prod.split)

text \<open>The parts of a successful plan.\<close>

lemma plan_selection_cases:
  assumes "plan_selection json_length s policy prepared = Ok plan"
  obtains g selected restored ineligible where
    "new_selection_graph json_length s policy prepared = Ok g"
    "restored_upto g (length (sg_nodes g)) selected restored ineligible"
    "pn_restored plan = restored" "pn_ineligible plan = ineligible"
    "\<forall>i<length (sg_nodes g). node_owner g selected i \<noteq> None"
    "pn_owners plan = map (\<lambda>i. \<lparr> so_asset = node_id g i, so_keeper = node_id g (the (node_owner g selected i)),
       so_direct = (i \<noteq> the (node_owner g selected i) \<and> sg_eligible g ! i \<and>
         graph_matches g i (the (node_owner g selected i))) \<rparr>) [0..<length (sg_nodes g)]"
    "\<forall>i\<in>set selected. 1 \<le> support_count g (exact_counts (sg_nodes g) (sl_sources s)) i"
    "pn_selected plan = map (clip_of g (exact_counts (sg_nodes g) (sl_sources s))) selected"
proof -
  obtain g where g: "new_selection_graph json_length s policy prepared = Ok g"
    and rest: "(case foldl (restore_node g) (sg_selected g, [], []) [0..<length (sg_nodes g)] of
          (selected, restored, ineligible) \<Rightarrow>
            bind_result (fold_result (plan_owner g selected) [0..<length (sg_nodes g)] []) (\<lambda>owners.
              bind_result (fold_result (plan_clip g (exact_counts (sg_nodes g) (sl_sources s))) selected []) (\<lambda>clips.
                Ok \<lparr> pn_version = selection_version, pn_owners = owners, pn_selected = clips, pn_restored = restored,
                  pn_ineligible = ineligible \<rparr>))) = Ok plan"
    using assms by (auto simp: plan_selection_def bind_result_Ok_iff split: if_splits)
  obtain selected restored ineligible where
    st: "foldl (restore_node g) (sg_selected g, [], []) [0..<length (sg_nodes g)] = (selected, restored, ineligible)"
    by (metis prod_cases3)
  obtain owners clips where folds: "fold_result (plan_owner g selected) [0..<length (sg_nodes g)] [] = Ok owners"
      "fold_result (plan_clip g (exact_counts (sg_nodes g) (sl_sources s))) selected [] = Ok clips"
    and plan: "plan = \<lparr> pn_version = selection_version, pn_owners = owners, pn_selected = clips,
      pn_restored = restored, pn_ineligible = ineligible \<rparr>"
    using rest by (auto simp: st bind_result_Ok_iff)
  note o = fold_result_collect [OF plan_owner_collect folds(1)] and c = fold_result_collect [OF plan_clip_collect folds(2)]
  have owned: "\<forall>i<length (sg_nodes g). node_owner g selected i \<noteq> None" using o by auto
  have counts: "\<forall>i\<in>set selected. 1 \<le> support_count g (exact_counts (sg_nodes g) (sl_sources s)) i"
    using c by (auto split: if_splits)
  show ?thesis
  proof (rule that [OF g restore_nodes [OF st]])
    show "pn_owners plan = map (\<lambda>i. \<lparr> so_asset = node_id g i, so_keeper = node_id g (the (node_owner g selected i)),
       so_direct = (i \<noteq> the (node_owner g selected i) \<and> sg_eligible g ! i \<and>
         graph_matches g i (the (node_owner g selected i))) \<rparr>) [0..<length (sg_nodes g)]"
      using o owned by (auto simp: plan option.map_sel)
    show "pn_selected plan = map (clip_of g (exact_counts (sg_nodes g) (sl_sources s))) selected"
      using c counts by (auto simp: plan)
  qed (use owned counts in \<open>simp_all add: plan\<close>)
qed

section \<open>A valid graph\<close>

abbreviation asset_id :: "selection_node \<Rightarrow> uuid" where
  "asset_id n \<equiv> va_id (sn_asset n)"

definition snapshot_nodes :: "selection_snapshot \<Rightarrow> selection_node list" where
  "snapshot_nodes s = sort_nodes (map the (sl_nodes s))"

lemma validate_node_ids:
  "validate_node jl s n (ids, md5s) = Ok (ids', md5s') \<Longrightarrow> ids' = asset_id n # ids \<and> asset_id n \<notin> set ids"
  by (auto simp: validate_node_def Let_def bind_result_Ok_iff split: if_splits option.splits)

lemma validate_nodes_ids:
  "fold_result (validate_node jl s) nodes (ids, md5s) = Ok (ids', md5s') \<Longrightarrow> distinct ids \<Longrightarrow>
     distinct ids' \<and> ids' = rev (map asset_id nodes) @ ids"
proof (induction nodes arbitrary: ids md5s)
  case (Cons n nodes)
  then obtain ids1 md5s1 where "validate_node jl s n (ids, md5s) = Ok (ids1, md5s1)"
      "fold_result (validate_node jl s) nodes (ids1, md5s1) = Ok (ids', md5s')"
    by (auto simp: bind_result_Ok_iff)
  then show ?case using validate_node_ids Cons by fastforce
qed simp

lemma node_index_Some:
  assumes "node_index nodes k = Some j"
  shows "j < length nodes \<and> asset_id (nodes ! j) = k"
proof -
  let ?hits = "filter (\<lambda>i. asset_id (nodes ! i) = k) [0..<length nodes]"
  have "?hits \<noteq> []" "hd ?hits = j" using assms by (auto simp: node_index_def Let_def split: if_splits)
  then have "j \<in> set ?hits" using hd_in_set by metis
  then show ?thesis by simp
qed

lemma node_index_nth:
  assumes "distinct (map asset_id nodes)" "i < length nodes"
  shows "node_index nodes (asset_id (nodes ! i)) = Some i"
proof (cases "node_index nodes (asset_id (nodes ! i))")
  case None
  then show ?thesis using assms(2) by (auto simp: node_index_def Let_def filter_empty_conv split: if_splits)
next
  case (Some j)
  then have "j < length nodes" "asset_id (nodes ! j) = asset_id (nodes ! i)" using node_index_Some by blast+
  then show ?thesis using Some nth_eq_iff_index_eq [OF assms(1), of j i] assms(2) by simp
qed

lemma validate_credit_known:
  "validate_credit nodes roots source st = Ok st' \<Longrightarrow> node_index nodes (ss_observed source) \<noteq> None"
  by (auto simp: validate_credit_def split: option.splits prod.splits)

lemma validate_credits_known:
  assumes "fold_result (validate_credit nodes roots) sources st = Ok st'" "source \<in> set sources"
  shows "node_index nodes (ss_observed source) \<noteq> None"
  using assms
proof (induction sources arbitrary: st)
  case (Cons x sources)
  then obtain st1 where "validate_credit nodes roots x st = Ok st1"
      "fold_result (validate_credit nodes roots) sources st1 = Ok st'" by (auto simp: bind_result_Ok_iff)
  then show ?case using Cons.IH [of st1] Cons.prems(2) validate_credit_known [of nodes roots x st st1] by auto
qed simp

lemma new_graph_facts:
  assumes "new_selection_graph jl s policy prepared = Ok g"
  shows "sg_nodes g = snapshot_nodes s" "sg_policy g = policy"
    "distinct (map asset_id (snapshot_nodes s))"
    "set (sg_selected g) = {i. unowned (snapshot_nodes s) i}"
    "\<forall>i<length (snapshot_nodes s). sg_roots g ! i \<in> set (sg_selected g)"
    "\<forall>i<length (snapshot_nodes s). sg_eligible g ! i = node_eligible prepared (snapshot_nodes s ! i)"
    "\<forall>source\<in>set (sl_sources s). node_index (snapshot_nodes s) (ss_observed source) \<noteq> None"
proof -
  let ?nodes = "snapshot_nodes s"
  obtain ids md5s roots eligible selected where
    v: "fold_result (validate_node jl s) ?nodes ([], []) = Ok (ids, md5s)"
    and c: "fold_result (classify_node ?nodes prepared) [0..<length ?nodes] ([], [], []) = Ok (roots, eligible, selected)"
    and k: "validate_credits ?nodes roots (sl_sources s) = Ok ()"
    and g: "g = \<lparr> sg_nodes = ?nodes, sg_roots = roots, sg_eligible = eligible, sg_selected = selected, sg_policy = policy \<rparr>"
    using assms by (auto simp: new_selection_graph_def Let_def bind_result_Ok_iff snapshot_nodes_def split: if_splits)
  note facts = classify_nodes [OF c order_refl]
  show "sg_nodes g = ?nodes" "sg_policy g = policy" by (simp_all add: g)
  show "distinct (map asset_id ?nodes)"
    using validate_nodes_ids [OF v] by (metis append_Nil2 distinct.simps(1) distinct_rev)
  show "set (sg_selected g) = {i. unowned ?nodes i}" using facts by (auto simp: g unowned_def)
  show "\<forall>i<length ?nodes. sg_roots g ! i \<in> set (sg_selected g)"
    using facts root_of_unowned by (auto simp: g unowned_def)
  show "\<forall>i<length ?nodes. sg_eligible g ! i = node_eligible prepared (?nodes ! i)" using facts by (simp add: g)
  obtain st where "fold_result (validate_credit ?nodes roots) (sl_sources s) ([], replicate (length ?nodes) 0) = Ok st"
    using k by (auto simp: validate_credits_def bind_result_Ok_iff)
  then show "\<forall>source\<in>set (sl_sources s). node_index ?nodes (ss_observed source) \<noteq> None"
    using validate_credits_known by blast
qed

section \<open>What a plan promises\<close>

text \<open>Direct evidence between two clips, without the graph: both accepted, of the same verification,
  hashed by the same version, and matched by one of the two routes of the policy.\<close>

definition nodes_match :: "selection_policy \<Rightarrow> selection_node \<Rightarrow> selection_node \<Rightarrow> bool" where
  "nodes_match p a b \<longleftrightarrow>
     fst (selection_acceptance a) \<and> fst (selection_acceptance b) \<and>
     fst (snd (selection_acceptance a)) = fst (snd (selection_acceptance b)) \<and>
     compatible_frame_hash_versions (va_hash_version (sn_asset a)) (va_hash_version (sn_asset b)) \<and>
     (clip_match (va_hashes (sn_asset a)) (va_hashes (sn_asset b)) (sp_max_hamming p) (sp_min_run p) (sp_max_gaps p) \<or>
      0 < sp_long_min_run p \<and>
      clip_match (va_hashes (sn_asset a)) (va_hashes (sn_asset b)) (sp_long_max_hamming p) (sp_long_min_run p)
        (sp_long_max_gaps p))"

lemma graph_matches_nodes:
  "graph_matches g i j \<longleftrightarrow> i = j \<or> nodes_match (sg_policy g) (sg_nodes g ! i) (sg_nodes g ! j)"
  by (auto simp: graph_matches_def nodes_match_def Let_def split: prod.split)

text \<open>C25: a selection plan loses no clip and retires none: it names one owner for every clip of the
  snapshot, in order, and every owner is a selected clip (also for clips it calls ineligible); every
  clip that was a root stays selected; every restored clip is selected; and each selected clip has at
  least one source.\<close>

theorem selection_covers_every_clip:
  assumes "plan_selection json_length s policy prepared = Ok plan"
  shows "map so_asset (pn_owners plan) = map asset_id (snapshot_nodes s) \<and>
    so_keeper ` set (pn_owners plan) \<subseteq> sc_asset ` set (pn_selected plan) \<and>
    {asset_id n |n. n \<in> set (snapshot_nodes s) \<and> va_superseded_by (sn_asset n) = None} \<subseteq> sc_asset ` set (pn_selected plan) \<and>
    set (pn_restored plan) \<subseteq> sc_asset ` set (pn_selected plan) \<and>
    (\<forall>c\<in>set (pn_selected plan). 1 \<le> sc_popularity c)"
  using assms
proof (cases rule: plan_selection_cases)
  case (1 g selected restored ineligible)
  note g = new_graph_facts [OF 1(1)]
  have sub: "set (sg_selected g) \<subseteq> set selected" and res: "set restored \<subseteq> node_id g ` set selected"
    using 1(2) by (auto simp: restored_upto_def)
  have sel: "sc_asset ` set (pn_selected plan) = node_id g ` set selected"
    using 1(8) by (auto simp: clip_of_def image_iff)
  have keeper: "the (node_owner g selected i) \<in> set selected" if i: "i < length (sg_nodes g)" for i
  proof -
    obtain k where "node_owner g selected i = Some k" using 1(5) i by auto
    moreover have "sg_roots g ! i \<in> set selected" using g(1,5) i sub by auto
    ultimately show ?thesis using node_owner_selected [of g selected i k] by simp
  qed
  have owners: "so_keeper ` set (pn_owners plan) \<subseteq> node_id g ` set selected" using keeper by (auto simp: 1(6))
  have roots: "asset_id n \<in> node_id g ` set selected"
    if n: "n \<in> set (snapshot_nodes s)" "va_superseded_by (sn_asset n) = None" for n
  proof -
    obtain i where i: "i < length (snapshot_nodes s)" "snapshot_nodes s ! i = n" using n(1) by (auto simp: in_set_conv_nth)
    then have "unowned (snapshot_nodes s) i" using n(2) by (simp add: unowned_def)
    then have "i \<in> set selected" using sub g(4) by blast
    moreover have "asset_id n = node_id g i" using i g(1) by (simp add: node_id_def)
    ultimately show ?thesis by simp
  qed
  have "map so_asset (pn_owners plan) = map asset_id (snapshot_nodes s)"
    by (rule nth_equalityI) (simp_all add: 1(6) g(1) node_id_def)
  moreover have "\<forall>c\<in>set (pn_selected plan). 1 \<le> sc_popularity c" using 1(7,8) by (auto simp: clip_of_def)
  ultimately show ?thesis using owners roots res sel 1(3) by auto
qed

section \<open>Restored clips\<close>

lemma restored_node:
  assumes "restored_upto g (length (sg_nodes g)) selected restored ineligible" "k \<in> set restored"
  shows "\<exists>i<length (sg_nodes g). k = node_id g i \<and> sg_eligible g ! i \<and> \<not> graph_supported g i (sg_selected g)"
proof -
  obtain added where added: "restored = map (node_id g) added" "set added \<subseteq> {..<length (sg_nodes g)}"
      "\<forall>k<length added. sg_eligible g ! (added ! k) \<and> \<not> graph_supported g (added ! k) (sg_selected g @ take k added)"
    using assms(1) unfolding restored_upto_def by blast
  obtain j where j: "j < length added" "k = node_id g (added ! j)"
    using assms(2) added(1) by (auto simp: in_set_conv_nth)
  then have "\<not> graph_supported g (added ! j) (sg_selected g @ take j added)" "sg_eligible g ! (added ! j)"
    using added(3) by blast+
  moreover have "added ! j < length (sg_nodes g)" using added(2) j(1) nth_mem by blast
  ultimately show ?thesis using j(2) by (auto simp: graph_supported_def)
qed

text \<open>a clip is restored only for want of direct support: it was superseded, it is accepted, its media
  is prepared and not reclaimed, and it directly matches none of the clips that were roots, whatever
  the recorded lineage says.\<close>

theorem restored_clips_lack_support:
  assumes "plan_selection json_length s policy prepared = Ok plan"
  shows "set (pn_restored plan) \<subseteq>
    {asset_id n |n. n \<in> set (snapshot_nodes s) \<and> va_superseded_by (sn_asset n) \<noteq> None \<and> node_eligible prepared n \<and>
       {m \<in> set (snapshot_nodes s). va_superseded_by (sn_asset m) = None \<and> nodes_match policy n m} = {}}"
  using assms
proof (cases rule: plan_selection_cases)
  case (1 g selected restored ineligible)
  note g = new_graph_facts [OF 1(1)]
  show ?thesis
  proof
    fix k assume "k \<in> set (pn_restored plan)"
    then obtain i where i: "i < length (sg_nodes g)" "k = node_id g i" "sg_eligible g ! i"
        "\<not> graph_supported g i (sg_selected g)"
      using restored_node [OF 1(2)] 1(3) by auto
    let ?n = "snapshot_nodes s ! i"
    have n: "?n \<in> set (snapshot_nodes s)" "k = asset_id ?n" "node_eligible prepared ?n"
      using i g(1,6) by (auto simp: node_id_def)
    have none: "\<not> graph_matches g i j" if "j \<in> set (sg_selected g)" for j
      using i(4) that by (auto simp: graph_supported_def list_ex_iff)
    have "va_superseded_by (sn_asset ?n) \<noteq> None"
      using none [of i] i(1) g(1,4) by (auto simp: graph_matches_self unowned_def)
    moreover have "{m \<in> set (snapshot_nodes s). va_superseded_by (sn_asset m) = None \<and> nodes_match policy ?n m} = {}"
    proof (clarsimp simp: in_set_conv_nth)
      fix j assume j: "j < length (snapshot_nodes s)" "va_superseded_by (sn_asset (snapshot_nodes s ! j)) = None"
        "nodes_match policy ?n (snapshot_nodes s ! j)"
      then have "j \<in> set (sg_selected g)" using g(4) by (simp add: unowned_def)
      then show False using none [of j] j(3) g(1,2) by (simp add: graph_matches_nodes)
    qed
    ultimately show "k \<in> {asset_id n |n. n \<in> set (snapshot_nodes s) \<and> va_superseded_by (sn_asset n) \<noteq> None \<and>
        node_eligible prepared n \<and>
        {m \<in> set (snapshot_nodes s). va_superseded_by (sn_asset m) = None \<and> nodes_match policy n m} = {}}"
      using n by blast
  qed
qed

section \<open>Popularity\<close>

lemma support_count_append:
  "support_count g exact i = sum_list (map (\<lambda>j. if graph_matches g j i then exact ! j else 0) [0..<length exact])"
proof -
  have "foldl (\<lambda>count j. if graph_matches g j i then count + exact ! j else count) c js =
      c + sum_list (map (\<lambda>j. if graph_matches g j i then exact ! j else 0) js)" for c js
    by (induction js arbitrary: c) auto
  then show ?thesis by (simp add: support_count_def)
qed

lemma sum_list_bump:
  assumes "j < n" "length xs = n"
  shows "sum_list (map (\<lambda>k. if P k then (xs[j := xs ! j + 1]) ! k else (0 :: int)) [0..<n]) =
    sum_list (map (\<lambda>k. if P k then xs ! k else 0) [0..<n]) + (if P j then 1 else 0)"
  using assms
  by (auto simp: sum_list_distinct_conv_sum_set sum.remove [of "{0..<n}" j] nth_list_update
      intro!: sum.cong split: if_splits)

lemma support_count_sources:
  assumes "\<forall>source\<in>set sources. node_index nodes (ss_observed source) \<noteq> None"
  shows "length (exact_counts nodes sources) = length nodes \<and>
    support_count g (exact_counts nodes sources) i =
      int (length (filter (\<lambda>source. graph_matches g (the (node_index nodes (ss_observed source))) i) sources))"
  using assms
proof (induction sources rule: rev_induct)
  case Nil
  have "sum_list (map (\<lambda>j. if graph_matches g j i then replicate (length nodes) 0 ! j else (0 :: int)) [0..<length nodes]) = 0"
    by (auto simp: sum_list_distinct_conv_sum_set intro!: sum.neutral)
  then show ?case by (simp add: exact_counts_def support_count_append)
next
  case (snoc source sources)
  then obtain j where j: "node_index nodes (ss_observed source) = Some j" by auto
  then have "j < length nodes" using node_index_Some by blast
  let ?old = "exact_counts nodes sources"
  have new: "exact_counts nodes (sources @ [source]) = ?old[j := ?old ! j + 1]" by (simp add: exact_counts_def j)
  show ?case
  proof -
    have ih: "length ?old = length nodes" "support_count g ?old i =
        int (length (filter (\<lambda>source. graph_matches g (the (node_index nodes (ss_observed source))) i) sources))"
      using snoc by simp_all
    show ?thesis
      using ih j sum_list_bump [OF \<open>j < length nodes\<close> ih(1), of "\<lambda>k. graph_matches g k i"]
      unfolding new by (simp add: support_count_append)
  qed
qed

text \<open>the popularity of a selected clip is exactly the number of sources that support it directly: the
  sources whose observed clip is the clip itself or directly matches it. A source may support several
  clips and counts once for each; who owns or is credited for the observed clip plays no part.\<close>

theorem popularity_counts_direct_sources:
  assumes "plan_selection json_length s policy prepared = Ok plan" "c \<in> set (pn_selected plan)"
  shows "\<exists>n\<in>set (snapshot_nodes s). asset_id n = sc_asset c \<and>
    sc_popularity c = int (length (filter (\<lambda>source. \<exists>m\<in>set (snapshot_nodes s).
      asset_id m = ss_observed source \<and> (asset_id m = asset_id n \<or> nodes_match policy m n)) (sl_sources s)))"
  using assms(1)
proof (cases rule: plan_selection_cases)
  case (1 g selected restored ineligible)
  note g = new_graph_facts [OF 1(1)]
  let ?nodes = "snapshot_nodes s"
  obtain i where i: "i \<in> set selected" "c = clip_of g (exact_counts (sg_nodes g) (sl_sources s)) i"
    using assms(2) 1(8) by auto
  have "set selected \<subseteq> {..<length ?nodes}"
    using 1(2) g(1,4) by (auto simp: restored_upto_def unowned_def)
  then have in_range: "i < length ?nodes" using i(1) by auto
  have same: "graph_matches g (the (node_index ?nodes (ss_observed source))) i \<longleftrightarrow>
      (\<exists>m\<in>set ?nodes. asset_id m = ss_observed source \<and> (asset_id m = asset_id (?nodes ! i) \<or> nodes_match policy m (?nodes ! i)))"
    if source: "source \<in> set (sl_sources s)" for source
  proof -
    obtain j where j: "node_index ?nodes (ss_observed source) = Some j" using g(7) source by auto
    then have "j < length ?nodes" "asset_id (?nodes ! j) = ss_observed source" using node_index_Some by blast+
    moreover have "m = ?nodes ! j" if "m \<in> set ?nodes" "asset_id m = ss_observed source" for m
      using that calculation g(3) by (metis distinct_map inj_onD nth_mem)
    moreover have "asset_id (?nodes ! j) = asset_id (?nodes ! i) \<longleftrightarrow> j = i"
      using nth_eq_iff_index_eq [OF g(3), of j i] calculation(1) in_range by simp
    ultimately show ?thesis using j g(1,2) by (auto simp: graph_matches_nodes)
  qed
  have "sc_popularity c = int (length (filter (\<lambda>source. graph_matches g (the (node_index ?nodes (ss_observed source))) i) (sl_sources s)))"
    using i(2) support_count_sources [OF g(7)] by (simp add: clip_of_def g(1))
  also have "filter (\<lambda>source. graph_matches g (the (node_index ?nodes (ss_observed source))) i) (sl_sources s) =
      filter (\<lambda>source. \<exists>m\<in>set ?nodes. asset_id m = ss_observed source \<and>
        (asset_id m = asset_id (?nodes ! i) \<or> nodes_match policy m (?nodes ! i))) (sl_sources s)"
    by (rule filter_cong [OF refl same])
  finally show ?thesis using i(2) in_range g(1) by (intro bexI [of _ "?nodes ! i"]) (simp_all add: clip_of_def node_id_def)
qed

section \<open>A snapshot\<close>

definition sample_asset :: "nat \<Rightarrow> 64 word \<Rightarrow> uuid option \<Rightarrow> video_asset" where
  "sample_asset k frame owner =
     (new_asset (word_of_nat k) 7 9 ''bucket'' ''key'' (replicate 15 0 @ [word_of_nat k]) ''v'' [frame] 1280 720 9000 100 (int k))
       \<lparr> va_superseded_by := owner \<rparr>"

definition sample_node :: "nat \<Rightarrow> 64 word \<Rightarrow> uuid option \<Rightarrow> selection_node" where
  "sample_node k frame owner = \<lparr> sn_asset = sample_asset k frame owner,
     sn_share = Some \<lparr> vs_id = ''s'', vs_asset_id = word_of_nat k, vs_event_id = 7, vs_timestamp_verified = True,
       vs_extracted_minute = None, vs_state = (if owner = None then ShareActive else ShareSuperseded),
       vs_removed_reason = None, vs_removed_at = None, vs_rank = 1, vs_created_at = 1 \<rparr>,
     sn_validation = None \<rparr>"

text \<open>Two clips of one goal, the second superseded by the first although their frames differ.\<close>

definition sample_snapshot :: selection_snapshot where
  "sample_snapshot = \<lparr> sl_event_id = 7, sl_fixture_id = 9, sl_removed = False,
     sl_nodes = [Some (sample_node 1 0 None), Some (sample_node 2 255 (Some 1))],
     sl_sources = [\<lparr> ss_id = 1, ss_observed = 1, ss_credited = 1 \<rparr>, \<lparr> ss_id = 2, ss_observed = 2, ss_credited = 1 \<rparr>] \<rparr>"

definition sample_policy :: selection_policy where
  "sample_policy = \<lparr> sp_max_hamming = 2, sp_min_run = 1, sp_max_gaps = 0, sp_long_max_hamming = 0,
     sp_long_min_run = 0, sp_long_max_gaps = 0 \<rparr>"

lemma sample_plan_runs: "is_ok (plan_selection (\<lambda>_. Some 100) sample_snapshot sample_policy [1, 2])"
  by code_simp

definition sample_plan :: selection_plan where
  "sample_plan = the_ok (plan_selection (\<lambda>_. Some 100) sample_snapshot sample_policy [1, 2])"

lemma sample_plan_Ok: "plan_selection (\<lambda>_. Some 100) sample_snapshot sample_policy [1, 2] = Ok sample_plan"
  using sample_plan_runs unfolding sample_plan_def is_ok_iff by force

lemma sample_plan_selects: "pn_restored sample_plan = [2] \<and> map sc_asset (pn_selected sample_plan) = [1, 2]"
  by code_simp

theorem selection_covers_every_clip_witness:
  "map so_asset (pn_owners sample_plan) = map asset_id (snapshot_nodes sample_snapshot)"
  using selection_covers_every_clip [OF sample_plan_Ok] by blast

theorem restored_clips_lack_support_witness:
  "{2} \<subseteq> {asset_id n |n. n \<in> set (snapshot_nodes sample_snapshot) \<and> va_superseded_by (sn_asset n) \<noteq> None \<and>
     node_eligible [1, 2] n \<and>
     {m \<in> set (snapshot_nodes sample_snapshot). va_superseded_by (sn_asset m) = None \<and> nodes_match sample_policy n m} = {}}"
  using restored_clips_lack_support [OF sample_plan_Ok] sample_plan_selects by simp

theorem popularity_counts_direct_sources_witness:
  "\<exists>n\<in>set (snapshot_nodes sample_snapshot). asset_id n = sc_asset (pn_selected sample_plan ! 0)"
proof -
  have "0 < length (pn_selected sample_plan)" using sample_plan_selects by (metis length_map length_pos_if_in_set list.set_intros(1))
  then show ?thesis using popularity_counts_direct_sources [OF sample_plan_Ok nth_mem] by blast
qed

text \<open>the token of a snapshot depends on its content, not on the order in which the rows were read: any
  reordering of the clips and of the sources gives the same token.\<close>

theorem fingerprint_ignores_row_order:
  assumes "mset (sl_nodes s') = mset (sl_nodes s)" "mset (sl_sources s') = mset (sl_sources s)"
    "sl_event_id s' = sl_event_id s" "sl_fixture_id s' = sl_fixture_id s" "sl_removed s' = sl_removed s"
    "distinct (map (\<lambda>n. asset_id (the n)) (sl_nodes s))" "distinct (map ss_id (sl_sources s))"
  shows "selection_fingerprint json sha256 s' = selection_fingerprint json sha256 s"
proof -
  have sorted: "sort_key f xs = sort_key f ys"
    if "mset xs = mset ys" "distinct (map f ys)" for f :: "'c \<Rightarrow> 'd :: linorder" and xs ys
    using that by (intro sort_key_inj_key_eq) (simp_all add: distinct_map mset_eq_setD [OF that(1)])
  show ?thesis
  proof (cases "None \<in> set (sl_nodes s)")
    case False
    have "s'\<lparr> sl_nodes := xs, sl_sources := ys \<rparr> = s\<lparr> sl_nodes := xs, sl_sources := ys \<rparr>" for xs ys
      by (rule selection_snapshot.equality) (simp_all add: assms)
    then show ?thesis
      using False sorted [OF assms(1,6)] sorted [OF assms(2,7)] mset_eq_setD [OF assms(1)]
      by (simp add: selection_fingerprint_def)
  qed (use mset_eq_setD [OF assms(1)] in \<open>simp add: selection_fingerprint_def\<close>)
qed

theorem fingerprint_ignores_row_order_witness:
  "selection_fingerprint (\<lambda>s. Some (length (sl_nodes s))) (\<lambda>n. [word_of_nat n])
     (sample_snapshot\<lparr> sl_nodes := rev (sl_nodes sample_snapshot), sl_sources := rev (sl_sources sample_snapshot) \<rparr>) =
   selection_fingerprint (\<lambda>s. Some (length (sl_nodes s))) (\<lambda>n. [word_of_nat n]) sample_snapshot"
  by (rule fingerprint_ignores_row_order)
    (simp_all add: sample_snapshot_def sample_node_def sample_asset_def new_asset_def)

end
