(* ===== verification/VideoStore.thy ===== *)
theory VideoStore
  imports Selection EventStore
begin

text \<open>
  The tables of clips and public links: \<open>internal/infra/pg/video_repo.go\<close>. A table is a list of rows,
  a query a filter over it, and a write that the schema refuses (a repeated key, a missing referenced
  row) is an error that leaves the tables as they were. Generated identities and the clock of the
  database are arguments; timestamps keep microseconds.
\<close>

section \<open>Frame hashes as bytes\<close>

definition hash_bytes :: "64 word \<Rightarrow> 8 word list" where
  "hash_bytes h = map (\<lambda>i. ucast (drop_bit (8 * (7 - i)) h)) [0..<8]"

definition encode_frame_hashes :: "64 word list \<Rightarrow> 8 word list" where
  "encode_frame_hashes hs = concat (map hash_bytes hs)"

definition bytes_hash :: "8 word list \<Rightarrow> 64 word" where
  "bytes_hash bs = foldl (\<lambda>h b. push_bit 8 h + ucast b) 0 bs"

definition decode_frame_hashes :: "8 word list \<Rightarrow> 64 word list" where
  "decode_frame_hashes bs =
     map (\<lambda>i. bytes_hash (map (\<lambda>j. bs ! (8 * i + j)) [0..<8])) [0..<length bs div 8]"

section \<open>Tables\<close>

record validation_row =
  vr_id :: uuid
  vr_asset_id :: uuid
  vr_event_id :: uuid
  vr_fixture_id :: int
  vr_evidence :: validation_evidence
  vr_recorded_at :: instant

record video_db =
  vd_events :: "event list"
  vd_assets :: "video_asset list"
  vd_shares :: "video_share list"
  vd_validations :: "validation_row list"

definition find_asset :: "'a video_db_scheme \<Rightarrow> uuid \<Rightarrow> video_asset option" where
  "find_asset db k = find (\<lambda>a. va_id a = k) (vd_assets db)"

definition update_asset ::
  "uuid \<Rightarrow> (video_asset \<Rightarrow> video_asset) \<Rightarrow> 'a video_db_scheme \<Rightarrow> 'a video_db_scheme" where
  "update_asset k f db = db\<lparr> vd_assets := map (\<lambda>a. if va_id a = k then f a else a) (vd_assets db) \<rparr>"

definition err_not_found :: go_string where
  "err_not_found = ''video: not found''"

section \<open>Assets\<close>

definition asset_get :: "'a video_db_scheme \<Rightarrow> uuid \<Rightarrow> video_asset result" where
  "asset_get db k = (case find_asset db k of None \<Rightarrow> Err err_not_found | Some a \<Rightarrow> Ok a)"

definition asset_list_by_event :: "'a video_db_scheme \<Rightarrow> uuid \<Rightarrow> video_asset list" where
  "asset_list_by_event db eid =
     sort_key (\<lambda>a. (va_first_seen_at a, va_id a)) (filter (\<lambda>a. va_event_id a = eid) (vd_assets db))"

text \<open>The row an insert writes: the version is normalised, an empty fingerprint is NULL and read back
  as empty, the aspect ratio is generated and the object is not reclaimed.\<close>

definition asset_row :: "int \<Rightarrow> video_asset \<Rightarrow> video_asset" where
  "asset_row popularity a =
     a\<lparr> va_reclaimed_at := None, va_hash_version := normalize_frame_hash_version (va_hash_version a),
        va_hashes := decode_frame_hashes (encode_frame_hashes (va_hashes a)),
        va_aspect_ratio := compute_aspect (va_width a) (va_height a), va_popularity := popularity,
        va_first_seen_at := column_time (va_first_seen_at a) \<rparr>"

definition event_exists :: "'a video_db_scheme \<Rightarrow> uuid \<Rightarrow> int \<Rightarrow> bool" where
  "event_exists db eid fid \<longleftrightarrow> list_ex (\<lambda>e. ev_id e = eid \<and> ev_fixture_id e = fid) (vd_events db)"

definition asset_exists :: "'a video_db_scheme \<Rightarrow> uuid \<Rightarrow> uuid \<Rightarrow> int \<Rightarrow> bool" where
  "asset_exists db k eid fid \<longleftrightarrow>
     list_ex (\<lambda>a. va_id a = k \<and> va_event_id a = eid \<and> va_fixture_id a = fid) (vd_assets db)"

text \<open>\<open>INSERT ... ON CONFLICT (event_id, md5) DO NOTHING\<close>: only that key is arbitrated; a repeated
  identity or media fingerprint, or a missing event or successor, is an error.\<close>

definition insert_asset_row ::
  "int \<Rightarrow> video_asset \<Rightarrow> 'a video_db_scheme \<Rightarrow> ('a video_db_scheme \<times> bool) result" where
  "insert_asset_row popularity a db =
     (if list_ex (\<lambda>b. va_event_id b = va_event_id a \<and> va_md5 b = va_md5 a) (vd_assets db) then Ok (db, False)
      else if list_ex (\<lambda>b. va_id b = va_id a) (vd_assets db) then Err ''video_assets_pkey''
      else if va_media_fingerprint a \<noteq> '''' \<and>
        list_ex (\<lambda>b. va_event_id b = va_event_id a \<and> va_media_fingerprint b = va_media_fingerprint a) (vd_assets db)
      then Err ''video_assets_event_media_fingerprint''
      else if \<not> event_exists db (va_event_id a) (va_fixture_id a) then Err ''video_assets_event_fixture_fkey''
      else if (case va_superseded_by a of None \<Rightarrow> False
               | Some s \<Rightarrow> \<not> asset_exists db s (va_event_id a) (va_fixture_id a))
      then Err ''video_assets_superseded_identity_fkey''
      else Ok (db\<lparr> vd_assets := vd_assets db @ [asset_row popularity a] \<rparr>, True))"

definition insert_asset :: "video_asset \<Rightarrow> 'a video_db_scheme \<Rightarrow> ('a video_db_scheme \<times> bool) result" where
  "insert_asset a db = bind_result (validate_asset a) (\<lambda>_. insert_asset_row (va_popularity a) a db)"

definition add_popularity :: "uuid \<Rightarrow> int \<Rightarrow> 'a video_db_scheme \<Rightarrow> 'a video_db_scheme result" where
  "add_popularity k n db =
     (if find_asset db k = None then Err err_not_found
      else Ok (update_asset k (\<lambda>a. a\<lparr> va_popularity := va_popularity a + max n 1 \<rparr>) db))"

text \<open>One statement: the merge runs only when this statement retired the loser, and reads the popularity
  the loser had.\<close>

definition supersede :: "uuid \<Rightarrow> uuid \<Rightarrow> 'a video_db_scheme \<Rightarrow> 'a video_db_scheme result" where
  "supersede loser winner db =
     (if loser = winner then Ok db
      else case find_asset db loser of
        None \<Rightarrow> Ok db
      | Some l \<Rightarrow>
          if va_superseded_by l \<noteq> None then Ok db
          else if \<not> asset_exists db winner (va_event_id l) (va_fixture_id l)
          then Err ''video_assets_superseded_identity_fkey''
          else Ok (update_asset winner (\<lambda>w. w\<lparr> va_popularity := va_popularity w + va_popularity l \<rparr>)
                 (update_asset loser (superseded_by_set winner) db)))"

definition unreclaimed_objects :: "'a video_db_scheme \<Rightarrow> uuid \<Rightarrow> (uuid \<times> go_string \<times> go_string) list" where
  "unreclaimed_objects db eid =
     map (\<lambda>a. (va_id a, va_bucket a, va_key a))
       (filter (\<lambda>a. va_reclaimed_at a = None) (asset_list_by_event db eid))"

definition mark_object_reclaimed :: "instant \<Rightarrow> uuid \<Rightarrow> 'a video_db_scheme \<Rightarrow> 'a video_db_scheme result" where
  "mark_object_reclaimed now k db =
     (if find_asset db k = None then Err err_not_found
      else Ok (update_asset k (\<lambda>a. case va_reclaimed_at a of
             None \<Rightarrow> a\<lparr> va_reclaimed_at := Some now \<rparr> | Some _ \<Rightarrow> a) db))"

text \<open>The worklist of media retention: events with unreclaimed bytes under a completed fixture that
  kicked off before the cutoff. The fixture rows are an argument.\<close>

definition unreclaimed_events_before ::
  "(int \<Rightarrow> (bool \<times> instant) option) \<Rightarrow> instant \<Rightarrow> 'a video_db_scheme \<Rightarrow> uuid list" where
  "unreclaimed_events_before completed_kickoff cutoff db =
     sort (remdups (map va_event_id (filter (\<lambda>a. va_reclaimed_at a = None \<and>
       (case completed_kickoff (va_fixture_id a) of None \<Rightarrow> False
        | Some (completed, kickoff) \<Rightarrow> completed \<and> kickoff < column_time cutoff)) (vd_assets db))))"

section \<open>Shares\<close>

definition share_get :: "'a video_db_scheme \<Rightarrow> go_string \<Rightarrow> video_share result" where
  "share_get db k = (case find (\<lambda>s. vs_id s = k) (vd_shares db) of None \<Rightarrow> Err err_not_found | Some s \<Rightarrow> Ok s)"

definition share_of :: "'a video_db_scheme \<Rightarrow> uuid \<Rightarrow> uuid \<Rightarrow> video_share option" where
  "share_of db eid k = find (\<lambda>s. vs_event_id s = eid \<and> vs_asset_id s = k) (vd_shares db)"

text \<open>The keys of the table besides the identity: one share for an asset of an event, and one active
  share for a rank of an event.\<close>

definition share_conflict :: "'a video_db_scheme \<Rightarrow> video_share \<Rightarrow> bool" where
  "share_conflict db s \<longleftrightarrow>
     list_ex (\<lambda>t. vs_id t = vs_id s \<or> vs_event_id t = vs_event_id s \<and>
       (vs_asset_id t = vs_asset_id s \<or>
        vs_rank t = vs_rank s \<and> vs_state t = ShareActive \<and> vs_state s = ShareActive)) (vd_shares db)"

definition asset_in_event :: "'a video_db_scheme \<Rightarrow> uuid \<Rightarrow> uuid \<Rightarrow> bool" where
  "asset_in_event db k eid \<longleftrightarrow> list_ex (\<lambda>a. va_id a = k \<and> va_event_id a = eid) (vd_assets db)"

definition share_row :: "video_share \<Rightarrow> video_share" where
  "share_row s = s\<lparr> vs_removed_at := map_option column_time (vs_removed_at s),
     vs_created_at := column_time (vs_created_at s) \<rparr>"

definition insert_share :: "video_share \<Rightarrow> 'a video_db_scheme \<Rightarrow> 'a video_db_scheme result" where
  "insert_share s db =
     bind_result (validate_share s) (\<lambda>_.
       if share_conflict db s then Err ''video_shares: repeated key''
       else if \<not> asset_in_event db (vs_asset_id s) (vs_event_id s) then Err ''video_shares_asset_event_fkey''
       else Ok (db\<lparr> vd_shares := vd_shares db @ [share_row s] \<rparr>))"

definition update_shares ::
  "(video_share \<Rightarrow> bool) \<Rightarrow> (video_share \<Rightarrow> video_share) \<Rightarrow> 'a video_db_scheme \<Rightarrow> 'a video_db_scheme" where
  "update_shares P f db = db\<lparr> vd_shares := map (\<lambda>s. if P s then f s else s) (vd_shares db) \<rparr>"

definition upsert_share :: "video_share \<Rightarrow> 'a video_db_scheme \<Rightarrow> 'a video_db_scheme result" where
  "upsert_share s db =
     bind_result (validate_share s) (\<lambda>_.
       if list_ex (\<lambda>t. vs_id t = vs_id s) (vd_shares db)
       then let db' = update_shares (\<lambda>t. vs_id t = vs_id s)
              (\<lambda>t. t\<lparr> vs_state := vs_state s, vs_removed_reason := vs_removed_reason s,
                 vs_removed_at := map_option column_time (vs_removed_at s), vs_rank := vs_rank s,
                 vs_extracted_minute := vs_extracted_minute s,
                 vs_timestamp_verified := vs_timestamp_verified s \<rparr>) db
            in if \<exists>t\<in>set (vd_shares db'). vs_id t = vs_id s \<and> vs_state s = ShareActive \<and>
                 list_ex (\<lambda>u. vs_id u \<noteq> vs_id s \<and> vs_event_id u = vs_event_id t \<and> vs_state u = ShareActive \<and>
                   vs_rank u = vs_rank t) (vd_shares db')
               then Err ''video_shares_event_rank_active'' else Ok db'
       else insert_share s db)"

definition mark_superseded :: "go_string \<Rightarrow> 'a video_db_scheme \<Rightarrow> 'a video_db_scheme" where
  "mark_superseded k =
     update_shares (\<lambda>s. vs_id s = k \<and> vs_state s = ShareActive) (\<lambda>s. s\<lparr> vs_state := ShareSuperseded \<rparr>)"

definition remove_by_event :: "instant \<Rightarrow> clip_removal \<Rightarrow> uuid \<Rightarrow> 'a video_db_scheme \<Rightarrow> 'a video_db_scheme" where
  "remove_by_event now why eid =
     update_shares (\<lambda>s. vs_event_id s = eid \<and> vs_state s \<noteq> ShareRemoved)
       (\<lambda>s. s\<lparr> vs_state := ShareRemoved, vs_removed_reason := Some why, vs_removed_at := Some now \<rparr>)"

text \<open>The order of one event's shares, whatever their state; a missing asset sorts last, which the
  foreign key excludes.\<close>

definition shares_by_event :: "'a video_db_scheme \<Rightarrow> uuid \<Rightarrow> video_share list" where
  "shares_by_event db eid =
     sort_key (\<lambda>s. let a = find_asset db (vs_asset_id s) in
         (vs_state s \<noteq> ShareActive, \<not> vs_timestamp_verified s,
          (case a of None \<Rightarrow> 0 | Some x \<Rightarrow> - va_popularity x), (case a of None \<Rightarrow> 0 | Some x \<Rightarrow> - va_file_size x),
          vs_created_at s, vs_id s))
       (filter (\<lambda>s. vs_event_id s = eid) (vd_shares db))"

section \<open>Resolution\<close>

text \<open>The recursive query: rows at depth 0 to 64 along \<open>superseded_by\<close>, of which the one without a
  successor is selected.\<close>

primrec resolve_chain :: "video_asset list \<Rightarrow> nat \<Rightarrow> uuid \<Rightarrow> video_asset option" where
  "resolve_chain assets 0 k =
     (case find (\<lambda>a. va_id a = k) assets of
        None \<Rightarrow> None | Some a \<Rightarrow> if va_superseded_by a = None then Some a else None)"
| "resolve_chain assets (Suc n) k =
     (case find (\<lambda>a. va_id a = k) assets of
        None \<Rightarrow> None
      | Some a \<Rightarrow> (case va_superseded_by a of None \<Rightarrow> Some a | Some next_id \<Rightarrow> resolve_chain assets n next_id))"

definition resolve_depth :: nat where
  "resolve_depth = 64"

record resolved_share =
  rv_state :: share_state
  rv_bucket :: go_string
  rv_key :: go_string

definition resolve_share :: "'a video_db_scheme \<Rightarrow> go_string \<Rightarrow> resolved_share result" where
  "resolve_share db k =
     bind_result (share_get db k) (\<lambda>s.
       case resolve_chain (vd_assets db) resolve_depth (vs_asset_id s) of
         None \<Rightarrow> Err err_not_found
       | Some a \<Rightarrow> Ok \<lparr> rv_state = (if va_reclaimed_at a \<noteq> None then ShareRemoved else vs_state s),
           rv_bucket = va_bucket a, rv_key = va_key a \<rparr>)"

section \<open>The public list\<close>

definition visibility_threshold :: int where "visibility_threshold = 3"
definition visibility_singleton :: int where "visibility_singleton = 1"

record live_clip =
  lc_share_id :: go_string
  lc_rank :: int
  lc_verified :: bool
  lc_minute :: "int option"
  lc_popularity :: int
  lc_width :: int
  lc_height :: int
  lc_duration_ms :: int

type_synonym live_row = "video_share \<times> video_asset"

definition live_rows :: "'a video_db_scheme \<Rightarrow> uuid \<Rightarrow> live_row list" where
  "live_rows db eid =
     concat (map (\<lambda>s. map (Pair s)
         (filter (\<lambda>a. va_id a = vs_asset_id s \<and> va_superseded_by a = None \<and> va_reclaimed_at a = None) (vd_assets db)))
       (filter (\<lambda>s. vs_event_id s = eid \<and> vs_state s = ShareActive) (vd_shares db)))"

definition threshold_row :: "bool \<Rightarrow> live_row \<Rightarrow> bool" where
  "threshold_row verified r \<longleftrightarrow>
     vs_timestamp_verified (fst r) = verified \<and> visibility_threshold \<le> va_popularity (snd r)"

definition row_visible :: "live_row list \<Rightarrow> live_row \<Rightarrow> bool" where
  "row_visible rows r \<longleftrightarrow>
     va_popularity (snd r) \<noteq> visibility_singleton \<or>
     \<not> (list_ex (threshold_row True) rows \<or>
        \<not> vs_timestamp_verified (fst r) \<and> list_ex (threshold_row False) rows)"

definition public_key :: "live_row \<Rightarrow> bool \<times> int \<times> int \<times> instant \<times> go_string" where
  "public_key r = (\<not> vs_timestamp_verified (fst r), - va_popularity (snd r), - va_file_size (snd r),
     vs_created_at (fst r), vs_id (fst r))"

definition live_clip_of :: "nat \<times> live_row \<Rightarrow> live_clip" where
  "live_clip_of ir = (case ir of (i, s, a) \<Rightarrow>
     \<lparr> lc_share_id = vs_id s, lc_rank = int i + 1, lc_verified = vs_timestamp_verified s,
       lc_minute = vs_extracted_minute s, lc_popularity = va_popularity a, lc_width = va_width a,
       lc_height = va_height a, lc_duration_ms = va_duration_ms a \<rparr>)"

definition public_rows :: "'a video_db_scheme \<Rightarrow> uuid \<Rightarrow> live_row list" where
  "public_rows db eid =
     (let rows = live_rows db eid in sort_key public_key (filter (row_visible rows) rows))"

definition live_for_event :: "'a video_db_scheme \<Rightarrow> uuid \<Rightarrow> live_clip list" where
  "live_for_event db eid = map live_clip_of (enumerate 0 (public_rows db eid))"

text \<open>The map of several events; an event without a public clip has no entry.\<close>

definition live_for_events :: "'a video_db_scheme \<Rightarrow> uuid list \<Rightarrow> uuid \<Rightarrow> live_clip list option" where
  "live_for_events db eids eid =
     (if eid \<in> set eids \<and> live_for_event db eid \<noteq> [] then Some (live_for_event db eid) else None)"

section \<open>Stored ranks\<close>

text \<open>A stable sort by a comparison that says whether one item comes before another.\<close>

fun insert_by :: "('b \<Rightarrow> 'b \<Rightarrow> bool) \<Rightarrow> 'b \<Rightarrow> 'b list \<Rightarrow> 'b list" where
  "insert_by prior x [] = [x]"
| "insert_by prior x (y # ys) = (if prior y x then y # insert_by prior x ys else x # y # ys)"

definition sort_stable :: "('b \<Rightarrow> 'b \<Rightarrow> bool) \<Rightarrow> 'b list \<Rightarrow> 'b list" where
  "sort_stable prior xs = foldr (insert_by prior) xs []"

definition ranked_before :: "live_row \<Rightarrow> live_row \<Rightarrow> bool" where
  "ranked_before x y \<longleftrightarrow> compare_shares (fst x) (fst y) (snd x) (snd y) < 0"

definition active_rows :: "'a video_db_scheme \<Rightarrow> uuid \<Rightarrow> live_row list" where
  "active_rows db eid =
     concat (map (\<lambda>s. map (Pair s) (filter (\<lambda>a. va_id a = vs_asset_id s) (vd_assets db)))
       (filter (\<lambda>s. vs_event_id s = eid \<and> vs_state s = ShareActive) (vd_shares db)))"

definition rank_offset :: int where "rank_offset = 1000000"

definition assign_rank :: "nat \<times> live_row \<Rightarrow> 'a video_db_scheme \<Rightarrow> 'a video_db_scheme" where
  "assign_rank ir = update_shares (\<lambda>s. vs_id s = vs_id (fst (snd ir))) (\<lambda>s. s\<lparr> vs_rank := int (fst ir) + 1 \<rparr>)"

text \<open>The order in which the rows come back is the order of the tables.\<close>

definition rebalance_ranks :: "uuid \<Rightarrow> 'a video_db_scheme \<Rightarrow> 'a video_db_scheme \<times> int" where
  "rebalance_ranks eid db =
     (let items = enumerate 0 (sort_stable ranked_before (active_rows db eid))
      in if items = [] then (db, 0)
         else (fold assign_rank items
                 (update_shares (\<lambda>s. vs_event_id s = eid \<and> vs_state s = ShareActive)
                    (\<lambda>s. s\<lparr> vs_rank := vs_rank s + rank_offset \<rparr>) db),
               int (length (filter (\<lambda>ir. vs_rank (fst (snd ir)) \<noteq> int (fst ir) + 1) items))))"

section \<open>Round trip of the hashes\<close>

lemma length_hash_bytes [simp]: "length (hash_bytes h) = 8"
  by (simp add: hash_bytes_def)

lemma bit_byte_step:
  fixes h :: "64 word" and b :: "8 word"
  shows "bit (push_bit 8 h + ucast b) n \<longleftrightarrow> n < 64 \<and> (if n < 8 then bit b n else bit h (n - 8))"
proof -
  have "push_bit 8 h + ucast b = push_bit 8 h OR (ucast b :: 64 word)"
    by (rule disjunctive_add) (auto simp: bit_simps dest: bit_imp_le_length)
  then show ?thesis by (auto simp: bit_simps dest: bit_imp_le_length)
qed

lemma bit_bytes_prefix:
  assumes "k \<le> 8"
  shows "bit (bytes_hash (map (\<lambda>i. ucast (drop_bit (8 * (7 - i)) h)) [0..<k])) n \<longleftrightarrow>
    n < 8 * k \<and> bit (h :: 64 word) (n + 64 - 8 * k)"
  using assms
proof (induction k arbitrary: n)
  case 0
  then show ?case by (simp add: bytes_hash_def)
next
  case (Suc k)
  have "8 * (7 - k) + n = n + 64 - 8 * Suc k" using Suc.prems by simp
  moreover have "n - 8 + 64 - 8 * k = n + 64 - 8 * Suc k" if "8 \<le> n" using Suc.prems that by simp
  ultimately show ?case
    using Suc.IH [of "n - 8"] Suc.prems
    by (auto simp: bytes_hash_def bit_byte_step bit_simps)
qed

lemma bytes_hash_bytes: "bytes_hash (hash_bytes h) = h"
  by (rule bit_word_eqI) (simp add: hash_bytes_def bit_bytes_prefix)

lemma nth_concat_blocks:
  assumes "\<forall>x\<in>set xss. length x = k" "i < length xss" "j < k"
  shows "concat xss ! (k * i + j) = xss ! i ! j"
  using assms
proof (induction xss arbitrary: i)
  case (Cons x xss)
  then show ?case by (cases i) (simp_all add: nth_append)
qed simp

lemma length_concat_blocks: "\<forall>x\<in>set xss. length x = k \<Longrightarrow> length (concat xss) = k * length xss"
  by (induction xss) simp_all

lemma decode_encode_frame_hashes [simp]: "decode_frame_hashes (encode_frame_hashes hs) = hs"
proof (rule nth_equalityI)
  have n: "length (encode_frame_hashes hs) = 8 * length hs"
    using length_concat_blocks [of "map hash_bytes hs" 8] by (simp add: encode_frame_hashes_def)
  then show "length (decode_frame_hashes (encode_frame_hashes hs)) = length hs" by (simp add: decode_frame_hashes_def)
  fix i
  assume "i < length (decode_frame_hashes (encode_frame_hashes hs))"
  then have i: "i < length hs" using n by (simp add: decode_frame_hashes_def)
  have "map (\<lambda>j. encode_frame_hashes hs ! (8 * i + j)) [0..<8] = hash_bytes (hs ! i)"
    using i by (intro nth_equalityI) (simp_all add: encode_frame_hashes_def nth_concat_blocks)
  then show "decode_frame_hashes (encode_frame_hashes hs) ! i = hs ! i"
    using i n by (simp add: decode_frame_hashes_def bytes_hash_bytes)
qed

text \<open>C39: the codec of the frame hash column loses nothing: decoding the encoded bytes gives the hashes
  back, for every sequence of 64-bit hashes, and the column holds eight bytes for each of them.\<close>

theorem frame_hash_column_roundtrip:
  "decode_frame_hashes (encode_frame_hashes hs) = hs \<and> length (encode_frame_hashes hs) = 8 * length hs"
  using length_concat_blocks [of "map hash_bytes hs" 8] by (simp add: encode_frame_hashes_def flip: encode_frame_hashes_def)

section \<open>One public order\<close>

lemma ranked_before_iff: "ranked_before x y \<longleftrightarrow> public_key x < public_key y"
  by (auto simp: ranked_before_def public_key_def compare_shares_def less_prod_def')

lemma insert_by_key: "insert_by (\<lambda>x y. f x < f y) x ys = insort_key f x ys"
  for f :: "'b \<Rightarrow> 'k :: linorder"
  by (induction ys) auto

lemma sort_stable_key: "sort_stable (\<lambda>x y. f x < f y) xs = sort_key f xs"
  for f :: "'b \<Rightarrow> 'k :: linorder"
  by (simp add: sort_stable_def sort_key_def insert_by_key [abs_def])

lemma ranked_before_key: "ranked_before = (\<lambda>x y. public_key x < public_key y)"
  by (simp add: fun_eq_iff ranked_before_iff)

lemma ranked_rows_sorted: "sort_stable ranked_before rows = sort_key public_key rows"
  unfolding ranked_before_key by (rule sort_stable_key)

text \<open>the comparison written in Go for the stored ranks and the ORDER BY of the public query are one
  order: sorting the same rows by either gives the same list, ties included.\<close>

theorem stored_and_public_order_agree:
  "sort_stable ranked_before (filter (row_visible (live_rows db eid)) (live_rows db eid)) = public_rows db eid"
  by (simp add: public_rows_def ranked_rows_sorted Let_def)

section \<open>The public list\<close>

lemma threshold_row_visible: "threshold_row v r \<Longrightarrow> row_visible rows r"
  by (simp add: threshold_row_def row_visible_def visibility_threshold_def visibility_singleton_def)

lemma some_row_visible:
  assumes "rows \<noteq> []"
  shows "\<exists>r\<in>set rows. row_visible rows r"
proof (cases "\<exists>r\<in>set rows. \<exists>v. threshold_row v r")
  case True
  then show ?thesis using threshold_row_visible by blast
next
  case False
  then have "row_visible rows r" if "r \<in> set rows" for r
    using that by (auto simp: row_visible_def list_ex_iff)
  then show ?thesis using assms by (cases rows) auto
qed

lemma public_rows_nonempty: "live_rows db eid \<noteq> [] \<Longrightarrow> public_rows db eid \<noteq> []"
  using some_row_visible [of "live_rows db eid"] by (auto simp: public_rows_def Let_def filter_empty_conv simp flip: set_empty)

lemma hidden_row:
  assumes "\<not> row_visible rows (s, a)"
  shows "va_popularity a = 1 \<and> (\<exists>(t, b)\<in>set rows. 3 \<le> va_popularity b \<and>
    (vs_timestamp_verified t \<or> \<not> vs_timestamp_verified s))"
proof -
  have p: "va_popularity a = 1" using assms by (simp add: row_visible_def visibility_singleton_def)
  obtain r v where "r \<in> set rows" "threshold_row v r" "v \<or> \<not> vs_timestamp_verified s"
    using assms by (auto simp: row_visible_def list_ex_iff)
  then have "(\<lambda>(t, b). 3 \<le> va_popularity b \<and> (vs_timestamp_verified t \<or> \<not> vs_timestamp_verified s)) r"
    by (simp add: threshold_row_def visibility_threshold_def split_beta)
  then show ?thesis using p \<open>r \<in> set rows\<close> by blast
qed

text \<open>the public list of an event never hides everything: when an event has a displayable clip the
  list is not empty, its ranks are 1 to n without a gap, and a displayable clip that is left out is a
  clip of one source beside a clip of at least three sources that is verified or as unverified as it.\<close>

theorem public_list_keeps_evidence:
  assumes "live_rows db eid \<noteq> []"
  shows "live_for_event db eid \<noteq> [] \<and>
    map lc_rank (live_for_event db eid) = map (\<lambda>i. int i + 1) [0..<length (live_for_event db eid)] \<and>
    (\<forall>(s, a)\<in>set (live_rows db eid). vs_id s \<notin> set (map lc_share_id (live_for_event db eid)) \<longrightarrow>
      va_popularity a = 1 \<and> (\<exists>(t, b)\<in>set (live_rows db eid). 3 \<le> va_popularity b \<and>
        (vs_timestamp_verified t \<or> \<not> vs_timestamp_verified s)))"
proof (intro conjI)
  have ids: "map lc_share_id (live_for_event db eid) = map (vs_id \<circ> fst) (public_rows db eid)"
    unfolding live_for_event_def by (rule nth_equalityI) (auto simp: live_clip_of_def nth_enumerate_eq split: prod.split)
  show "live_for_event db eid \<noteq> []"
    using public_rows_nonempty [OF assms] by (simp add: live_for_event_def enumerate_eq_zip)
  show "map lc_rank (live_for_event db eid) = map (\<lambda>i. int i + 1) [0..<length (live_for_event db eid)]"
    unfolding live_for_event_def by (rule nth_equalityI) (auto simp: live_clip_of_def nth_enumerate_eq split: prod.split)
  show "\<forall>(s, a)\<in>set (live_rows db eid). vs_id s \<notin> set (map lc_share_id (live_for_event db eid)) \<longrightarrow>
      va_popularity a = 1 \<and> (\<exists>(t, b)\<in>set (live_rows db eid). 3 \<le> va_popularity b \<and>
        (vs_timestamp_verified t \<or> \<not> vs_timestamp_verified s))"
  proof (clarify, goal_cases)
    case (1 s a)
    then have "(s, a) \<notin> set (public_rows db eid)" unfolding ids by (force simp: image_iff)
    then have "\<not> row_visible (live_rows db eid) (s, a)" using 1(1) by (simp add: public_rows_def Let_def)
    then show ?case by (rule hidden_row)
  qed
qed

text \<open>An event with a verified clip of three sources and an unverified clip of one.\<close>

definition stored_clip :: "uuid \<Rightarrow> int \<Rightarrow> video_asset" where
  "stored_clip k popularity =
     (new_asset k 7 1 ''clips'' ''key'' (replicate 16 (ucast k)) '''' [1] 1280 720 9000 100 5)\<lparr> va_popularity := popularity \<rparr>"

definition stored_share :: "go_string \<Rightarrow> uuid \<Rightarrow> bool \<Rightarrow> int \<Rightarrow> video_share" where
  "stored_share k asset verified rank = \<lparr> vs_id = k, vs_asset_id = asset, vs_event_id = 7,
     vs_timestamp_verified = verified, vs_extracted_minute = None, vs_state = ShareActive,
     vs_removed_reason = None, vs_removed_at = None, vs_rank = rank, vs_created_at = 5 \<rparr>"

definition clip_store :: video_db where
  "clip_store = \<lparr> vd_events = [], vd_assets = [stored_clip 1 1, stored_clip 2 3],
     vd_shares = [stored_share ''s_01'' 1 False 1, stored_share ''s_02'' 2 True 2], vd_validations = [] \<rparr>"

theorem public_list_keeps_evidence_witness: "live_for_event clip_store 7 \<noteq> []"
proof -
  have "live_rows clip_store 7 \<noteq> []"
    by (simp add: live_rows_def clip_store_def stored_share_def stored_clip_def new_asset_def)
  then show ?thesis using public_list_keeps_evidence by blast
qed

end
