(* ===== verification/Candidates.thy ===== *)
theory Candidates
  imports VideoStore
begin

text \<open>
  The log of discovered sources: \<open>internal/contract/discovery/types.go\<close> and
  \<open>internal/infra/pg/candidate_repo.go\<close>. A row keeps its first observation and one terminal outcome;
  every write holds the lock of the event row, so that a removal and an outcome are ordered. The
  details of an outcome are a \<open>jsonb\<close> value: an object is a list of keys and values in key order.
\<close>

section \<open>Documents\<close>

datatype json = JNull | JText go_string | JScalar go_string | JArray "json list" | JObject "(go_string \<times> json) list"

fun put_key :: "go_string \<Rightarrow> json \<Rightarrow> (go_string \<times> json) list \<Rightarrow> (go_string \<times> json) list" where
  "put_key k v [] = [(k, v)]"
| "put_key k v ((k', v') # kvs) =
     (if k' = k then (k, v) # kvs else if k' < k then (k', v') # put_key k v kvs else (k, v) # (k', v') # kvs)"

text \<open>The operators \<open>?\<close>, \<open>->\<close> and \<open>||\<close> of the database; a missing field is a JSON null once it is
  built into an object.\<close>

definition json_has_key :: "json \<Rightarrow> go_string \<Rightarrow> bool" where
  "json_has_key j k = (case j of JObject kvs \<Rightarrow> k \<in> set (map fst kvs) | JText s \<Rightarrow> s = k
     | JArray xs \<Rightarrow> list_ex (\<lambda>x. x = JText k) xs | _ \<Rightarrow> False)"

definition json_field :: "json \<Rightarrow> go_string \<Rightarrow> json" where
  "json_field j k = (case j of JObject kvs \<Rightarrow> (case map_of kvs k of None \<Rightarrow> JNull | Some v \<Rightarrow> v) | _ \<Rightarrow> JNull)"

definition json_items :: "json \<Rightarrow> json list" where
  "json_items j = (case j of JArray xs \<Rightarrow> xs | _ \<Rightarrow> [j])"

definition json_concat :: "json \<Rightarrow> json \<Rightarrow> json" where
  "json_concat a b =
     (case (a, b) of (JObject xs, JObject ys) \<Rightarrow> JObject (foldl (\<lambda>kvs (k, v). put_key k v kvs) xs ys)
      | _ \<Rightarrow> JArray (json_items a @ json_items b))"

text \<open>An outcome written over a row keeps the evidence of earlier replays, under the key \<open>replay\<close>.\<close>

definition keep_replay :: "json option \<Rightarrow> json option \<Rightarrow> json option" where
  "keep_replay old new =
     (case old of
        None \<Rightarrow> new
      | Some j \<Rightarrow>
          if json_has_key j ''replay''
          then Some (json_concat (case new of None \<Rightarrow> JObject [] | Some JNull \<Rightarrow> JObject [] | Some n \<Rightarrow> n)
                 (JObject [(''replay'', json_field j ''replay'')]))
          else new)"

section \<open>Rows\<close>

text \<open>The outcomes are the strings of the column; a fresh row is \<open>pending\<close>.\<close>

definition outcome_terminal :: "go_string \<Rightarrow> bool" where
  "outcome_terminal s \<longleftrightarrow> s \<in> set [''promoted'', ''duplicate'', ''superseded'', ''rejected'', ''failed'']"

definition outcome_credited :: "go_string \<Rightarrow> bool" where
  "outcome_credited s \<longleftrightarrow> s \<in> set [''promoted'', ''duplicate'', ''superseded'']"

record candidate_evidence =
  ce_event_id :: uuid
  ce_fixture_id :: int
  ce_attempt :: int
  ce_query :: go_string
  ce_url :: go_string
  ce_text :: go_string
  ce_page :: go_string
  ce_duration :: rat
  ce_username :: go_string
  ce_age :: rat

record source_row =
  sr_id :: uuid
  sr_event_id :: uuid
  sr_fixture_id :: int
  sr_attempt :: int
  sr_query :: go_string
  sr_url :: go_string
  sr_text :: go_string
  sr_page :: go_string
  sr_duration :: rat
  sr_username :: go_string
  sr_age :: "rat option"
  sr_discovered_at :: instant
  sr_outcome :: go_string
  sr_reason :: "go_string option"
  sr_detail :: "json option"
  sr_outcome_at :: "instant option"
  sr_observed :: "uuid option"
  sr_credited :: "uuid option"
  sr_raw_md5 :: "8 word list option"

record source_db = video_db +
  sd_sources :: "source_row list"

definition observed_age :: "candidate_evidence \<Rightarrow> rat option" where
  "observed_age e = (if 0 < ce_age e then Some (ce_age e) else None)"

definition observation_row :: "uuid \<Rightarrow> instant \<Rightarrow> candidate_evidence \<Rightarrow> source_row" where
  "observation_row fresh now e =
     \<lparr> sr_id = fresh, sr_event_id = ce_event_id e, sr_fixture_id = ce_fixture_id e, sr_attempt = ce_attempt e,
       sr_query = ce_query e, sr_url = ce_url e, sr_text = ce_text e, sr_page = ce_page e,
       sr_duration = ce_duration e, sr_username = ce_username e, sr_age = observed_age e,
       sr_discovered_at = now, sr_outcome = ''pending'', sr_reason = None, sr_detail = None,
       sr_outcome_at = None, sr_observed = None, sr_credited = None, sr_raw_md5 = None \<rparr>"

definition evidence_row_ok :: "candidate_evidence \<Rightarrow> bool" where
  "evidence_row_ok e \<longleftrightarrow> 1 \<le> ce_attempt e \<and> ce_attempt e \<le> 20 \<and> 0 \<le> ce_duration e"

definition at_url :: "uuid \<Rightarrow> go_string \<Rightarrow> source_row \<Rightarrow> bool" where
  "at_url eid url r \<longleftrightarrow> sr_event_id r = eid \<and> sr_url r = url"

definition source_at :: "'a source_db_scheme \<Rightarrow> uuid \<Rightarrow> go_string \<Rightarrow> source_row option" where
  "source_at db eid url = find (at_url eid url) (sd_sources db)"

definition update_sources ::
  "(source_row \<Rightarrow> bool) \<Rightarrow> (source_row \<Rightarrow> source_row) \<Rightarrow> 'a source_db_scheme \<Rightarrow> 'a source_db_scheme" where
  "update_sources P f db = db\<lparr> sd_sources := map (\<lambda>r. if P r then f r else r) (sd_sources db) \<rparr>"

section \<open>Writes\<close>

text \<open>The lock on the event row; a fixture of zero asks for the event alone.\<close>

definition lock_candidate_event :: "'a source_db_scheme \<Rightarrow> uuid \<Rightarrow> int \<Rightarrow> bool result" where
  "lock_candidate_event db eid fid =
     (case find (\<lambda>e. ev_id e = eid \<and> (0 < fid \<longrightarrow> ev_fixture_id e = fid)) (vd_events db) of
        None \<Rightarrow> Err ''event/fixture identity not found''
      | Some e \<Rightarrow> Ok (ev_removed e))"

definition insert_observation ::
  "uuid \<Rightarrow> instant \<Rightarrow> candidate_evidence \<Rightarrow> 'a source_db_scheme \<Rightarrow> ('a source_db_scheme \<times> bool) result" where
  "insert_observation fresh now e db =
     (if \<not> evidence_row_ok e then Err ''event_search_candidates: check''
      else if source_at db (ce_event_id e) (ce_url e) \<noteq> None then Ok (db, False)
      else if \<not> event_exists db (ce_event_id e) (ce_fixture_id e)
      then Err ''event_search_candidates_event_fixture_fkey''
      else Ok (db\<lparr> sd_sources := sd_sources db @ [observation_row fresh now e] \<rparr>, True))"

definition terminal_row ::
  "instant \<Rightarrow> go_string \<Rightarrow> go_string option \<Rightarrow> json option \<Rightarrow> source_row \<Rightarrow> source_row" where
  "terminal_row now outcome reason detail r =
     (let kept = keep_replay (sr_detail r) detail
      in r\<lparr> sr_outcome := outcome, sr_reason := reason, sr_detail := kept,
            sr_outcome_at := (if sr_outcome r = outcome \<and> sr_reason r = reason \<and> sr_detail r = kept \<and> sr_outcome_at r \<noteq> None
                              then sr_outcome_at r else Some now) \<rparr>)"

definition update_terminal_outcome ::
  "instant \<Rightarrow> uuid \<Rightarrow> go_string \<Rightarrow> go_string \<Rightarrow> go_string \<Rightarrow> json option \<Rightarrow> 'a source_db_scheme \<Rightarrow>
   ('a source_db_scheme \<times> bool) result" where
  "update_terminal_outcome now eid url outcome reason detail db =
     (if source_at db eid url = None then Ok (db, False)
      else if outcome \<noteq> ''pending'' \<and> \<not> outcome_terminal outcome then Err ''event_search_candidates: check''
      else Ok (update_sources (at_url eid url)
             (terminal_row now outcome (if reason = '''' then None else Some reason) detail) db, True))"

text \<open>With an empty URL every pending source of the event is closed. A time of zero stands for the clock.\<close>

definition removed_detail :: "json option \<Rightarrow> json" where
  "removed_detail old =
     json_concat (case old of None \<Rightarrow> JObject [] | Some (JObject kvs) \<Rightarrow> JObject kvs
                  | Some j \<Rightarrow> JObject [(''previous_detail'', j)])
       (JObject [(''reason'', JText reject_reason_event_removed)])"

definition removed_row :: "instant \<Rightarrow> source_row \<Rightarrow> source_row" where
  "removed_row moment r = r\<lparr> sr_outcome := ''rejected'', sr_reason := Some reject_reason_event_removed,
     sr_detail := Some (removed_detail (sr_detail r)), sr_outcome_at := Some (column_time moment), sr_credited := None \<rparr>"

definition close_pending ::
  "instant \<Rightarrow> uuid \<Rightarrow> go_string \<Rightarrow> instant \<Rightarrow> 'a source_db_scheme \<Rightarrow> 'a source_db_scheme" where
  "close_pending clock eid url moment =
     update_sources (\<lambda>r. sr_event_id r = eid \<and> sr_outcome r = ''pending'' \<and> (url = '''' \<or> sr_url r = url))
       (removed_row (if moment = 0 then clock else moment))"

section \<open>Transactions\<close>

definition observe_candidate ::
  "uuid \<Rightarrow> instant \<Rightarrow> instant \<Rightarrow> candidate_evidence \<Rightarrow> 'a source_db_scheme \<Rightarrow> ('a source_db_scheme \<times> bool) result" where
  "observe_candidate fresh now clock e db =
     bind_result (lock_candidate_event db (ce_event_id e) (ce_fixture_id e)) (\<lambda>removed.
     bind_result (insert_observation fresh now e db) (\<lambda>(db1, inserted).
       Ok (if removed then close_pending clock (ce_event_id e) (ce_url e) clock db1 else db1, inserted)))"

definition complete_candidate ::
  "uuid \<Rightarrow> instant \<Rightarrow> instant \<Rightarrow> candidate_evidence \<Rightarrow> go_string \<Rightarrow> go_string \<Rightarrow> json option \<Rightarrow> 'a source_db_scheme \<Rightarrow>
   'a source_db_scheme result" where
  "complete_candidate fresh now clock e outcome reason detail db =
     bind_result (lock_candidate_event db (ce_event_id e) (ce_fixture_id e)) (\<lambda>removed.
     bind_result (insert_observation fresh now e db) (\<lambda>(db1, _).
       if removed then Ok (close_pending clock (ce_event_id e) (ce_url e) clock db1)
       else bind_result (update_terminal_outcome now (ce_event_id e) (ce_url e) outcome reason detail db1)
         (\<lambda>(db2, updated). if \<not> updated then Err ''pg.CandidateRepo.Complete: candidate is missing'' else Ok db2)))"

definition complete_legacy ::
  "instant \<Rightarrow> instant \<Rightarrow> uuid \<Rightarrow> go_string \<Rightarrow> go_string \<Rightarrow> go_string \<Rightarrow> json option \<Rightarrow> 'a source_db_scheme \<Rightarrow>
   'a source_db_scheme result" where
  "complete_legacy now clock eid url outcome reason detail db =
     bind_result (lock_candidate_event db eid 0) (\<lambda>removed.
       if removed then Ok (close_pending clock eid url clock db)
       else bind_result (update_terminal_outcome now eid url outcome reason detail db) (\<lambda>(db1, _). Ok db1))"

end
