(* ===== verification/SearchProgress.thy ===== *)
theory SearchProgress
  imports Candidates
begin

text \<open>
  The durable progress of an event's search: the states and windows of
  \<open>internal/contract/twittersearch\<close>, the checklist row a workflow restores and checkpoints
  (\<open>internal/activity/discovery/candidates.go\<close>, \<open>search_window.go\<close>, \<open>completion.go\<close>,
  \<open>internal/infra/pg/event_repo_tracking.go\<close>) and the settings it reads (\<open>activities.go\<close>). The metadata
  of a row is the record of the values the queries read and write; values encode and decode unchanged.
\<close>

section \<open>Search results\<close>

datatype result_state =
  ResultRendered | ResultExplicitEmpty | ResultLogin | ResultUpstreamError | ResultUnknownTimeout | ResultOther go_string

abbreviation no_result_state :: result_state where
  "no_result_state \<equiv> ResultOther ''''"

definition state_usable :: "result_state \<Rightarrow> bool" where
  "state_usable s \<longleftrightarrow> s = ResultRendered \<or> s = ResultExplicitEmpty"

definition state_known :: "result_state \<Rightarrow> bool" where
  "state_known s \<longleftrightarrow>
     s \<in> set [ResultRendered, ResultExplicitEmpty, ResultLogin, ResultUpstreamError, ResultUnknownTimeout]"

record timeline_record =
  tr_sequence :: int
  tr_started_ms :: int
  tr_response_ms :: "int option"
  tr_ended_ms :: "int option"
  tr_status :: int
  tr_failed :: bool
  tr_limit :: "int option"
  tr_remaining :: "int option"
  tr_reset :: "int option"

record timeline_accounting =
  tl_scan_id :: go_string
  tl_started_at :: instant
  tl_observed_at :: instant
  tl_requests :: int
  tl_responses :: int
  tl_finished :: int
  tl_failed :: int
  tl_rate_limited :: int
  tl_server_errors :: int
  tl_dropped :: int
  tl_unmatched :: int
  tl_records :: "timeline_record list"

record search_evidence =
  sv_final_url :: go_string
  sv_page_title :: go_string
  sv_app_shell :: bool
  sv_empty_state :: bool
  sv_error_state :: bool
  sv_timeline_seen :: bool
  sv_timeline_status :: int
  sv_timeline_failure :: go_string
  sv_limit :: go_string
  sv_remaining :: go_string
  sv_reset :: go_string
  sv_timeline :: "timeline_accounting option"

definition no_evidence :: search_evidence where
  "no_evidence = \<lparr> sv_final_url = '''', sv_page_title = '''', sv_app_shell = False, sv_empty_state = False,
     sv_error_state = False, sv_timeline_seen = False, sv_timeline_status = 0, sv_timeline_failure = '''', sv_limit = '''',
     sv_remaining = '''', sv_reset = '''', sv_timeline = None \<rparr>"

section \<open>Search windows\<close>

record search_window =
  sw_earliest :: instant
  sw_seen_stop :: bool

definition validate_window :: "search_window \<Rightarrow> unit result" where
  "validate_window w = (if sw_earliest w = 0 then Err ''search window requires earliest_tweet_at'' else Ok ())"

definition window_after :: "search_window \<Rightarrow> result_state \<Rightarrow> go_string \<Rightarrow> search_window" where
  "window_after w state stop =
     w\<lparr> sw_seen_stop := (state = ResultRendered \<and> (stop = ''age'' \<or> stop = ''consecutive_seen'' \<and> sw_seen_stop w)) \<rparr>"

definition validate_request_window :: "search_window option \<Rightarrow> int \<Rightarrow> unit result" where
  "validate_request_window w max_age =
     (case w of None \<Rightarrow> Ok ()
      | Some w1 \<Rightarrow> if max_age \<noteq> 0 then Err ''window and max_age_minutes are mutually exclusive'' else validate_window w1)"

section \<open>Settings\<close>

record search_settings =
  ss_max_attempts :: int
  ss_max_unavailable :: int
  ss_spacing :: duration
  ss_max_age :: int
  ss_timeout :: duration
  ss_max_hamming :: int
  ss_min_run :: int
  ss_max_gaps :: int
  ss_long_max_hamming :: int
  ss_long_min_run :: int
  ss_long_max_gaps :: int
  ss_fleet :: bool

definition or_default :: "int \<Rightarrow> int \<Rightarrow> int" where
  "or_default n d = (if n = 0 then d else n)"

definition get_discovery_config :: "search_settings \<Rightarrow> search_settings" where
  "get_discovery_config s =
     (let attempts = or_default (ss_max_attempts s) 10 in
      \<lparr> ss_max_attempts = attempts, ss_max_unavailable = or_default (ss_max_unavailable s) attempts,
        ss_spacing = or_default (ss_spacing s) (seconds 60), ss_max_age = or_default (ss_max_age s) 3,
        ss_timeout = or_default (ss_timeout s) (minutes 2), ss_max_hamming = or_default (ss_max_hamming s) 12,
        ss_min_run = or_default (ss_min_run s) 30, ss_max_gaps = or_default (ss_max_gaps s) 3,
        ss_long_max_hamming = or_default (ss_long_max_hamming s) 16, ss_long_min_run = or_default (ss_long_min_run s) 50,
        ss_long_max_gaps = or_default (ss_long_max_gaps s) 5, ss_fleet = ss_fleet s \<rparr>)"

section \<open>The checklist row\<close>

record checklist_row =
  ck_event_id :: uuid
  ck_type :: go_string
  ck_workflow :: go_string
  ck_attempts :: "int option"
  ck_unavailable :: "int option"
  ck_state :: "result_state option"
  ck_evidence :: "search_evidence option"
  ck_window :: "search_window option"
  ck_completed_at :: "instant option"
  ck_outcome :: "go_string option"

record search_db = source_db +
  kd_rows :: "checklist_row list"

definition at_checklist :: "uuid \<Rightarrow> go_string \<Rightarrow> go_string \<Rightarrow> checklist_row \<Rightarrow> bool" where
  "at_checklist eid kind wid r \<longleftrightarrow> ck_event_id r = eid \<and> ck_type r = kind \<and> ck_workflow r = wid"

definition checklist_at :: "'a search_db_scheme \<Rightarrow> uuid \<Rightarrow> go_string \<Rightarrow> go_string \<Rightarrow> checklist_row option" where
  "checklist_at db eid kind wid = find (at_checklist eid kind wid) (kd_rows db)"

definition update_checklist ::
  "(checklist_row \<Rightarrow> bool) \<Rightarrow> (checklist_row \<Rightarrow> checklist_row) \<Rightarrow> 'a search_db_scheme \<Rightarrow> 'a search_db_scheme" where
  "update_checklist P f db = db\<lparr> kd_rows := map (\<lambda>r. if P r then f r else r) (kd_rows db) \<rparr>"

text \<open>The window of an event starts before its first observation. Initialising it never moves one that is set,
  and no permission of an earlier run survives.\<close>

definition load_search_window ::
  "uuid \<Rightarrow> go_string \<Rightarrow> go_string \<Rightarrow> int \<Rightarrow> 'a search_db_scheme \<Rightarrow> ('a search_db_scheme \<times> search_window) result" where
  "load_search_window eid kind wid lookback db =
     (if lookback < 0 then Err ''negative search lookback''
      else
        let db1 = (case find (\<lambda>ev. ev_id ev = eid) (vd_events db) of
              None \<Rightarrow> db
            | Some ev \<Rightarrow> update_checklist (\<lambda>r. at_checklist eid kind wid r \<and> ck_window r = None)
                (\<lambda>r. r\<lparr> ck_window := Some \<lparr> sw_earliest = ev_first_seen_at ev - minutes lookback, sw_seen_stop = False \<rparr> \<rparr>) db)
        in (case checklist_at db1 eid kind wid of
              None \<Rightarrow> Err ''read search window''
            | Some r \<Rightarrow>
                (case ck_window r of
                   None \<Rightarrow> Err ''decode search window''
                 | Some w \<Rightarrow> bind_result (validate_window w) (\<lambda>_. Ok (db1, w\<lparr> sw_seen_stop := False \<rparr>)))))"

section \<open>Recovery\<close>

record recovery_candidate =
  rv_evidence :: candidate_evidence
  rv_terminal :: bool

record search_recovery =
  rs_attempts :: int
  rs_unavailable :: int
  rs_state :: result_state
  rs_evidence :: search_evidence
  rs_candidates :: "recovery_candidate list"
  rs_window :: "search_window option"

definition evidence_of_row :: "source_row \<Rightarrow> candidate_evidence" where
  "evidence_of_row r = \<lparr> ce_event_id = sr_event_id r, ce_fixture_id = sr_fixture_id r, ce_attempt = sr_attempt r,
     ce_query = sr_query r, ce_url = sr_url r, ce_text = sr_text r, ce_page = sr_page r, ce_duration = sr_duration r,
     ce_username = sr_username r, ce_age = (case sr_age r of None \<Rightarrow> 0 | Some a \<Rightarrow> a) \<rparr>"

definition recovery_of_row :: "source_row \<Rightarrow> recovery_candidate" where
  "recovery_of_row r = \<lparr> rv_evidence = evidence_of_row r, rv_terminal = (sr_outcome r \<noteq> ''pending'') \<rparr>"

text \<open>Rows are read in the order of discovery and then of the URL, whose collation is an argument.\<close>

definition row_before :: "(go_string \<Rightarrow> go_string \<Rightarrow> bool) \<Rightarrow> source_row \<Rightarrow> source_row \<Rightarrow> bool" where
  "row_before collate r s \<longleftrightarrow> sr_discovered_at r < sr_discovered_at s \<or>
     sr_discovered_at r = sr_discovered_at s \<and> collate (sr_url r) (sr_url s)"

definition insert_row :: "(go_string \<Rightarrow> go_string \<Rightarrow> bool) \<Rightarrow> source_row \<Rightarrow> source_row list \<Rightarrow> source_row list" where
  "insert_row collate r out =
     takeWhile (\<lambda>s. \<not> row_before collate r s) out @ r # dropWhile (\<lambda>s. \<not> row_before collate r s) out"

definition recovery_rows :: "(go_string \<Rightarrow> go_string \<Rightarrow> bool) \<Rightarrow> 'a search_db_scheme \<Rightarrow> uuid \<Rightarrow> source_row list" where
  "recovery_rows collate db eid = foldr (insert_row collate) (filter (\<lambda>r. sr_event_id r = eid) (sd_sources db)) []"

definition load_recovery_state ::
  "(go_string \<Rightarrow> go_string \<Rightarrow> bool) \<Rightarrow> uuid \<Rightarrow> go_string \<Rightarrow> go_string \<Rightarrow> int \<Rightarrow> 'a search_db_scheme \<Rightarrow>
   ('a search_db_scheme \<times> search_recovery) result" where
  "load_recovery_state collate eid kind wid lookback db =
     bind_result (if lookback = 0 then Ok (db, None)
                  else bind_result (load_search_window eid kind wid lookback db) (\<lambda>(db1, w). Ok (db1, Some w))) (\<lambda>(db1, window).
     case checklist_at db1 eid kind wid of
       None \<Rightarrow> Err ''checklist''
     | Some r \<Rightarrow> Ok (db1,
         \<lparr> rs_attempts = int_value (ck_attempts r), rs_unavailable = int_value (ck_unavailable r),
           rs_state = (case ck_state r of None \<Rightarrow> no_result_state | Some s \<Rightarrow> s),
           rs_evidence = (case ck_evidence r of None \<Rightarrow> no_evidence | Some ev \<Rightarrow> ev),
           rs_candidates = map recovery_of_row (recovery_rows collate db1 eid), rs_window = window \<rparr>))"

section \<open>Checkpoints\<close>

record progress_input =
  pi_event_id :: uuid
  pi_type :: go_string
  pi_workflow :: go_string
  pi_attempt :: int
  pi_unavailable :: int
  pi_state :: result_state
  pi_evidence :: "search_evidence option"
  pi_window :: "search_window option"

definition progress_total :: "checklist_row \<Rightarrow> int" where
  "progress_total r = int_value (ck_attempts r) + int_value (ck_unavailable r)"

definition progressed_row :: "progress_input \<Rightarrow> checklist_row \<Rightarrow> checklist_row" where
  "progressed_row i r =
     (let latest = progress_total r \<le> pi_attempt i + pi_unavailable i in
      r\<lparr> ck_attempts := Some (max (int_value (ck_attempts r)) (pi_attempt i)),
         ck_unavailable := Some (max (int_value (ck_unavailable r)) (pi_unavailable i)),
         ck_state := Some (if latest then pi_state i else case ck_state r of None \<Rightarrow> no_result_state | Some s \<Rightarrow> s),
         ck_evidence := Some (if latest then (case pi_evidence i of None \<Rightarrow> no_evidence | Some ev \<Rightarrow> ev)
                              else case ck_evidence r of None \<Rightarrow> no_evidence | Some ev \<Rightarrow> ev),
         ck_window := (if pi_window i \<noteq> None \<and> latest then pi_window i else ck_window r) \<rparr>)"

definition progress_applies :: "progress_input \<Rightarrow> checklist_row \<Rightarrow> bool" where
  "progress_applies i r \<longleftrightarrow> at_checklist (pi_event_id i) (pi_type i) (pi_workflow i) r \<and>
     (case pi_window i of None \<Rightarrow> True
      | Some w \<Rightarrow> (case ck_window r of None \<Rightarrow> False | Some old \<Rightarrow> sw_earliest old = sw_earliest w))"

definition record_discovery_progress :: "progress_input \<Rightarrow> 'a search_db_scheme \<Rightarrow> 'a search_db_scheme result" where
  "record_discovery_progress i db =
     bind_result (case pi_window i of None \<Rightarrow> Ok () | Some w \<Rightarrow> validate_window w) (\<lambda>_.
       if length (filter (progress_applies i) (kd_rows db)) \<noteq> 1
       then Err ''checklist missing or search boundary changed''
       else Ok (update_checklist (progress_applies i) (progressed_row i) db))"

section \<open>Activities\<close>

definition store_candidate ::
  "uuid \<Rightarrow> instant \<Rightarrow> instant \<Rightarrow> candidate_evidence \<Rightarrow> 'a source_db_scheme \<Rightarrow> ('a source_db_scheme \<times> bool) result" where
  "store_candidate = observe_candidate"

definition upsert_candidate_outcome ::
  "uuid \<Rightarrow> instant \<Rightarrow> instant \<Rightarrow> candidate_evidence \<Rightarrow> go_string \<Rightarrow> go_string \<Rightarrow> json option \<Rightarrow> 'a source_db_scheme \<Rightarrow>
   'a source_db_scheme result" where
  "upsert_candidate_outcome fresh now clock e outcome reason detail db =
     (if ce_event_id e = 0 \<or> ce_fixture_id e \<le> 0 \<or> ce_attempt e \<le> 0 \<or> ce_query e = '''' \<or> ce_url e = ''''
      then Err ''incomplete evidence''
      else if \<not> outcome_terminal outcome then Err ''non-terminal outcome''
      else complete_candidate fresh now clock e outcome reason detail db)"

definition record_candidate_outcome ::
  "instant \<Rightarrow> instant \<Rightarrow> uuid \<Rightarrow> go_string \<Rightarrow> go_string \<Rightarrow> go_string \<Rightarrow> json option \<Rightarrow> 'a source_db_scheme \<Rightarrow>
   'a source_db_scheme result" where
  "record_candidate_outcome = complete_legacy"

datatype completion_state = DownstreamCompletedNow | DownstreamAlreadyCompleted

record completion =
  cp_state :: completion_state
  cp_outcome :: go_string
  cp_at :: instant

definition complete_downstream ::
  "instant \<Rightarrow> uuid \<Rightarrow> go_string \<Rightarrow> go_string \<Rightarrow> go_string \<Rightarrow> 'a search_db_scheme \<Rightarrow> ('a search_db_scheme \<times> completion) result" where
  "complete_downstream now eid kind wid outcome db =
     (case checklist_at db eid kind wid of
        None \<Rightarrow> Err ''downstream workflow not found''
      | Some r \<Rightarrow>
          (case ck_completed_at r of
             Some t \<Rightarrow> Ok (db, \<lparr> cp_state = DownstreamAlreadyCompleted,
               cp_outcome = (case ck_outcome r of None \<Rightarrow> '''' | Some s \<Rightarrow> s), cp_at = t \<rparr>)
           | None \<Rightarrow> Ok (update_checklist (at_checklist eid kind wid)
                 (\<lambda>r. r\<lparr> ck_completed_at := Some now, ck_outcome := Some outcome \<rparr>) db,
               \<lparr> cp_state = DownstreamCompletedNow, cp_outcome = outcome, cp_at = now \<rparr>)))"

definition mark_downstream_complete ::
  "instant \<Rightarrow> uuid \<Rightarrow> go_string \<Rightarrow> go_string \<Rightarrow> go_string \<Rightarrow> 'a search_db_scheme \<Rightarrow>
   ('a search_db_scheme \<times> int \<times> completion) result" where
  "mark_downstream_complete now eid kind wid outcome db =
     (if eid = 0 \<or> kind = '''' \<or> wid = '''' \<or> outcome = '''' then Err ''incomplete checklist identity or outcome''
      else bind_result (complete_downstream now eid kind wid outcome db) (\<lambda>(db1, c).
        Ok (db1, if cp_state c = DownstreamCompletedNow then 1 else 0, c)))"

section \<open>Checkpoints can be repeated\<close>

lemma progressed_row_idem: "progressed_row i (progressed_row i r) = progressed_row i r"
proof -
  define a where "a = int_value (ck_attempts r)"
  define u where "u = int_value (ck_unavailable r)"
  have "max a (pi_attempt i) + max u (pi_unavailable i) \<le> pi_attempt i + pi_unavailable i \<longrightarrow> a + u \<le> pi_attempt i + pi_unavailable i"
    by linarith
  then show ?thesis
    by (auto simp: progressed_row_def progress_total_def Let_def int_value_def a_def u_def split: option.splits)
qed

lemma progressed_row_applies: "progress_applies i r \<Longrightarrow> progress_applies i (progressed_row i r)"
  by (auto simp: progress_applies_def at_checklist_def progressed_row_def Let_def split: option.splits)

text \<open>C20: Repeating a checkpoint, as a retried activity does, changes nothing, and no checkpoint, however late,
  takes progress back: no count of a row shrinks and the start of its window never moves.\<close>

theorem checkpoint_is_repeatable:
  assumes "record_discovery_progress i db = Ok db1"
  shows "record_discovery_progress i db1 = Ok db1 \<and>
    list_all2 (\<lambda>r r1. int_value (ck_attempts r) \<le> int_value (ck_attempts r1) \<and>
        int_value (ck_unavailable r) \<le> int_value (ck_unavailable r1) \<and>
        map_option sw_earliest (ck_window r1) = map_option sw_earliest (ck_window r))
      (kd_rows db) (kd_rows db1)"
proof -
  let ?step = "\<lambda>r. if progress_applies i r then progressed_row i r else r"
  have ok: "(case pi_window i of None \<Rightarrow> Ok () | Some w \<Rightarrow> validate_window w) = Ok ()"
    "length (filter (progress_applies i) (kd_rows db)) = 1" "db1 = update_checklist (progress_applies i) (progressed_row i) db"
    using assms by (auto simp: record_discovery_progress_def bind_result_Ok_iff split: if_splits)
  have rows: "kd_rows db1 = map ?step (kd_rows db)" by (simp add: ok(3) update_checklist_def)
  have "length (filter (progress_applies i) (map ?step rs)) = length (filter (progress_applies i) rs)" for rs
    by (induction rs) (simp_all add: progressed_row_applies)
  then have one: "length (filter (progress_applies i) (kd_rows db1)) = 1" using ok(2) rows by simp
  have "map ?step (kd_rows db1) = kd_rows db1"
    unfolding rows by (simp add: progressed_row_applies progressed_row_idem)
  then have "record_discovery_progress i db1 = Ok db1"
    by (simp add: record_discovery_progress_def ok(1) one update_checklist_def)
  moreover have "int_value (ck_attempts r) \<le> int_value (ck_attempts (?step r)) \<and>
      int_value (ck_unavailable r) \<le> int_value (ck_unavailable (?step r)) \<and>
      map_option sw_earliest (ck_window (?step r)) = map_option sw_earliest (ck_window r)" for r
    by (auto simp: progressed_row_def progress_applies_def Let_def int_value_def split: option.splits)
  ultimately show ?thesis by (simp add: rows list_all2_conv_all_nth)
qed

definition checkpoint_db :: search_db where
  "checkpoint_db = \<lparr> vd_events = [], vd_assets = [], vd_shares = [], vd_validations = [], sd_sources = [],
     kd_rows = [\<lparr> ck_event_id = 7, ck_type = ''discovery'', ck_workflow = ''w'', ck_attempts = Some 2, ck_unavailable = None,
       ck_state = None, ck_evidence = None, ck_window = Some \<lparr> sw_earliest = 5, sw_seen_stop = False \<rparr>,
       ck_completed_at = None, ck_outcome = None \<rparr>] \<rparr>"

definition checkpoint :: progress_input where
  "checkpoint = \<lparr> pi_event_id = 7, pi_type = ''discovery'', pi_workflow = ''w'', pi_attempt = 3, pi_unavailable = 1,
     pi_state = ResultRendered, pi_evidence = None, pi_window = Some \<lparr> sw_earliest = 5, sw_seen_stop = True \<rparr> \<rparr>"

theorem checkpoint_is_repeatable_witness:
  "record_discovery_progress checkpoint (the_ok (record_discovery_progress checkpoint checkpoint_db)) =
     record_discovery_progress checkpoint checkpoint_db"
proof -
  have "case record_discovery_progress checkpoint checkpoint_db of Ok _ \<Rightarrow> True | Err _ \<Rightarrow> False" by code_simp
  then obtain db1 where db1: "record_discovery_progress checkpoint checkpoint_db = Ok db1" by (auto split: result.splits)
  show ?thesis using checkpoint_is_repeatable [OF db1] by (simp add: db1)
qed

end
