(* ===== verification/Placement.thy ===== *)
theory Placement
  imports Candidates
begin

text \<open>
  The placement of an accepted clip: \<open>internal/domain/video/placement.go\<close>, \<open>selection_repo.go\<close> and
  \<open>internal/infra/pg/video_placement_repo.go\<close>, \<open>video_validation.go\<close>, \<open>video_selection_snapshot.go\<close>,
  \<open>video_selection_repo.go\<close>, \<open>video_placement_selection.go\<close>. One transaction holds the lock of the
  event, writes assets, share, sources and supersessions, and an error anywhere leaves the tables as
  they were. JSON texts, the digest and generated identities are arguments of the model; the size
  checks of the receipt columns are left out.
\<close>

section \<open>Requests and receipts\<close>

record placement_candidate =
  pc_evidence :: candidate_evidence
  pc_outcome :: go_string
  pc_detail :: "json option"
  pc_raw_md5 :: go_string

record selection_request =
  rq_id :: uuid
  rq_event_id :: uuid
  rq_fixture_id :: int
  rq_snapshot_hash :: go_string
  rq_policy :: selection_policy
  rq_prepared :: "uuid list"

record clip_placement =
  cp_event_id :: uuid
  cp_fixture_id :: int
  cp_observed :: uuid
  cp_winner_id :: uuid
  cp_winner :: "video_asset option"
  cp_variant :: "video_asset option"
  cp_verified :: bool
  cp_minute :: "int option"
  cp_losers :: "uuid list"
  cp_candidates :: "placement_candidate list"
  cp_committed_at :: instant
  cp_validation :: "validation_evidence option"
  cp_selection :: "selection_request option"

record selection_result =
  sx_plan :: selection_plan
  sx_shares :: "(uuid \<times> go_string) list"
  sx_replayed :: bool
  sx_skipped :: go_string

record placement_result =
  px_winner :: uuid
  px_share :: go_string
  px_winner_created :: bool
  px_observed_created :: bool
  px_event_removed :: bool
  px_selection :: "selection_result option"

record before_node =
  bn_asset :: uuid
  bn_superseded_by :: "uuid option"
  bn_popularity :: int
  bn_exact_sources :: int
  bn_share :: "video_share option"
  bn_validation :: "uuid option"

record commit_row =
  cm_id :: uuid
  cm_event_id :: uuid
  cm_fixture_id :: int
  cm_request_hash :: go_string
  cm_snapshot_hash :: go_string
  cm_policy :: selection_policy
  cm_before :: "before_node list"
  cm_selection :: selection_result
  cm_placement :: "placement_result option"

record clip_db = source_db +
  cl_commits :: "commit_row list"

text \<open>What a transaction reads besides the tables: the time of the database, the clock of the process,
  generated identities (a row for a URL, a share for an asset) and the encoder.\<close>

record clip_env =
  en_now :: instant
  en_clock :: instant
  en_row_id :: "go_string \<Rightarrow> uuid"
  en_share_id :: "uuid \<Rightarrow> go_string option"
  en_evidence_length :: "validation_evidence \<Rightarrow> nat option"
  en_snapshot_json :: "selection_snapshot \<Rightarrow> go_string option"
  en_request_json :: "selection_request \<Rightarrow> go_string option"
  en_placement_json :: "clip_placement \<Rightarrow> go_string option"
  en_sha256 :: "go_string \<Rightarrow> 8 word list"

section \<open>Validation of a placement\<close>

definition validate_incoming ::
  "clip_placement \<Rightarrow> video_asset option \<Rightarrow> unit result" where
  "validate_incoming p a =
     (case a of None \<Rightarrow> Ok ()
      | Some w \<Rightarrow>
          if va_id w = 0 \<or> va_event_id w \<noteq> cp_event_id p \<or> va_fixture_id w \<noteq> cp_fixture_id p
          then Err ''new winner identity does not match placement'' else validate_asset w)"

definition validate_variant :: "clip_placement \<Rightarrow> unit result" where
  "validate_variant p =
     (case cp_variant p of None \<Rightarrow> Ok ()
      | Some v \<Rightarrow>
          if cp_winner_id p = 0 \<or> cp_winner p \<noteq> None \<or> cp_observed p \<noteq> va_id v \<or>
            va_event_id v \<noteq> cp_event_id p \<or> va_fixture_id v \<noteq> cp_fixture_id p
          then Err ''observed variant identity does not match placement''
          else bind_result (validate_asset v) (\<lambda>_.
            if va_superseded_by v \<noteq> Some (cp_winner_id p)
            then Err ''observed variant does not point to the existing winner'' else Ok ()))"

definition validate_evaluation :: "(validation_evidence \<Rightarrow> nat option) \<Rightarrow> clip_placement \<Rightarrow> unit result" where
  "validate_evaluation json_length p =
     (case cp_validation p of None \<Rightarrow> Ok ()
      | Some e \<Rightarrow> bind_result (validate_evidence json_length e) (\<lambda>_.
          if cp_observed p = 0 \<or> ve_event_id e \<noteq> cp_event_id p \<or> ve_fixture_id e \<noteq> cp_fixture_id p \<or>
            cp_verified p \<noteq> (ev_outcome (ve_evaluation e) = OutcomeVerified) \<or>
            cp_minute p \<noteq> ev_matched_minute (ve_evaluation e)
          then Err ''placement validation differs from its exact observation or verdict'' else Ok ()))"

definition validate_candidate :: "clip_placement \<Rightarrow> placement_candidate \<Rightarrow> unit \<Rightarrow> unit result" where
  "validate_candidate p c = (\<lambda>_. let e = pc_evidence c in
     if ce_event_id e \<noteq> cp_event_id p \<or> ce_fixture_id e \<noteq> cp_fixture_id p \<or> ce_attempt e \<le> 0 \<or>
       ce_query e = '''' \<or> ce_url e = ''''
     then Err ''candidate evidence is incomplete''
     else if pc_outcome c \<noteq> ''promoted'' \<and> pc_outcome c \<noteq> ''duplicate''
     then Err ''placement candidate outcome is not accepted'' else Ok ())"

definition validate_placement :: "(validation_evidence \<Rightarrow> nat option) \<Rightarrow> clip_placement \<Rightarrow> unit result" where
  "validate_placement json_length p =
     (if cp_event_id p = 0 \<or> cp_fixture_id p \<le> 0 \<or> cp_candidates p = []
      then Err ''incomplete event, fixture, or candidate set''
      else if (cp_winner p = None) = (cp_winner_id p = 0)
      then Err ''exactly one new or existing winner is required''
      else bind_result (validate_incoming p (cp_winner p)) (\<lambda>_.
        bind_result (validate_variant p) (\<lambda>_.
          if (case cp_winner p of None \<Rightarrow> False | Some w \<Rightarrow> cp_observed p \<noteq> 0 \<and> cp_observed p \<noteq> va_id w)
          then Err ''new winner differs from observed variant''
          else bind_result (validate_evaluation json_length p) (\<lambda>_.
            fold_result (validate_candidate p) (cp_candidates p) ()))))"

section \<open>Assets\<close>

definition same_asset :: "video_asset \<Rightarrow> video_asset \<Rightarrow> bool" where
  "same_asset got want \<longleftrightarrow>
     va_id got = va_id want \<and> va_event_id got = va_event_id want \<and> va_fixture_id got = va_fixture_id want \<and>
     va_bucket got = va_bucket want \<and> va_key got = va_key want \<and> va_md5 got = va_md5 want \<and>
     va_media_fingerprint got = va_media_fingerprint want \<and>
     va_hash_version got = normalize_frame_hash_version (va_hash_version want) \<and>
     encode_frame_hashes (va_hashes got) = encode_frame_hashes (va_hashes want) \<and>
     va_width got = va_width want \<and> va_height got = va_height want \<and> va_duration_ms got = va_duration_ms want \<and>
     va_file_size got = va_file_size want \<and> va_bitrate got = va_bitrate want \<and>
     va_frame_rate got = va_frame_rate want \<and> va_superseded_by got = va_superseded_by want"

text \<open>The walk from the observed variant to the winner. It refuses an asset seen twice, so the assets not
  yet seen bound it.\<close>

function observed_root :: "video_asset list \<Rightarrow> uuid \<Rightarrow> int \<Rightarrow> uuid \<Rightarrow> uuid set \<Rightarrow> uuid \<Rightarrow> unit result" where
  "observed_root assets eid fid winner seen current =
     (if current = winner then Ok ()
      else if current \<in> seen then Err ''observed variant lineage cycles''
      else case find (\<lambda>a. va_id a = current) assets of
        None \<Rightarrow> Err ''read observed variant''
      | Some a \<Rightarrow>
          if va_event_id a \<noteq> eid \<or> va_fixture_id a \<noteq> fid
          then Err ''observed variant belongs to another event or fixture''
          else case va_superseded_by a of
            None \<Rightarrow> Err ''observed variant does not resolve to winner''
          | Some successor \<Rightarrow> observed_root assets eid fid winner (insert current seen) successor)"
  by pat_completeness auto
termination
proof (relation "measure (\<lambda>(assets, eid, fid, winner, seen, current). card (va_id ` set assets - seen))")
  fix assets :: "video_asset list" and eid :: uuid and fid :: int and winner :: uuid and seen :: "uuid set"
    and current :: uuid and a successor
  assume "current \<notin> seen" "find (\<lambda>a. va_id a = current) assets = Some a"
  then have "current \<in> va_id ` set assets - seen" by (force simp: find_Some_iff)
  then have "card (va_id ` set assets - insert current seen) < card (va_id ` set assets - seen)"
    by (intro psubset_card_mono) auto
  then show "((assets, eid, fid, winner, insert current seen, successor), assets, eid, fid, winner, seen, current)
      \<in> measure (\<lambda>(assets, eid, fid, winner, seen, current). card (va_id ` set assets - seen))"
    by simp
qed simp

declare observed_root.simps [simp del]

definition persist_validation ::
  "instant \<Rightarrow> clip_placement \<Rightarrow> 'a video_db_scheme \<Rightarrow> 'a video_db_scheme result" where
  "persist_validation now p db =
     (case cp_validation p of None \<Rightarrow> Ok db
      | Some e \<Rightarrow>
          (case find_asset db (cp_observed p) of
             None \<Rightarrow> Err err_not_found
           | Some observed \<Rightarrow>
               if ve_md5 e \<noteq> hex_encode (va_md5 observed)
               then Err ''validation does not describe observed bytes''
               else (case find (\<lambda>r. vr_id r = ve_id e) (vd_validations db) of
                  Some r \<Rightarrow>
                    if vr_asset_id r = cp_observed p \<and> vr_event_id r = cp_event_id p \<and>
                      vr_fixture_id r = cp_fixture_id p \<and> vr_evidence r = e
                    then Ok db else Err ''validation identity reused with different evidence''
                | None \<Rightarrow>
                    if \<not> asset_exists db (cp_observed p) (cp_event_id p) (cp_fixture_id p)
                    then Err ''video_asset_validations_asset_fkey''
                    else Ok (db\<lparr> vd_validations := vd_validations db @
                      [\<lparr> vr_id = ve_id e, vr_asset_id = cp_observed p, vr_event_id = cp_event_id p,
                         vr_fixture_id = cp_fixture_id p, vr_evidence = e, vr_recorded_at = now \<rparr>] \<rparr>))))"

section \<open>The share of the winner\<close>

definition active_ranks :: "'a video_db_scheme \<Rightarrow> uuid \<Rightarrow> int list" where
  "active_ranks db eid =
     map vs_rank (filter (\<lambda>s. vs_event_id s = eid \<and> vs_state s = ShareActive) (vd_shares db))"

definition max_rank :: "'a video_db_scheme \<Rightarrow> uuid \<Rightarrow> int" where
  "max_rank db eid = (if active_ranks db eid = [] then 0 else Max (set (active_ranks db eid)))"

definition ensure_share ::
  "clip_env \<Rightarrow> clip_placement \<Rightarrow> uuid \<Rightarrow> 'a video_db_scheme \<Rightarrow> ('a video_db_scheme \<times> go_string) result" where
  "ensure_share env p winner db =
     (case share_of db (cp_event_id p) winner of
        Some s \<Rightarrow> if vs_state s \<noteq> ShareActive then Err ''winner share is not active'' else Ok (db, vs_id s)
      | None \<Rightarrow>
          bind_result (new_share (en_share_id env winner) winner (cp_event_id p) (cp_verified p) (cp_minute p)
              (max_rank db (cp_event_id p) + 1) (cp_committed_at p)) (\<lambda>s.
            if list_ex (\<lambda>t. vs_id t = vs_id s) (vd_shares db) then Err ''video_shares_pkey''
            else if \<not> asset_in_event db winner (cp_event_id p) then Err ''video_shares_asset_event_fkey''
            else Ok (db\<lparr> vd_shares := vd_shares db @ [share_row s] \<rparr>, vs_id s)))"

section \<open>Credit\<close>

text \<open>\<open>hex.DecodeString\<close> of a string that decodes.\<close>

definition hex_value :: "char \<Rightarrow> nat" where
  "hex_value c =
     (if is_digit_char c then code_of c - 48 else if is_upper_char c then code_of c - 55 else code_of c - 87)"

fun hex_decode :: "go_string \<Rightarrow> 8 word list" where
  "hex_decode (a # b # cs) = word_of_nat (16 * hex_value a + hex_value b) # hex_decode cs"
| "hex_decode _ = []"

definition nullable_uuid :: "uuid \<Rightarrow> uuid option" where
  "nullable_uuid k = (if k = 0 then None else Some k)"

definition or_else :: "'b option \<Rightarrow> 'b option \<Rightarrow> 'b option" where
  "or_else a b = (case a of None \<Rightarrow> b | Some _ \<Rightarrow> a)"

definition accepted_row :: "clip_env \<Rightarrow> clip_placement \<Rightarrow> uuid \<Rightarrow> placement_candidate \<Rightarrow> source_row" where
  "accepted_row env p winner c =
     (observation_row (en_row_id env (ce_url (pc_evidence c))) (en_now env) (pc_evidence c))
       \<lparr> sr_outcome := pc_outcome c, sr_detail := pc_detail c, sr_outcome_at := Some (en_now env),
         sr_observed := nullable_uuid (cp_observed p), sr_credited := Some winner,
         sr_raw_md5 := (if pc_raw_md5 c = '''' then None else Some (hex_decode (pc_raw_md5 c))) \<rparr>"

definition credited_row ::
  "clip_env \<Rightarrow> clip_placement \<Rightarrow> uuid \<Rightarrow> placement_candidate \<Rightarrow> source_row \<Rightarrow> source_row" where
  "credited_row env p winner c r =
     r\<lparr> sr_outcome := pc_outcome c, sr_reason := None, sr_detail := keep_replay (sr_detail r) (pc_detail c),
        sr_outcome_at := (if sr_outcome r = pc_outcome c \<and> sr_credited r = Some winner
                          then or_else (sr_outcome_at r) (Some (en_now env)) else Some (en_now env)),
        sr_observed := or_else (sr_observed r) (nullable_uuid (cp_observed p)),
        sr_credited := Some winner,
        sr_raw_md5 := or_else (sr_raw_md5 r)
          (if pc_raw_md5 c = '''' then None else Some (hex_decode (pc_raw_md5 c))) \<rparr>"

definition source_conflicts :: "clip_placement \<Rightarrow> placement_candidate \<Rightarrow> source_row \<Rightarrow> bool" where
  "source_conflicts p c r \<longleftrightarrow>
     sr_fixture_id r \<noteq> cp_fixture_id p \<or>
     (case sr_observed r of None \<Rightarrow> False | Some k \<Rightarrow> cp_observed p \<noteq> 0 \<and> k \<noteq> cp_observed p) \<or>
     (case sr_raw_md5 r of None \<Rightarrow> False | Some b \<Rightarrow> pc_raw_md5 c \<noteq> '''' \<and> b \<noteq> hex_decode (pc_raw_md5 c))"

text \<open>The result says whether the source is a new vote.\<close>

definition credit_candidate ::
  "clip_env \<Rightarrow> clip_placement \<Rightarrow> uuid \<Rightarrow> uuid list \<Rightarrow> placement_candidate \<Rightarrow> 'a source_db_scheme \<times> int \<Rightarrow>
   ('a source_db_scheme \<times> int) result" where
  "credit_candidate env p winner losers c = (\<lambda>(db, votes).
     let url = ce_url (pc_evidence c) in
     if pc_raw_md5 c \<noteq> '''' \<and> \<not> digest_decodes 16 (pc_raw_md5 c) then Err ''invalid raw MD5''
     else case source_at db (cp_event_id p) url of
       None \<Rightarrow>
         if \<not> evidence_row_ok (pc_evidence c) then Err ''event_search_candidates: check''
         else Ok (db\<lparr> sd_sources := sd_sources db @ [accepted_row env p winner c] \<rparr>, votes + 1)
     | Some r \<Rightarrow>
         if source_conflicts p c r then Err ''candidate conflicts with its prior observation''
         else (case sr_credited r of
           None \<Rightarrow> Ok (update_sources (at_url (cp_event_id p) url) (credited_row env p winner c) db,
                       if outcome_credited (sr_outcome r) then votes else votes + 1)
         | Some k \<Rightarrow>
             if k \<noteq> winner \<and> k \<notin> set losers then Err ''candidate already credited''
             else Ok (update_sources (at_url (cp_event_id p) url) (credited_row env p winner c) db, votes)))"

section \<open>Supersession\<close>

definition moved_row :: "clip_env \<Rightarrow> json \<Rightarrow> uuid \<Rightarrow> source_row \<Rightarrow> source_row" where
  "moved_row env note winner r =
     r\<lparr> sr_credited := Some winner,
        sr_outcome := (if sr_outcome r = ''promoted'' then ''superseded'' else sr_outcome r),
        sr_detail := keep_replay (sr_detail r) (Some note),
        sr_outcome_at := (if sr_outcome r = ''promoted'' then Some (en_now env) else sr_outcome_at r) \<rparr>"

text \<open>The text of an identity is an argument.\<close>

definition retire_loser ::
  "clip_env \<Rightarrow> (uuid \<Rightarrow> go_string) \<Rightarrow> uuid \<Rightarrow> uuid \<Rightarrow> uuid \<Rightarrow> 'a source_db_scheme \<Rightarrow> 'a source_db_scheme result" where
  "retire_loser env uuid_text eid winner loser db =
     (case find_asset db loser of
        None \<Rightarrow> Err ''lock loser''
      | Some l \<Rightarrow>
          if va_event_id l \<noteq> eid then Err ''loser belongs to another event''
          else if (case va_superseded_by l of None \<Rightarrow> False | Some k \<Rightarrow> k \<noteq> winner)
          then Err ''loser already points elsewhere''
          else if va_superseded_by l = None \<and> \<not> asset_exists db winner (va_event_id l) (va_fixture_id l)
          then Err ''video_assets_superseded_identity_fkey''
          else
            let merged = (if va_superseded_by l \<noteq> None then db
                          else update_asset loser (superseded_by_set winner)
                            (update_asset winner (\<lambda>w. w\<lparr> va_popularity := va_popularity w + va_popularity l \<rparr>) db));
                hidden = update_shares (\<lambda>s. vs_asset_id s = loser \<and> vs_state s = ShareActive)
                           (\<lambda>s. s\<lparr> vs_state := ShareSuperseded \<rparr>) merged
            in Ok (update_sources (\<lambda>r. sr_credited r = Some loser)
                     (moved_row env (JObject [(''winner_asset_id'', JText (uuid_text winner))]) winner) hidden))"

definition losers_of :: "clip_placement \<Rightarrow> uuid \<Rightarrow> uuid list" where
  "losers_of p winner = remdups (filter (\<lambda>k. k \<noteq> 0 \<and> k \<noteq> winner) (sort (cp_losers p)))"

section \<open>The ordinary placement\<close>

definition place_winner ::
  "clip_placement \<Rightarrow> 'a video_db_scheme \<Rightarrow> ('a video_db_scheme \<times> uuid \<times> bool) result" where
  "place_winner p db =
     (case cp_winner p of
        None \<Rightarrow> Ok (db, cp_winner_id p, False)
      | Some w \<Rightarrow> bind_result (insert_asset_row 1 w db) (\<lambda>(db', created). Ok (db', va_id w, created)))"

definition check_winner :: "clip_placement \<Rightarrow> uuid \<Rightarrow> 'a video_db_scheme \<Rightarrow> unit result" where
  "check_winner p winner db =
     (case find_asset db winner of
        None \<Rightarrow> Err err_not_found
      | Some a \<Rightarrow>
          if va_event_id a \<noteq> cp_event_id p \<or> va_fixture_id a \<noteq> cp_fixture_id p \<or> va_superseded_by a \<noteq> None
          then Err ''winner is not live in event''
          else if (case cp_winner p of None \<Rightarrow> False | Some w \<Rightarrow> \<not> same_asset a w)
          then Err ''deterministic winner identity mismatch'' else Ok ())"

definition place_variant ::
  "clip_placement \<Rightarrow> 'a video_db_scheme \<Rightarrow> ('a video_db_scheme \<times> bool) result" where
  "place_variant p db =
     (case cp_variant p of
        None \<Rightarrow> Ok (db, False)
      | Some v \<Rightarrow> bind_result (insert_asset_row 1 v db) (\<lambda>(db', created).
          (case find_asset db' (va_id v) of
             None \<Rightarrow> Err err_not_found
           | Some a \<Rightarrow> if \<not> same_asset a v then Err ''deterministic observed variant mismatch'' else Ok (db', created))))"

definition add_votes :: "uuid \<Rightarrow> int \<Rightarrow> 'a video_db_scheme \<Rightarrow> 'a video_db_scheme" where
  "add_votes winner n db =
     (if n > 0 then update_asset winner (\<lambda>a. a\<lparr> va_popularity := va_popularity a + n \<rparr>) db else db)"

definition check_observed :: "clip_placement \<Rightarrow> uuid \<Rightarrow> 'a video_db_scheme \<Rightarrow> unit result" where
  "check_observed p winner db =
     (if cp_observed p = 0 then Ok ()
      else observed_root (vd_assets db) (cp_event_id p) (cp_fixture_id p) winner {} (cp_observed p))"

definition apply_placement ::
  "clip_env \<Rightarrow> (uuid \<Rightarrow> go_string) \<Rightarrow> clip_placement \<Rightarrow> 'a source_db_scheme \<Rightarrow>
   ('a source_db_scheme \<times> placement_result) result" where
  "apply_placement env uuid_text p db =
     bind_result (place_winner p db) (\<lambda>(db1, winner, created).
     bind_result (check_winner p winner db1) (\<lambda>_.
     bind_result (place_variant p db1) (\<lambda>(db2, observed_created).
     bind_result (check_observed p winner db2) (\<lambda>_.
     bind_result (persist_validation (en_now env) p db2) (\<lambda>db3.
     bind_result (ensure_share env p winner db3) (\<lambda>(db4, share).
     bind_result (fold_result (credit_candidate env p winner (losers_of p winner)) (cp_candidates p) (db4, 0))
       (\<lambda>(db5, votes).
       if created \<and> votes = 0 then Err ''new winner received no candidate vote''
       else
         let db6 = add_votes winner (if created then votes - 1 else votes) db5
         in bind_result (fold_result (retire_loser env uuid_text (cp_event_id p) winner) (losers_of p winner) db6)
              (\<lambda>db7. Ok (db7, \<lparr> px_winner = winner, px_share = share, px_winner_created = created,
                 px_observed_created = (created \<or> observed_created), px_event_removed = False,
                 px_selection = None \<rparr>)))))))))"

section \<open>A removed event\<close>

definition reject_candidate ::
  "clip_env \<Rightarrow> clip_placement \<Rightarrow> placement_candidate \<Rightarrow> 'a source_db_scheme \<Rightarrow> 'a source_db_scheme result" where
  "reject_candidate env p c db =
     bind_result (insert_observation (en_row_id env (ce_url (pc_evidence c))) (en_now env) (pc_evidence c) db)
       (\<lambda>(db1, _).
       (case source_at db1 (cp_event_id p) (ce_url (pc_evidence c)) of
          None \<Rightarrow> Err ''lock removed candidate''
        | Some r \<Rightarrow>
            if sr_fixture_id r \<noteq> cp_fixture_id p then Err ''removed candidate fixture mismatch''
            else if sr_credited r \<noteq> None \<or> sr_outcome r \<noteq> ''pending'' then Ok db1
            else Ok (close_pending (en_clock env) (cp_event_id p) (ce_url (pc_evidence c)) (cp_committed_at p) db1)))"

definition reject_removed ::
  "clip_env \<Rightarrow> clip_placement \<Rightarrow> 'a source_db_scheme \<Rightarrow> 'a source_db_scheme result" where
  "reject_removed env p db = fold_result (reject_candidate env p) (cp_candidates p) db"

definition removed_result :: placement_result where
  "removed_result = \<lparr> px_winner = 0, px_share = '''', px_winner_created = False, px_observed_created = False,
     px_event_removed = True, px_selection = None \<rparr>"

end
