(* ===== verification/Pipeline.thy ===== *)
theory Pipeline
  imports Placement "HOL-Library.AList"
begin

text \<open>
  The consumer of an event workflow, its state and its durable effects: \<open>internal/workflow/event_pipeline.go\<close>,
  \<open>event_pipeline_effects.go\<close>, \<open>event_pipeline_selection.go\<close>, \<open>event_pipeline_placement.go\<close> and
  \<open>event_vision_failure.go\<close>. The service that runs the workflow is an argument: it answers every activity
  the workflow executes, from the commands issued so far, and says whether the workflow has been
  cancelled by the time the answer arrives. The commands are kept in order in the state. Measurements,
  logs and the options of the activities are left out.
\<close>

section \<open>Failures of activities\<close>

datatype timeout_type = StartToClose | ScheduleToStart | ScheduleToClose | HeartbeatMissed | TimeoutOther

text \<open>What \<open>errors.As\<close> finds in the chain of an error: an application error with its type and its details,
  where they decode, and a timeout.\<close>

record 'd activity_error =
  ae_canceled :: bool
  ae_application :: "(go_string \<times> 'd option) option"
  ae_timeout :: "timeout_type option"

record download_failure =
  df_stage :: go_string
  df_class :: go_string

definition download_failure_valid :: "download_failure \<Rightarrow> bool" where
  "download_failure_valid d \<longleftrightarrow>
     df_stage d \<in> set [''resolve'', ''scratch'', ''cdn_download'', ''probe'', ''staging_upload'', ''activity''] \<and>
     df_class d \<in> set [''forbidden'', ''rate_limited'', ''timeout'', ''transport'', ''invalid_response'', ''stream'',
       ''filesystem'', ''binary_missing'', ''input_missing'', ''probe_failed'', ''concurrency'', ''storage'', ''unknown'']"

definition download_failure_detail :: "download_failure activity_error \<Rightarrow> download_failure" where
  "download_failure_detail err =
     (case ae_application err of
        Some (kind, Some d) \<Rightarrow>
          if kind = ''video_download_failure'' \<and> download_failure_valid d then d
          else \<lparr> df_stage = ''activity'', df_class = (if ae_timeout err \<noteq> None then ''timeout'' else ''unknown'') \<rparr>
      | _ \<Rightarrow> \<lparr> df_stage = ''activity'', df_class = (if ae_timeout err \<noteq> None then ''timeout'' else ''unknown'') \<rparr>)"

record response_info =
  ri_request_id :: go_string
  ri_status :: int
  ri_error_code :: go_string
  ri_retry_after :: duration

definition public_char :: "char \<Rightarrow> bool" where
  "public_char c \<longleftrightarrow> is_lower_char c \<or> is_upper_char c \<or> is_digit_char c \<or> c \<in> {CHR ''_'', CHR ''-'', CHR ''.''}"

definition public_token :: "go_string \<Rightarrow> nat \<Rightarrow> go_string" where
  "public_token s limit = (if length s > limit \<or> \<not> list_all public_char s then '''' else s)"

definition response_info_valid :: "response_info \<Rightarrow> bool" where
  "response_info_valid i \<longleftrightarrow>
     public_token (ri_request_id i) 128 = ri_request_id i \<and> public_token (ri_error_code i) 64 = ri_error_code i \<and>
     (ri_status i = 0 \<or> 100 \<le> ri_status i \<and> ri_status i \<le> 599) \<and> 0 \<le> ri_retry_after i"

record vision_failure =
  vf_stage :: go_string
  vf_class :: go_string
  vf_timeout :: go_string
  vf_response :: "response_info option"

definition vision_failure_valid :: "vision_failure \<Rightarrow> bool" where
  "vision_failure_valid d \<longleftrightarrow>
     (case vf_response d of None \<Rightarrow> True | Some i \<Rightarrow> response_info_valid i) \<and>
     vf_stage d \<in> set [''scratch'', ''staging_fetch'', ''probe'', ''frame_extract'', ''model_admission'',
       ''model_request'', ''response_parse'', ''activity''] \<and>
     vf_class d \<in> set [''timeout'', ''canceled'', ''filesystem'', ''storage'', ''binary_missing'', ''input_missing'',
       ''input_corrupted'', ''concurrency'', ''probe_failed'', ''extract_failed'', ''rate_limited'', ''capacity'',
       ''unavailable'', ''transport'', ''invalid_json'', ''model_not_found'', ''invalid_request'', ''auth'', ''unknown''] \<and>
     (vf_timeout d = '''' \<or> vf_stage d = ''activity'' \<and> vf_class d = ''timeout'' \<and>
        vf_timeout d \<in> set [''start_to_close'', ''schedule_to_start'', ''schedule_to_close'', ''heartbeat'', ''unknown''])"

fun timeout_slug :: "timeout_type \<Rightarrow> go_string" where
  "timeout_slug StartToClose = ''start_to_close''"
| "timeout_slug ScheduleToStart = ''schedule_to_start''"
| "timeout_slug ScheduleToClose = ''schedule_to_close''"
| "timeout_slug HeartbeatMissed = ''heartbeat''"
| "timeout_slug TimeoutOther = ''unknown''"

definition vision_failure_detail :: "vision_failure activity_error \<Rightarrow> vision_failure" where
  "vision_failure_detail err =
     (let fallback = \<lparr> vf_stage = ''activity'', vf_class = ''unknown'', vf_timeout = '''', vf_response = None \<rparr> in
      case ae_timeout err of
        Some t \<Rightarrow> fallback\<lparr> vf_class := ''timeout'', vf_timeout := timeout_slug t \<rparr>
      | None \<Rightarrow>
          (case ae_application err of
             Some (kind, Some d) \<Rightarrow>
               if (kind = ''vision_failure'' \<or> kind = ''vision_llm_permanent'') \<and> vision_failure_valid d then d else fallback
           | _ \<Rightarrow> fallback))"

text \<open>Their JSON, with the empty fields that are omitted.\<close>

definition download_failure_json :: "download_failure \<Rightarrow> json" where
  "download_failure_json d = JObject [(''stage'', JText (df_stage d)), (''class'', JText (df_class d))]"

definition text_unless_empty :: "go_string \<Rightarrow> go_string \<Rightarrow> (go_string \<times> json) list" where
  "text_unless_empty k s = (if s = '''' then [] else [(k, JText s)])"

definition int_unless_zero :: "go_string \<Rightarrow> int \<Rightarrow> (go_string \<times> json) list" where
  "int_unless_zero k n = (if n = 0 then [] else [(k, JScalar (itoa n))])"

definition response_info_json :: "response_info \<Rightarrow> json" where
  "response_info_json i = JObject (text_unless_empty ''request_id'' (ri_request_id i) @
     int_unless_zero ''status_code'' (ri_status i) @ text_unless_empty ''error_code'' (ri_error_code i) @
     int_unless_zero ''retry_after_ns'' (ri_retry_after i))"

definition vision_failure_json :: "vision_failure \<Rightarrow> json" where
  "vision_failure_json d = JObject ([(''stage'', JText (vf_stage d)), (''class'', JText (vf_class d))] @
     text_unless_empty ''timeout_type'' (vf_timeout d) @
     (case vf_response d of None \<Rightarrow> [] | Some i \<Rightarrow> [(''model_response'', response_info_json i)]))"

section \<open>Clips at work\<close>

record work_clip =
  wk_tweet_url :: go_string
  wk_md5 :: go_string
  wk_fingerprint :: go_string
  wk_reuse :: uuid
  wk_hash_version :: go_string
  wk_frames :: "64 word list"
  wk_staging :: go_string
  wk_width :: int
  wk_height :: int
  wk_duration_ms :: int
  wk_file_size :: int
  wk_bitrate :: "int option"
  wk_frame_rate :: "rat option"
  wk_popularity :: int
  wk_followers :: "go_string list"
  wk_verified :: bool
  wk_asset :: uuid

definition exact_key :: "work_clip \<Rightarrow> go_string" where
  "exact_key c = (if wk_fingerprint c \<noteq> '''' then wk_fingerprint c else wk_md5 c)"

definition live_quality :: "work_clip \<Rightarrow> clip_quality" where
  "live_quality c = \<lparr> cq_duration_ms = wk_duration_ms c, cq_bitrate = wk_bitrate c, cq_width = wk_width c,
     cq_height = wk_height c \<rparr>"

record hash_claim =
  hc_primary :: work_clip
  hc_waiting :: "work_clip list"

datatype candidate_state = CandidateObserved | CandidateInFlight | CandidateTerminal | CandidateStateOther go_string

record ownership =
  ow_evidence :: candidate_evidence
  ow_state :: candidate_state
  ow_raw_md5 :: go_string

section \<open>Activities\<close>

record event_input =
  ei_event_id :: uuid
  ei_fixture_id :: int
  ei_player :: go_string
  ei_team :: go_string
  ei_team_id :: int
  ei_minute :: int
  ei_extra :: "int option"

record restored_asset =
  ra_asset :: uuid
  ra_md5 :: go_string
  ra_fingerprint :: go_string
  ra_hash_version :: go_string
  ra_frames :: "64 word list"
  ra_width :: int
  ra_height :: int
  ra_duration_ms :: int
  ra_file_size :: int
  ra_bitrate :: "int option"
  ra_frame_rate :: "rat option"
  ra_popularity :: int
  ra_verified :: bool

record restored_alias =
  rl_md5 :: go_string
  rl_fingerprint :: go_string
  rl_asset :: uuid
  rl_observed :: uuid

record selection_state =
  zs_assets :: "restored_asset list"
  zs_aliases :: "restored_alias list"

record selection_output =
  zo_state :: selection_state
  zo_restored :: "uuid list"
  zo_skipped :: go_string

record placement_output =
  po_winner :: uuid
  po_share :: go_string
  po_winner_created :: bool
  po_observed_created :: bool
  po_announce :: bool
  po_event_removed :: bool
  po_selection :: "selection_output option"

record placement_command =
  pq_event_id :: uuid
  pq_fixture_id :: int
  pq_capture_variant :: bool
  pq_new_winner :: bool
  pq_winner :: uuid
  pq_losers :: "uuid list"
  pq_candidates :: "placement_candidate list"
  pq_staging :: go_string
  pq_md5 :: go_string
  pq_fingerprint :: go_string
  pq_reuse :: uuid
  pq_hash_version :: go_string
  pq_frames :: "64 word list"
  pq_width :: int
  pq_height :: int
  pq_duration_ms :: int
  pq_file_size :: int
  pq_bitrate :: "int option"
  pq_frame_rate :: "rat option"
  pq_verified :: bool
  pq_minute :: "int option"
  pq_validation :: "validation_evidence option"
  pq_selection :: "(uuid \<times> selection_policy) option"

record promote_command =
  pm_event_id :: uuid
  pm_fixture_id :: int
  pm_staging :: go_string
  pm_md5 :: go_string
  pm_hash_version :: go_string
  pm_frames :: "64 word list"
  pm_width :: int
  pm_height :: int
  pm_duration_ms :: int
  pm_file_size :: int
  pm_bitrate :: "int option"
  pm_frame_rate :: "rat option"
  pm_popularity :: int
  pm_verified :: bool
  pm_minute :: "int option"

record promote_output =
  mo_asset :: uuid
  mo_minted :: bool

record download_output =
  do_outcome :: go_string
  do_reject_reason :: go_string
  do_md5 :: go_string
  do_fingerprint :: go_string
  do_staging :: go_string
  do_width :: int
  do_height :: int
  do_duration_ms :: int
  do_bitrate :: int
  do_frame_rate :: rat
  do_size :: int

record hash_output =
  ho_outcome :: go_string
  ho_reject_reason :: go_string
  ho_version :: go_string
  ho_frames :: "64 word list"

record child_output =
  vc_tweet_url :: go_string
  vc_outcome :: go_string
  vc_reject_reason :: go_string
  vc_failure_reason :: go_string
  vc_md5 :: go_string
  vc_staging :: go_string
  vc_version :: go_string
  vc_frames :: "64 word list"
  vc_width :: int
  vc_height :: int
  vc_duration_ms :: int
  vc_bitrate :: int
  vc_frame_rate :: rat
  vc_size :: int

record vision_input =
  vi_event_id :: uuid
  vi_fixture_id :: int
  vi_staging :: go_string
  vi_elapsed :: int
  vi_extra :: int
  vi_capture :: bool
  vi_md5 :: go_string

text \<open>The observations of the frames and the clock readings come encoded.\<close>

record vision_output =
  vo_evaluator :: go_string
  vo_outcome :: go_string
  vo_matched_minute :: "int option"
  vo_reason :: go_string
  vo_soccer_votes :: int
  vo_screen_votes :: int
  vo_detected_minute :: "int option"
  vo_detected_period :: go_string
  vo_expected_minute :: int
  vo_expected_period :: go_string
  vo_frames :: "json list"
  vo_readings :: "json list"
  vo_evidence :: "validation_evidence option"

definition no_verdict :: vision_output where
  "no_verdict = \<lparr> vo_evaluator = '''', vo_outcome = '''', vo_matched_minute = None, vo_reason = '''', vo_soccer_votes = 0,
     vo_screen_votes = 0, vo_detected_minute = None, vo_detected_period = '''', vo_expected_minute = 0,
     vo_expected_period = '''', vo_frames = [], vo_readings = [], vo_evidence = None \<rparr>"

datatype call =
    DownloadAndStage uuid int go_string bool
  | RunVideoWorkflow int go_string
  | HashVideo go_string
  | ValidateClip vision_input
  | UpsertCandidateOutcome candidate_evidence go_string go_string "json option"
  | RecordCandidateOutcome go_string go_string go_string "json option"
  | CommitClipPlacement placement_command
  | PromoteAndPersist promote_command
  | SupersedeAssets uuid "uuid list"
  | BumpAssetPopularity uuid int
  | DeleteStaging go_string
  | PublishEventUpdate bool

text \<open>A scheduled activity whose result the selector still has to deliver.\<close>

datatype future = DownloadFuture go_string | VideoFuture go_string | HashFuture go_string | VisionFuture work_clip

section \<open>State\<close>

record pipeline_config =
  pg_max_hamming :: int
  pg_min_run :: int
  pg_max_gaps :: int
  pg_long_max_hamming :: int
  pg_long_min_run :: int
  pg_long_max_gaps :: int
  pg_terminal_video_failures :: bool
  pg_pre_hash_claim :: bool
  pg_durable_candidates :: bool
  pg_durable_download_failures :: bool
  pg_durable_vision_failures :: bool
  pg_defer_followers :: bool
  pg_atomic_placement :: bool
  pg_canonical_aliases :: bool
  pg_cadence :: bool
  pg_variant_evidence :: bool
  pg_preserve_incumbents :: bool
  pg_durable_validation :: bool
  pg_reversible_selection :: bool
  pg_event_update_contract :: bool
  pg_media_identity :: bool

record pipeline =
  pl_assets :: "work_clip list"
  pl_exact_roots :: "go_string \<Rightarrow> uuid option"
  pl_media_observed :: "go_string \<Rightarrow> uuid option"
  pl_pending :: "work_clip list"
  pl_hashing :: "(go_string \<times> hash_claim) list"
  pl_in_flight :: int
  pl_search_done :: bool
  pl_search_err :: "go_string option"
  pl_terminal_err :: "go_string option"
  pl_child_seq :: int
  pl_candidates :: "(go_string \<times> ownership) list"
  pl_spawned :: int
  pl_passed :: int
  pl_rejected :: int
  pl_duplicates :: int
  pl_verified :: int
  pl_unverified :: int
  pl_superseded :: int
  pl_failed :: int
  pl_futures :: "future list"
  pl_calls :: "call list"
  pl_canceled :: bool

text \<open>The identities derived from texts and the order in which a map of claims is ranged over are
  arguments too.\<close>

record pipeline_env =
  pe_in :: event_input
  pe_cfg :: pipeline_config
  pe_act :: "call list \<Rightarrow> call \<Rightarrow> unit activity_error option \<times> bool"
  pe_commit :: "call list \<Rightarrow> placement_command \<Rightarrow> (unit activity_error + placement_output) \<times> bool"
  pe_promote :: "call list \<Rightarrow> promote_command \<Rightarrow> (unit activity_error + promote_output) \<times> bool"
  pe_asset_uuid :: "uuid \<Rightarrow> go_string \<Rightarrow> uuid"
  pe_selection_uuid :: "go_string \<Rightarrow> uuid"
  pe_uuid_text :: "uuid \<Rightarrow> go_string"
  pe_claim_order :: "(go_string \<times> hash_claim) list \<Rightarrow> (go_string \<times> hash_claim) list"

abbreviation pe_flag :: "pipeline_env \<Rightarrow> (pipeline_config \<Rightarrow> bool) \<Rightarrow> bool" where
  "pe_flag e f \<equiv> f (pe_cfg e)"

definition new_pipeline :: pipeline where
  "new_pipeline = \<lparr> pl_assets = [], pl_exact_roots = (\<lambda>_. None), pl_media_observed = (\<lambda>_. None), pl_pending = [],
     pl_hashing = [], pl_in_flight = 0, pl_search_done = False, pl_search_err = None, pl_terminal_err = None,
     pl_child_seq = 0, pl_candidates = [], pl_spawned = 0, pl_passed = 0, pl_rejected = 0, pl_duplicates = 0,
     pl_verified = 0, pl_unverified = 0, pl_superseded = 0, pl_failed = 0, pl_futures = [], pl_calls = [],
     pl_canceled = False \<rparr>"

definition perform :: "pipeline_env \<Rightarrow> call \<Rightarrow> pipeline \<Rightarrow> pipeline \<times> unit activity_error option" where
  "perform e c p =
     (case pe_act e (pl_calls p) c of (r, stop) \<Rightarrow>
        (p\<lparr> pl_calls := pl_calls p @ [c], pl_canceled := (pl_canceled p \<or> stop) \<rparr>, r))"

definition schedule :: "call \<Rightarrow> future \<Rightarrow> pipeline \<Rightarrow> pipeline" where
  "schedule c f p = p\<lparr> pl_calls := pl_calls p @ [c], pl_futures := pl_futures p @ [f], pl_in_flight := pl_in_flight p + 1 \<rparr>"

definition set_terminal_error :: "go_string \<Rightarrow> pipeline \<Rightarrow> pipeline" where
  "set_terminal_error err p = (if pl_terminal_err p \<noteq> None then p else p\<lparr> pl_terminal_err := Some err \<rparr>)"

section \<open>Exact roots\<close>

definition remember_exact_root :: "pipeline_env \<Rightarrow> go_string \<Rightarrow> uuid \<Rightarrow> pipeline \<Rightarrow> pipeline" where
  "remember_exact_root e md5 k p =
     (if \<not> pe_flag e pg_canonical_aliases \<or> md5 = '''' \<or> k = 0 then p
      else p\<lparr> pl_exact_roots := (pl_exact_roots p)(md5 \<mapsto> k) \<rparr>)"

definition redirect_exact_roots :: "pipeline_env \<Rightarrow> uuid list \<Rightarrow> uuid \<Rightarrow> pipeline \<Rightarrow> pipeline" where
  "redirect_exact_roots e losers winner p =
     (if \<not> pe_flag e pg_canonical_aliases \<or> winner = 0 \<or> losers = [] then p
      else p\<lparr> pl_exact_roots := (\<lambda>md5. case pl_exact_roots p md5 of None \<Rightarrow> None
             | Some k \<Rightarrow> Some (if k \<in> set losers then winner else k)) \<rparr>)"

definition restored_clip :: "restored_asset \<Rightarrow> work_clip" where
  "restored_clip a = \<lparr> wk_tweet_url = '''', wk_md5 = ra_md5 a, wk_fingerprint = ra_fingerprint a, wk_reuse = 0,
     wk_hash_version = normalize_frame_hash_version (ra_hash_version a), wk_frames = ra_frames a, wk_staging = '''',
     wk_width = ra_width a, wk_height = ra_height a, wk_duration_ms = ra_duration_ms a, wk_file_size = ra_file_size a,
     wk_bitrate = ra_bitrate a, wk_frame_rate = ra_frame_rate a,
     wk_popularity = (if ra_popularity a < 1 then 1 else ra_popularity a), wk_followers = [],
     wk_verified = ra_verified a, wk_asset = ra_asset a \<rparr>"

definition restore_asset :: "pipeline_env \<Rightarrow> restored_asset \<Rightarrow> pipeline \<Rightarrow> pipeline" where
  "restore_asset e a p =
     (let p1 = remember_exact_root e (ra_fingerprint a) (ra_asset a)
                 (remember_exact_root e (ra_md5 a) (ra_asset a) (p\<lparr> pl_assets := pl_assets p @ [restored_clip a] \<rparr>))
      in if ra_fingerprint a \<noteq> ''''
         then p1\<lparr> pl_media_observed := (pl_media_observed p1)(ra_fingerprint a \<mapsto> ra_asset a) \<rparr> else p1)"

definition restore_alias :: "pipeline_env \<Rightarrow> restored_alias \<Rightarrow> pipeline \<Rightarrow> pipeline" where
  "restore_alias e a p =
     (let p1 = remember_exact_root e (rl_fingerprint a) (rl_asset a) (remember_exact_root e (rl_md5 a) (rl_asset a) p)
      in if rl_fingerprint a \<noteq> '''' \<and> rl_observed a \<noteq> 0
         then p1\<lparr> pl_media_observed := (pl_media_observed p1)(rl_fingerprint a \<mapsto> rl_observed a) \<rparr> else p1)"

definition restore_assets :: "pipeline_env \<Rightarrow> restored_asset list \<Rightarrow> restored_alias list \<Rightarrow> pipeline \<Rightarrow> pipeline" where
  "restore_assets e restored aliases p = fold (restore_alias e) aliases (fold (restore_asset e) restored p)"

section \<open>Single effects\<close>

definition record_outcome ::
  "pipeline_env \<Rightarrow> go_string \<Rightarrow> go_string \<Rightarrow> go_string \<Rightarrow> json option \<Rightarrow> pipeline \<Rightarrow> pipeline" where
  "record_outcome e url outcome reason detail p =
     (if url = '''' \<or> pl_canceled p then p
      else if pe_flag e pg_durable_candidates then
        (case map_of (pl_candidates p) url of
           None \<Rightarrow> set_terminal_error ''candidate evidence missing'' p
         | Some own \<Rightarrow>
             (case perform e (UpsertCandidateOutcome (ow_evidence own) outcome reason detail) p of
                (p1, Some _) \<Rightarrow> set_terminal_error ''persist terminal candidate'' p1
              | (p1, None) \<Rightarrow>
                  p1\<lparr> pl_candidates := AList.update url (own\<lparr> ow_state := CandidateTerminal \<rparr>) (pl_candidates p1) \<rparr>))
      else fst (perform e (RecordCandidateOutcome url outcome reason detail) p))"

definition delete_staging :: "pipeline_env \<Rightarrow> go_string \<Rightarrow> pipeline \<Rightarrow> pipeline" where
  "delete_staging e key p = (if key = '''' \<or> pl_canceled p then p else fst (perform e (DeleteStaging key) p))"

definition bump_asset_popularity :: "pipeline_env \<Rightarrow> uuid \<Rightarrow> int \<Rightarrow> pipeline \<Rightarrow> pipeline" where
  "bump_asset_popularity e k n p =
     (if k = 0 \<or> n < 1 \<or> pl_canceled p then p else fst (perform e (BumpAssetPopularity k n) p))"

definition publish_event_update :: "pipeline_env \<Rightarrow> pipeline \<Rightarrow> pipeline" where
  "publish_event_update e p =
     (if pl_canceled p then p else fst (perform e (PublishEventUpdate (pe_flag e pg_event_update_contract)) p))"

definition asset_ids_at :: "nat list \<Rightarrow> pipeline \<Rightarrow> uuid list" where
  "asset_ids_at idxs p = map (\<lambda>i. wk_asset (pl_assets p ! i)) idxs"

definition drop_assets :: "uuid list \<Rightarrow> pipeline \<Rightarrow> pipeline" where
  "drop_assets ids p = p\<lparr> pl_assets := filter (\<lambda>a. wk_asset a \<notin> set ids) (pl_assets p) \<rparr>"

fun remove_pending :: "go_string \<Rightarrow> work_clip list \<Rightarrow> work_clip option \<times> work_clip list" where
  "remove_pending key [] = (None, [])"
| "remove_pending key (c # cs) =
     (if wk_staging c = key then (Some c, cs)
      else case remove_pending key cs of (found, rest) \<Rightarrow> (found, c # rest))"

definition count_kept :: "bool \<Rightarrow> pipeline \<Rightarrow> pipeline" where
  "count_kept verified p =
     (if verified then p\<lparr> pl_verified := pl_verified p + 1 \<rparr> else p\<lparr> pl_unverified := pl_unverified p + 1 \<rparr>)"

section \<open>Clusters of identical clips\<close>

definition record_cluster ::
  "pipeline_env \<Rightarrow> work_clip \<Rightarrow> go_string \<Rightarrow> go_string \<Rightarrow> json option \<Rightarrow> pipeline \<Rightarrow> pipeline" where
  "record_cluster e c outcome reason detail p =
     fold (\<lambda>url. record_outcome e url outcome reason detail) (wk_tweet_url c # wk_followers c) p"

definition cluster_size :: "work_clip \<Rightarrow> int" where
  "cluster_size c = 1 + int (length (wk_followers c))"

definition reject_exact_cluster :: "pipeline_env \<Rightarrow> work_clip \<Rightarrow> go_string \<Rightarrow> json option \<Rightarrow> pipeline \<Rightarrow> pipeline" where
  "reject_exact_cluster e c reason detail p =
     record_cluster e c ''rejected'' reason detail (p\<lparr> pl_rejected := pl_rejected p + cluster_size c \<rparr>)"

definition fail_exact_cluster :: "pipeline_env \<Rightarrow> work_clip \<Rightarrow> go_string \<Rightarrow> json option \<Rightarrow> pipeline \<Rightarrow> pipeline" where
  "fail_exact_cluster e c reason detail p =
     record_cluster e c ''failed'' reason detail (p\<lparr> pl_failed := pl_failed p + cluster_size c \<rparr>)"

definition winner_detail :: "pipeline_env \<Rightarrow> uuid \<Rightarrow> json" where
  "winner_detail e k = JObject [(''winner_asset_id'', JText (pe_uuid_text e k))]"

definition promoted_detail :: "pipeline_env \<Rightarrow> uuid \<Rightarrow> bool \<Rightarrow> json" where
  "promoted_detail e k verified =
     JObject [(''asset_id'', JText (pe_uuid_text e k)), (''verified'', JScalar (if verified then ''true'' else ''false''))]"

definition duplicate_exact_cluster :: "pipeline_env \<Rightarrow> work_clip \<Rightarrow> uuid \<Rightarrow> pipeline \<Rightarrow> pipeline" where
  "duplicate_exact_cluster e c winner p =
     record_cluster e c ''duplicate'' '''' (if pe_flag e pg_defer_followers then Some (winner_detail e winner) else None)
       (p\<lparr> pl_duplicates := pl_duplicates p + cluster_size c \<rparr>)"

section \<open>Writers of older histories\<close>

definition persisted_frame_rate :: "pipeline_env \<Rightarrow> work_clip \<Rightarrow> rat option" where
  "persisted_frame_rate e c = (if pe_flag e pg_cadence then wk_frame_rate c else None)"

definition promote_clip :: "pipeline_env \<Rightarrow> work_clip \<Rightarrow> vision_output \<Rightarrow> pipeline \<Rightarrow> pipeline \<times> uuid option" where
  "promote_clip e c v p =
     (if pl_canceled p then (p, None)
      else
        let cmd = \<lparr> pm_event_id = ei_event_id (pe_in e), pm_fixture_id = ei_fixture_id (pe_in e), pm_staging = wk_staging c,
              pm_md5 = wk_md5 c, pm_hash_version = wk_hash_version c, pm_frames = wk_frames c, pm_width = wk_width c,
              pm_height = wk_height c, pm_duration_ms = wk_duration_ms c, pm_file_size = wk_file_size c,
              pm_bitrate = wk_bitrate c, pm_frame_rate = persisted_frame_rate e c, pm_popularity = wk_popularity c,
              pm_verified = wk_verified c, pm_minute = vo_matched_minute v \<rparr>
        in (case pe_promote e (pl_calls p) cmd of (r, stop) \<Rightarrow>
          let p1 = p\<lparr> pl_calls := pl_calls p @ [PromoteAndPersist cmd], pl_canceled := (pl_canceled p \<or> stop) \<rparr> in
          (case r of
             Inl err \<Rightarrow> if ae_canceled err then (p1, None) else (fail_exact_cluster e c ''promote_error'' None p1, None)
           | Inr out \<Rightarrow>
               let c1 = c\<lparr> wk_asset := mo_asset out \<rparr>;
                   p2 = count_kept (wk_verified c) (remember_exact_root e (wk_md5 c) (mo_asset out)
                          (p1\<lparr> pl_assets := pl_assets p1 @ [c1] \<rparr>));
                   p3 = record_outcome e (wk_tweet_url c) ''promoted'' ''''
                          (Some (promoted_detail e (mo_asset out) (wk_verified c))) p2;
                   p4 = fold (\<lambda>url. record_outcome e url ''duplicate'' '''' (Some (winner_detail e (mo_asset out))))
                          (wk_followers c) (p3\<lparr> pl_duplicates := pl_duplicates p3 + int (length (wk_followers c)) \<rparr>)
               in (if mo_minted out then publish_event_update e p4 else p4, Some (mo_asset out)))))"

definition supersede_assets :: "pipeline_env \<Rightarrow> uuid \<Rightarrow> uuid list \<Rightarrow> pipeline \<Rightarrow> pipeline" where
  "supersede_assets e winner losers p =
     (if losers = [] \<or> pl_canceled p then p
      else (case perform e (SupersedeAssets winner losers) p of
          (p1, Some _) \<Rightarrow> p1
        | (p1, None) \<Rightarrow>
            let p2 = publish_event_update e (redirect_exact_roots e losers winner
                       (p1\<lparr> pl_superseded := pl_superseded p1 + int (length losers) \<rparr>));
                p3 = fold (\<lambda>a. record_outcome e (wk_tweet_url a) ''superseded'' '''' (Some (winner_detail e winner)))
                       (filter (\<lambda>a. wk_asset a \<in> set losers) (pl_assets p2)) p2
            in drop_assets losers p3))"

end
