(* ===== verification/EventPipeline.thy ===== *)
theory EventPipeline
  imports Pipeline
begin

text \<open>
  The callbacks of an event workflow: \<open>internal/workflow/event_pipeline_intake.go\<close>,
  \<open>event_pipeline_validation.go\<close>, \<open>event_pipeline_placement.go\<close> and \<open>event_pipeline_selection.go\<close>. Each
  callback runs to its end on the one consumer; the producer only adds candidates in between. A fold over
  the clips of a claim or of an asset list stands for the source's loop.
\<close>

section \<open>Committed selections\<close>

definition check_selection_asset :: "restored_asset \<Rightarrow> restored_asset list \<Rightarrow> restored_asset list result" where
  "check_selection_asset a seen =
     (if ra_asset a = 0 \<or> ra_md5 a = '''' \<or> ra_popularity a < 1 \<or> ra_md5 a \<in> set (map ra_md5 seen)
      then Err ''invalid committed selection asset''
      else if ra_asset a \<in> set (map ra_asset seen) then Err ''repeated committed selection asset''
      else Ok (seen @ [a]))"

definition check_selection_alias :: "restored_asset list \<Rightarrow> restored_alias \<Rightarrow> unit \<Rightarrow> unit result" where
  "check_selection_alias assets a = (\<lambda>_.
     if rl_asset a \<notin> set (map ra_asset assets) \<or> rl_md5 a = '''' then Err ''invalid committed selection alias'' else Ok ())"

text \<open>The assets not yet ordered stay behind; each identity takes its asset out once.\<close>

definition append_asset ::
  "uuid \<Rightarrow> restored_asset list \<times> restored_asset list \<Rightarrow> restored_asset list \<times> restored_asset list" where
  "append_asset k = (\<lambda>(left, ordered).
     case find (\<lambda>a. ra_asset a = k) left of
       None \<Rightarrow> (left, ordered)
     | Some a \<Rightarrow> (filter (\<lambda>b. ra_asset b \<noteq> k) left, ordered @ [a]))"

definition replace_selection :: "pipeline_env \<Rightarrow> selection_output \<Rightarrow> uuid \<Rightarrow> pipeline \<Rightarrow> pipeline result" where
  "replace_selection e out incoming p =
     bind_result (fold_result check_selection_asset (zs_assets (zo_state out)) []) (\<lambda>assets.
     bind_result (fold_result (check_selection_alias assets) (zs_aliases (zo_state out)) ()) (\<lambda>_.
       let order = map wk_asset (pl_assets p) @ [incoming] @ zo_restored out @ map ra_asset (zs_assets (zo_state out));
           ordered = snd (fold append_asset order (assets, []))
       in Ok (restore_assets e ordered (zs_aliases (zo_state out))
            (p\<lparr> pl_assets := [], pl_exact_roots := (\<lambda>_. None), pl_media_observed := (\<lambda>_. None) \<rparr>))))"

definition record_selected_placement :: "work_clip \<Rightarrow> bool \<Rightarrow> int \<Rightarrow> pipeline \<Rightarrow> pipeline" where
  "record_selected_placement c new_winner losers p =
     (let p1 = p\<lparr> pl_duplicates := pl_duplicates p + int (length (wk_followers c)),
                  pl_superseded := pl_superseded p + losers \<rparr>
      in if \<not> new_winner then p1\<lparr> pl_duplicates := pl_duplicates p1 + 1 \<rparr> else count_kept (wk_verified c) p1)"

section \<open>Placements\<close>

definition placement_input :: "pipeline_env \<Rightarrow> work_clip \<Rightarrow> bool \<Rightarrow> uuid \<Rightarrow> ownership \<Rightarrow> bool \<Rightarrow> placement_candidate" where
  "placement_input e c new_winner winner own first =
     \<lparr> pc_evidence = ow_evidence own,
       pc_outcome = (if new_winner \<and> first then ''promoted'' else ''duplicate''),
       pc_detail = Some (if new_winner \<and> first then promoted_detail e winner (wk_verified c) else winner_detail e winner),
       pc_raw_md5 = ow_raw_md5 own \<rparr>"

fun placement_inputs ::
  "pipeline_env \<Rightarrow> work_clip \<Rightarrow> bool \<Rightarrow> uuid \<Rightarrow> (go_string \<times> ownership) list \<Rightarrow> bool \<Rightarrow> go_string list \<Rightarrow>
   placement_candidate list option" where
  "placement_inputs e c new_winner winner owned first [] = Some []"
| "placement_inputs e c new_winner winner owned first (url # urls) =
     (case map_of owned url of
        None \<Rightarrow> None
      | Some own \<Rightarrow> map_option (\<lambda>rest. placement_input e c new_winner winner own first # rest)
                      (placement_inputs e c new_winner winner owned False urls))"

definition placement_candidates ::
  "pipeline_env \<Rightarrow> work_clip \<Rightarrow> bool \<Rightarrow> uuid \<Rightarrow> pipeline \<Rightarrow> pipeline \<times> placement_candidate list option" where
  "placement_candidates e c new_winner winner0 p =
     (let urls = wk_tweet_url c # wk_followers c in
      if wk_popularity c \<noteq> int (length urls)
      then (set_terminal_error ''candidate cluster popularity does not match its owned URLs'' p, None)
      else
        let winner = (if new_winner then pe_asset_uuid e (ei_event_id (pe_in e)) (wk_md5 c) else winner0) in
        (case placement_inputs e c new_winner winner (pl_candidates p) True urls of
           None \<Rightarrow> (set_terminal_error ''candidate evidence missing for placement'' p, None)
         | Some cs \<Rightarrow> (p, Some cs)))"

definition placement_command_of ::
  "pipeline_env \<Rightarrow> work_clip \<Rightarrow> vision_output \<Rightarrow> bool \<Rightarrow> uuid \<Rightarrow> uuid list \<Rightarrow> placement_candidate list \<Rightarrow> placement_command" where
  "placement_command_of e c v new_winner winner losers cs =
     \<lparr> pq_event_id = ei_event_id (pe_in e), pq_fixture_id = ei_fixture_id (pe_in e),
       pq_capture_variant = pe_flag e pg_variant_evidence, pq_new_winner = new_winner, pq_winner = winner,
       pq_losers = losers, pq_candidates = cs, pq_staging = wk_staging c, pq_md5 = wk_md5 c,
       pq_fingerprint = wk_fingerprint c, pq_reuse = wk_reuse c, pq_hash_version = wk_hash_version c,
       pq_frames = wk_frames c, pq_width = wk_width c, pq_height = wk_height c, pq_duration_ms = wk_duration_ms c,
       pq_file_size = wk_file_size c, pq_bitrate = wk_bitrate c, pq_frame_rate = persisted_frame_rate e c,
       pq_verified = wk_verified c, pq_minute = vo_matched_minute v,
       pq_validation = (if pe_flag e pg_durable_validation then vo_evidence v else None),
       pq_selection = (if pe_flag e pg_reversible_selection
         then Some (pe_selection_uuid e (wk_tweet_url c),
           \<lparr> sp_max_hamming = pg_max_hamming (pe_cfg e), sp_min_run = pg_min_run (pe_cfg e),
             sp_max_gaps = pg_max_gaps (pe_cfg e), sp_long_max_hamming = pg_long_max_hamming (pe_cfg e),
             sp_long_min_run = pg_long_min_run (pe_cfg e), sp_long_max_gaps = pg_long_max_gaps (pe_cfg e) \<rparr>)
         else None) \<rparr>"

definition mark_terminal :: "go_string \<Rightarrow> (go_string \<times> ownership) list \<Rightarrow> (go_string \<times> ownership) list" where
  "mark_terminal url owned =
     (case map_of owned url of None \<Rightarrow> owned | Some own \<Rightarrow> AList.update url (own\<lparr> ow_state := CandidateTerminal \<rparr>) owned)"

text \<open>What the workflow remembers of a placement that succeeded.\<close>

definition after_placement ::
  "pipeline_env \<Rightarrow> work_clip \<Rightarrow> uuid list \<Rightarrow> placement_output \<Rightarrow> pipeline \<Rightarrow> pipeline \<times> placement_output option" where
  "after_placement e c losers out p =
     (if po_event_removed out
      then (if pe_flag e pg_reversible_selection
            then p\<lparr> pl_assets := [], pl_exact_roots := (\<lambda>_. None), pl_media_observed := (\<lambda>_. None) \<rparr> else p, None)
      else
        let remembered =
          (if pe_flag e pg_reversible_selection
           then (case po_selection out of
                   None \<Rightarrow> Err ''selection state missing after placement''
                 | Some s \<Rightarrow> replace_selection e s (po_winner out) p)
           else
             let p1 = remember_exact_root e (wk_fingerprint c) (po_winner out) (remember_exact_root e (wk_md5 c) (po_winner out) p);
                 p2 = (if wk_fingerprint c \<noteq> '''' \<and> wk_reuse c = 0
                       then p1\<lparr> pl_media_observed := (pl_media_observed p1)(wk_fingerprint c \<mapsto>
                              pe_asset_uuid e (ei_event_id (pe_in e)) (wk_md5 c)) \<rparr> else p1)
             in Ok (redirect_exact_roots e losers (po_winner out) p2))
        in (case remembered of
              Err err \<Rightarrow> (set_terminal_error err p, None)
            | Ok p3 \<Rightarrow> (if po_announce out then publish_event_update e p3 else p3, Some out)))"

definition commit_clip_placement ::
  "pipeline_env \<Rightarrow> work_clip \<Rightarrow> vision_output \<Rightarrow> bool \<Rightarrow> uuid \<Rightarrow> uuid list \<Rightarrow> pipeline \<Rightarrow> pipeline \<times> placement_output option" where
  "commit_clip_placement e c v new_winner winner losers p =
     (if pl_canceled p then (p, None)
      else (case placement_candidates e c new_winner winner p of
        (p0, None) \<Rightarrow> (p0, None)
      | (p0, Some cs) \<Rightarrow>
          let cmd = placement_command_of e c v new_winner winner losers cs in
          (case pe_commit e (pl_calls p0) cmd of (r, stop) \<Rightarrow>
            let p1 = p0\<lparr> pl_calls := pl_calls p0 @ [CommitClipPlacement cmd], pl_canceled := (pl_canceled p0 \<or> stop) \<rparr> in
            (case r of
               Inl err \<Rightarrow> (if ae_canceled err then p1 else set_terminal_error ''commit clip placement'' p1, None)
             | Inr out \<Rightarrow>
                 let p2 = p1\<lparr> pl_candidates := fold mark_terminal (map (ce_url \<circ> pc_evidence) cs) (pl_candidates p1) \<rparr>
                 in after_placement e c losers out p2))))"

section \<open>Matching\<close>

fun first_index :: "('b \<Rightarrow> bool) \<Rightarrow> 'b list \<Rightarrow> nat option" where
  "first_index P [] = None"
| "first_index P (x # xs) = (if P x then Some 0 else map_option Suc (first_index P xs))"

definition same_media :: "work_clip \<Rightarrow> work_clip \<Rightarrow> bool" where
  "same_media c a \<longleftrightarrow> wk_md5 a = wk_md5 c \<or> wk_fingerprint c \<noteq> '''' \<and> wk_fingerprint a = wk_fingerprint c"

definition known_root :: "pipeline_env \<Rightarrow> work_clip \<Rightarrow> pipeline \<Rightarrow> nat option" where
  "known_root e c p =
     (if \<not> pe_flag e pg_canonical_aliases then None
      else case or_else (pl_exact_roots p (exact_key c)) (pl_exact_roots p (wk_md5 c)) of
        None \<Rightarrow> None
      | Some k \<Rightarrow> first_index (\<lambda>a. wk_asset a = k) (pl_assets p))"

text \<open>The clip that already stands for the media of a candidate: an asset or a clip still pending.\<close>

datatype exact_match = MatchedAsset nat | MatchedPending nat | NoExactMatch

definition match_exact :: "pipeline_env \<Rightarrow> work_clip \<Rightarrow> pipeline \<Rightarrow> exact_match" where
  "match_exact e c p =
     (case first_index (same_media c) (pl_assets p) of
        Some i \<Rightarrow> MatchedAsset i
      | None \<Rightarrow> (case known_root e c p of
          Some i \<Rightarrow> MatchedAsset i
        | None \<Rightarrow> (case first_index (same_media c) (pl_pending p) of
            Some i \<Rightarrow> MatchedPending i
          | None \<Rightarrow> NoExactMatch)))"

definition match_asset :: "pipeline_env \<Rightarrow> work_clip \<Rightarrow> work_clip \<Rightarrow> bool" where
  "match_asset e c a \<longleftrightarrow>
     wk_verified a = wk_verified c \<and> compatible_frame_hash_versions (wk_hash_version c) (wk_hash_version a) \<and>
     (clip_match (wk_frames c) (wk_frames a) (pg_max_hamming (pe_cfg e)) (pg_min_run (pe_cfg e)) (pg_max_gaps (pe_cfg e)) \<or>
      0 < pg_long_min_run (pe_cfg e) \<and>
      clip_match (wk_frames c) (wk_frames a) (pg_long_max_hamming (pe_cfg e)) (pg_long_min_run (pe_cfg e))
        (pg_long_max_gaps (pe_cfg e)))"

definition match_assets :: "pipeline_env \<Rightarrow> work_clip \<Rightarrow> pipeline \<Rightarrow> nat list" where
  "match_assets e c p = filter (\<lambda>i. match_asset e c (pl_assets p ! i)) [0..<length (pl_assets p)]"

definition best_asset :: "pipeline \<Rightarrow> nat \<Rightarrow> nat list \<Rightarrow> nat" where
  "best_asset p = foldl (\<lambda>best i. if is_upgrade (live_quality (pl_assets p ! i)) (live_quality (pl_assets p ! best)) then i else best)"

section \<open>Deduplication\<close>

definition popularity_at :: "pipeline \<Rightarrow> nat list \<Rightarrow> int" where
  "popularity_at p idxs = sum_list (map (\<lambda>i. wk_popularity (pl_assets p ! i)) idxs)"

definition raise_popularity :: "nat \<Rightarrow> int \<Rightarrow> pipeline \<Rightarrow> pipeline" where
  "raise_popularity i n p =
     p\<lparr> pl_assets := (pl_assets p)[i := (pl_assets p ! i)\<lparr> wk_popularity := wk_popularity (pl_assets p ! i) + n \<rparr>] \<rparr>"

definition keep_clip :: "work_clip \<Rightarrow> uuid \<Rightarrow> pipeline \<Rightarrow> pipeline" where
  "keep_clip c winner p =
     (let p1 = count_kept (wk_verified c) (p\<lparr> pl_assets := pl_assets p @ [c\<lparr> wk_asset := winner \<rparr>] \<rparr>)
      in p1\<lparr> pl_duplicates := pl_duplicates p1 + int (length (wk_followers c)) \<rparr>)"

definition commit_winner ::
  "pipeline_env \<Rightarrow> work_clip \<Rightarrow> vision_output \<Rightarrow> nat list \<Rightarrow> pipeline \<Rightarrow> pipeline" where
  "commit_winner e c v matched p =
     (let losers = asset_ids_at matched p in
      case commit_clip_placement e c v True 0 losers p of
        (p1, None) \<Rightarrow> p1
      | (p1, Some out) \<Rightarrow>
          if pe_flag e pg_reversible_selection then record_selected_placement c True (int (length losers)) p1
          else
            let c1 = c\<lparr> wk_popularity := wk_popularity c + popularity_at p1 matched \<rparr>;
                p2 = keep_clip c1 (po_winner out) (drop_assets losers p1)
            in p2\<lparr> pl_superseded := pl_superseded p2 + int (length losers) \<rparr>)"

definition commit_loser ::
  "pipeline_env \<Rightarrow> work_clip \<Rightarrow> vision_output \<Rightarrow> nat list \<Rightarrow> nat \<Rightarrow> pipeline \<Rightarrow> pipeline" where
  "commit_loser e c v matched best p =
     (let idxs = (if pe_flag e pg_preserve_incumbents then [] else filter (\<lambda>i. i \<noteq> best) matched);
          losers = asset_ids_at idxs p
      in case commit_clip_placement e c v False (wk_asset (pl_assets p ! best)) losers p of
        (p1, None) \<Rightarrow> p1
      | (p1, Some _) \<Rightarrow>
          if pe_flag e pg_reversible_selection then record_selected_placement c False (int (length losers)) p1
          else
            let p2 = drop_assets losers (raise_popularity best (cluster_size c + popularity_at p1 idxs) p1)
            in p2\<lparr> pl_duplicates := pl_duplicates p2 + cluster_size c,
                   pl_superseded := pl_superseded p2 + int (length losers) \<rparr>)"

definition dedup_and_commit :: "pipeline_env \<Rightarrow> work_clip \<Rightarrow> vision_output \<Rightarrow> pipeline \<Rightarrow> pipeline" where
  "dedup_and_commit e c v p =
     (case match_assets e c p of
        [] \<Rightarrow>
          (case commit_clip_placement e c v True 0 [] p of
             (p1, None) \<Rightarrow> p1
           | (p1, Some out) \<Rightarrow>
               if pe_flag e pg_reversible_selection then record_selected_placement c True 0 p1
               else keep_clip c (po_winner out) p1)
      | i # is \<Rightarrow>
          let best = best_asset p i is in
          if is_upgrade (live_quality c) (live_quality (pl_assets p ! best)) then commit_winner e c v (i # is) p
          else commit_loser e c v (i # is) best p)"

definition dedup_and_promote :: "pipeline_env \<Rightarrow> work_clip \<Rightarrow> vision_output \<Rightarrow> pipeline \<Rightarrow> pipeline" where
  "dedup_and_promote e c v p =
     (if pe_flag e pg_atomic_placement then dedup_and_commit e c v p
      else case match_assets e c p of
        [] \<Rightarrow> fst (promote_clip e c v p)
      | i # is \<Rightarrow>
          let best = best_asset p i is in
          if is_upgrade (live_quality c) (live_quality (pl_assets p ! best)) then
            (let losers = asset_ids_at (i # is) p in
             case promote_clip e c v p of
               (p1, None) \<Rightarrow> p1
             | (p1, Some winner) \<Rightarrow> supersede_assets e winner losers p1)
          else
            let winner = wk_asset (pl_assets p ! best);
                losers = (if pe_flag e pg_preserve_incumbents then [] else asset_ids_at (filter (\<lambda>k. k \<noteq> best) (i # is)) p);
                p1 = duplicate_exact_cluster e c winner (remember_exact_root e (wk_md5 c) winner p);
                p2 = delete_staging e (wk_staging c) (bump_asset_popularity e winner (wk_popularity c) p1)
            in supersede_assets e winner losers p2)"

definition settle_fingerprint :: "pipeline \<Rightarrow> work_clip \<Rightarrow> work_clip \<Rightarrow> work_clip" where
  "settle_fingerprint p a loser =
     (let l1 = (if pl_exact_roots p (wk_md5 loser) \<noteq> None \<or> wk_md5 loser = wk_md5 a
                then loser\<lparr> wk_fingerprint := '''' \<rparr> else loser)
      in if wk_fingerprint l1 \<noteq> '''' \<and> wk_md5 l1 \<noteq> wk_md5 a
         then (case pl_media_observed p (wk_fingerprint l1) of
                 None \<Rightarrow> l1 | Some k \<Rightarrow> if k \<noteq> 0 then l1\<lparr> wk_reuse := k \<rparr> else l1)
         else l1)"

definition collapse_onto_asset :: "pipeline_env \<Rightarrow> work_clip \<Rightarrow> nat \<Rightarrow> pipeline \<Rightarrow> pipeline" where
  "collapse_onto_asset e loser0 i p =
     (let a = pl_assets p ! i; loser = settle_fingerprint p a loser0 in
      if wk_fingerprint loser \<noteq> '''' \<and> wk_md5 loser \<noteq> wk_md5 a \<and> wk_reuse loser = 0 \<and> wk_fingerprint loser = wk_fingerprint a
      then set_terminal_error ''media-identical asset lacks observed representative'' p
      else if pe_flag e pg_atomic_placement then
        (case commit_clip_placement e loser no_verdict False (wk_asset a) [] p of
           (p1, None) \<Rightarrow> p1
         | (p1, Some _) \<Rightarrow>
             let p2 = (if pe_flag e pg_reversible_selection then p1 else raise_popularity i (cluster_size loser) p1)
             in p2\<lparr> pl_duplicates := pl_duplicates p2 + cluster_size loser \<rparr>)
      else delete_staging e (wk_staging loser)
             (duplicate_exact_cluster e loser (wk_asset a) (bump_asset_popularity e (wk_asset a) (wk_popularity loser) p)))"

definition collapse_onto_pending :: "pipeline_env \<Rightarrow> work_clip \<Rightarrow> nat \<Rightarrow> pipeline \<Rightarrow> pipeline" where
  "collapse_onto_pending e loser i p =
     (let c = pl_pending p ! i;
          c1 = c\<lparr> wk_popularity := wk_popularity c + wk_popularity loser,
                 wk_followers := (if pe_flag e pg_defer_followers then wk_followers c @ [wk_tweet_url loser] else wk_followers c) \<rparr>;
          p1 = p\<lparr> pl_pending := (pl_pending p)[i := c1] \<rparr>;
          p2 = (if pe_flag e pg_defer_followers then p1
                else record_outcome e (wk_tweet_url loser) ''duplicate'' '''' None
                       (p1\<lparr> pl_duplicates := pl_duplicates p1 + 1 \<rparr>))
      in delete_staging e (wk_staging loser) p2)"

text \<open>Nothing is collapsed once the workflow is cancelled.\<close>

definition collapse_exact :: "pipeline_env \<Rightarrow> work_clip \<Rightarrow> exact_match \<Rightarrow> pipeline \<Rightarrow> pipeline" where
  "collapse_exact e loser m p =
     (if pl_canceled p then p
      else case m of
        MatchedAsset i \<Rightarrow> collapse_onto_asset e loser i p
      | MatchedPending i \<Rightarrow> collapse_onto_pending e loser i p
      | NoExactMatch \<Rightarrow> p)"

section \<open>Intake\<close>

definition spawn_candidate :: "pipeline_env \<Rightarrow> candidate_evidence \<Rightarrow> pipeline \<Rightarrow> pipeline" where
  "spawn_candidate e evidence p =
     (let url = ce_url evidence in
      if pl_canceled p \<or> url = '''' then p
      else
        let owned = (if pe_flag e pg_durable_candidates
              then AList.update url \<lparr> ow_evidence = evidence, ow_state = CandidateInFlight, ow_raw_md5 = '''' \<rparr> (pl_candidates p)
              else pl_candidates p);
            p1 = p\<lparr> pl_candidates := owned, pl_spawned := pl_spawned p + 1 \<rparr>
        in if pe_flag e pg_pre_hash_claim
           then schedule (DownloadAndStage (ei_event_id (pe_in e)) (ei_fixture_id (pe_in e)) url (pe_flag e pg_media_identity))
                  (DownloadFuture url) p1
           else schedule (RunVideoWorkflow (pl_child_seq p1 + 1) url) (VideoFuture url)
                  (p1\<lparr> pl_child_seq := pl_child_seq p1 + 1 \<rparr>))"

definition clip_from_download :: "go_string \<Rightarrow> download_output \<Rightarrow> work_clip" where
  "clip_from_download url out = \<lparr> wk_tweet_url = url, wk_md5 = do_md5 out, wk_fingerprint = do_fingerprint out,
     wk_reuse = 0, wk_hash_version = '''', wk_frames = [], wk_staging = do_staging out, wk_width = do_width out,
     wk_height = do_height out, wk_duration_ms = do_duration_ms out, wk_file_size = do_size out,
     wk_bitrate = (if do_bitrate out \<noteq> 0 then Some (do_bitrate out) else None),
     wk_frame_rate = (if 0 < do_frame_rate out then Some (do_frame_rate out) else None),
     wk_popularity = 1, wk_followers = [], wk_verified = False, wk_asset = 0 \<rparr>"

definition fire_hash :: "go_string \<Rightarrow> pipeline \<Rightarrow> pipeline" where
  "fire_hash key p =
     (if pl_canceled p then p
      else case map_of (pl_hashing p) key of
        None \<Rightarrow> p
      | Some claim \<Rightarrow> schedule (HashVideo (wk_staging (hc_primary claim))) (HashFuture key) p)"

definition fire_vision :: "pipeline_env \<Rightarrow> work_clip \<Rightarrow> pipeline \<Rightarrow> pipeline" where
  "fire_vision e c p =
     (if pl_canceled p then p
      else schedule (ValidateClip \<lparr> vi_event_id = ei_event_id (pe_in e), vi_fixture_id = ei_fixture_id (pe_in e),
             vi_staging = wk_staging c, vi_elapsed = ei_minute (pe_in e), vi_extra = int_value (ei_extra (pe_in e)),
             vi_capture = pe_flag e pg_durable_validation,
             vi_md5 = (if pe_flag e pg_durable_validation then wk_md5 c else '''') \<rparr>) (VisionFuture c) p)"

definition wait_behind :: "go_string \<Rightarrow> work_clip \<Rightarrow> pipeline \<Rightarrow> pipeline" where
  "wait_behind key c p =
     (case map_of (pl_hashing p) key of
        None \<Rightarrow> p
      | Some claim \<Rightarrow> p\<lparr> pl_hashing := AList.update key (claim\<lparr> hc_waiting := hc_waiting claim @ [c] \<rparr>) (pl_hashing p) \<rparr>)"

definition invalid_download_detail :: "download_output \<Rightarrow> json" where
  "invalid_download_detail out = JObject
     [(''md5_present'', JScalar (if do_md5 out \<noteq> '''' then ''true'' else ''false'')), (''outcome'', JText (do_outcome out)),
      (''staging_present'', JScalar (if do_staging out \<noteq> '''' then ''true'' else ''false''))]"

definition claim_or_collapse :: "pipeline_env \<Rightarrow> work_clip \<Rightarrow> pipeline \<Rightarrow> pipeline" where
  "claim_or_collapse e c p =
     (case match_exact e c p of
        NoExactMatch \<Rightarrow>
          (case find (\<lambda>(_, claim). wk_md5 (hc_primary claim) = wk_md5 c) (pe_claim_order e (pl_hashing p)) of
             Some (key, _) \<Rightarrow> wait_behind key c p
           | None \<Rightarrow>
               let key = exact_key c in
               if map_of (pl_hashing p) key \<noteq> None then wait_behind key c p
               else fire_hash key (p\<lparr> pl_hashing := AList.update key \<lparr> hc_primary = c, hc_waiting = [] \<rparr> (pl_hashing p) \<rparr>))
      | m \<Rightarrow> collapse_exact e c m p)"

definition on_download_done ::
  "pipeline_env \<Rightarrow> go_string \<Rightarrow> download_failure activity_error + download_output \<Rightarrow> pipeline \<Rightarrow> pipeline" where
  "on_download_done e url r p0 =
     (let p = p0\<lparr> pl_in_flight := pl_in_flight p0 - 1 \<rparr> in
      if pl_canceled p then p
      else case r of
        Inl err \<Rightarrow>
          record_outcome e url ''failed'' ''download_error''
            (if pe_flag e pg_durable_download_failures
             then Some (JObject [(''failure'', download_failure_json (download_failure_detail err))]) else None)
            (p\<lparr> pl_failed := pl_failed p + 1 \<rparr>)
      | Inr out \<Rightarrow>
          if do_outcome out = ''rejected''
          then record_outcome e url ''rejected'' (do_reject_reason out) None (p\<lparr> pl_rejected := pl_rejected p + 1 \<rparr>)
          else if do_outcome out \<noteq> ''passed'' \<or> do_md5 out = '''' \<or> do_staging out = ''''
          then delete_staging e (do_staging out)
                 (record_outcome e url ''failed'' ''video_workflow_invalid_outcome'' (Some (invalid_download_detail out))
                    (p\<lparr> pl_failed := pl_failed p + 1 \<rparr>))
          else
            let c = clip_from_download url out;
                p1 = (case map_of (pl_candidates p) url of
                        None \<Rightarrow> p
                      | Some own \<Rightarrow> p\<lparr> pl_candidates := AList.update url (own\<lparr> ow_raw_md5 := wk_md5 c \<rparr>) (pl_candidates p) \<rparr>)
            in claim_or_collapse e c p1)"

section \<open>Hashing\<close>

definition claim_clips :: "hash_claim \<Rightarrow> work_clip list" where
  "claim_clips claim = hc_primary claim # hc_waiting claim"

definition close_claim_clip ::
  "pipeline_env \<Rightarrow> go_string \<Rightarrow> go_string \<Rightarrow> work_clip \<Rightarrow> pipeline \<Rightarrow> pipeline" where
  "close_claim_clip e outcome reason c p =
     delete_staging e (wk_staging c) (record_outcome e (wk_tweet_url c) outcome reason None
       (if outcome = ''rejected'' then p\<lparr> pl_rejected := pl_rejected p + 1 \<rparr> else p\<lparr> pl_failed := pl_failed p + 1 \<rparr>))"

definition close_claim ::
  "pipeline_env \<Rightarrow> go_string \<Rightarrow> go_string \<Rightarrow> go_string \<Rightarrow> hash_claim \<Rightarrow> pipeline \<Rightarrow> pipeline" where
  "close_claim e outcome key reason claim p =
     (let p1 = fold (close_claim_clip e outcome reason) (claim_clips claim) p
      in p1\<lparr> pl_hashing := AList.delete key (pl_hashing p1) \<rparr>)"

definition reject_hash_claim :: "pipeline_env \<Rightarrow> go_string \<Rightarrow> go_string \<Rightarrow> hash_claim \<Rightarrow> pipeline \<Rightarrow> pipeline" where
  "reject_hash_claim e = close_claim e ''rejected''"

definition fail_hash_claim :: "pipeline_env \<Rightarrow> go_string \<Rightarrow> go_string \<Rightarrow> hash_claim \<Rightarrow> pipeline \<Rightarrow> pipeline" where
  "fail_hash_claim e = close_claim e ''failed''"

text \<open>A copy that waited follows the winner of its claim.\<close>

definition merge_waiting :: "pipeline_env \<Rightarrow> work_clip \<Rightarrow> work_clip \<times> pipeline \<Rightarrow> work_clip \<times> pipeline" where
  "merge_waiting e d = (\<lambda>(winner, p).
     let w = winner\<lparr> wk_popularity := wk_popularity winner + wk_popularity d,
               wk_followers := (if pe_flag e pg_defer_followers then wk_followers winner @ [wk_tweet_url d] else wk_followers winner) \<rparr>;
         p1 = (if pe_flag e pg_defer_followers then p
               else record_outcome e (wk_tweet_url d) ''duplicate'' '''' None (p\<lparr> pl_duplicates := pl_duplicates p + 1 \<rparr>))
     in (w, delete_staging e (wk_staging d) p1))"

definition hash_failed :: "pipeline_env \<Rightarrow> go_string \<Rightarrow> hash_claim \<Rightarrow> pipeline \<Rightarrow> pipeline" where
  "hash_failed e key claim p =
     (let failed = hc_primary claim;
          p1 = delete_staging e (wk_staging failed) (record_outcome e (wk_tweet_url failed) ''failed'' ''hash_error'' None
                 (p\<lparr> pl_failed := pl_failed p + 1 \<rparr>))
      in case hc_waiting claim of
           [] \<Rightarrow> p1\<lparr> pl_hashing := AList.delete key (pl_hashing p1) \<rparr>
         | c # cs \<Rightarrow> fire_hash key (p1\<lparr> pl_hashing := AList.update key \<lparr> hc_primary = c, hc_waiting = cs \<rparr> (pl_hashing p1) \<rparr>))"

definition hash_passed :: "pipeline_env \<Rightarrow> go_string \<Rightarrow> hash_claim \<Rightarrow> hash_output \<Rightarrow> pipeline \<Rightarrow> pipeline" where
  "hash_passed e key claim out p =
     (let winner0 = (hc_primary claim)\<lparr> wk_hash_version := normalize_frame_hash_version (ho_version out), wk_frames := ho_frames out \<rparr>
      in case fold (merge_waiting e) (hc_waiting claim) (winner0, p\<lparr> pl_passed := pl_passed p + 1 \<rparr>) of
        (winner, p1) \<Rightarrow>
          fire_vision e winner
            (p1\<lparr> pl_hashing := AList.delete key (pl_hashing p1), pl_pending := pl_pending p1 @ [winner] \<rparr>))"

definition on_hash_done ::
  "pipeline_env \<Rightarrow> go_string \<Rightarrow> unit activity_error + hash_output \<Rightarrow> pipeline \<Rightarrow> pipeline" where
  "on_hash_done e key r p0 =
     (let p = p0\<lparr> pl_in_flight := pl_in_flight p0 - 1 \<rparr> in
      if pl_canceled p then p
      else case map_of (pl_hashing p) key of
        None \<Rightarrow> p
      | Some claim \<Rightarrow>
          (case r of
             Inl _ \<Rightarrow> hash_failed e key claim p
           | Inr out \<Rightarrow>
               if ho_outcome out = ''rejected'' then reject_hash_claim e key (ho_reject_reason out) claim p
               else if ho_outcome out \<noteq> '''' \<and> ho_outcome out \<noteq> ''passed''
               then fail_hash_claim e key ''video_workflow_invalid_outcome'' claim p
               else if ho_outcome out = ''passed'' \<and> int (length (ho_frames out)) < pg_min_run (pe_cfg e)
               then reject_hash_claim e key ''insufficient_hash_frames'' claim p
               else hash_passed e key claim out p))"

section \<open>Children of older histories\<close>

definition clip_from_child :: "go_string \<Rightarrow> child_output \<Rightarrow> work_clip" where
  "clip_from_child url out = \<lparr> wk_tweet_url = url, wk_md5 = vc_md5 out, wk_fingerprint = '''', wk_reuse = 0,
     wk_hash_version = normalize_frame_hash_version (vc_version out), wk_frames = vc_frames out, wk_staging = vc_staging out,
     wk_width = vc_width out, wk_height = vc_height out, wk_duration_ms = vc_duration_ms out, wk_file_size = vc_size out,
     wk_bitrate = (if vc_bitrate out \<noteq> 0 then Some (vc_bitrate out) else None),
     wk_frame_rate = (if 0 < vc_frame_rate out then Some (vc_frame_rate out) else None),
     wk_popularity = 1, wk_followers = [], wk_verified = False, wk_asset = 0 \<rparr>"

definition on_video_done ::
  "pipeline_env \<Rightarrow> go_string \<Rightarrow> unit activity_error + child_output \<Rightarrow> pipeline \<Rightarrow> pipeline" where
  "on_video_done e fallback r p0 =
     (let p = p0\<lparr> pl_in_flight := pl_in_flight p0 - 1 \<rparr> in
      if pl_canceled p then p
      else case r of
        Inl _ \<Rightarrow>
          let p1 = p\<lparr> pl_failed := pl_failed p + 1 \<rparr> in
          if pe_flag e pg_terminal_video_failures then record_outcome e fallback ''failed'' ''video_workflow_error'' None p1 else p1
      | Inr out \<Rightarrow>
          let url = (if vc_tweet_url out = '''' then fallback else vc_tweet_url out) in
          if vc_outcome out = ''rejected''
          then record_outcome e url ''rejected'' (vc_reject_reason out) None (p\<lparr> pl_rejected := pl_rejected p + 1 \<rparr>)
          else if vc_outcome out = ''failed''
          then delete_staging e (vc_staging out) (record_outcome e url ''failed''
                 (if vc_failure_reason out = '''' then ''video_workflow_invalid_outcome'' else vc_failure_reason out) None
                 (p\<lparr> pl_failed := pl_failed p + 1 \<rparr>))
          else if vc_outcome out \<noteq> ''passed''
          then delete_staging e (vc_staging out) (record_outcome e url ''failed'' ''video_workflow_invalid_outcome''
                 (Some (JObject [(''outcome'', JText (vc_outcome out))])) (p\<lparr> pl_failed := pl_failed p + 1 \<rparr>))
          else
            let c = clip_from_child url out; p1 = p\<lparr> pl_passed := pl_passed p + 1 \<rparr> in
            (case match_exact e c p1 of
               NoExactMatch \<Rightarrow> fire_vision e c (p1\<lparr> pl_pending := pl_pending p1 @ [c] \<rparr>)
             | m \<Rightarrow> collapse_exact e c m p1))"

section \<open>Validation\<close>

definition rejected_detail :: "vision_output \<Rightarrow> json" where
  "rejected_detail v = JObject (
     [(''clock_readings'', JArray (vo_readings v))] @
     (case vo_detected_minute v of None \<Rightarrow> []
      | Some m \<Rightarrow> [(''detected_minute'', JScalar (itoa m)), (''detected_period'', JText (vo_detected_period v))]) @
     text_unless_empty ''evaluator'' (vo_evaluator v) @
     (if vo_detected_minute v = None then []
      else [(''expected_minute'', JScalar (itoa (vo_expected_minute v))), (''expected_period'', JText (vo_expected_period v))]) @
     [(''frame_count'', JScalar (itoa (int (length (vo_frames v))))), (''frame_observations'', JArray (vo_frames v)),
      (''screen_votes'', JScalar (itoa (vo_screen_votes v))), (''soccer_votes'', JScalar (itoa (vo_soccer_votes v)))])"

definition on_vision_done ::
  "pipeline_env \<Rightarrow> work_clip \<Rightarrow> vision_failure activity_error + vision_output \<Rightarrow> pipeline \<Rightarrow> pipeline" where
  "on_vision_done e captured r p0 =
     (let p = p0\<lparr> pl_in_flight := pl_in_flight p0 - 1 \<rparr> in
      if pl_canceled p then p
      else case remove_pending (wk_staging captured) (pl_pending p) of (found, rest) \<Rightarrow>
        let c = (case found of None \<Rightarrow> captured
                 | Some pc \<Rightarrow> captured\<lparr> wk_popularity := wk_popularity pc, wk_followers := wk_followers pc \<rparr>);
            p1 = p\<lparr> pl_pending := rest \<rparr>
        in (case r of
              Inl err \<Rightarrow>
                delete_staging e (wk_staging c) (fail_exact_cluster e c ''vision_error''
                  (if pe_flag e pg_durable_vision_failures
                   then Some (JObject [(''failure'', vision_failure_json (vision_failure_detail err))]) else None) p1)
            | Inr v \<Rightarrow>
                if vo_outcome v = ''verified'' \<or> vo_outcome v = ''unverified'' then
                  if pe_flag e pg_durable_validation \<and> vo_evidence v = None
                  then set_terminal_error ''accepted vision result lacks durable validation evidence'' p1
                  else dedup_and_promote e (c\<lparr> wk_verified := (vo_outcome v = ''verified'') \<rparr>) v p1
                else delete_staging e (wk_staging c)
                       (reject_exact_cluster e c (vo_reason v) (Some (rejected_detail v)) p1)))"

section \<open>The consumer\<close>

datatype reply =
    DownloadReply "download_failure activity_error + download_output"
  | VideoReply "unit activity_error + child_output"
  | HashReply "unit activity_error + hash_output"
  | VisionReply "vision_failure activity_error + vision_output"

text \<open>The selector runs one callback of a future that is ready. A reply of the wrong kind is no event of
  the service.\<close>

fun callback :: "pipeline_env \<Rightarrow> future \<Rightarrow> reply \<Rightarrow> (pipeline \<Rightarrow> pipeline) option" where
  "callback e (DownloadFuture url) (DownloadReply r) = Some (on_download_done e url r)"
| "callback e (VideoFuture url) (VideoReply r) = Some (on_video_done e url r)"
| "callback e (HashFuture key) (HashReply r) = Some (on_hash_done e key r)"
| "callback e (VisionFuture c) (VisionReply r) = Some (on_vision_done e c r)"
| "callback e _ _ = None"

definition take_future :: "future \<Rightarrow> pipeline \<Rightarrow> pipeline" where
  "take_future f p = p\<lparr> pl_futures := remove1 f (pl_futures p) \<rparr>"

definition finish_search :: "go_string option \<Rightarrow> pipeline \<Rightarrow> pipeline" where
  "finish_search err p = p\<lparr> pl_search_err := err, pl_search_done := True \<rparr>"

definition drained :: "pipeline \<Rightarrow> bool" where
  "drained p \<longleftrightarrow> pl_search_done p \<and> pl_in_flight p = 0"

text \<open>What the consumer returns once it is drained. Which of several open candidates the error names is
  the order of a map.\<close>

definition run_result :: "pipeline_env \<Rightarrow> pipeline \<Rightarrow> go_string option" where
  "run_result e p =
     (if pl_terminal_err p \<noteq> None then pl_terminal_err p
      else if pe_flag e pg_durable_candidates \<and> list_ex (\<lambda>(_, own). ow_state own \<noteq> CandidateTerminal) (pl_candidates p)
      then Some ''candidate ended in non-terminal state''
      else pl_search_err p)"

end
