(* ===== verification/QueryBuilder.thy ===== *)
theory QueryBuilder
  imports Prelude
begin

text \<open>
  The search query of an event: \<open>internal/domain/discovery/query_builder.go\<close> and the tokenizer it uses,
  \<open>internal/domain/alias/text.go\<close> and \<open>skiplist.go\<close>. Transliteration to ASCII is a library's
  (\<open>gosimple/unidecode\<close>) and an argument, \<open>ascii\<close>; case is folded on ASCII letters only.
\<close>

section \<open>Tokens\<close>

definition skip_list :: "go_string list" where
  "skip_list =
    [''fc'', ''ac'', ''sc'', ''cf'', ''football'', ''futbol'', ''futebol'', ''calcio'', ''fussball'',
     ''soccer'', ''club'', ''clube'', ''klub'', ''association'', ''associazione'', ''sociedade'',
     ''society'', ''sad'', ''sport'', ''sports'', ''deportivo'', ''nazionale'', ''nationalmannschaft'',
     ''selection'', ''selectionnee'', ''national'', ''team'', ''equipe'', ''reprezentacja'',
     ''reprezentanca'', ''reprezentacije'', ''reprezentacji'', ''nogometna'', ''nogometne'',
     ''futbolowa'', ''futbolista'', ''voetbal'', ''voetbalelftal'', ''nacional'', ''seleccion'',
     ''seleccio'', ''selecc'', ''the'', ''los'', ''las'', ''la'', ''le'', ''les'', ''el'', ''il'',
     ''das'', ''der'', ''die'', ''den'', ''de'', ''del'', ''du'', ''di'', ''da'', ''do'', ''dos'',
     ''and'', ''of'', ''van'', ''en'', ''y'', ''casa'', ''royal'', ''company'', ''mecanica'', ''mens'',
     ''holanda'', ''holandesa'', ''croacia'', ''croata'', ''alemana'', ''alemania'', ''germania'',
     ''inglaterra'', ''inglesa'', ''belga'', ''belgica'', ''belgische'', ''belghe'', ''espanola'',
     ''francesa'', ''francia'', ''mexic'', ''mexicana'', ''estados'', ''unidos'', ''baixos'', ''paises'',
     ''occidental'']"

definition is_skipped :: "go_string \<Rightarrow> bool" where
  "is_skipped tok \<longleftrightarrow> tok \<in> set skip_list"

text \<open>The fields of a text between separators; empty ones are dropped.\<close>

fun fields_from :: "(char \<Rightarrow> bool) \<Rightarrow> go_string \<Rightarrow> go_string \<Rightarrow> go_string list" where
  "fields_from sep word [] = (if word = [] then [] else [word])"
| "fields_from sep word (c # cs) =
     (if sep c then (if word = [] then fields_from sep [] cs else word # fields_from sep [] cs)
      else fields_from sep (word @ [c]) cs)"

definition fields_func :: "(char \<Rightarrow> bool) \<Rightarrow> go_string \<Rightarrow> go_string list" where
  "fields_func sep s = fields_from sep [] s"

definition split_words :: "go_string \<Rightarrow> go_string list" where
  "split_words = fields_func (\<lambda>c. is_space_char c \<or> c = CHR ''-'' \<or> c = CHR ''/'')"

definition strip_punct :: "go_string \<Rightarrow> go_string" where
  "strip_punct = filter (\<lambda>c. c \<notin> {CHR ''.'', CHR '','', CHR 0x27})"

definition is_camel_concat :: "go_string \<Rightarrow> bool" where
  "is_camel_concat w \<longleftrightarrow> 4 \<le> length w \<and>
     list_ex (\<lambda>i. is_lower_char (w ! (i - 1)) \<and> is_upper_char (w ! i) \<or>
        3 \<le> i \<and> is_upper_char (w ! (i - 1)) \<and> is_lower_char (w ! i) \<and>
        is_upper_char (w ! (i - 2)) \<and> is_upper_char (w ! (i - 3))) [1..<length w]"

definition is_all_digit :: "go_string \<Rightarrow> bool" where
  "is_all_digit w \<longleftrightarrow> w \<noteq> '''' \<and> list_all is_digit_char w"

definition token_of :: "go_string \<Rightarrow> go_string option" where
  "token_of word =
     (let w = strip_punct word; low = to_lower w in
      if w = '''' \<or> is_camel_concat w \<or> length low \<le> 2 \<or> is_all_digit low then None else Some low)"

definition tokenize :: "(go_string \<Rightarrow> go_string) \<Rightarrow> go_string \<Rightarrow> go_string list" where
  "tokenize ascii phrase = (if phrase = '''' then [] else List.map_filter token_of (split_words (ascii phrase)))"

definition take_token :: "go_string list \<Rightarrow> go_string \<Rightarrow> go_string list" where
  "take_token out tok = (if is_skipped tok \<or> tok \<in> set out then out else out @ [tok])"

definition tokenize_player_name :: "(go_string \<Rightarrow> go_string) \<Rightarrow> go_string \<Rightarrow> go_string list" where
  "tokenize_player_name ascii name = foldl take_token [] (tokenize ascii name)"

definition known_org_suffixes :: "go_string list" where
  "known_org_suffixes = [''fc'', ''ac'', ''sc'', ''cf'']"

definition strip_known_org_suffix :: "go_string \<Rightarrow> go_string \<times> bool" where
  "strip_known_org_suffix tok =
     (if length tok < 5 then ('''', False)
      else if drop (length tok - 2) tok \<in> set known_org_suffixes
      then (let prefix = take (length tok - 2) tok in if 3 \<le> length prefix then (prefix, True) else ('''', False))
      else ('''', False))"

section \<open>Terms\<close>

record query_input =
  qi_player :: go_string
  qi_team :: go_string
  qi_code :: go_string
  qi_aliases :: "go_string list"
  qi_video_only :: bool

datatype query_error = EmptyQuery | EmptyPlayerName

definition query_generics :: "go_string list" where
  "query_generics = [''united'', ''city'', ''real'', ''red'', ''new'', ''york'', ''inter'', ''union'', ''sporting'',
     ''racing'', ''athletic'', ''blues'', ''orange'', ''county'', ''town'', ''rovers'', ''olympique'', ''foot'', ''mls'',
     ''afc'', ''fcb'', ''sportiva'', ''societa'', ''unione'', ''verein'', ''fussballclub'']"

definition is_query_generic :: "go_string \<Rightarrow> bool" where
  "is_query_generic tok \<longleftrightarrow> to_lower tok \<in> set query_generics"

definition letters_only :: "go_string \<Rightarrow> go_string" where
  "letters_only = filter is_letter_char"

definition is_org_token :: "go_string \<Rightarrow> bool" where
  "is_org_token letters \<longleftrightarrow> 2 \<le> length letters \<and> list_all is_upper_char letters"

definition abbrev_part :: "go_string \<Rightarrow> go_string" where
  "abbrev_part f =
     (let letters = letters_only f in
      if letters = '''' then '''' else if is_org_token letters then letters else [hd letters])"

definition derive_abbrev :: "(go_string \<Rightarrow> go_string) \<Rightarrow> go_string \<Rightarrow> go_string" where
  "derive_abbrev ascii canonical =
     (let abbr = to_upper (concat (map abbrev_part (fields_func is_space_char (ascii canonical)))) in
      if length abbr < 3 then '''' else abbr)"

definition gen_suffixes :: "go_string list" where
  "gen_suffixes = [''junior'', ''jr'', ''jnr'']"

fun drop_gen_suffix :: "go_string list \<Rightarrow> go_string list" where
  "drop_gen_suffix (t # u # ts) = (if t \<in> set gen_suffixes then drop_gen_suffix (u # ts) else t # u # ts)"
| "drop_gen_suffix ts = ts"

definition strip_gen_suffix :: "go_string list \<Rightarrow> go_string list" where
  "strip_gen_suffix toks = rev (drop_gen_suffix (rev toks))"

definition quote_char :: char where
  "quote_char = CHR 0x22"

definition quote_term :: "go_string \<Rightarrow> go_string" where
  "quote_term s = (if CHR '' '' \<in> set s then [quote_char] @ s @ [quote_char] else s)"

definition trim_quotes :: "go_string \<Rightarrow> go_string" where
  "trim_quotes s = rev (dropWhile (\<lambda>c. c = quote_char) (rev (dropWhile (\<lambda>c. c = quote_char) s)))"

definition term_key :: "go_string \<Rightarrow> go_string" where
  "term_key t = to_lower (trim_quotes t)"

text \<open>The keys seen so far, and the terms taken.\<close>

definition take_term :: "go_string \<Rightarrow> go_string list \<times> go_string list \<Rightarrow> go_string list \<times> go_string list" where
  "take_term t = (\<lambda>(seen, out).
     if t = '''' \<or> term_key t \<in> set seen then (seen, out) else (seen @ [term_key t], out @ [t]))"

definition alias_usable :: "(go_string \<Rightarrow> go_string) \<Rightarrow> go_string \<Rightarrow> go_string \<Rightarrow> bool" where
  "alias_usable ascii canon a \<longleftrightarrow> \<not> is_query_generic a \<and>
     \<not> (canon \<noteq> '''' \<and> to_lower a \<in> set (map to_lower (tokenize_player_name ascii canon)))"

definition query_terms :: "(go_string \<Rightarrow> go_string) \<Rightarrow> query_input \<Rightarrow> go_string list \<times> go_string list" where
  "query_terms ascii i =
     (case List.fold take_term (strip_gen_suffix (tokenize_player_name ascii (qi_player i))) ([], []) of (seen, player) \<Rightarrow>
        let canon = trim_space (qi_team i) in
        (case (if canon = '''' then (seen, [])
               else take_term (derive_abbrev ascii canon) (take_term (quote_term canon) (seen, []))) of (seen1, team1) \<Rightarrow>
          (player, snd (List.fold take_term (map quote_term (filter (alias_usable ascii canon) (qi_aliases i))) (seen1, team1)))))"

section \<open>Queries\<close>

fun join_strings :: "go_string \<Rightarrow> go_string list \<Rightarrow> go_string" where
  "join_strings sep [] = ''''"
| "join_strings sep [s] = s"
| "join_strings sep (s # t # ss) = s @ sep @ join_strings sep (t # ss)"

definition build_twitter_query :: "(go_string \<Rightarrow> go_string) \<Rightarrow> query_input \<Rightarrow> query_error + go_string" where
  "build_twitter_query ascii i =
     (if trim_space (qi_player i) = '''' then Inl EmptyPlayerName
      else case query_terms ascii i of (player, team) \<Rightarrow>
        if player @ team = [] then Inl EmptyQuery
        else Inr (''('' @ join_strings '' OR '' (player @ team) @ '')'' @ (if qi_video_only i then '' filter:videos'' else '''')))"

definition build_query ::
  "(go_string \<Rightarrow> go_string) \<Rightarrow> go_string \<Rightarrow> go_string \<Rightarrow> go_string list \<Rightarrow> query_error + go_string" where
  "build_query ascii player team aliases =
     build_twitter_query ascii \<lparr> qi_player = player, qi_team = team, qi_code = '''', qi_aliases = aliases, qi_video_only = True \<rparr>"

definition query_length_warn :: "go_string \<Rightarrow> bool" where
  "query_length_warn q \<longleftrightarrow> 400 < length q"

section \<open>Which terms are taken\<close>

lemma set_drop_gen_suffix: "set (drop_gen_suffix ts) \<subseteq> set ts"
  by (induction ts rule: drop_gen_suffix.induct) auto

lemma drop_gen_suffix_nonempty: "drop_gen_suffix ts = [] \<longleftrightarrow> ts = []"
  by (induction ts rule: drop_gen_suffix.induct) auto

lemma strip_gen_suffix_facts: "set (strip_gen_suffix ts) \<subseteq> set ts" "strip_gen_suffix ts = [] \<longleftrightarrow> ts = []"
  using set_drop_gen_suffix [of "rev ts"] by (simp_all add: strip_gen_suffix_def drop_gen_suffix_nonempty)

definition terms_ok :: "go_string list \<Rightarrow> go_string list \<times> go_string list \<Rightarrow> bool" where
  "terms_ok before st \<longleftrightarrow> fst st = before @ map term_key (snd st) \<and> distinct (fst st) \<and> '''' \<notin> set (snd st)"

lemma take_term_ok: "terms_ok before st \<Longrightarrow> terms_ok before (take_term t st)"
  by (cases st) (auto simp: terms_ok_def take_term_def)

lemma fold_take_term_ok: "terms_ok before st \<Longrightarrow> terms_ok before (List.fold take_term ts st)"
proof (induction ts arbitrary: st)
  case (Cons t ts)
  show ?case using Cons.IH [OF take_term_ok [OF Cons.prems]] by simp
qed simp

lemma take_term_snd: "set (snd (take_term t st)) \<subseteq> insert t (set (snd st))"
  by (cases st) (auto simp: take_term_def)

lemma fold_take_term_snd: "set (snd (List.fold take_term ts st)) \<subseteq> set ts \<union> set (snd st)"
proof (induction ts arbitrary: st)
  case (Cons t ts)
  show ?case using Cons.IH [of "take_term t st"] take_term_snd [of t st] by auto
qed simp

text \<open>A term is only left out for another with its key.\<close>

lemma take_term_seen: "t \<noteq> '''' \<Longrightarrow> term_key t \<in> set (fst (take_term t st))"
  by (cases st) (auto simp: take_term_def)

lemma take_term_keeps: "set (fst st) \<subseteq> set (fst (take_term t st))"
  by (cases st) (auto simp: take_term_def)

lemma fold_take_term_keeps: "set (fst st) \<subseteq> set (fst (List.fold take_term ts st))"
proof (induction ts arbitrary: st)
  case (Cons t ts)
  show ?case using subset_trans [OF take_term_keeps Cons.IH] by simp
qed simp

lemma fold_take_term_covers: "t \<in> set ts \<Longrightarrow> t \<noteq> '''' \<Longrightarrow> term_key t \<in> set (fst (List.fold take_term ts st))"
proof (induction ts arbitrary: st)
  case (Cons u ts)
  show ?case
  proof (cases "t = u")
    case True
    then show ?thesis
      using take_term_seen [OF Cons.prems(2), of st] fold_take_term_keeps [of "take_term t st" ts] by auto
  next
    case False
    then show ?thesis using Cons.IH [of "take_term u st"] Cons.prems by simp
  qed
qed simp

lemma query_terms_split:
  assumes "query_terms ascii i = (player, team)"
  obtains seen seen1 team1 seen2 where
    "List.fold take_term (strip_gen_suffix (tokenize_player_name ascii (qi_player i))) ([], []) = (seen, player)"
    "(if trim_space (qi_team i) = '''' then (seen, [])
      else take_term (derive_abbrev ascii (trim_space (qi_team i))) (take_term (quote_term (trim_space (qi_team i))) (seen, []))) =
        (seen1, team1)"
    "List.fold take_term (map quote_term (filter (alias_usable ascii (trim_space (qi_team i))) (qi_aliases i))) (seen1, team1) = (seen2, team)"
proof -
  obtain seen player0 where 1: "List.fold take_term (strip_gen_suffix (tokenize_player_name ascii (qi_player i))) ([], []) = (seen, player0)"
    by (metis surj_pair)
  obtain seen1 team1 where 2: "(if trim_space (qi_team i) = '''' then (seen, [])
      else take_term (derive_abbrev ascii (trim_space (qi_team i))) (take_term (quote_term (trim_space (qi_team i))) (seen, []))) =
        (seen1, team1)"
    by (metis surj_pair)
  obtain seen2 team0 where 3: "List.fold take_term
      (map quote_term (filter (alias_usable ascii (trim_space (qi_team i))) (qi_aliases i))) (seen1, team1) = (seen2, team0)"
    by (metis surj_pair)
  have "query_terms ascii i = (player0, team0)" by (simp add: query_terms_def 1 2 3 Let_def)
  then have "player0 = player" "team0 = team" using assms by simp_all
  then show thesis using that [OF _ 2 3 [unfolded \<open>team0 = team\<close>]] 1 by simp
qed

lemma terms_distinct:
  assumes "query_terms ascii i = (player, team)"
  shows "distinct (map term_key (player @ team))"
proof -
  obtain seen seen1 team1 seen2 where parts:
    "List.fold take_term (strip_gen_suffix (tokenize_player_name ascii (qi_player i))) ([], []) = (seen, player)"
    "(if trim_space (qi_team i) = '''' then (seen, [])
      else take_term (derive_abbrev ascii (trim_space (qi_team i))) (take_term (quote_term (trim_space (qi_team i))) (seen, []))) =
        (seen1, team1)"
    "List.fold take_term (map quote_term (filter (alias_usable ascii (trim_space (qi_team i))) (qi_aliases i))) (seen1, team1) = (seen2, team)"
    by (rule query_terms_split [OF assms])
  have "terms_ok [] ([], [])" by (simp add: terms_ok_def)
  from fold_take_term_ok [OF this] have p: "terms_ok [] (seen, player)" using parts(1) by metis
  then have "terms_ok (map term_key player) (seen, [])" unfolding terms_ok_def by auto
  then have "terms_ok (map term_key player) (seen1, team1)"
    using parts(2) take_term_ok by (metis (full_types))
  from fold_take_term_ok [OF this] have "terms_ok (map term_key player) (seen2, team)" using parts(3) by metis
  then show ?thesis unfolding terms_ok_def by (metis fst_conv snd_conv map_append)
qed


text \<open>A token of a player's name is a word of at least three characters that is not on the skip list.\<close>

lemma token_long:
  assumes "token_of w = Some t"
  shows "2 < length t"
proof -
  have "\<not> length (to_lower (strip_punct w)) \<le> 2" "t = to_lower (strip_punct w)"
    using assms by (auto simp: token_of_def Let_def simp del: length_map split: if_split_asm)
  then show ?thesis by simp
qed

lemma in_map_filter: "y \<in> set (List.map_filter f xs) \<Longrightarrow> \<exists>x. f x = Some y"
  by (induction xs) (auto simp: List.map_filter_simps split: option.splits)

lemma tokenize_long: "t \<in> set (tokenize ascii name) \<Longrightarrow> 2 < length t"
  using in_map_filter token_long by (metis tokenize_def empty_iff empty_set)

lemma foldl_take_token:
  "(\<forall>t\<in>set ts. 2 < length t) \<Longrightarrow> (\<forall>t\<in>set out. 2 < length t \<and> \<not> is_skipped t) \<Longrightarrow>
   \<forall>t\<in>set (foldl take_token out ts). 2 < length t \<and> \<not> is_skipped t"
proof (induction ts arbitrary: out)
  case (Cons t ts)
  have "\<forall>u\<in>set (take_token out t). 2 < length u \<and> \<not> is_skipped u"
    using Cons.prems by (auto simp: take_token_def)
  from Cons.IH [OF _ this] show ?case using Cons.prems(1) by simp
qed simp

lemma name_token: "t \<in> set (tokenize_player_name ascii name) \<Longrightarrow> 2 < length t \<and> \<not> is_skipped t"
proof -
  have "\<forall>t\<in>set (tokenize ascii name). 2 < length t" by (intro ballI tokenize_long)
  from foldl_take_token [OF this, of "[]"]
  show "t \<in> set (tokenize_player_name ascii name) \<Longrightarrow> 2 < length t \<and> \<not> is_skipped t"
    unfolding tokenize_player_name_def by (metis empty_iff empty_set)
qed

lemma terms_empty:
  assumes "query_terms ascii i = (player, team)" "qi_aliases i = []"
  shows "player @ team = [] \<longleftrightarrow> tokenize_player_name ascii (qi_player i) = [] \<and> trim_space (qi_team i) = ''''"
proof -
  define toks where "toks = strip_gen_suffix (tokenize_player_name ascii (qi_player i))"
  obtain seen seen1 team1 seen2 where parts:
    "List.fold take_term toks ([], []) = (seen, player)"
    "(if trim_space (qi_team i) = '''' then (seen, [])
      else take_term (derive_abbrev ascii (trim_space (qi_team i))) (take_term (quote_term (trim_space (qi_team i))) (seen, []))) =
        (seen1, team1)"
    "List.fold take_term (map quote_term (filter (alias_usable ascii (trim_space (qi_team i))) (qi_aliases i))) (seen1, team1) = (seen2, team)"
    unfolding toks_def by (rule query_terms_split [OF assms(1)])
  have team: "team1 = team" using parts(3) assms(2) by simp
  have "terms_ok [] ([], [])" by (simp add: terms_ok_def)
  from fold_take_term_ok [OF this, of toks] have seen: "seen = map term_key player" "distinct seen"
    unfolding parts(1) terms_ok_def by auto
  have named: "toks = [] \<longleftrightarrow> tokenize_player_name ascii (qi_player i) = []"
    by (simp add: toks_def strip_gen_suffix_facts)
  have player: "player = [] \<longleftrightarrow> toks = []"
  proof
    assume "player = []"
    show "toks = []"
    proof (rule ccontr)
      assume "toks \<noteq> []"
      then obtain t where t: "t \<in> set toks" by (cases toks) auto
      then have "t \<in> set (tokenize_player_name ascii (qi_player i))" using strip_gen_suffix_facts(1) by (auto simp: toks_def)
      then have "t \<noteq> ''''" using name_token by fastforce
      from fold_take_term_covers [OF t this, of "([], [])"] have "term_key t \<in> set seen" by (simp add: parts(1))
      then show False using seen(1) \<open>player = []\<close> by simp
    qed
  next
    assume "toks = []"
    then show "player = []" using parts(1) by simp
  qed
  have canon: "team = [] \<longleftrightarrow> trim_space (qi_team i) = ''''" if "player = []"
  proof
    assume "team = []"
    show "trim_space (qi_team i) = ''''"
    proof (rule ccontr)
      define canon where "canon = trim_space (qi_team i)"
      assume "trim_space (qi_team i) \<noteq> ''''"
      then have c: "quote_term canon \<noteq> ''''"
        and step: "take_term (derive_abbrev ascii canon) (take_term (quote_term canon) (seen, [])) = (seen1, team1)"
        using parts(2) by (simp_all add: canon_def quote_term_def)
      have "term_key (quote_term canon) \<in> set seen1"
        using take_term_seen [OF c, of "(seen, [])"] take_term_keeps [of "take_term (quote_term canon) (seen, [])" "derive_abbrev ascii canon"]
        unfolding step by auto
      moreover have "terms_ok [] (seen, [])" using that seen by (simp add: terms_ok_def)
      from take_term_ok [OF take_term_ok [OF this]] have "seen1 = map term_key team1"
        using step by (metis append_Nil fst_conv snd_conv terms_ok_def)
      ultimately show False using \<open>team = []\<close> team by simp
    qed
  next
    assume "trim_space (qi_team i) = ''''"
    then show "team = []" using parts(2) team by simp
  qed
  show ?thesis using player canon named by auto
qed

lemma empty_player_tokens: "trim_space player = '''' \<Longrightarrow> build_query ascii player team aliases = Inl EmptyPlayerName"
  by (simp add: build_query_def build_twitter_query_def)

text \<open>C40: The query of an event is built exactly when something names the goal. Without a player it is refused
  as an upstream defect; with one it fails only when neither a word of the name survives the skip list nor a
  team is known, so that the bare filter, which matches every video, is never searched for.\<close>

theorem query_is_built_exactly_when_something_is_named:
  "build_query ascii player team [] =
     (if trim_space player = '''' then Inl EmptyPlayerName
      else if tokenize_player_name ascii player = [] \<and> trim_space team = '''' then Inl EmptyQuery
      else Inr (''('' @ join_strings '' OR ''
        (fst (query_terms ascii \<lparr> qi_player = player, qi_team = team, qi_code = '''', qi_aliases = [], qi_video_only = True \<rparr>) @
         snd (query_terms ascii \<lparr> qi_player = player, qi_team = team, qi_code = '''', qi_aliases = [], qi_video_only = True \<rparr>)) @
        '') filter:videos''))"
proof -
  let ?i = "\<lparr> qi_player = player, qi_team = team, qi_code = '''', qi_aliases = [], qi_video_only = True \<rparr>"
  obtain ps ts where terms: "query_terms ascii ?i = (ps, ts)" by (metis surj_pair)
  have "ps @ ts = [] \<longleftrightarrow> tokenize_player_name ascii player = [] \<and> trim_space team = ''''"
    using terms_empty [OF terms] by simp
  then show ?thesis by (auto simp: build_query_def build_twitter_query_def terms)
qed

text \<open>No term is searched for twice: the terms of a query differ even when case and the quotes of a phrase
  are ignored.\<close>

theorem query_terms_are_distinct:
  "distinct (map term_key (fst (query_terms ascii i) @ snd (query_terms ascii i)))"
  by (rule terms_distinct) simp

end
