(* ===== verification/EventSearch.thy ===== *)
theory EventSearch
  imports SearchProgress EventPipeline QueryBuilder
begin

text \<open>
  The producer of an event workflow and the frame around it: \<open>internal/workflow/event.go\<close>. The producer
  searches again and again, hands each new post to the consumer, persists what it observed and checkpoints
  its progress. The service that runs the activities is an argument, which answers from the commands issued
  so far; measurements, logs and the options of the activities are left out.
\<close>

section \<open>Searches\<close>

record video_ref =
  vr_url :: go_string
  vr_text :: go_string
  vr_page :: go_string
  vr_duration :: rat
  vr_username :: go_string
  vr_age :: rat

record search_input =
  si_event_id :: uuid
  si_fixture_id :: int
  si_query :: go_string
  si_exclude :: "go_string list"
  si_max_age :: int
  si_window :: "search_window option"
  si_address :: go_string

record search_output =
  su_videos :: "video_ref list"
  su_count :: int
  su_state :: result_state
  su_evidence :: search_evidence
  su_stop :: go_string

definition no_output :: search_output where
  "no_output = \<lparr> su_videos = [], su_count = 0, su_state = no_result_state, su_evidence = no_evidence, su_stop = '''' \<rparr>"

definition classified_search_failure :: "search_output activity_error \<Rightarrow> search_output option" where
  "classified_search_failure err =
     (case ae_application err of
        Some (kind, Some out) \<Rightarrow> if kind = ''twitter_search_unavailable'' \<and> state_known (su_state out) then Some out else None
      | _ \<Rightarrow> None)"

text \<open>The activity behind a search. The client of the browser service is an argument; it answers, or fails with
  or without a state it observed. Whether the workflow was cancelled meanwhile is for the runtime to say.\<close>

type_synonym search_client =
  "go_string \<Rightarrow> go_string \<Rightarrow> go_string list \<Rightarrow> int \<Rightarrow> search_window option \<Rightarrow>
   (result_state \<times> search_evidence) option + search_output"

definition plain_failure :: "'d activity_error" where
  "plain_failure = \<lparr> ae_canceled = False, ae_application = None, ae_timeout = None \<rparr>"

definition search_tweets :: "search_client option \<Rightarrow> search_input \<Rightarrow> search_output activity_error + search_output" where
  "search_tweets client i =
     (case client of
        None \<Rightarrow> Inl plain_failure
      | Some search \<Rightarrow>
          if si_query i = '''' then Inl plain_failure
          else
            let max_age = (if si_max_age i = 0 \<and> si_window i = None then 3 else si_max_age i) in
            (case validate_request_window (si_window i) max_age of
               Err _ \<Rightarrow> Inl plain_failure
             | Ok _ \<Rightarrow>
                 (case search (si_address i) (si_query i) (si_exclude i) max_age (si_window i) of
                    Inl (Some (state, evidence)) \<Rightarrow>
                      if state_known state
                      then Inl (plain_failure\<lparr> ae_application := Some (''twitter_search_unavailable'',
                             Some (no_output\<lparr> su_state := state, su_evidence := evidence \<rparr>)) \<rparr>)
                      else Inl plain_failure
                  | Inl None \<Rightarrow> Inl plain_failure
                  | Inr out \<Rightarrow> Inr out)))"

text \<open>What one answer means: its content, the state it is counted under, and whether it used up an attempt.\<close>

definition classify_search ::
  "bool \<Rightarrow> search_output activity_error + search_output \<Rightarrow> search_output \<times> result_state \<times> bool" where
  "classify_search availability r =
     (case r of
        Inl err \<Rightarrow>
          if \<not> availability then (no_output, no_result_state, False)
          else (let out = (case classified_search_failure err of Some c \<Rightarrow> c | None \<Rightarrow> no_output) in
            if state_known (su_state out) then (out, su_state out, False)
            else (out\<lparr> su_evidence := (su_evidence out)\<lparr> sv_timeline_failure := ''activity_error'' \<rparr> \<rparr>, ResultUnknownTimeout, False))
      | Inr out \<Rightarrow>
          if \<not> availability then (out, su_state out, True)
          else if su_state out = no_result_state
          then (if su_stop out = ''feed_timeout'' then (out, ResultUnknownTimeout, False) else (out, ResultRendered, True))
          else (out, su_state out, state_usable (su_state out)))"

section \<open>The state of the producer\<close>

datatype producer_call =
    SearchTweets search_input
  | RecordProgress progress_input
  | StoreCandidate candidate_evidence
  | SpawnCandidate candidate_evidence
  | SleepFor duration

record producer_env =
  se_in :: event_input
  se_query :: go_string
  se_address :: go_string
  se_workflow :: go_string
  se_cfg :: search_settings
  se_availability :: bool
  se_durable :: bool
  se_recovery :: bool
  se_search :: "producer_call list \<Rightarrow> search_input \<Rightarrow> search_output activity_error + search_output"
  se_store :: "producer_call list \<Rightarrow> candidate_evidence \<Rightarrow> unit activity_error + bool"
  se_record :: "producer_call list \<Rightarrow> progress_input \<Rightarrow> unit activity_error option"
  se_sleep :: "producer_call list \<Rightarrow> duration \<Rightarrow> unit activity_error option"

record producer =
  pd_attempt :: int
  pd_unavailable :: int
  pd_exclude :: "go_string list"
  pd_seen :: "go_string list"
  pd_window :: "search_window option"
  pd_found :: int
  pd_attempts_run :: int
  pd_unavailable_out :: int
  pd_exhausted :: bool
  pd_last_state :: result_state
  pd_error :: "go_string option"
  pd_calls :: "producer_call list"

definition issue :: "producer_call \<Rightarrow> producer \<Rightarrow> producer" where
  "issue c s = s\<lparr> pd_calls := pd_calls s @ [c] \<rparr>"

definition max_unavailable :: "producer_env \<Rightarrow> int" where
  "max_unavailable e =
     (if ss_max_unavailable (se_cfg e) \<le> 0 then ss_max_attempts (se_cfg e) else ss_max_unavailable (se_cfg e))"

section \<open>Commands\<close>

definition search_input_of :: "producer_env \<Rightarrow> producer \<Rightarrow> search_input" where
  "search_input_of e s =
     \<lparr> si_event_id = ei_event_id (se_in e), si_fixture_id = ei_fixture_id (se_in e), si_query = se_query e,
       si_exclude = pd_exclude s, si_max_age = (if pd_window s = None then ss_max_age (se_cfg e) else 0),
       si_window = pd_window s, si_address = se_address e \<rparr>"

definition progress_input_of ::
  "producer_env \<Rightarrow> int \<Rightarrow> int \<Rightarrow> result_state \<Rightarrow> search_evidence option \<Rightarrow> producer \<Rightarrow> progress_input" where
  "progress_input_of e attempts unavailable state evidence s =
     \<lparr> pi_event_id = ei_event_id (se_in e), pi_type = ''discovery'', pi_workflow = se_workflow e, pi_attempt = attempts,
       pi_unavailable = unavailable, pi_state = state, pi_evidence = evidence, pi_window = pd_window s \<rparr>"

text \<open>A step that may end the producer with an error: whether it goes on comes with the state.\<close>

definition stop_with :: "go_string \<Rightarrow> producer \<Rightarrow> producer \<times> bool" where
  "stop_with err s = (s\<lparr> pd_error := Some err \<rparr>, False)"

definition record_progress ::
  "producer_env \<Rightarrow> int \<Rightarrow> int \<Rightarrow> result_state \<Rightarrow> search_evidence option \<Rightarrow> producer \<Rightarrow> producer \<times> bool" where
  "record_progress e attempts unavailable state evidence s =
     (if \<not> se_recovery e then (s, True)
      else
        let i = progress_input_of e attempts unavailable state evidence s; s1 = issue (RecordProgress i) s in
        (case se_record e (pd_calls s) i of Some _ \<Rightarrow> stop_with ''record progress'' s1 | None \<Rightarrow> (s1, True)))"

definition sleep_between :: "producer_env \<Rightarrow> producer \<Rightarrow> producer \<times> bool" where
  "sleep_between e s =
     (let d = ss_spacing (se_cfg e); s1 = issue (SleepFor d) s in
      case se_sleep e (pd_calls s) d of Some _ \<Rightarrow> stop_with ''canceled'' s1 | None \<Rightarrow> (s1, True))"

definition and_then :: "producer \<times> bool \<Rightarrow> (producer \<Rightarrow> producer \<times> bool) \<Rightarrow> producer \<times> bool" where
  "and_then r f = (case r of (s, go_on) \<Rightarrow> if go_on then f s else (s, False))"

section \<open>Candidates\<close>

definition evidence_of :: "producer_env \<Rightarrow> int \<Rightarrow> video_ref \<Rightarrow> candidate_evidence" where
  "evidence_of e attempt v =
     \<lparr> ce_event_id = ei_event_id (se_in e), ce_fixture_id = ei_fixture_id (se_in e), ce_attempt = attempt,
       ce_query = se_query e, ce_url = vr_url v, ce_text = vr_text v, ce_page = vr_page v, ce_duration = vr_duration v,
       ce_username = vr_username v, ce_age = vr_age v \<rparr>"

text \<open>The posts of an answer not seen before, in order.\<close>

fun new_videos :: "go_string list \<Rightarrow> video_ref list \<Rightarrow> video_ref list" where
  "new_videos seen [] = []"
| "new_videos seen (v # vs) =
     (if vr_url v = '''' \<or> vr_url v \<in> set seen then new_videos seen vs
      else v # new_videos (seen @ [vr_url v]) vs)"

definition mark_seen :: "go_string list \<Rightarrow> producer \<Rightarrow> producer" where
  "mark_seen urls s = s\<lparr> pd_seen := pd_seen s @ urls, pd_exclude := pd_exclude s @ urls \<rparr>"

text \<open>The answers to the stores of one search, read in order: a cancellation ends the reading, the first other
  failure is kept.\<close>

fun read_stores :: "(unit activity_error + bool) list \<Rightarrow> go_string option \<Rightarrow> go_string option \<times> bool" where
  "read_stores [] err = (err, False)"
| "read_stores (Inr _ # rs) err = read_stores rs err"
| "read_stores (Inl f # rs) err =
     (if ae_canceled f then (Some ''canceled'', True)
      else read_stores rs (if err = None then Some ''persist observed candidate'' else err))"

definition observe_durably :: "producer_env \<Rightarrow> candidate_evidence list \<Rightarrow> producer \<Rightarrow> producer \<times> bool" where
  "observe_durably e evs s =
     (let s1 = s\<lparr> pd_found := pd_found s + int (length evs) \<rparr> in
      if evs = [] then (s1, True)
      else
        let s2 = fold (\<lambda>ev. issue (SpawnCandidate ev)) evs s1;
            replies = map (se_store e (pd_calls s2)) evs;
            s3 = fold (\<lambda>ev. issue (StoreCandidate ev)) evs s2
        in (case read_stores replies None of
              (Some err, _) \<Rightarrow> stop_with err s3
            | (None, _) \<Rightarrow> (s3, True)))"

definition observe_one :: "producer_env \<Rightarrow> candidate_evidence \<Rightarrow> producer \<Rightarrow> producer \<times> bool" where
  "observe_one e ev s =
     (let s1 = issue (StoreCandidate ev) s in
      case se_store e (pd_calls s) ev of
        Inl f \<Rightarrow> (if ae_canceled f then stop_with ''canceled'' s1 else (issue (SpawnCandidate ev) s1, True))
      | Inr inserted \<Rightarrow>
          (issue (SpawnCandidate ev) (if inserted then s1\<lparr> pd_found := pd_found s1 + 1 \<rparr> else s1), True))"

definition observe_one_by_one :: "producer_env \<Rightarrow> candidate_evidence list \<Rightarrow> producer \<Rightarrow> producer \<times> bool" where
  "observe_one_by_one e evs s = foldl (\<lambda>r ev. and_then r (\<lambda>s. observe_one e ev (mark_seen [ce_url ev] s))) (s, True) evs"

definition observe_videos :: "producer_env \<Rightarrow> video_ref list \<Rightarrow> producer \<Rightarrow> producer \<times> bool" where
  "observe_videos e videos s =
     (let evs = map (evidence_of e (pd_attempt s)) (new_videos (pd_seen s) videos) in
      if se_durable e then observe_durably e evs (mark_seen (map ce_url evs) s)
      else observe_one_by_one e evs s)"

section \<open>One search\<close>

definition search_unavailable :: "producer_env \<Rightarrow> search_output \<Rightarrow> result_state \<Rightarrow> producer \<Rightarrow> producer \<times> bool" where
  "search_unavailable e out state s =
     (let s1 = s\<lparr> pd_unavailable := pd_unavailable s + 1, pd_unavailable_out := pd_unavailable s + 1 \<rparr> in
      and_then (record_progress e (pd_attempt s1 - 1) (pd_unavailable s1) state (Some (su_evidence out)) s1) (\<lambda>s2.
        if max_unavailable e \<le> pd_unavailable s2 then (s2\<lparr> pd_exhausted := True \<rparr>, False)
        else sleep_between e s2))"

definition attempt_done :: "producer_env \<Rightarrow> search_output \<Rightarrow> result_state \<Rightarrow> producer \<Rightarrow> producer \<times> bool" where
  "attempt_done e out state s =
     and_then (if se_availability e
               then record_progress e (pd_attempt s) (pd_unavailable s) state (Some (su_evidence out)) s
               else record_progress e (pd_attempt s) 0 no_result_state None s) (\<lambda>s1.
       let s2 = s1\<lparr> pd_attempts_run := pd_attempt s1, pd_attempt := pd_attempt s1 + 1 \<rparr> in
       if pd_attempt s2 \<le> ss_max_attempts (se_cfg e) then sleep_between e s2 else (s2, True))"

definition next_window ::
  "bool \<Rightarrow> search_output \<Rightarrow> result_state \<Rightarrow> bool \<Rightarrow> search_window option \<Rightarrow> search_window option" where
  "next_window failed out state usable w =
     map_option (\<lambda>w. window_after w (if failed \<or> \<not> usable then ResultUnknownTimeout else state) (su_stop out)) w"

definition search_attempt :: "producer_env \<Rightarrow> producer \<Rightarrow> producer \<times> bool" where
  "search_attempt e s =
     (let i = search_input_of e s; r = se_search e (pd_calls s) i in
      case classify_search (se_availability e) r of (out, state, usable) \<Rightarrow>
        let s1 = issue (SearchTweets i) s;
            s2 = s1\<lparr> pd_last_state := (if se_availability e then state else pd_last_state s1),
                     pd_window := next_window (isl r) out state usable (pd_window s1) \<rparr>
        in (case r of
              Inl err \<Rightarrow>
                if ae_canceled err then stop_with ''canceled'' s2
                else if se_availability e then search_unavailable e out state s2
                else attempt_done e out state s2
            | Inr _ \<Rightarrow>
                if se_availability e \<and> \<not> usable then search_unavailable e out state s2
                else and_then (observe_videos e (su_videos out) s2) (attempt_done e out state)))"

definition may_search :: "producer_env \<Rightarrow> producer \<Rightarrow> bool" where
  "may_search e s \<longleftrightarrow> pd_attempt s \<le> ss_max_attempts (se_cfg e) \<and>
     (\<not> se_availability e \<or> pd_unavailable s < max_unavailable e)"

text \<open>Each turn of the loop uses up an attempt or an unavailable answer.\<close>

definition turns_left :: "producer_env \<Rightarrow> producer \<Rightarrow> nat" where
  "turns_left e s = nat (ss_max_attempts (se_cfg e) + 1 - pd_attempt s) + nat (max_unavailable e - pd_unavailable s)"

lemma issue_fields [simp]:
  "pd_attempt (issue c s) = pd_attempt s" "pd_unavailable (issue c s) = pd_unavailable s" "pd_seen (issue c s) = pd_seen s"
  "pd_exclude (issue c s) = pd_exclude s" "pd_window (issue c s) = pd_window s" "pd_calls (issue c s) = pd_calls s @ [c]"
  "pd_attempts_run (issue c s) = pd_attempts_run s" "pd_exhausted (issue c s) = pd_exhausted s"
  by (simp_all add: issue_def)

lemma fold_issue_fields [simp]:
  "pd_attempt (fold (\<lambda>x. issue (f x)) xs s) = pd_attempt s" "pd_unavailable (fold (\<lambda>x. issue (f x)) xs s) = pd_unavailable s"
  "pd_seen (fold (\<lambda>x. issue (f x)) xs s) = pd_seen s" "pd_window (fold (\<lambda>x. issue (f x)) xs s) = pd_window s"
  "pd_calls (fold (\<lambda>x. issue (f x)) xs s) = pd_calls s @ map f xs"
  by (induction xs arbitrary: s) simp_all

fun is_search :: "producer_call \<Rightarrow> bool" where
  "is_search (SearchTweets _) \<longleftrightarrow> True"
| "is_search _ \<longleftrightarrow> False"

definition searches_of :: "producer \<Rightarrow> nat" where
  "searches_of s = length (filter is_search (pd_calls s))"

lemma searches_of_issue [simp]:
  "searches_of (issue c s) = (if is_search c then searches_of s + 1 else searches_of s)"
  by (simp add: searches_of_def)

lemma searches_of_fold [simp]:
  "searches_of (fold (\<lambda>x. issue (SpawnCandidate x)) xs s) = searches_of s"
  "searches_of (fold (\<lambda>x. issue (StoreCandidate x)) xs s) = searches_of s"
  by (simp_all add: searches_of_def comp_def)

lemma searches_of_update [simp]:
  "searches_of (s\<lparr> pd_error := x \<rparr>) = searches_of s" "searches_of (s\<lparr> pd_found := n \<rparr>) = searches_of s"
  "searches_of (s\<lparr> pd_exhausted := y \<rparr>) = searches_of s" "searches_of (mark_seen us s) = searches_of s"
  "searches_of (s\<lparr> pd_unavailable := n, pd_unavailable_out := m \<rparr>) = searches_of s"
  "searches_of (s\<lparr> pd_attempts_run := n, pd_attempt := m \<rparr>) = searches_of s"
  "searches_of (s\<lparr> pd_last_state := st, pd_window := w \<rparr>) = searches_of s"
  by (simp_all add: searches_of_def mark_seen_def)

lemma mark_seen_fields [simp]:
  "pd_attempt (mark_seen us s) = pd_attempt s" "pd_unavailable (mark_seen us s) = pd_unavailable s"
  "pd_calls (mark_seen us s) = pd_calls s" "pd_window (mark_seen us s) = pd_window s"
  "pd_seen (mark_seen us s) = pd_seen s @ us"
  by (simp_all add: mark_seen_def)

text \<open>A step that is no search keeps the counters of the loop.\<close>

definition same_counters :: "producer \<Rightarrow> producer \<Rightarrow> bool" where
  "same_counters s t \<longleftrightarrow> pd_attempt t = pd_attempt s \<and> pd_unavailable t = pd_unavailable s \<and> searches_of t = searches_of s"

lemma counters_record: "same_counters s (fst (record_progress e a u st ev s))"
  by (simp add: record_progress_def same_counters_def stop_with_def Let_def split: option.splits)

lemma counters_sleep: "same_counters s (fst (sleep_between e s))"
  by (simp add: sleep_between_def same_counters_def stop_with_def Let_def split: option.splits)

lemma counters_durable: "same_counters s (fst (observe_durably e evs s))"
  by (simp add: observe_durably_def same_counters_def stop_with_def Let_def split: option.splits prod.splits)

lemma counters_one: "same_counters s (fst (observe_one e ev s))"
  by (simp add: observe_one_def same_counters_def stop_with_def Let_def split: sum.splits)

lemma counters_one_by_one: "same_counters s (fst (observe_one_by_one e evs s))"
proof -
  have "same_counters s (fst (foldl (\<lambda>r ev. and_then r (\<lambda>s. observe_one e ev (mark_seen [ce_url ev] s))) r evs))"
    if "same_counters s (fst r)" for r
    using that
  proof (induction evs arbitrary: r)
    case (Cons ev evs)
    have "same_counters s (fst (and_then r (\<lambda>s. observe_one e ev (mark_seen [ce_url ev] s))))"
      using Cons.prems counters_one [of "mark_seen [ce_url ev] (fst r)" e ev]
      by (cases r) (auto simp: and_then_def same_counters_def)
    from Cons.IH [OF this] show ?case by simp
  qed simp
  from this [of "(s, True)"] show ?thesis by (simp add: observe_one_by_one_def same_counters_def)
qed

lemma counters_observe: "same_counters s (fst (observe_videos e vs s))"
  using counters_durable [of "mark_seen us s" e evs for us evs] counters_one_by_one [of s e]
  by (simp add: observe_videos_def Let_def) (simp add: same_counters_def)

text \<open>An unavailable answer leaves the attempt to be repeated and counts as one unavailable answer; an
  answered search moves to the next attempt.\<close>

lemma unavailable_turn:
  "pd_attempt (fst (search_unavailable e out state s)) = pd_attempt s"
  "pd_unavailable (fst (search_unavailable e out state s)) = pd_unavailable s + 1"
proof -
  define s1 where "s1 = s\<lparr> pd_unavailable := pd_unavailable s + 1, pd_unavailable_out := pd_unavailable s + 1 \<rparr>"
  obtain s2 b where r: "record_progress e (pd_attempt s1 - 1) (pd_unavailable s1) state (Some (su_evidence out)) s1 = (s2, b)"
    by fastforce
  have "same_counters s1 s2" using counters_record [of s1] r by (metis fst_conv)
  then show "pd_attempt (fst (search_unavailable e out state s)) = pd_attempt s"
    "pd_unavailable (fst (search_unavailable e out state s)) = pd_unavailable s + 1"
    using counters_sleep [of s2 e]
    by (auto simp: search_unavailable_def Let_def s1_def [symmetric] r and_then_def same_counters_def) (auto simp: s1_def)
qed

lemma done_turn:
  assumes "attempt_done e out state s = (t, True)"
  shows "pd_attempt t = pd_attempt s + 1" "pd_unavailable t = pd_unavailable s"
proof -
  obtain s1 b where r: "(if se_availability e
               then record_progress e (pd_attempt s) (pd_unavailable s) state (Some (su_evidence out)) s
               else record_progress e (pd_attempt s) 0 no_result_state None s) = (s1, b)" by fastforce
  have "same_counters s s1" using counters_record [of s e] r by (metis fst_conv)
  then show "pd_attempt t = pd_attempt s + 1" "pd_unavailable t = pd_unavailable s"
    using assms counters_sleep [of "s1\<lparr> pd_attempts_run := pd_attempt s1, pd_attempt := pd_attempt s1 + 1 \<rparr>" e]
    by (auto simp: attempt_done_def r and_then_def Let_def same_counters_def split: if_splits)
qed

lemma search_turn:
  assumes "search_attempt e s = (t, True)"
  shows "pd_attempt t = pd_attempt s \<and> pd_unavailable t = pd_unavailable s + 1 \<and> se_availability e \<or>
    pd_attempt t = pd_attempt s + 1 \<and> pd_unavailable t = pd_unavailable s"
proof -
  define i where "i = search_input_of e s"
  define r where "r = se_search e (pd_calls s) i"
  obtain out state usable where k: "classify_search (se_availability e) r = (out, state, usable)" by (metis prod_cases3)
  define s1 where "s1 = issue (SearchTweets i) s"
  define s2 where "s2 = s1\<lparr> pd_last_state := (if se_availability e then state else pd_last_state s1),
     pd_window := next_window (isl r) out state usable (pd_window s1) \<rparr>"
  have s2: "pd_attempt s2 = pd_attempt s" "pd_unavailable s2 = pd_unavailable s" by (simp_all add: s2_def s1_def)
  have out: "search_attempt e s = (case r of
              Inl err \<Rightarrow>
                if ae_canceled err then stop_with ''canceled'' s2
                else if se_availability e then search_unavailable e out state s2
                else attempt_done e out state s2
            | Inr _ \<Rightarrow>
                if se_availability e \<and> \<not> usable then search_unavailable e out state s2
                else and_then (observe_videos e (su_videos out) s2) (attempt_done e out state))"
    unfolding search_attempt_def Let_def i_def [symmetric] r_def [symmetric] k s1_def [symmetric] prod.case s2_def [symmetric]
    by (rule refl)
  consider (unavailable) "se_availability e" "search_unavailable e out state s2 = (t, True)"
    | (answered) u where "same_counters s2 u" "attempt_done e out state u = (t, True)"
  proof (cases r)
    case (Inl err)
    then show ?thesis using assms out that(1) that(2) [of s2]
      by (auto simp: stop_with_def same_counters_def split: if_splits)
  next
    case (Inr x)
    obtain u b where o: "observe_videos e (su_videos out) s2 = (u, b)" by fastforce
    then have "same_counters s2 u" using counters_observe [of s2 e "su_videos out"] by simp
    then show ?thesis using assms out Inr that(1) that(2) [of u] by (auto simp: o and_then_def split: if_splits)
  qed
  then show ?thesis
  proof cases
    case unavailable
    then show ?thesis using unavailable_turn [of e out state s2] s2 by simp
  next
    case answered
    then show ?thesis using done_turn [OF answered(2)] s2 by (simp add: same_counters_def)
  qed
qed

lemma turn_decreases:
  assumes "may_search e s" "search_attempt e s = (t, True)"
  shows "turns_left e t < turns_left e s"
  using search_turn [OF assms(2)] assms(1) by (auto simp: may_search_def turns_left_def)

function run_search :: "producer_env \<Rightarrow> producer \<Rightarrow> producer" where
  "run_search e s =
     (if may_search e s then (case search_attempt e s of (t, go_on) \<Rightarrow> if go_on then run_search e t else t) else s)"
  by pat_completeness auto
termination by (relation "measure (\<lambda>(e, s). turns_left e s)") (auto intro: turn_decreases)

declare run_search.simps [simp del]

end
