(* ===== verification/PipelineWork.thy ===== *)
theory PipelineWork
  imports EventPipeline "HOL-Library.Multiset" "HOL-Library.Sublist"
begin

text \<open>
  The bookkeeping of an event workflow. A candidate is owned by exactly one place: its download, a claim on
  the media it was hashed for, or a clip whose vision verdict is awaited. The callbacks move it from one to
  the next and finally settle it by one durable command. The invariant counts every URL over all places
  and commands at once, as a multiset, with the URLs a callback holds in its hand beside them.
\<close>

section \<open>Where the URLs are\<close>

fun future_urls :: "future \<Rightarrow> go_string list" where
  "future_urls (DownloadFuture url) = [url]"
| "future_urls _ = []"

definition clip_urls :: "work_clip \<Rightarrow> go_string list" where
  "clip_urls c = wk_tweet_url c # wk_followers c"

definition claims_urls :: "(go_string \<times> hash_claim) list \<Rightarrow> go_string list" where
  "claims_urls claims = concat (map (\<lambda>(_, claim). concat (map clip_urls (claim_clips claim))) claims)"

definition at_work :: "pipeline \<Rightarrow> go_string multiset" where
  "at_work p = mset (concat (map future_urls (pl_futures p))) + mset (claims_urls (pl_hashing p)) +
     mset (concat (map clip_urls (pl_pending p)))"

text \<open>The URLs whose terminal outcome a command carries.\<close>

fun settled_by :: "call \<Rightarrow> go_string list" where
  "settled_by (UpsertCandidateOutcome ev _ _ _) = [ce_url ev]"
| "settled_by (RecordCandidateOutcome url _ _ _) = [url]"
| "settled_by (CommitClipPlacement cmd) = map (ce_url \<circ> pc_evidence) (pq_candidates cmd)"
| "settled_by _ = []"

definition settled_urls :: "pipeline \<Rightarrow> go_string list" where
  "settled_urls p = concat (map settled_by (pl_calls p))"

definition candidate_urls_of :: "pipeline \<Rightarrow> go_string list" where
  "candidate_urls_of p = map fst (pl_candidates p)"

definition candidate_done :: "pipeline \<Rightarrow> go_string \<Rightarrow> bool" where
  "candidate_done p url \<longleftrightarrow> (\<exists>own. map_of (pl_candidates p) url = Some own \<and> ow_state own = CandidateTerminal)"

definition staging_keys :: "pipeline \<Rightarrow> go_string list" where
  "staging_keys p = map wk_staging (concat (map (claim_clips \<circ> snd) (pl_hashing p)) @ pl_pending p)"

definition once :: "'b multiset \<Rightarrow> bool" where
  "once M \<longleftrightarrow> (\<forall>x. count M x \<le> 1)"

lemma once_mset: "once (mset xs) \<longleftrightarrow> distinct xs"
  by (simp add: once_def distinct_count_atmost_1) (metis One_nat_def Suc_leI count_mset_0_iff le_zero_eq nle_le not_less_eq_eq zero_less_iff_neq_zero count_greater_zero_iff in_multiset_in_set)

lemma once_mono: "once M \<Longrightarrow> N \<subseteq># M \<Longrightarrow> once N"
  unfolding once_def by (meson le_trans mset_subset_eq_count)

section \<open>The invariant\<close>

text \<open>The history is one of the current version.\<close>

definition current_history :: "pipeline_env \<Rightarrow> bool" where
  "current_history e \<longleftrightarrow> pe_flag e pg_pre_hash_claim \<and> pe_flag e pg_durable_candidates \<and>
     pe_flag e pg_defer_followers \<and> pe_flag e pg_atomic_placement"

definition undisturbed :: "pipeline \<Rightarrow> bool" where
  "undisturbed p \<longleftrightarrow> \<not> pl_canceled p \<and> pl_terminal_err p = None"

fun hash_keys :: "future \<Rightarrow> go_string list" where
  "hash_keys (HashFuture key) = [key]"
| "hash_keys _ = []"

fun vision_clips :: "future \<Rightarrow> work_clip list" where
  "vision_clips (VisionFuture c) = [c]"
| "vision_clips _ = []"

definition clip_place :: "work_clip \<Rightarrow> go_string \<times> go_string" where
  "clip_place c = (wk_tweet_url c, wk_staging c)"

definition hashing_keys :: "pipeline \<Rightarrow> go_string multiset" where
  "hashing_keys p = mset (concat (map hash_keys (pl_futures p)))"

definition vision_places :: "pipeline \<Rightarrow> (go_string \<times> go_string) multiset" where
  "vision_places p = mset (map clip_place (concat (map vision_clips (pl_futures p))))"

definition child_free :: "pipeline \<Rightarrow> bool" where
  "child_free p \<longleftrightarrow> (\<forall>url. VideoFuture url \<notin> set (pl_futures p))"

text \<open>Every scheduled result is counted and none is a child of an older history; while the workflow runs, a claim has its one hash and a pending
  clip its one verdict under way.\<close>

definition futures_ok :: "pipeline \<Rightarrow> bool" where
  "futures_ok p \<longleftrightarrow> pl_in_flight p = int (length (pl_futures p)) \<and> child_free p \<and>
     (\<not> pl_canceled p \<longrightarrow> hashing_keys p = mset (map fst (pl_hashing p)) \<and>
        vision_places p = mset (map clip_place (pl_pending p)))"

definition clips_ok :: "pipeline \<Rightarrow> bool" where
  "clips_ok p \<longleftrightarrow> distinct (map fst (pl_hashing p)) \<and> distinct (staging_keys p) \<and>
     (\<forall>claim\<in>snd ` set (pl_hashing p). \<forall>c\<in>set (claim_clips claim). wk_popularity c = 1 \<and> wk_followers c = []) \<and>
     (\<forall>c\<in>set (pl_pending p). wk_popularity c = cluster_size c)"

definition keyed :: "pipeline \<Rightarrow> bool" where
  "keyed p \<longleftrightarrow> distinct (candidate_urls_of p) \<and> '''' \<notin> set (candidate_urls_of p) \<and>
     (\<forall>(url, own)\<in>set (pl_candidates p). ce_url (ow_evidence own) = url)"

definition owned_ok :: "go_string list \<Rightarrow> pipeline \<Rightarrow> bool" where
  "owned_ok hand p \<longleftrightarrow> once (at_work p + mset hand + mset (settled_urls p)) \<and>
     set_mset (at_work p) \<union> set hand \<union> set (settled_urls p) \<subseteq> set (candidate_urls_of p) \<and>
     keyed p \<and>
     (undisturbed p \<longrightarrow> (\<forall>url\<in>set (candidate_urls_of p).
        url \<in># at_work p \<or> url \<in> set hand \<or> candidate_done p url \<and> url \<in> set (settled_urls p)))"

definition pipeline_ok :: "pipeline \<Rightarrow> bool" where
  "pipeline_ok p \<longleftrightarrow> futures_ok p \<and> clips_ok p \<and> owned_ok [] p"

lemma undisturbed_drop: "\<not> undisturbed p \<Longrightarrow> owned_ok (us @ hand) p \<Longrightarrow> owned_ok hand p"
  unfolding owned_ok_def by (auto elim!: once_mono)

section \<open>Effects that settle\<close>

definition same_places :: "pipeline \<Rightarrow> pipeline \<Rightarrow> bool" where
  "same_places p p' \<longleftrightarrow> pl_futures p' = pl_futures p \<and> pl_pending p' = pl_pending p \<and> pl_hashing p' = pl_hashing p \<and>
     pl_in_flight p' = pl_in_flight p \<and> pl_search_done p' = pl_search_done p \<and>
     (pl_canceled p \<longrightarrow> pl_canceled p') \<and> (pl_terminal_err p \<noteq> None \<longrightarrow> pl_terminal_err p' \<noteq> None)"

definition same_candidates :: "pipeline \<Rightarrow> pipeline \<Rightarrow> bool" where
  "same_candidates p p' \<longleftrightarrow> candidate_urls_of p' = candidate_urls_of p \<and>
     (\<forall>url own. map_of (pl_candidates p) url = Some own \<longrightarrow>
        (\<exists>own'. map_of (pl_candidates p') url = Some own' \<and> ow_evidence own' = ow_evidence own \<and>
           (ow_state own = CandidateTerminal \<longrightarrow> ow_state own' = CandidateTerminal)))"

text \<open>The step settles the URLs in turn; a disturbed step may have stopped before.\<close>

definition settles :: "go_string list \<Rightarrow> pipeline \<Rightarrow> pipeline \<Rightarrow> bool" where
  "settles us p p' \<longleftrightarrow> same_places p p' \<and> same_candidates p p' \<and>
     (\<exists>ws. subseq ws us \<and> settled_urls p' = settled_urls p @ ws \<and>
        (undisturbed p' \<longrightarrow> ws = us \<and> (\<forall>url\<in>set us. candidate_done p' url)))"

lemma same_places_refl: "same_places p p" by (simp add: same_places_def)

lemma same_places_trans: "same_places p p1 \<Longrightarrow> same_places p1 p2 \<Longrightarrow> same_places p p2"
  by (simp add: same_places_def)

lemma same_candidates_refl: "same_candidates p p" by (simp add: same_candidates_def)

lemma same_candidates_trans: "same_candidates p p1 \<Longrightarrow> same_candidates p1 p2 \<Longrightarrow> same_candidates p p2"
  unfolding same_candidates_def by metis

lemma undisturbed_before: "same_places p p' \<Longrightarrow> undisturbed p' \<Longrightarrow> undisturbed p"
  by (cases "pl_terminal_err p") (auto simp: same_places_def undisturbed_def)

lemma done_kept: "same_candidates p p' \<Longrightarrow> candidate_done p url \<Longrightarrow> candidate_done p' url"
  unfolding same_candidates_def candidate_done_def by metis

lemma settles_refl: "settles [] p p"
  by (simp add: settles_def same_places_refl same_candidates_refl)

lemma settles_trans:
  assumes "settles us p p1" "settles vs p1 p2"
  shows "settles (us @ vs) p p2"
proof -
  obtain ws where ws: "subseq ws us" "settled_urls p1 = settled_urls p @ ws"
    "undisturbed p1 \<longrightarrow> ws = us \<and> (\<forall>url\<in>set us. candidate_done p1 url)"
    using assms(1) by (auto simp: settles_def)
  obtain xs where xs: "subseq xs vs" "settled_urls p2 = settled_urls p1 @ xs"
    "undisturbed p2 \<longrightarrow> xs = vs \<and> (\<forall>url\<in>set vs. candidate_done p2 url)"
    using assms(2) by (auto simp: settles_def)
  have places: "same_places p p1" "same_places p1 p2" "same_candidates p p1" "same_candidates p1 p2"
    using assms by (simp_all add: settles_def)
  have "subseq (ws @ xs) (us @ vs)" using ws(1) xs(1) by (rule list_emb_append_mono)
  moreover have "settled_urls p2 = settled_urls p @ (ws @ xs)" using ws(2) xs(2) by simp
  moreover have "undisturbed p2 \<longrightarrow> ws @ xs = us @ vs \<and> (\<forall>url\<in>set (us @ vs). candidate_done p2 url)"
    using ws(3) xs(3) undisturbed_before [OF places(2)] done_kept [OF places(4)] by auto
  ultimately show ?thesis
    unfolding settles_def using same_places_trans [OF places(1,2)] same_candidates_trans [OF places(3,4)] by blast
qed

text \<open>A step that touches nothing of the bookkeeping, or issues commands that settle nothing.\<close>

lemma settles_quiet:
  assumes "same_places p p'" "pl_candidates p' = pl_candidates p" "settled_urls p' = settled_urls p"
  shows "settles [] p p'"
  using assms by (simp add: settles_def same_candidates_def candidate_urls_of_def)

lemma settles_then_quiet: "settles us p p1 \<Longrightarrow> settles [] p1 p2 \<Longrightarrow> settles us p p2"
  using settles_trans [of us p p1 "[]" p2] by simp

lemma quiet_then_settles: "settles [] p p1 \<Longrightarrow> settles us p1 p2 \<Longrightarrow> settles us p p2"
  using settles_trans [of "[]" p p1 us p2] by simp

lemma settles_fold:
  assumes "\<And>x p. settles (us x) p (f x p)"
  shows "settles (concat (map us xs)) p (fold f xs p)"
proof (induction xs arbitrary: p)
  case Nil
  then show ?case by (simp add: settles_refl)
next
  case (Cons x xs)
  show ?case using settles_trans [OF assms Cons.IH] by simp
qed

lemma at_work_same: "same_places p p' \<Longrightarrow> at_work p' = at_work p"
  by (simp add: same_places_def at_work_def)

lemma candidate_urls_map_of: "url \<in> set (candidate_urls_of p) \<longleftrightarrow> map_of (pl_candidates p) url \<noteq> None"
  by (simp add: candidate_urls_of_def map_of_eq_None_iff)

lemma evidence_at: "keyed p \<Longrightarrow> map_of (pl_candidates p) url = Some own \<Longrightarrow> ce_url (ow_evidence own) = url"
  using map_of_SomeD unfolding keyed_def by fastforce

lemma keyed_kept:
  assumes "keyed p" "same_candidates p p'"
  shows "keyed p'"
proof -
  have keys: "candidate_urls_of p' = candidate_urls_of p" using assms(2) by (simp add: same_candidates_def)
  have "ce_url (ow_evidence own') = url" if own': "(url, own') \<in> set (pl_candidates p')" for url own'
  proof -
    have "distinct (map fst (pl_candidates p'))" using assms(1) keys by (simp add: keyed_def candidate_urls_of_def)
    then have at': "map_of (pl_candidates p') url = Some own'" using own' by simp
    then have "url \<in> set (candidate_urls_of p)" using keys candidate_urls_map_of [of url p'] by simp
    then obtain own where own: "map_of (pl_candidates p) url = Some own" by (auto simp: candidate_urls_map_of)
    then have "ow_evidence own' = ow_evidence own" using assms(2) at' unfolding same_candidates_def by (metis option.inject)
    then show ?thesis using evidence_at [OF assms(1) own] by simp
  qed
  then show ?thesis using assms(1) by (auto simp: keyed_def keys)
qed

lemma subseq_mset: "subseq ws us \<Longrightarrow> mset ws \<subseteq># mset us"
proof (induction rule: list_emb.induct)
  case (list_emb_Cons xs ys y)
  moreover have "mset ys \<subseteq># add_mset y (mset ys)" by (simp add: subset_mset.add_increasing)
  ultimately show ?case by (metis mset.simps(2) subset_mset.order_trans)
qed auto

lemma owned_settles:
  assumes "owned_ok (us @ hand) p" "settles us p p'"
  shows "owned_ok hand p'"
proof -
  obtain ws where ws: "subseq ws us" "settled_urls p' = settled_urls p @ ws"
    "undisturbed p' \<longrightarrow> ws = us \<and> (\<forall>url\<in>set us. candidate_done p' url)"
    using assms(2) by (auto simp: settles_def)
  have same: "same_places p p'" "same_candidates p p'" using assms(2) by (simp_all add: settles_def)
  note work = at_work_same [OF same(1)]
  have keys: "candidate_urls_of p' = candidate_urls_of p" using same(2) by (simp add: same_candidates_def)
  have sub: "mset ws \<subseteq># mset us" "set ws \<subseteq> set us"
    using subseq_mset [OF ws(1)] set_mset_mono [OF subseq_mset [OF ws(1)]] by simp_all
  have count: "at_work p' + mset hand + mset (settled_urls p') \<subseteq># at_work p + mset (us @ hand) + mset (settled_urls p)"
  proof -
    have "at_work p' + mset hand + mset (settled_urls p') = (at_work p + mset hand + mset (settled_urls p)) + mset ws"
      by (simp add: work ws(2))
    also have "\<dots> \<subseteq># (at_work p + mset hand + mset (settled_urls p)) + mset us"
      using sub(1) by (rule subset_mset.add_left_mono)
    also have "\<dots> = at_work p + mset (us @ hand) + mset (settled_urls p)" by (simp add: ac_simps)
    finally show ?thesis .
  qed
  show ?thesis
    unfolding owned_ok_def
  proof (intro conjI impI)
    show "once (at_work p' + mset hand + mset (settled_urls p'))"
      using assms(1) once_mono [OF _ count] by (simp add: owned_ok_def)
    show "set_mset (at_work p') \<union> set hand \<union> set (settled_urls p') \<subseteq> set (candidate_urls_of p')"
      using assms(1) sub(2) by (auto simp: owned_ok_def work ws(2) keys)
    show "keyed p'" using assms(1) keyed_kept [OF _ same(2)] by (simp add: owned_ok_def)
    show "\<forall>url\<in>set (candidate_urls_of p'). url \<in># at_work p' \<or> url \<in> set hand \<or>
        candidate_done p' url \<and> url \<in> set (settled_urls p')" if u: "undisturbed p'"
    proof -
      have before: "undisturbed p" using undisturbed_before [OF same(1) u] .
      have "\<forall>url\<in>set (candidate_urls_of p). url \<in># at_work p \<or> url \<in> set (us @ hand) \<or>
          candidate_done p url \<and> url \<in> set (settled_urls p)"
        using assms(1) before by (simp add: owned_ok_def)
      then show ?thesis using ws(2,3) u done_kept [OF same(2)] by (auto simp: work keys)
    qed
  qed
qed

section \<open>The effects one by one\<close>

definition keeps_work :: "pipeline \<Rightarrow> pipeline \<Rightarrow> bool" where
  "keeps_work p p' \<longleftrightarrow> same_places p p' \<and> pl_candidates p' = pl_candidates p \<and> settled_urls p' = settled_urls p \<and>
     (pl_canceled p' \<longleftrightarrow> pl_canceled p) \<and> pl_terminal_err p' = pl_terminal_err p"

lemma keeps_work_refl: "keeps_work p p" by (simp add: keeps_work_def same_places_refl)

lemma keeps_work_trans: "keeps_work p p1 \<Longrightarrow> keeps_work p1 p2 \<Longrightarrow> keeps_work p p2"
  by (auto simp: keeps_work_def intro: same_places_trans)

lemma keeps_work_settles: "keeps_work p p' \<Longrightarrow> settles [] p p'"
  by (rule settles_quiet) (simp_all add: keeps_work_def)

lemma keeps_work_fold:
  assumes "\<And>x p. keeps_work p (f x p)"
  shows "keeps_work p (fold f xs p)"
  by (induction xs arbitrary: p) (auto intro: keeps_work_refl keeps_work_trans [OF assms])

lemmas keeps_work_simps = keeps_work_def same_places_def settled_urls_def

lemma keeps_work_roots: "keeps_work p (remember_exact_root e md5 k p)" "keeps_work p (redirect_exact_roots e ls w p)"
  by (simp_all add: keeps_work_simps remember_exact_root_def redirect_exact_roots_def)

lemma keeps_work_restore: "keeps_work p (restore_assets e restored aliases p)"
proof -
  have "keeps_work p (restore_asset e a p)" for a p
    by (simp add: keeps_work_simps restore_asset_def Let_def remember_exact_root_def)
  moreover have "keeps_work p (restore_alias e a p)" for a p
    by (simp add: keeps_work_simps restore_alias_def Let_def remember_exact_root_def)
  ultimately show ?thesis
    unfolding restore_assets_def by (intro keeps_work_trans [OF keeps_work_fold keeps_work_fold])
qed

lemma keeps_work_assets: "keeps_work p (p\<lparr> pl_assets := as \<rparr>)"
  by (simp add: keeps_work_simps)

lemma keeps_work_drop: "keeps_work p (drop_assets ids p)" "keeps_work p (raise_popularity i n p)"
  by (simp_all add: keeps_work_simps drop_assets_def raise_popularity_def)

lemma keeps_work_counts: "keeps_work p (count_kept v p)" "keeps_work p (record_selected_placement c w n p)"
  by (simp_all add: keeps_work_simps count_kept_def record_selected_placement_def Let_def)

lemma keeps_work_keep: "keeps_work p (keep_clip c w p)"
  by (simp add: keeps_work_simps keep_clip_def Let_def count_kept_def)

lemma keeps_work_replace:
  assumes "replace_selection e out w p = Ok p'"
  shows "keeps_work p p'"
proof -
  obtain ordered aliases where "p' = restore_assets e ordered aliases
      (p\<lparr> pl_assets := [], pl_exact_roots := (\<lambda>_. None), pl_media_observed := (\<lambda>_. None) \<rparr>)"
    using assms by (auto simp: replace_selection_def bind_result_Ok_iff Let_def)
  moreover have "keeps_work p (p\<lparr> pl_assets := [], pl_exact_roots := (\<lambda>_. None), pl_media_observed := (\<lambda>_. None) \<rparr>)"
    by (simp add: keeps_work_simps)
  ultimately show ?thesis using keeps_work_trans keeps_work_restore by blast
qed

lemma settles_perform:
  assumes "settled_by c = []"
  shows "settles [] p (fst (perform e c p))"
proof -
  have "settled_urls (fst (perform e c p)) = settled_urls p \<and> same_places p (fst (perform e c p)) \<and>
      pl_candidates (fst (perform e c p)) = pl_candidates p"
    using assms by (simp add: perform_def settled_urls_def same_places_def split: prod.split)
  then show ?thesis by (intro settles_quiet) simp_all
qed

lemma settles_delete_staging: "settles [] p (delete_staging e key p)"
  by (simp add: delete_staging_def settles_refl settles_perform)

lemma settles_publish: "settles [] p (publish_event_update e p)"
  by (simp add: publish_event_update_def settles_refl settles_perform)

lemma settles_count: "settles [] p (p\<lparr> pl_failed := n \<rparr>)" "settles [] p (p\<lparr> pl_rejected := n \<rparr>)"
  "settles [] p (p\<lparr> pl_passed := n \<rparr>)" "settles [] p (p\<lparr> pl_duplicates := n \<rparr>)" "settles [] p (p\<lparr> pl_superseded := n \<rparr>)"
  by (auto intro!: settles_quiet simp: same_places_def settled_urls_def)

text \<open>A disturbed state settles anything.\<close>

lemma settles_disturbed:
  assumes "same_places p p'" "pl_candidates p' = pl_candidates p" "settled_urls p' = settled_urls p" "\<not> undisturbed p'"
  shows "settles us p p'"
  using assms by (auto simp: settles_def same_candidates_def candidate_urls_of_def intro!: exI [of _ "[]"])

lemma settles_stuck: "\<not> undisturbed p \<Longrightarrow> settles us p p"
  by (rule settles_disturbed) (simp_all add: same_places_refl)

lemma settles_error: "settles us p (set_terminal_error err p)"
  by (rule settles_disturbed) (auto simp: set_terminal_error_def same_places_def settled_urls_def undisturbed_def)

lemma candidate_update:
  assumes "map_of (pl_candidates p) url = Some own" "ow_evidence own' = ow_evidence own"
    and "ow_state own = CandidateTerminal \<longrightarrow> ow_state own' = CandidateTerminal"
  shows "same_candidates p (p\<lparr> pl_candidates := AList.update url own' (pl_candidates p) \<rparr>)"
proof -
  have "url \<in> fst ` set (pl_candidates p)" using assms(1) by (metis map_of_eq_None_iff option.distinct(1))
  then have "map fst (AList.update url own' (pl_candidates p)) = map fst (pl_candidates p)"
    by (simp add: update_keys)
  then show ?thesis using assms by (auto simp: same_candidates_def candidate_urls_of_def update_conv')
qed

lemma settles_record_outcome:
  assumes "pe_flag e pg_durable_candidates" "url \<noteq> ''''" "keyed p"
  shows "settles [url] p (record_outcome e url outcome reason detail p)"
proof (cases "pl_canceled p \<or> map_of (pl_candidates p) url = None")
  case True
  then show ?thesis
    using assms(1,2) settles_error settles_stuck [of p "[url]"]
    by (auto simp: record_outcome_def undisturbed_def)
next
  case False
  then obtain own where own: "map_of (pl_candidates p) url = Some own" "\<not> pl_canceled p" by blast
  define c where "c = UpsertCandidateOutcome (ow_evidence own) outcome reason detail"
  obtain r stop where r: "pe_act e (pl_calls p) c = (r, stop)" by (metis surj_pair)
  define p1 where "p1 = p\<lparr> pl_calls := pl_calls p @ [c], pl_canceled := stop \<rparr>"
  have done1: "perform e c p = (p1, r)" using own(2) by (simp add: perform_def r p1_def)
  have url: "ce_url (ow_evidence own) = url" using evidence_at [OF assms(3) own(1)] .
  have urls: "settled_urls p1 = settled_urls p @ [url]" by (simp add: settled_urls_def p1_def c_def url)
  show ?thesis
  proof (cases r)
    case (Some err)
    have out: "record_outcome e url outcome reason detail p = set_terminal_error ''persist terminal candidate'' p1"
      using assms(1,2) own done1 Some by (simp add: record_outcome_def c_def)
    show ?thesis
      unfolding out settles_def
      using urls by (auto simp: same_places_def same_candidates_def candidate_urls_of_def set_terminal_error_def
          p1_def undisturbed_def settled_urls_def own(2))
  next
    case None
    define p2 where "p2 = p1\<lparr> pl_candidates := AList.update url (own\<lparr> ow_state := CandidateTerminal \<rparr>) (pl_candidates p1) \<rparr>"
    have out: "record_outcome e url outcome reason detail p = p2"
      using assms(1,2) own done1 None by (simp add: record_outcome_def c_def p2_def)
    have "same_candidates p1 p2"
      unfolding p2_def by (rule candidate_update [where own = own]) (simp_all add: p1_def own(1))
    then have "same_candidates p p2"
      by (simp add: same_candidates_def p1_def candidate_urls_of_def)
    moreover have "settled_urls p2 = settled_urls p @ [url]" using urls by (simp add: settled_urls_def p2_def)
    moreover have "candidate_done p2 url" by (simp add: candidate_done_def p2_def update_conv')
    ultimately show ?thesis
      unfolding out settles_def by (auto simp: same_places_def p2_def p1_def own(2) intro!: exI [of _ "[url]"])
  qed
qed

lemma settles_keyed: "keyed p \<Longrightarrow> settles us p p' \<Longrightarrow> keyed p'"
  using keyed_kept by (auto simp: settles_def)

lemma settles_outcomes:
  assumes "pe_flag e pg_durable_candidates" "'''' \<notin> set us" "keyed p"
  shows "settles us p (fold (\<lambda>url. record_outcome e url outcome reason detail) us p)"
  using assms(2,3)
proof (induction us arbitrary: p)
  case Nil
  then show ?case by (simp add: settles_refl)
next
  case (Cons url us)
  have one: "settles [url] p (record_outcome e url outcome reason detail p)"
    by (rule settles_record_outcome [OF assms(1)]) (use Cons.prems in auto)
  have "settles ([url] @ us) p (fold (\<lambda>url. record_outcome e url outcome reason detail) us (record_outcome e url outcome reason detail p))"
    by (rule settles_trans [OF one Cons.IH]) (use Cons.prems settles_keyed [OF _ one] in auto)
  then show ?case by simp
qed

definition clip_owned :: "pipeline \<Rightarrow> work_clip \<Rightarrow> bool" where
  "clip_owned p c \<longleftrightarrow> keyed p \<and> set (clip_urls c) \<subseteq> set (candidate_urls_of p) \<and> wk_popularity c = cluster_size c"

lemma clip_owned_urls: "clip_owned p c \<Longrightarrow> '''' \<notin> set (clip_urls c)"
  by (auto simp: clip_owned_def keyed_def)

lemma clip_owned_kept: "clip_owned p c \<Longrightarrow> settles us p p' \<Longrightarrow> clip_owned p' c"
  using settles_keyed by (auto simp: clip_owned_def settles_def same_candidates_def)

lemma settles_cluster:
  assumes "pe_flag e pg_durable_candidates" "clip_owned p c"
  shows "settles (clip_urls c) p (record_cluster e c outcome reason detail p)"
  using settles_outcomes [OF assms(1) clip_owned_urls [OF assms(2)]] assms(2)
  by (simp add: record_cluster_def clip_urls_def clip_owned_def)

lemma settles_reject_cluster:
  assumes "pe_flag e pg_durable_candidates" "clip_owned p c"
  shows "settles (clip_urls c) p (reject_exact_cluster e c reason detail p)"
    and "settles (clip_urls c) p (fail_exact_cluster e c reason detail p)"
proof -
  note start = quiet_then_settles [OF _ settles_cluster [OF assms(1) clip_owned_kept [OF assms(2)]]]
  show "settles (clip_urls c) p (reject_exact_cluster e c reason detail p)"
    unfolding reject_exact_cluster_def by (rule start [OF settles_count(2) settles_count(2)])
  show "settles (clip_urls c) p (fail_exact_cluster e c reason detail p)"
    unfolding fail_exact_cluster_def by (rule start [OF settles_count(1) settles_count(1)])
qed

section \<open>Placements\<close>

text \<open>The service reports a cancelled activity only of a workflow that is cancelled.\<close>

definition cancel_is_final :: "pipeline_env \<Rightarrow> bool" where
  "cancel_is_final e \<longleftrightarrow> (\<forall>calls cmd err stop. pe_commit e calls cmd = (Inl err, stop) \<longrightarrow> ae_canceled err \<longrightarrow> stop)"

lemma placement_inputs_total:
  assumes "\<forall>(u, own)\<in>set owned. ce_url (ow_evidence own) = u" "set urls \<subseteq> fst ` set owned"
  obtains cs where "placement_inputs e c nw w owned first urls = Some cs" "map (ce_url \<circ> pc_evidence) cs = urls"
proof -
  have "\<exists>cs. placement_inputs e c nw w owned first urls = Some cs \<and> map (ce_url \<circ> pc_evidence) cs = urls"
    using assms(2)
  proof (induction urls arbitrary: first)
    case (Cons url urls)
    then obtain own where own: "map_of owned url = Some own"
      by (metis list.set_intros(1) map_of_eq_None_iff not_None_eq subsetD)
    then have "ce_url (ow_evidence own) = url" using assms(1) map_of_SomeD by fastforce
    moreover obtain cs where "placement_inputs e c nw w owned False urls = Some cs" "map (ce_url \<circ> pc_evidence) cs = urls"
      using Cons.IH [of False] Cons.prems by auto
    ultimately show ?case by (simp add: own placement_input_def comp_def)
  qed simp
  then show thesis using that by blast
qed

lemma mark_terminal_candidates:
  "same_candidates p (p\<lparr> pl_candidates := fold mark_terminal urls (pl_candidates p) \<rparr>) \<and>
   (\<forall>url\<in>set urls. url \<in> set (candidate_urls_of p) \<longrightarrow>
      candidate_done (p\<lparr> pl_candidates := fold mark_terminal urls (pl_candidates p) \<rparr>) url)"
proof (induction urls arbitrary: p)
  case Nil
  then show ?case by (simp add: same_candidates_def candidate_urls_of_def)
next
  case (Cons url urls)
  define p1 where "p1 = p\<lparr> pl_candidates := mark_terminal url (pl_candidates p) \<rparr>"
  have one: "same_candidates p p1 \<and> (url \<in> set (candidate_urls_of p) \<longrightarrow> candidate_done p1 url)"
  proof (cases "map_of (pl_candidates p) url")
    case None
    then have "p1 = p" by (simp add: p1_def mark_terminal_def)
    then show ?thesis using None by (simp add: same_candidates_refl candidate_urls_map_of)
  next
    case (Some own)
    then have p1: "p1 = p\<lparr> pl_candidates := AList.update url (own\<lparr> ow_state := CandidateTerminal \<rparr>) (pl_candidates p) \<rparr>"
      by (simp add: p1_def mark_terminal_def)
    then show ?thesis
      using candidate_update [OF Some] by (simp add: candidate_done_def update_conv')
  qed
  define p2 where "p2 = p1\<lparr> pl_candidates := fold mark_terminal urls (pl_candidates p1) \<rparr>"
  have out: "p\<lparr> pl_candidates := fold mark_terminal (url # urls) (pl_candidates p) \<rparr> = p2" by (simp add: p1_def p2_def)
  have rest: "same_candidates p1 p2" "\<forall>u\<in>set urls. u \<in> set (candidate_urls_of p1) \<longrightarrow> candidate_done p2 u"
    using Cons.IH [of p1] by (simp_all add: p2_def)
  have keys: "candidate_urls_of p1 = candidate_urls_of p" using one by (simp add: same_candidates_def)
  show ?case
    unfolding out using one rest keys same_candidates_trans done_kept [OF rest(1)] by auto
qed

lemma settles_after_placement: "settles [] p (fst (after_placement e c losers out p))"
proof (cases "po_event_removed out")
  case True
  then show ?thesis by (auto simp: after_placement_def settles_refl intro!: settles_quiet simp: same_places_def settled_urls_def)
next
  case False
  define remembered where "remembered =
      (if pe_flag e pg_reversible_selection
       then (case po_selection out of
               None \<Rightarrow> Err ''selection state missing after placement''
             | Some s \<Rightarrow> replace_selection e s (po_winner out) p)
       else
         let p1 = remember_exact_root e (wk_fingerprint c) (po_winner out) (remember_exact_root e (wk_md5 c) (po_winner out) p);
             p2 = (if wk_fingerprint c \<noteq> '''' \<and> wk_reuse c = 0
                   then p1\<lparr> pl_media_observed := (pl_media_observed p1)(wk_fingerprint c \<mapsto>
                          pe_asset_uuid e (ei_event_id (pe_in e)) (wk_md5 c)) \<rparr> else p1)
         in Ok (redirect_exact_roots e losers (po_winner out) p2))"
  have out: "fst (after_placement e c losers out p) = (case remembered of
      Err err \<Rightarrow> set_terminal_error err p
    | Ok p3 \<Rightarrow> if po_announce out then publish_event_update e p3 else p3)"
    using False by (simp add: after_placement_def remembered_def split: result.split)
  have kept: "keeps_work p p3" if r: "remembered = Ok p3" for p3
  proof (cases "pe_flag e pg_reversible_selection")
    case True
    then show ?thesis using r keeps_work_replace by (simp add: remembered_def split: option.splits)
  next
    case False
    have media: "keeps_work q (q\<lparr> pl_media_observed := m \<rparr>)" for q m by (simp add: keeps_work_simps)
    show ?thesis
      using r False by (auto simp: remembered_def Let_def intro!: keeps_work_trans [OF _ keeps_work_roots(2)]
          keeps_work_trans [OF keeps_work_trans [OF keeps_work_roots(1) keeps_work_roots(1)] media]
          keeps_work_trans [OF keeps_work_roots(1) keeps_work_roots(1)])
  qed
  show ?thesis
  proof (cases remembered)
    case (Ok p3)
    then show ?thesis
      using settles_then_quiet [OF keeps_work_settles [OF kept [OF Ok]] settles_publish] keeps_work_settles [OF kept [OF Ok]]
      by (simp add: out)
  next
    case (Err err)
    then show ?thesis using settles_error by (simp add: out)
  qed
qed

lemma settles_commit:
  assumes "clip_owned p c" "cancel_is_final e"
  shows "settles (clip_urls c) p (fst (commit_clip_placement e c v nw w losers p))"
proof (cases "pl_canceled p")
  case True
  then show ?thesis using settles_stuck by (simp add: commit_clip_placement_def undisturbed_def)
next
  case False
  obtain cs where cs: "placement_inputs e c nw (if nw then pe_asset_uuid e (ei_event_id (pe_in e)) (wk_md5 c) else w)
      (pl_candidates p) True (clip_urls c) = Some cs" "map (ce_url \<circ> pc_evidence) cs = clip_urls c"
    by (rule placement_inputs_total [of "pl_candidates p" "clip_urls c"])
      (use assms(1) in \<open>auto simp: clip_owned_def keyed_def candidate_urls_of_def\<close>)
  have found: "placement_candidates e c nw w p = (p, Some cs)"
    using cs(1) assms(1) by (simp add: placement_candidates_def Let_def clip_owned_def cluster_size_def clip_urls_def)
  define cmd where "cmd = placement_command_of e c v nw w losers cs"
  obtain r stop where r: "pe_commit e (pl_calls p) cmd = (r, stop)" by (metis surj_pair)
  define p1 where "p1 = p\<lparr> pl_calls := pl_calls p @ [CommitClipPlacement cmd], pl_canceled := stop \<rparr>"
  have urls: "settled_urls p1 = settled_urls p @ clip_urls c"
    by (simp add: settled_urls_def p1_def cmd_def placement_command_of_def cs(2))
  have places: "same_places p p1" "same_candidates p p1"
    using False by (simp_all add: same_places_def same_candidates_def candidate_urls_of_def p1_def)
  show ?thesis
  proof (cases r)
    case (Inl err)
    define p2 where "p2 = (if ae_canceled err then p1 else set_terminal_error ''commit clip placement'' p1)"
    have out: "fst (commit_clip_placement e c v nw w losers p) = p2"
      using False found r Inl by (simp add: commit_clip_placement_def cmd_def [symmetric] Let_def p1_def p2_def)
    have "\<not> undisturbed p2"
      using assms(2) r Inl by (auto simp: p2_def undisturbed_def cancel_is_final_def p1_def set_terminal_error_def)
    moreover have "same_places p p2" "same_candidates p p2" "settled_urls p2 = settled_urls p @ clip_urls c"
      using places urls by (auto simp: p2_def set_terminal_error_def same_places_def same_candidates_def
          candidate_urls_of_def settled_urls_def)
    ultimately show ?thesis unfolding out settles_def by (auto intro!: exI [of _ "clip_urls c"])
  next
    case (Inr res)
    define p2 where "p2 = p1\<lparr> pl_candidates := fold mark_terminal (clip_urls c) (pl_candidates p1) \<rparr>"
    have out: "fst (commit_clip_placement e c v nw w losers p) = fst (after_placement e c losers res p2)"
      using False found r Inr by (simp add: commit_clip_placement_def cmd_def [symmetric] Let_def p1_def p2_def cs(2) del: o_apply)
    have marked: "same_candidates p1 p2" "\<forall>url\<in>set (clip_urls c). url \<in> set (candidate_urls_of p1) \<longrightarrow> candidate_done p2 url"
      using mark_terminal_candidates [of p1 "clip_urls c"] by (simp_all add: p2_def)
    have "set (clip_urls c) \<subseteq> set (candidate_urls_of p1)"
      using assms(1) places(2) by (simp add: clip_owned_def same_candidates_def)
    then have "settles (clip_urls c) p p2"
      unfolding settles_def using places marked urls
      by (auto simp: p2_def same_places_def settled_urls_def intro!: exI [of _ "clip_urls c"] intro: same_candidates_trans)
    then show ?thesis unfolding out by (rule settles_then_quiet) (rule settles_after_placement)
  qed
qed

section \<open>Deduplication\<close>

lemma settles_case:
  assumes "settles us p (fst r)" "\<And>p1 x. settles [] p1 (g p1 x)"
  shows "settles us p (case r of (p1, None) \<Rightarrow> p1 | (p1, Some x) \<Rightarrow> g p1 x)"
  using assms settles_then_quiet by (cases r; cases "snd r") auto

lemma settles_count_two:
  "settles [] p (p\<lparr> pl_duplicates := n, pl_superseded := m \<rparr>)"
  by (auto intro!: settles_quiet simp: same_places_def settled_urls_def)

lemma settles_dedup_and_commit:
  assumes "clip_owned p c" "cancel_is_final e"
  shows "settles (clip_urls c) p (dedup_and_commit e c v p)"
proof (cases "match_assets e c p")
  case Nil
  then show ?thesis
    using settles_commit [OF assms] keeps_work_settles [OF keeps_work_keep] keeps_work_settles [OF keeps_work_counts(2)]
    by (auto simp: dedup_and_commit_def intro!: settles_case)
next
  case (Cons i "is")
  have winner: "settles (clip_urls c) p (commit_winner e c v matched p)" for matched
    unfolding commit_winner_def Let_def
    using settles_commit [OF assms] keeps_work_settles [OF keeps_work_counts(2)]
      settles_then_quiet [OF keeps_work_settles [OF keeps_work_trans [OF keeps_work_drop(1) keeps_work_keep]] settles_count(5)]
    by (auto intro!: settles_case)
  have loser: "settles (clip_urls c) p (commit_loser e c v matched best p)" for matched best
    unfolding commit_loser_def Let_def
    using settles_commit [OF assms] keeps_work_settles [OF keeps_work_counts(2)]
      settles_then_quiet [OF keeps_work_settles [OF keeps_work_trans [OF keeps_work_drop(2) keeps_work_drop(1)]] settles_count_two]
    by (auto intro!: settles_case)
  show ?thesis using Cons winner loser by (simp add: dedup_and_commit_def Let_def)
qed

lemma settle_fingerprint_clip:
  "clip_urls (settle_fingerprint p a c) = clip_urls c" "clip_owned q (settle_fingerprint p a c) = clip_owned q c"
  by (auto simp: settle_fingerprint_def Let_def clip_urls_def clip_owned_def cluster_size_def split: option.split)

lemma settles_collapse_asset:
  assumes "clip_owned p c" "cancel_is_final e" "current_history e"
  shows "settles (clip_urls c) p (collapse_onto_asset e c i p)"
proof -
  define d where "d = settle_fingerprint p (pl_assets p ! i) c"
  have d: "clip_owned p d" "clip_urls d = clip_urls c" using assms(1) by (simp_all add: d_def settle_fingerprint_clip)
  define r where "r = commit_clip_placement e d no_verdict False (wk_asset (pl_assets p ! i)) [] p"
  have r: "settles (clip_urls c) p (fst r)" unfolding r_def d(2) [symmetric] by (rule settles_commit [OF d(1) assms(2)])
  have raise: "settles [] q (raise_popularity i n q\<lparr> pl_duplicates := m \<rparr>)" for q n m
    by (rule settles_then_quiet [OF keeps_work_settles [OF keeps_work_drop(2)] settles_count(4)])
  have commit: "settles (clip_urls c) p (case r of
         (p1, None) \<Rightarrow> p1
       | (p1, Some _) \<Rightarrow>
           let p2 = (if pe_flag e pg_reversible_selection then p1 else raise_popularity i (cluster_size d) p1)
           in p2\<lparr> pl_duplicates := pl_duplicates p2 + cluster_size d \<rparr>)"
    by (rule settles_case [OF r]) (simp add: Let_def raise settles_count)
  have atomic: "pe_flag e pg_atomic_placement" using assms(3) by (simp add: current_history_def)
  show ?thesis
  proof (cases "wk_fingerprint d \<noteq> '''' \<and> wk_md5 d \<noteq> wk_md5 (pl_assets p ! i) \<and> wk_reuse d = 0 \<and>
      wk_fingerprint d = wk_fingerprint (pl_assets p ! i)")
    case True
    then have "collapse_onto_asset e c i p = set_terminal_error ''media-identical asset lacks observed representative'' p"
      unfolding collapse_onto_asset_def Let_def d_def [symmetric] by (rule if_P)
    then show ?thesis by (simp add: settles_error)
  next
    case False
    have "collapse_onto_asset e c i p = (case r of
         (p1, None) \<Rightarrow> p1
       | (p1, Some _) \<Rightarrow>
           let p2 = (if pe_flag e pg_reversible_selection then p1 else raise_popularity i (cluster_size d) p1)
           in p2\<lparr> pl_duplicates := pl_duplicates p2 + cluster_size d \<rparr>)"
      unfolding collapse_onto_asset_def Let_def d_def [symmetric] r_def if_not_P [OF False] if_P [OF atomic] by (rule refl)
    then show ?thesis using commit by (rule ssubst)
  qed
qed

section \<open>Moving candidates\<close>

definition owners_due :: "go_string list \<Rightarrow> (go_string \<times> go_string) list \<Rightarrow> pipeline \<Rightarrow> bool" where
  "owners_due ks vs p \<longleftrightarrow> pl_in_flight p = int (length (pl_futures p)) \<and> child_free p \<and>
     (\<not> pl_canceled p \<longrightarrow> hashing_keys p + mset ks = mset (map fst (pl_hashing p)) \<and>
        vision_places p + mset vs = mset (map clip_place (pl_pending p)))"

text \<open>In the middle of a callback: the results it has taken and the URLs it holds.\<close>

definition midway :: "go_string list \<Rightarrow> (go_string \<times> go_string) list \<Rightarrow> go_string list \<Rightarrow> pipeline \<Rightarrow> bool" where
  "midway ks vs hand p \<longleftrightarrow> owners_due ks vs p \<and> clips_ok p \<and> owned_ok hand p"

lemma pipeline_ok_midway: "pipeline_ok p = midway [] [] [] p"
  by (simp add: pipeline_ok_def midway_def owners_due_def futures_ok_def)

lemma owners_due_same: "same_places p p' \<Longrightarrow> owners_due ks vs p \<Longrightarrow> owners_due ks vs p'"
  unfolding owners_due_def same_places_def hashing_keys_def vision_places_def child_free_def by auto

lemma clips_ok_same: "same_places p p' \<Longrightarrow> clips_ok p' = clips_ok p"
  by (simp add: clips_ok_def same_places_def staging_keys_def)

lemma midway_settles:
  assumes "midway ks vs (us @ hand) p" "settles us p p'"
  shows "midway ks vs hand p'"
proof -
  have same: "same_places p p'" using assms(2) by (simp add: settles_def)
  show ?thesis
    using assms owners_due_same [OF same] clips_ok_same [OF same] owned_settles by (simp add: midway_def) blast
qed

lemma midway_quiet: "midway ks vs hand p \<Longrightarrow> settles [] p p' \<Longrightarrow> midway ks vs hand p'"
  using midway_settles [of ks vs "[]"] by simp

lemma midway_canceled:
  assumes "midway ks vs hand p" "pl_canceled p"
  shows "pipeline_ok p"
proof -
  have "owned_ok [] p"
    using assms undisturbed_drop [of p hand "[]"] by (simp add: midway_def undisturbed_def)
  then show ?thesis using assms by (simp add: midway_def pipeline_ok_midway owners_due_def)
qed

lemma owned_move:
  assumes "owned_ok hand p" "at_work p + mset hand = at_work p' + mset hand'" "pl_candidates p' = pl_candidates p"
    "settled_urls p' = settled_urls p" "undisturbed p' \<Longrightarrow> undisturbed p"
  shows "owned_ok hand' p'"
proof -
  have sets: "set_mset (at_work p') \<union> set hand' = set_mset (at_work p) \<union> set hand"
    using arg_cong [OF assms(2), of set_mset] by simp
  have mem: "url \<in># at_work p' \<or> url \<in> set hand' \<longleftrightarrow> url \<in># at_work p \<or> url \<in> set hand" for url
    using sets by blast
  have sum: "at_work p' + mset hand' = at_work p + mset hand" by (rule assms(2) [symmetric])
  have keys: "candidate_urls_of p' = candidate_urls_of p" "candidate_done p' = candidate_done p" "keyed p' = keyed p"
    by (simp_all add: assms(3) candidate_urls_of_def candidate_done_def keyed_def fun_eq_iff)
  show ?thesis
    using assms(1,5) unfolding owned_ok_def keys assms(4) sum sets by (metis mem)
qed

lemma mset_remove_future:
  "f \<in> set xs \<Longrightarrow> mset (concat (map g xs)) = mset (g f) + mset (concat (map g (remove1 f xs)))"
  by (induction xs) (auto simp: ac_simps)

definition began :: "future \<Rightarrow> pipeline \<Rightarrow> pipeline" where
  "began f p = p\<lparr> pl_futures := remove1 f (pl_futures p), pl_in_flight := pl_in_flight p - 1 \<rparr>"

lemma began_fields:
  "pl_hashing (began f p) = pl_hashing p" "pl_pending (began f p) = pl_pending p" "pl_canceled (began f p) = pl_canceled p"
  "pl_futures (began f p) = remove1 f (pl_futures p)" "pl_in_flight (began f p) = pl_in_flight p - 1"
  by (simp_all add: began_def)

lemma began_midway:
  assumes "pipeline_ok p" "f \<in> set (pl_futures p)"
  shows "midway (hash_keys f) (map clip_place (vision_clips f)) (future_urls f) (began f p)"
proof -
  have ok: "futures_ok p" "clips_ok p" "owned_ok [] p" using assms(1) by (simp_all add: pipeline_ok_def)
  have work: "at_work p + mset [] = at_work (began f p) + mset (future_urls f)"
    using mset_remove_future [OF assms(2), of future_urls] by (simp add: at_work_def began_def)
  have "owned_ok (future_urls f) (began f p)"
    by (rule owned_move [OF ok(3) work]) (simp_all add: began_def settled_urls_def undisturbed_def)
  moreover have "owners_due (hash_keys f) (map clip_place (vision_clips f)) (began f p)"
  proof -
    have "hashing_keys p = hashing_keys (began f p) + mset (hash_keys f)"
      using mset_remove_future [OF assms(2), of hash_keys] by (simp add: hashing_keys_def began_def)
    moreover have "vision_places p = vision_places (began f p) + mset (map clip_place (vision_clips f))"
      using mset_remove_future [OF assms(2), of vision_clips] by (simp add: vision_places_def began_def)
    moreover have "int (length (remove1 f (pl_futures p))) = int (length (pl_futures p)) - 1"
      using assms(2) length_pos_if_in_set [OF assms(2)] by (auto simp: length_remove1 of_nat_diff Suc_leI)
    moreover have "child_free (began f p)"
      using ok(1) notin_set_remove1 [of _ "pl_futures p" f] by (auto simp: futures_ok_def child_free_def began_fields)
    ultimately show ?thesis using ok(1) by (simp add: owners_due_def futures_ok_def began_fields)
  qed
  moreover have "clips_ok (began f p)" using ok(2) by (simp add: clips_ok_def began_def staging_keys_def)
  ultimately show ?thesis by (simp add: midway_def)
qed

section \<open>Claims\<close>

definition entries :: "('v \<Rightarrow> 'b list) \<Rightarrow> ('k \<times> 'v) list \<Rightarrow> 'b list" where
  "entries g hs = concat (map (g \<circ> snd) hs)"

lemma entries_delete:
  "distinct (map fst hs) \<Longrightarrow> map_of hs k = Some v \<Longrightarrow> mset (entries g hs) = mset (g v) + mset (entries g (AList.delete k hs))"
proof (induction hs)
  case (Cons h hs)
  show ?case
  proof (cases "fst h = k")
    case True
    then have "AList.delete k hs = hs" using Cons.prems(1) by (simp add: delete_id)
    then show ?thesis using True Cons.prems by (cases h) (simp add: entries_def)
  next
    case False
    then show ?thesis using Cons by (cases h) (simp add: entries_def ac_simps)
  qed
qed simp

lemma entries_update:
  "distinct (map fst hs) \<Longrightarrow> mset (entries g (AList.update k v hs)) = mset (g v) + mset (entries g (AList.delete k hs))"
proof (induction hs)
  case (Cons h hs)
  show ?case
  proof (cases "fst h = k")
    case True
    then have "AList.delete k hs = hs" using Cons.prems(1) by (simp add: delete_id)
    then show ?thesis using True by (cases h) (simp add: entries_def)
  next
    case False
    then show ?thesis using Cons by (cases h) (simp add: entries_def ac_simps)
  qed
qed (simp add: entries_def)

lemma update_member:
  "distinct (map fst hs) \<Longrightarrow> v' \<in> snd ` set (AList.update k v hs) \<Longrightarrow> v' = v \<or> v' \<in> snd ` set (AList.delete k hs)"
proof (induction hs)
  case (Cons h hs)
  then show ?case by (cases h) (auto split: if_splits simp: delete_id rev_image_eqI)
qed simp

lemma delete_member: "v' \<in> snd ` set (AList.delete k hs) \<Longrightarrow> v' \<in> snd ` set hs"
  by (auto simp: AList.delete_eq)

definition claim_urls :: "hash_claim \<Rightarrow> go_string list" where
  "claim_urls claim = concat (map clip_urls (claim_clips claim))"

lemma claims_urls_entries: "claims_urls hs = entries claim_urls hs"
  by (simp add: claims_urls_def entries_def claim_urls_def split_def comp_def)

definition claim_stagings :: "hash_claim \<Rightarrow> go_string list" where
  "claim_stagings claim = map wk_staging (claim_clips claim)"

lemma staging_keys_entries: "staging_keys p = entries claim_stagings (pl_hashing p) @ map wk_staging (pl_pending p)"
  by (simp add: staging_keys_def entries_def claim_stagings_def map_concat comp_def)

end
