(* ===== verification/PipelineSafety.thy ===== *)
theory PipelineSafety
  imports PipelineWork
begin

text \<open>
  The callbacks of an event workflow keep the bookkeeping: each takes the result it is given, moves the
  candidates it holds and hands them on or settles them. A workflow that drains undisturbed has settled every
  candidate by exactly one durable command.
\<close>

section \<open>Callbacks in general\<close>

text \<open>Ranging over a map visits its entries.\<close>

definition claim_order_total :: "pipeline_env \<Rightarrow> bool" where
  "claim_order_total e \<longleftrightarrow> (\<forall>claims. set (pe_claim_order e claims) = set claims)"

definition service_ok :: "pipeline_env \<Rightarrow> bool" where
  "service_ok e \<longleftrightarrow> current_history e \<and> cancel_is_final e \<and> claim_order_total e"

lemma service_flags:
  assumes "service_ok e"
  shows "pe_flag e pg_pre_hash_claim" "pe_flag e pg_durable_candidates" "pe_flag e pg_defer_followers"
    "pe_flag e pg_atomic_placement" "cancel_is_final e" "current_history e"
  using assms by (simp_all add: service_ok_def current_history_def)

lemma midway_hand: "midway ks vs hand p \<Longrightarrow> keyed p \<and> set hand \<subseteq> set (candidate_urls_of p)"
  by (simp add: midway_def owned_ok_def)

lemma midway_clip:
  "midway ks vs hand p \<Longrightarrow> set (clip_urls c) \<subseteq> set hand \<Longrightarrow> wk_popularity c = cluster_size c \<Longrightarrow> clip_owned p c"
  using midway_hand [of ks vs hand p] by (auto simp: clip_owned_def)

lemma midway_outcome:
  assumes "service_ok e" "midway ks vs (url # hand) p" "settles [] p p1"
  shows "midway ks vs hand (record_outcome e url outcome reason detail p1)"
proof -
  have m: "midway ks vs (url # hand) p1" using midway_quiet [OF assms(2,3)] .
  have "url \<noteq> ''''" "keyed p1" using midway_hand [OF m] by (auto simp: keyed_def)
  then show ?thesis
    using midway_settles [of ks vs "[url]" hand p1] m settles_record_outcome [OF service_flags(2) [OF assms(1)]] by simp
qed

lemma midway_move:
  assumes "midway ks vs hand p" "owners_due ks' vs' p'" "clips_ok p'"
    "at_work p + mset hand = at_work p' + mset hand'" "pl_candidates p' = pl_candidates p"
    "settled_urls p' = settled_urls p" "undisturbed p' \<Longrightarrow> undisturbed p"
  shows "midway ks' vs' hand' p'"
  using assms(1-3) owned_move [OF _ assms(4-7)] by (simp add: midway_def)

text \<open>A result scheduled for the owner that waits for it.\<close>

lemma schedule_fields:
  "pl_hashing (schedule c f p) = pl_hashing p" "pl_pending (schedule c f p) = pl_pending p"
  "pl_canceled (schedule c f p) = pl_canceled p" "pl_terminal_err (schedule c f p) = pl_terminal_err p"
  "pl_candidates (schedule c f p) = pl_candidates p" "pl_futures (schedule c f p) = pl_futures p @ [f]"
  "pl_in_flight (schedule c f p) = pl_in_flight p + 1" "settled_urls (schedule c f p) = settled_urls p @ settled_by c"
  by (simp_all add: schedule_def settled_urls_def)

lemma midway_schedule:
  assumes "midway (hash_keys f @ ks) (map clip_place (vision_clips f) @ vs) (future_urls f @ hand) p" "settled_by c = []"
    "\<And>url. f \<noteq> VideoFuture url"
  shows "midway ks vs hand (schedule c f p)"
proof (rule midway_move [OF assms(1)])
  show "owners_due ks vs (schedule c f p)"
    using assms(1,3) by (auto simp: midway_def owners_due_def child_free_def schedule_fields hashing_keys_def vision_places_def ac_simps)
  show "clips_ok (schedule c f p)"
    using assms(1) by (simp add: midway_def clips_ok_def schedule_fields staging_keys_def)
qed (simp_all add: at_work_def schedule_fields assms(2) undisturbed_def ac_simps)

section \<open>Downloads\<close>

lemma first_index_found: "first_index P xs = Some i \<Longrightarrow> i < length xs \<and> P (xs ! i)"
  by (induction xs arbitrary: i) (auto split: if_splits)

lemma pending_updated:
  assumes "i < length cs" "clip_place c' = clip_place (cs ! i)"
  shows "map clip_place (cs[i := c']) = map clip_place cs" "map wk_staging (cs[i := c']) = map wk_staging cs"
proof -
  show "map clip_place (cs[i := c']) = map clip_place cs"
    by (metis assms(2) list_update_id map_update)
  have "wk_staging c' = wk_staging (cs ! i)" using assms(2) by (simp add: clip_place_def)
  then show "map wk_staging (cs[i := c']) = map wk_staging cs"
    by (metis list_update_id map_update)
qed

lemma mset_concat_update:
  "i < length cs \<Longrightarrow> mset (g c') = mset (g (cs ! i)) + mset us \<Longrightarrow>
   mset (concat (map g (cs[i := c']))) = mset (concat (map g cs)) + mset us"
  by (induction cs arbitrary: i) (auto simp: nth_Cons' ac_simps split: nat.split)

lemma midway_collapse_pending:
  assumes "service_ok e" "midway [] [] (clip_urls c) p" "first_index P (pl_pending p) = Some i"
    "wk_popularity c = 1" "wk_followers c = []"
  shows "midway [] [] [] (collapse_onto_pending e c i p)"
proof -
  define w where "w = (pl_pending p ! i)\<lparr> wk_popularity := wk_popularity (pl_pending p ! i) + 1,
    wk_followers := wk_followers (pl_pending p ! i) @ [wk_tweet_url c] \<rparr>"
  define p1 where "p1 = p\<lparr> pl_pending := (pl_pending p)[i := w] \<rparr>"
  have out: "collapse_onto_pending e c i p = delete_staging e (wk_staging c) p1"
    by (simp add: collapse_onto_pending_def Let_def service_flags(3) [OF assms(1)] assms(4) w_def p1_def)
  have i: "i < length (pl_pending p)" using first_index_found [OF assms(3)] by simp
  have place: "clip_place w = clip_place (pl_pending p ! i)" by (simp add: w_def clip_place_def)
  note maps = pending_updated [OF i place]
  have old: "wk_popularity (pl_pending p ! i) = cluster_size (pl_pending p ! i)"
    using assms(2) i by (simp add: midway_def clips_ok_def)
  have "midway [] [] [] p1"
  proof (rule midway_move [OF assms(2)])
    show "owners_due [] [] p1"
      using assms(2) maps(1) by (simp add: midway_def owners_due_def p1_def hashing_keys_def vision_places_def child_free_def flip: mset_map)
    have "wk_popularity w = cluster_size w" using old by (simp add: w_def cluster_size_def)
    moreover have "staging_keys p1 = staging_keys p" using maps(2) by (simp add: staging_keys_def p1_def)
    ultimately show "clips_ok p1"
      using assms(2) set_update_subset_insert [of "pl_pending p" i w] by (auto simp: midway_def clips_ok_def p1_def)
    have "mset (concat (map clip_urls ((pl_pending p)[i := w]))) = mset (concat (map clip_urls (pl_pending p))) + mset (clip_urls c)"
      by (rule mset_concat_update [OF i]) (simp add: clip_urls_def w_def assms(5))
    then show "at_work p + mset (clip_urls c) = at_work p1 + mset []" by (simp add: at_work_def p1_def)
  qed (simp_all add: p1_def settled_urls_def undisturbed_def)
  then show ?thesis unfolding out by (rule midway_quiet) (rule settles_delete_staging)
qed

lemma midway_collapse_asset:
  assumes "service_ok e" "midway ks vs (clip_urls c @ hand) p" "wk_popularity c = cluster_size c"
  shows "midway ks vs hand (collapse_onto_asset e c i p)"
  by (rule midway_settles [OF assms(2)], rule settles_collapse_asset)
    (use midway_clip [OF assms(2) _ assms(3)] service_flags [OF assms(1)] in auto)

section \<open>Claims at work\<close>

definition claim_fine :: "hash_claim \<Rightarrow> bool" where
  "claim_fine claim \<longleftrightarrow> (\<forall>c\<in>set (claim_clips claim). wk_popularity c = 1 \<and> wk_followers c = [])"

lemma clips_ok_fine:
  "clips_ok p \<longleftrightarrow> distinct (map fst (pl_hashing p)) \<and> distinct (staging_keys p) \<and>
     (\<forall>claim\<in>snd ` set (pl_hashing p). claim_fine claim) \<and> (\<forall>c\<in>set (pl_pending p). wk_popularity c = cluster_size c)"
  by (simp add: clips_ok_def claim_fine_def)

abbreviation with_claim :: "go_string \<Rightarrow> hash_claim \<Rightarrow> pipeline \<Rightarrow> pipeline" where
  "with_claim key claim p \<equiv> p\<lparr> pl_hashing := AList.update key claim (pl_hashing p) \<rparr>"

abbreviation without_claim :: "go_string \<Rightarrow> pipeline \<Rightarrow> pipeline" where
  "without_claim key p \<equiv> p\<lparr> pl_hashing := AList.delete key (pl_hashing p) \<rparr>"

lemma at_work_with:
  "distinct (map fst (pl_hashing p)) \<Longrightarrow> at_work (with_claim key claim p) = mset (claim_urls claim) + at_work (without_claim key p)"
  by (simp add: at_work_def claims_urls_entries entries_update)

lemma at_work_without:
  "distinct (map fst (pl_hashing p)) \<Longrightarrow> map_of (pl_hashing p) key = Some claim \<Longrightarrow>
   at_work p = mset (claim_urls claim) + at_work (without_claim key p)"
  using entries_delete [of "pl_hashing p" key claim claim_urls] by (simp add: at_work_def claims_urls_entries)

lemma stagings_with:
  "distinct (map fst (pl_hashing p)) \<Longrightarrow>
   mset (staging_keys (with_claim key claim p)) = mset (claim_stagings claim) + mset (staging_keys (without_claim key p))"
  by (simp add: staging_keys_entries entries_update)

lemma stagings_without:
  "distinct (map fst (pl_hashing p)) \<Longrightarrow> map_of (pl_hashing p) key = Some claim \<Longrightarrow>
   mset (staging_keys p) = mset (claim_stagings claim) + mset (staging_keys (without_claim key p))"
  using entries_delete [of "pl_hashing p" key claim claim_stagings] by (simp add: staging_keys_entries)

lemma keys_with:
  "map_of (pl_hashing p) key = Some claim \<Longrightarrow> map fst (AList.update key claim' (pl_hashing p)) = map fst (pl_hashing p)"
  by (metis map_of_eq_None_iff option.distinct(1) set_map update_keys)

lemma keys_new:
  "map_of (pl_hashing p) key = None \<Longrightarrow> map fst (AList.update key claim (pl_hashing p)) = map fst (pl_hashing p) @ [key]"
  by (simp add: update_keys map_of_eq_None_iff)

lemma keys_without:
  "distinct (map fst hs) \<Longrightarrow> map_of hs key = Some claim \<Longrightarrow>
   mset (map fst hs) = add_mset key (mset (map fst (AList.delete key hs)))"
proof (induction hs)
  case (Cons h hs)
  show ?case
  proof (cases "fst h = key")
    case True
    then have "AList.delete key hs = hs" using Cons.prems(1) by (simp add: delete_id)
    then show ?thesis using True by (cases h) simp
  next
    case False
    then show ?thesis using Cons by (cases h) simp
  qed
qed simp

lemma delete_subset: "set (AList.delete key hs) \<subseteq> set hs"
  by (auto simp: AList.delete_eq)

lemma clips_ok_without:
  assumes "clips_ok p" "map_of (pl_hashing p) key = Some claim"
  shows "clips_ok (without_claim key p)"
proof -
  have "distinct (staging_keys (without_claim key p))"
    using assms stagings_without [OF _ assms(2)] once_mono [of "mset (staging_keys p)" "mset (staging_keys (without_claim key p))"]
    by (simp add: clips_ok_fine flip: once_mset)
  then show ?thesis
    using assms(1) delete_subset [of key "pl_hashing p"] by (auto simp: clips_ok_fine distinct_delete)
qed

lemma clips_ok_with:
  assumes "clips_ok p" "claim_fine claim" "once (mset (claim_stagings claim) + mset (staging_keys (without_claim key p)))"
  shows "clips_ok (with_claim key claim p)"
proof -
  have keys: "distinct (map fst (pl_hashing p))" using assms(1) by (simp add: clips_ok_fine)
  have "distinct (staging_keys (with_claim key claim p))"
    using assms(3) stagings_with [OF keys] by (simp flip: once_mset)
  moreover have "claim_fine v" if "v \<in> snd ` set (AList.update key claim (pl_hashing p))" for v
    using update_member [OF keys that] delete_subset [of key "pl_hashing p"] assms(1,2) by (auto simp: clips_ok_fine)
  moreover have "distinct (map fst (AList.update key claim (pl_hashing p)))" by (rule distinct_update [OF keys])
  ultimately show ?thesis using assms(1) by (simp add: clips_ok_fine)
qed

lemma midway_wait_behind:
  assumes "midway [] [] (clip_urls c) p" "map_of (pl_hashing p) key \<noteq> None" "wk_popularity c = 1" "wk_followers c = []"
    "wk_staging c \<notin> set (staging_keys p)"
  shows "midway [] [] [] (wait_behind key c p)"
proof -
  obtain claim where claim: "map_of (pl_hashing p) key = Some claim" using assms(2) by blast
  define claim' where "claim' = claim\<lparr> hc_waiting := hc_waiting claim @ [c] \<rparr>"
  have out: "wait_behind key c p = with_claim key claim' p" by (simp add: wait_behind_def claim claim'_def)
  have ok: "clips_ok p" using assms(1) by (simp add: midway_def)
  then have keys: "distinct (map fst (pl_hashing p))" by (simp add: clips_ok_fine)
  have claim'_urls: "mset (claim_urls claim') = mset (claim_urls claim) + mset (clip_urls c)"
    by (simp add: claim_urls_def claim'_def claim_clips_def)
  have claim'_stagings: "mset (claim_stagings claim') = add_mset (wk_staging c) (mset (claim_stagings claim))"
    by (simp add: claim_stagings_def claim'_def claim_clips_def)
  have "claim_fine claim"
    using ok map_of_SomeD [OF claim] by (force simp: clips_ok_fine)
  then have fine: "claim_fine claim'" using assms(3,4) by (auto simp: claim_fine_def claim'_def claim_clips_def)
  show ?thesis
    unfolding out
  proof (rule midway_move [OF assms(1)])
    show "owners_due [] [] (with_claim key claim' p)"
      using assms(1) keys_with [OF claim]
      by (simp add: midway_def owners_due_def hashing_keys_def vision_places_def child_free_def flip: mset_map)
    have "once (mset (wk_staging c # staging_keys p))"
      using ok assms(5) unfolding once_mset by (simp add: clips_ok_fine)
    then have "once (mset (claim_stagings claim') + mset (staging_keys (without_claim key p)))"
      using stagings_without [OF keys claim] by (simp add: claim'_stagings)
    then show "clips_ok (with_claim key claim' p)" by (rule clips_ok_with [OF ok fine])
    show "at_work p + mset (clip_urls c) = at_work (with_claim key claim' p) + mset []"
      unfolding at_work_with [OF keys] at_work_without [OF keys claim] claim'_urls by (simp add: ac_simps)
  qed (simp_all add: settled_urls_def undisturbed_def)
qed

lemma midway_fire_hash:
  assumes "midway [key] [] [] p" "map_of (pl_hashing p) key \<noteq> None"
  shows "pipeline_ok (fire_hash key p)"
proof (cases "pl_canceled p")
  case True
  then show ?thesis using midway_canceled [OF assms(1)] by (simp add: fire_hash_def)
next
  case False
  obtain claim where "map_of (pl_hashing p) key = Some claim" using assms(2) by blast
  then have "fire_hash key p = schedule (HashVideo (wk_staging (hc_primary claim))) (HashFuture key) p"
    using False by (simp add: fire_hash_def)
  then show ?thesis
    using midway_schedule [of "HashFuture key" "[]" "[]" "[]" p] assms(1) by (simp add: pipeline_ok_midway)
qed

lemma claim_starts:
  assumes "midway [] [] (clip_urls c) p" "map_of (pl_hashing p) key = None" "wk_popularity c = 1" "wk_followers c = []"
    "wk_staging c \<notin> set (staging_keys p)"
  shows "pipeline_ok (fire_hash key (with_claim key \<lparr> hc_primary = c, hc_waiting = [] \<rparr> p))"
proof -
  define claim where "claim = \<lparr> hc_primary = c, hc_waiting = [] \<rparr>"
  have ok: "clips_ok p" using assms(1) by (simp add: midway_def)
  then have keys: "distinct (map fst (pl_hashing p))" by (simp add: clips_ok_fine)
  have absent: "without_claim key p = p"
    using assms(2) by (simp add: delete_id map_of_eq_None_iff)
  have "midway [key] [] [] (with_claim key claim p)"
  proof (rule midway_move [OF assms(1)])
    show "owners_due [key] [] (with_claim key claim p)"
      using assms(1) keys_new [OF assms(2), of claim]
      by (simp add: midway_def owners_due_def hashing_keys_def vision_places_def child_free_def flip: mset_map)
    have "claim_fine claim" using assms(3,4) by (simp add: claim_fine_def claim_def claim_clips_def)
    moreover have "once (mset (wk_staging c # staging_keys p))"
      using ok assms(5) unfolding once_mset by (simp add: clips_ok_fine)
    ultimately show "clips_ok (with_claim key claim p)"
      using clips_ok_with [OF ok] by (simp add: absent claim_stagings_def claim_def claim_clips_def)
    show "at_work p + mset (clip_urls c) = at_work (with_claim key claim p) + mset []"
      unfolding at_work_with [OF keys] absent by (simp add: claim_urls_def claim_def claim_clips_def ac_simps)
  qed (simp_all add: settled_urls_def undisturbed_def)
  then show ?thesis
    unfolding claim_def by (rule midway_fire_hash) (simp add: update_conv')
qed

lemma claim_or_collapse_ok:
  assumes "service_ok e" "midway [] [] (clip_urls c) p" "wk_popularity c = 1" "wk_followers c = []"
    "wk_staging c \<notin> set (staging_keys p)"
  shows "pipeline_ok (claim_or_collapse e c p)"
proof (cases "match_exact e c p")
  case (MatchedAsset i)
  have size1: "wk_popularity c = cluster_size c" using assms(3,4) by (simp add: cluster_size_def)
  have "midway [] [] [] (collapse_onto_asset e c i p)"
    using midway_collapse_asset [OF assms(1) _ size1, of "[]" "[]" "[]" p i] assms(2) by simp
  then show ?thesis
    using MatchedAsset midway_canceled [OF assms(2)]
    by (simp add: claim_or_collapse_def collapse_exact_def pipeline_ok_midway)
next
  case (MatchedPending i)
  then have found: "first_index (same_media c) (pl_pending p) = Some i"
    by (auto simp: match_exact_def split: option.splits)
  show ?thesis
    using MatchedPending midway_canceled [OF assms(2)] midway_collapse_pending [OF assms(1,2) found assms(3,4)]
    by (simp add: claim_or_collapse_def collapse_exact_def pipeline_ok_midway)
next
  case NoExactMatch
  define found where "found = find (\<lambda>(_, claim). wk_md5 (hc_primary claim) = wk_md5 c) (pe_claim_order e (pl_hashing p))"
  show ?thesis
  proof (cases found)
    case (Some entry)
    then obtain key claim where entry: "found = Some (key, claim)" by (cases entry) simp
    then have "(key, claim) \<in> set (pe_claim_order e (pl_hashing p))"
      by (auto simp: found_def find_Some_iff in_set_conv_nth)
    then have "(key, claim) \<in> set (pl_hashing p)" using assms(1) by (simp add: service_ok_def claim_order_total_def)
    then have "key \<in> fst ` set (pl_hashing p)" by force
    then have "map_of (pl_hashing p) key \<noteq> None" by (simp add: map_of_eq_None_iff)
    then have "midway [] [] [] (wait_behind key c p)" using midway_wait_behind [OF assms(2) _ assms(3-5)] by simp
    then show ?thesis using NoExactMatch entry by (simp add: claim_or_collapse_def found_def pipeline_ok_midway)
  next
    case None
    show ?thesis
      using NoExactMatch None midway_wait_behind [OF assms(2) _ assms(3-5), of "exact_key c"]
        claim_starts [OF assms(2) _ assms(3-5), of "exact_key c"]
      by (simp add: claim_or_collapse_def found_def pipeline_ok_midway Let_def)
  qed
qed

section \<open>The download callback\<close>

text \<open>The staging object of a download is named after its post.\<close>

fun stages_apart :: "pipeline \<Rightarrow> reply \<Rightarrow> bool" where
  "stages_apart p (DownloadReply (Inr out)) = (do_outcome out = ''passed'' \<longrightarrow> do_staging out \<notin> set (staging_keys p))"
| "stages_apart p _ = True"

lemma settles_raw_md5:
  assumes "map_of (pl_candidates p) url = Some own"
  shows "settles [] p (p\<lparr> pl_candidates := AList.update url (own\<lparr> ow_raw_md5 := md5 \<rparr>) (pl_candidates p) \<rparr>)"
  using candidate_update [OF assms, of "own\<lparr> ow_raw_md5 := md5 \<rparr>"]
  by (simp add: settles_def same_places_def settled_urls_def)

lemma clip_from_download_facts:
  "clip_urls (clip_from_download url out) = [url]" "wk_popularity (clip_from_download url out) = 1"
  "wk_followers (clip_from_download url out) = []" "wk_staging (clip_from_download url out) = do_staging out"
  "wk_md5 (clip_from_download url out) = do_md5 out"
  by (simp_all add: clip_from_download_def clip_urls_def)

lemma download_passed_ok:
  assumes "service_ok e" "midway [] [] [url] p" "do_staging out \<notin> set (staging_keys p)"
  shows "pipeline_ok (claim_or_collapse e (clip_from_download url out)
    (case map_of (pl_candidates p) url of
       None \<Rightarrow> p
     | Some own \<Rightarrow> p\<lparr> pl_candidates := AList.update url (own\<lparr> ow_raw_md5 := wk_md5 (clip_from_download url out) \<rparr>) (pl_candidates p) \<rparr>))"
proof -
  define p1 where "p1 = (case map_of (pl_candidates p) url of None \<Rightarrow> p
     | Some own \<Rightarrow> p\<lparr> pl_candidates := AList.update url (own\<lparr> ow_raw_md5 := wk_md5 (clip_from_download url out) \<rparr>) (pl_candidates p) \<rparr>)"
  have quiet: "settles [] p p1"
    by (cases "map_of (pl_candidates p) url") (simp_all add: p1_def settles_refl settles_raw_md5)
  have "midway [] [] [url] p1" using midway_quiet [OF assms(2) quiet] .
  moreover have "staging_keys p1 = staging_keys p"
    using quiet by (simp add: settles_def same_places_def staging_keys_def)
  ultimately show ?thesis
    unfolding p1_def [symmetric]
    using claim_or_collapse_ok [OF assms(1), of "clip_from_download url out" p1] assms(3)
    by (simp add: clip_from_download_facts)
qed

lemma on_download_done_ok:
  assumes "service_ok e" "pipeline_ok p" "DownloadFuture url \<in> set (pl_futures p)" "stages_apart p (DownloadReply r)"
  shows "pipeline_ok (on_download_done e url r (take_future (DownloadFuture url) p))"
proof -
  define q where "q = began (DownloadFuture url) p"
  have same: "(take_future (DownloadFuture url) p)\<lparr> pl_in_flight := pl_in_flight p - 1 \<rparr> = q"
    "pl_in_flight (take_future (DownloadFuture url) p) = pl_in_flight p"
    by (simp_all add: q_def began_def take_future_def)
  have m: "midway [] [] [url] q" using began_midway [OF assms(2,3)] by (simp add: q_def)
  have close: "pipeline_ok (record_outcome e url outcome reason detail (q\<lparr> pl_failed := n \<rparr>))"
    "pipeline_ok (record_outcome e url outcome reason detail (q\<lparr> pl_rejected := n \<rparr>))"
    "pipeline_ok (delete_staging e key (record_outcome e url outcome reason detail (q\<lparr> pl_failed := n \<rparr>)))"
    for outcome reason detail n key
    using midway_outcome [OF assms(1) m settles_count(1)] midway_outcome [OF assms(1) m settles_count(2)]
      midway_quiet [OF midway_outcome [OF assms(1) m settles_count(1)] settles_delete_staging]
    unfolding pipeline_ok_midway by blast+
  show ?thesis
  proof (cases "pl_canceled q")
    case True
    then show ?thesis using midway_canceled [OF m] by (simp add: on_download_done_def same Let_def)
  next
    case False
    show ?thesis
    proof (cases r)
      case (Inl err)
      then show ?thesis using False close(1) by (simp add: on_download_done_def same Let_def)
    next
      case (Inr out)
      show ?thesis
      proof (cases "do_outcome out = ''passed'' \<and> do_md5 out \<noteq> '''' \<and> do_staging out \<noteq> ''''")
        case True
        have "do_staging out \<notin> set (staging_keys q)"
          using assms(4) Inr True by (simp add: q_def began_def staging_keys_def)
        from download_passed_ok [OF assms(1) m this] show ?thesis
          using False Inr True by (simp add: on_download_done_def same Let_def)
      next
        case bad: False
        show ?thesis
        proof (cases "do_outcome out = ''rejected''")
          case True
          then show ?thesis using False Inr close(2) by (simp add: on_download_done_def same Let_def)
        next
          case other: False
          have "do_outcome out \<noteq> ''passed'' \<or> do_md5 out = '''' \<or> do_staging out = ''''" using bad by blast
          then show ?thesis using False Inr close(3) other by (simp add: on_download_done_def same Let_def)
        qed
      qed
    qed
  qed
qed

section \<open>The hash callback\<close>

abbreviation on_claims :: "(go_string \<times> hash_claim) list \<Rightarrow> pipeline \<Rightarrow> pipeline" where
  "on_claims hs p \<equiv> p\<lparr> pl_hashing := hs \<rparr>"

lemma settles_on_claims: "settles us p p' \<Longrightarrow> settles us (on_claims hs p) (on_claims hs p')"
  unfolding settles_def same_places_def same_candidates_def
  by (simp add: settled_urls_def candidate_urls_of_def candidate_done_def undisturbed_def)

lemma midway_claimed:
  assumes "midway [key] vs hand p" "\<not> pl_canceled p"
  obtains claim where "map_of (pl_hashing p) key = Some claim" "claim_fine claim"
proof -
  have "hashing_keys p + mset [key] = mset (map fst (pl_hashing p))"
    using assms by (simp add: midway_def owners_due_def)
  then have "key \<in># mset (map fst (pl_hashing p))"
    by (metis mset.simps(2) union_iff set_mset_mset list.set_intros(1))
  then obtain claim where claim: "map_of (pl_hashing p) key = Some claim"
    by (metis map_of_eq_None_iff not_None_eq set_map set_mset_mset)
  moreover have "claim_fine claim" using assms(1) map_of_SomeD [OF claim] by (force simp: midway_def clips_ok_fine)
  ultimately show thesis by (rule that)
qed

lemma claim_released:
  assumes "midway [key] [] [] p" "map_of (pl_hashing p) key = Some claim"
  shows "midway [] [] (claim_urls claim) (without_claim key p)"
proof (rule midway_move [OF assms(1)])
  have ok: "clips_ok p" using assms(1) by (simp add: midway_def)
  then have keys: "distinct (map fst (pl_hashing p))" by (simp add: clips_ok_fine)
  have "hashing_keys (without_claim key p) = hashing_keys p" "vision_places (without_claim key p) = vision_places p"
    by (simp_all add: hashing_keys_def vision_places_def)
  then show "owners_due [] [] (without_claim key p)"
    using assms(1) keys_without [OF keys assms(2)] unfolding midway_def owners_due_def child_free_def by simp
  show "clips_ok (without_claim key p)" by (rule clips_ok_without [OF ok assms(2)])
  show "at_work p + mset [] = at_work (without_claim key p) + mset (claim_urls claim)"
    unfolding at_work_without [OF keys assms(2)] by (simp add: ac_simps)
qed (simp_all add: settled_urls_def undisturbed_def)

lemma claim_handed_on:
  assumes "midway [key] [] [] p" "map_of (pl_hashing p) key = Some claim" "hc_waiting claim = c # cs"
  shows "midway [key] [] (clip_urls (hc_primary claim)) (with_claim key \<lparr> hc_primary = c, hc_waiting = cs \<rparr> p)"
    (is "midway _ _ _ (with_claim key ?next p)")
proof (rule midway_move [OF assms(1)])
  have ok: "clips_ok p" using assms(1) by (simp add: midway_def)
  then have keys: "distinct (map fst (pl_hashing p))" by (simp add: clips_ok_fine)
  have clips: "claim_clips claim = hc_primary claim # claim_clips ?next" by (simp add: claim_clips_def assms(3))
  have "claim_fine claim" using ok map_of_SomeD [OF assms(2)] by (force simp: clips_ok_fine)
  then have fine: "claim_fine ?next" by (simp add: claim_fine_def clips)
  show "owners_due [key] [] (with_claim key ?next p)"
    using assms(1) keys_with [OF assms(2)]
    by (simp add: midway_def owners_due_def hashing_keys_def vision_places_def child_free_def flip: mset_map)
  have "mset (staging_keys p) = add_mset (wk_staging (hc_primary claim))
      (mset (claim_stagings ?next) + mset (staging_keys (without_claim key p)))"
    unfolding stagings_without [OF keys assms(2)] by (simp add: claim_stagings_def clips)
  moreover have "once (mset (staging_keys p))" using ok unfolding once_mset by (simp add: clips_ok_fine)
  ultimately have "once (mset (claim_stagings ?next) + mset (staging_keys (without_claim key p)))"
    by (auto elim!: once_mono)
  then show "clips_ok (with_claim key ?next p)" by (rule clips_ok_with [OF ok fine])
  show "at_work p + mset [] = at_work (with_claim key ?next p) + mset (clip_urls (hc_primary claim))"
    unfolding at_work_with [OF keys] at_work_without [OF keys assms(2)] by (simp add: claim_urls_def clips ac_simps)
qed (simp_all add: settled_urls_def undisturbed_def)

text \<open>The clips of a claim are settled one after another.\<close>

lemma claim_urls_fine:
  assumes "claim_fine claim"
  shows "claim_urls claim = map wk_tweet_url (claim_clips claim)"
proof -
  have "concat (map clip_urls cs) = map wk_tweet_url cs" if "\<forall>c\<in>set cs. wk_followers c = []" for cs
    using that by (induction cs) (simp_all add: clip_urls_def)
  then show ?thesis using assms by (simp add: claim_fine_def claim_urls_def)
qed

lemma settles_close_clip:
  assumes "service_ok e" "wk_tweet_url c \<noteq> ''''" "keyed p"
  shows "settles [wk_tweet_url c] p (close_claim_clip e outcome reason c p)"
proof -
  define p1 where "p1 = (if outcome = ''rejected'' then p\<lparr> pl_rejected := pl_rejected p + 1 \<rparr> else p\<lparr> pl_failed := pl_failed p + 1 \<rparr>)"
  have p1: "settles [] p p1" by (simp add: p1_def settles_count)
  have "settles [wk_tweet_url c] p1 (record_outcome e (wk_tweet_url c) outcome reason None p1)"
    by (rule settles_record_outcome [OF service_flags(2) [OF assms(1)] assms(2) settles_keyed [OF assms(3) p1]])
  then show ?thesis
    unfolding close_claim_clip_def p1_def [symmetric]
    by (rule settles_then_quiet [OF quiet_then_settles [OF p1] settles_delete_staging])
qed

lemma settles_close_clips:
  assumes "service_ok e"
  shows "'''' \<notin> wk_tweet_url ` set cs \<Longrightarrow> keyed p \<Longrightarrow>
    settles (map wk_tweet_url cs) p (fold (close_claim_clip e outcome reason) cs p)"
proof (induction cs arbitrary: p)
  case Nil
  then show ?case by (simp add: settles_refl)
next
  case (Cons c cs)
  have "wk_tweet_url c \<noteq> ''''" using Cons.prems(1) by auto
  note one = settles_close_clip [OF assms this Cons.prems(2), of outcome reason]
  have "settles ([wk_tweet_url c] @ map wk_tweet_url cs) p
      (fold (close_claim_clip e outcome reason) cs (close_claim_clip e outcome reason c p))"
    by (rule settles_trans [OF one Cons.IH]) (use Cons.prems settles_keyed [OF _ one] in auto)
  then show ?case by simp
qed

lemma close_claim_ok:
  assumes "service_ok e" "midway [key] [] [] p" "map_of (pl_hashing p) key = Some claim" "claim_fine claim"
  shows "pipeline_ok (close_claim e outcome key reason claim p)"
proof -
  define p1 where "p1 = fold (close_claim_clip e outcome reason) (claim_clips claim) p"
  note released = claim_released [OF assms(2,3)]
  have urls: "claim_urls claim = map wk_tweet_url (claim_clips claim)" by (rule claim_urls_fine [OF assms(4)])
  have keyed: "keyed (without_claim key p) \<and> set (claim_urls claim) \<subseteq> set (candidate_urls_of (without_claim key p))"
    by (rule midway_hand [OF released])
  then have "keyed p" "'''' \<notin> wk_tweet_url ` set (claim_clips claim)"
    by (auto simp: keyed_def candidate_urls_of_def urls)
  then have s: "settles (claim_urls claim) p p1"
    unfolding p1_def urls using settles_close_clips [OF assms(1)] by blast
  then have "pl_hashing p1 = pl_hashing p" by (simp add: settles_def same_places_def)
  then have "close_claim e outcome key reason claim p = on_claims (AList.delete key (pl_hashing p)) p1"
    by (simp add: close_claim_def p1_def Let_def)
  then show ?thesis
    using midway_settles [OF _ settles_on_claims [OF s], of "[]" "[]" "[]" "AList.delete key (pl_hashing p)"] released
    by (simp add: pipeline_ok_midway)
qed

lemma hash_failed_ok:
  assumes "service_ok e" "midway [key] [] [] p" "map_of (pl_hashing p) key = Some claim" "claim_fine claim"
  shows "pipeline_ok (hash_failed e key claim p)"
proof -
  define c where "c = hc_primary claim"
  define p1 where "p1 = delete_staging e (wk_staging c) (record_outcome e (wk_tweet_url c) ''failed'' ''hash_error'' None
      (p\<lparr> pl_failed := pl_failed p + 1 \<rparr>))"
  have c: "clip_urls c = [wk_tweet_url c]" using assms(4) by (simp add: c_def claim_fine_def claim_clips_def clip_urls_def)
  have "wk_tweet_url c \<in> set (claim_urls claim)" by (simp add: claim_urls_def claim_clips_def clip_urls_def c_def)
  then have "keyed p" "wk_tweet_url c \<noteq> ''''"
    using midway_hand [OF claim_released [OF assms(2,3)]] by (auto simp: keyed_def candidate_urls_of_def)
  then have "settles [wk_tweet_url c] (p\<lparr> pl_failed := pl_failed p + 1 \<rparr>)
      (record_outcome e (wk_tweet_url c) ''failed'' ''hash_error'' None (p\<lparr> pl_failed := pl_failed p + 1 \<rparr>))"
    by (intro settles_record_outcome [OF service_flags(2) [OF assms(1)]] settles_keyed [OF _ settles_count(1)])
  then have s: "settles (clip_urls c) p p1"
    unfolding p1_def c by (intro settles_then_quiet [OF quiet_then_settles [OF settles_count(1)] settles_delete_staging])
  then have same: "pl_hashing p1 = pl_hashing p" by (simp add: settles_def same_places_def)
  show ?thesis
  proof (cases "hc_waiting claim")
    case Nil
    then have "claim_urls claim = clip_urls c" by (simp add: claim_urls_def claim_clips_def c_def)
    then have "midway [] [] (clip_urls c @ []) (without_claim key p)" using claim_released [OF assms(2,3)] by simp
    from midway_settles [OF this settles_on_claims [OF s]]
    show ?thesis by (simp add: hash_failed_def Nil Let_def pipeline_ok_midway same p1_def [symmetric] c_def [symmetric])
  next
    case (Cons d ds)
    have "midway [key] [] (clip_urls c @ []) (with_claim key \<lparr> hc_primary = d, hc_waiting = ds \<rparr> p)"
      using claim_handed_on [OF assms(2,3) Cons] by (simp add: c_def)
    from midway_fire_hash [OF midway_settles [OF this settles_on_claims [OF s]]]
    show ?thesis
      by (simp add: hash_failed_def Cons Let_def same p1_def [symmetric] c_def [symmetric] update_conv')
  qed
qed

lemma merge_waiting_all:
  assumes "service_ok e"
  shows "\<forall>d\<in>set ds. wk_popularity d = 1 \<Longrightarrow> wk_popularity w = cluster_size w \<Longrightarrow>
    fold (merge_waiting e) ds (w, p) = (w', p') \<Longrightarrow>
    clip_urls w' = clip_urls w @ map wk_tweet_url ds \<and> wk_popularity w' = cluster_size w' \<and>
    clip_place w' = clip_place w \<and> settles [] p p'"
proof (induction ds arbitrary: w p)
  case Nil
  then show ?case by (simp add: settles_refl)
next
  case (Cons d ds)
  define w1 where "w1 = w\<lparr> wk_popularity := wk_popularity w + wk_popularity d, wk_followers := wk_followers w @ [wk_tweet_url d] \<rparr>"
  have step: "merge_waiting e d (w, p) = (w1, delete_staging e (wk_staging d) p)"
    by (simp add: merge_waiting_def w1_def service_flags(3) [OF assms] Let_def)
  have "wk_popularity w1 = cluster_size w1" using Cons.prems(1,2) by (simp add: w1_def cluster_size_def)
  then have rest: "clip_urls w' = clip_urls w1 @ map wk_tweet_url ds \<and> wk_popularity w' = cluster_size w' \<and>
      clip_place w' = clip_place w1 \<and> settles [] (delete_staging e (wk_staging d) p) p'"
    using Cons.IH [of w1 "delete_staging e (wk_staging d) p"] Cons.prems(1,3) by (simp add: step)
  then have "settles [] p p'" using settles_then_quiet [OF settles_delete_staging] by blast
  moreover have "clip_urls w1 = clip_urls w @ [wk_tweet_url d]" "clip_place w1 = clip_place w"
    by (simp_all add: w1_def clip_urls_def clip_place_def)
  ultimately show ?case using rest by simp
qed

lemma midway_fire_vision:
  assumes "midway [] [clip_place c] [] p"
  shows "pipeline_ok (fire_vision e c p)"
proof (cases "pl_canceled p")
  case True
  then show ?thesis using midway_canceled [OF assms] by (simp add: fire_vision_def)
next
  case False
  then obtain call where call: "fire_vision e c p = schedule call (VisionFuture c) p" "settled_by call = []"
    by (simp add: fire_vision_def)
  have "midway [] [] [] (schedule call (VisionFuture c) p)"
    by (rule midway_schedule [OF _ call(2)]) (simp_all add: assms)
  then show ?thesis by (simp add: call(1) pipeline_ok_midway)
qed

lemma claim_becomes_pending:
  assumes "midway [] [] (claim_urls claim) (without_claim key p)" "mset (clip_urls w) = mset (claim_urls claim)"
    "wk_popularity w = cluster_size w" "wk_staging w \<notin> set (staging_keys (without_claim key p))"
  shows "midway [] [clip_place w] [] ((without_claim key p)\<lparr> pl_pending := pl_pending p @ [w] \<rparr>)" (is "midway _ _ _ ?p'")
proof (rule midway_move [OF assms(1)])
  have "hashing_keys ?p' = hashing_keys (without_claim key p)" "vision_places ?p' = vision_places (without_claim key p)"
    by (simp_all add: hashing_keys_def vision_places_def)
  then show "owners_due [] [clip_place w] ?p'"
    using assms(1) unfolding midway_def owners_due_def child_free_def by simp
  have "staging_keys ?p' = staging_keys (without_claim key p) @ [wk_staging w]" by (simp add: staging_keys_def)
  then show "clips_ok ?p'"
    using assms(1,3,4) by (auto simp: midway_def clips_ok_fine)
  show "at_work (without_claim key p) + mset (claim_urls claim) = at_work ?p' + mset []"
    using assms(2) by (simp add: at_work_def)
qed (simp_all add: settled_urls_def undisturbed_def)

lemma hash_passed_ok:
  assumes "service_ok e" "midway [key] [] [] p" "map_of (pl_hashing p) key = Some claim" "claim_fine claim"
  shows "pipeline_ok (hash_passed e key claim out p)"
proof -
  define w0 where "w0 = (hc_primary claim)\<lparr> wk_hash_version := normalize_frame_hash_version (ho_version out), wk_frames := ho_frames out \<rparr>"
  obtain w p1 where merged: "fold (merge_waiting e) (hc_waiting claim) (w0, p\<lparr> pl_passed := pl_passed p + 1 \<rparr>) = (w, p1)"
    by (metis surj_pair)
  have fine: "wk_followers (hc_primary claim) = []" "wk_popularity w0 = cluster_size w0" "\<forall>d\<in>set (hc_waiting claim). wk_popularity d = 1"
    using assms(4) by (auto simp: claim_fine_def claim_clips_def w0_def cluster_size_def)
  have w: "clip_urls w = clip_urls w0 @ map wk_tweet_url (hc_waiting claim)" "wk_popularity w = cluster_size w"
      "clip_place w = clip_place w0" "settles [] (p\<lparr> pl_passed := pl_passed p + 1 \<rparr>) p1"
    using merge_waiting_all [OF assms(1) fine(3,2) merged] by simp_all
  have urls: "clip_urls w = claim_urls claim"
    unfolding w(1) claim_urls_fine [OF assms(4)] by (simp add: claim_clips_def clip_urls_def w0_def fine(1))
  have s: "settles [] p p1" using settles_trans [OF settles_count(3) w(4)] by simp
  then have same: "pl_hashing p1 = pl_hashing p" by (simp add: settles_def same_places_def)
  have m: "midway [key] [] [] p1" by (rule midway_quiet [OF assms(2) s])
  have claim: "map_of (pl_hashing p1) key = Some claim" by (simp add: same assms(3))
  have ok: "clips_ok p1" using m by (simp add: midway_def)
  then have keys: "distinct (map fst (pl_hashing p1))" by (simp add: clips_ok_fine)
  have "once (mset (claim_stagings claim) + mset (staging_keys (without_claim key p1)))"
    using ok unfolding stagings_without [OF keys claim, symmetric] once_mset by (simp add: clips_ok_fine)
  then have "distinct (claim_stagings claim @ staging_keys (without_claim key p1))" by (simp flip: once_mset)
  moreover have "wk_staging w \<in> set (claim_stagings claim)"
    using w(3) by (simp add: claim_stagings_def claim_clips_def w0_def clip_place_def)
  ultimately have "wk_staging w \<notin> set (staging_keys (without_claim key p1))" by auto
  from midway_fire_vision [OF claim_becomes_pending [OF claim_released [OF m claim] _ w(2) this]]
  show ?thesis
    by (simp add: hash_passed_def w0_def [symmetric] merged urls)
qed

lemma on_hash_done_ok:
  assumes "service_ok e" "pipeline_ok p" "HashFuture key \<in> set (pl_futures p)"
  shows "pipeline_ok (on_hash_done e key r (take_future (HashFuture key) p))"
proof -
  define q where "q = began (HashFuture key) p"
  have same: "(take_future (HashFuture key) p)\<lparr> pl_in_flight := pl_in_flight p - 1 \<rparr> = q"
    "pl_in_flight (take_future (HashFuture key) p) = pl_in_flight p"
    by (simp_all add: q_def began_def take_future_def)
  have m: "midway [key] [] [] q" using began_midway [OF assms(2,3)] by (simp add: q_def)
  show ?thesis
  proof (cases "pl_canceled q")
    case True
    then show ?thesis using midway_canceled [OF m] by (simp add: on_hash_done_def same Let_def)
  next
    case False
    obtain claim where claim: "map_of (pl_hashing q) key = Some claim" "claim_fine claim"
      by (rule midway_claimed [OF m False])
    have "pipeline_ok (hash_failed e key claim q)" by (rule hash_failed_ok [OF assms(1) m claim])
    moreover have "pipeline_ok (reject_hash_claim e key reason claim q)" "pipeline_ok (fail_hash_claim e key reason claim q)" for reason
      unfolding reject_hash_claim_def fail_hash_claim_def by (rule close_claim_ok [OF assms(1) m claim])+
    moreover have "pipeline_ok (hash_passed e key claim out q)" for out by (rule hash_passed_ok [OF assms(1) m claim])
    ultimately show ?thesis
      using False claim(1) by (cases r) (simp_all add: on_hash_done_def same Let_def)
  qed
qed

section \<open>The vision callback\<close>

lemma remove_pending_found:
  "pc \<in> set cs \<Longrightarrow> distinct (map wk_staging cs) \<Longrightarrow> remove_pending (wk_staging pc) cs = (Some pc, remove1 pc cs)"
proof (induction cs)
  case (Cons c cs)
  show ?case
  proof (cases "c = pc")
    case False
    then have "pc \<in> set cs" using Cons.prems(1) by simp
    then have "wk_staging c \<noteq> wk_staging pc" using Cons.prems(2) by force
    then show ?thesis using Cons False by simp
  qed simp
qed simp

lemma pending_taken:
  assumes "midway [] [clip_place captured] [] p" "\<not> pl_canceled p"
  obtains pc where "remove_pending (wk_staging captured) (pl_pending p) = (Some pc, remove1 pc (pl_pending p))"
    "wk_tweet_url captured = wk_tweet_url pc" "wk_popularity pc = cluster_size pc"
    "midway [] [] (clip_urls pc) (p\<lparr> pl_pending := remove1 pc (pl_pending p) \<rparr>)"
proof -
  have due: "vision_places p + mset [clip_place captured] = mset (map clip_place (pl_pending p))"
    using assms by (simp add: midway_def owners_due_def)
  then have "clip_place captured \<in># mset (map clip_place (pl_pending p))"
    by (metis mset.simps(2) union_iff set_mset_mset list.set_intros(1))
  then obtain pc where pc: "pc \<in> set (pl_pending p)" "clip_place captured = clip_place pc" by auto
  then have place: "wk_tweet_url captured = wk_tweet_url pc" "wk_staging captured = wk_staging pc"
    by (simp_all add: clip_place_def)
  have ok: "clips_ok p" using assms(1) by (simp add: midway_def)
  then have stagings: "distinct (staging_keys p)" "wk_popularity pc = cluster_size pc"
    using pc(1) by (simp_all add: clips_ok_fine)
  then have "distinct (map wk_staging (pl_pending p))" by (simp add: staging_keys_def)
  from remove_pending_found [OF pc(1) this]
  have found: "remove_pending (wk_staging captured) (pl_pending p) = (Some pc, remove1 pc (pl_pending p))"
    by (simp add: place(2))
  let ?p' = "p\<lparr> pl_pending := remove1 pc (pl_pending p) \<rparr>"
  have "midway [] [] (clip_urls pc) ?p'"
  proof (rule midway_move [OF assms(1)])
    have "hashing_keys ?p' = hashing_keys p" "vision_places ?p' = vision_places p"
      by (simp_all add: hashing_keys_def vision_places_def)
    moreover have "mset (map clip_place (pl_pending p)) = add_mset (clip_place pc) (mset (map clip_place (remove1 pc (pl_pending p))))"
      using mset_remove_future [OF pc(1), of "\<lambda>c. [clip_place c]"] by (simp add: concat_map_singleton)
    ultimately show "owners_due [] [] ?p'"
      using assms(1) pc(2) unfolding midway_def owners_due_def child_free_def by simp
    have "mset (staging_keys ?p') \<subseteq># mset (staging_keys p)"
      using mset_remove_future [OF pc(1), of "\<lambda>c. [wk_staging c]"] by (simp add: staging_keys_def concat_map_singleton)
    then have "once (mset (staging_keys ?p'))" using stagings(1) once_mono once_mset by blast
    then have "distinct (staging_keys ?p')" by (simp flip: once_mset)
    then show "clips_ok ?p'" using ok set_remove1_subset [of pc "pl_pending p"] by (auto simp: clips_ok_fine)
    show "at_work p + mset [] = at_work ?p' + mset (clip_urls pc)"
      using mset_remove_future [OF pc(1), of clip_urls] by (simp add: at_work_def)
  qed (simp_all add: settled_urls_def undisturbed_def)
  then show thesis by (rule that [OF found place(1) stagings(2)])
qed

lemma on_vision_done_ok:
  assumes "service_ok e" "pipeline_ok p" "VisionFuture captured \<in> set (pl_futures p)"
  shows "pipeline_ok (on_vision_done e captured r (take_future (VisionFuture captured) p))"
proof -
  define q where "q = began (VisionFuture captured) p"
  have same: "(take_future (VisionFuture captured) p)\<lparr> pl_in_flight := pl_in_flight p - 1 \<rparr> = q"
    "pl_in_flight (take_future (VisionFuture captured) p) = pl_in_flight p"
    by (simp_all add: q_def began_def take_future_def)
  have m: "midway [] [clip_place captured] [] q" using began_midway [OF assms(2,3)] by (simp add: q_def)
  show ?thesis
  proof (cases "pl_canceled q")
    case True
    then show ?thesis using midway_canceled [OF m] by (simp add: on_vision_done_def same Let_def)
  next
    case False
    obtain pc where pc: "remove_pending (wk_staging captured) (pl_pending q) = (Some pc, remove1 pc (pl_pending q))"
      "wk_tweet_url captured = wk_tweet_url pc" "wk_popularity pc = cluster_size pc"
      "midway [] [] (clip_urls pc) (q\<lparr> pl_pending := remove1 pc (pl_pending q) \<rparr>)"
      by (rule pending_taken [OF m False])
    define p1 where "p1 = q\<lparr> pl_pending := remove1 pc (pl_pending q) \<rparr>"
    define c where "c = captured\<lparr> wk_popularity := wk_popularity pc, wk_followers := wk_followers pc \<rparr>"
    have urls: "clip_urls (c\<lparr> wk_verified := v \<rparr>) = clip_urls pc" "clip_urls c = clip_urls pc" for v
      using pc(2) by (simp_all add: c_def clip_urls_def)
    have size1: "wk_popularity (c\<lparr> wk_verified := v \<rparr>) = cluster_size (c\<lparr> wk_verified := v \<rparr>)" "wk_popularity c = cluster_size c" for v
      using pc(3) by (simp_all add: c_def cluster_size_def)
    have m1: "midway [] [] (clip_urls pc @ []) p1" using pc(4) by (simp add: p1_def)
    have owned: "clip_owned p1 (c\<lparr> wk_verified := v \<rparr>)" "clip_owned p1 c" for v
      using midway_clip [OF m1] urls size1 by auto
    have finish: "pipeline_ok p2" if "settles (clip_urls pc) p1 p2" for p2
      using midway_settles [OF m1 that] by (simp add: pipeline_ok_midway)
    have promote: "pipeline_ok (dedup_and_promote e (c\<lparr> wk_verified := v \<rparr>) vo p1)" for v vo
      unfolding dedup_and_promote_def if_P [OF service_flags(4) [OF assms(1)]]
      using settles_dedup_and_commit [OF owned(1) service_flags(5) [OF assms(1)]] by (intro finish) (simp add: urls)
    have close: "pipeline_ok (delete_staging e k (fail_exact_cluster e c reason detail p1))"
      "pipeline_ok (delete_staging e k (reject_exact_cluster e c reason detail p1))" for k reason detail
      using settles_then_quiet [OF settles_reject_cluster(1) [OF service_flags(2) [OF assms(1)] owned(2)] settles_delete_staging]
        settles_then_quiet [OF settles_reject_cluster(2) [OF service_flags(2) [OF assms(1)] owned(2)] settles_delete_staging]
      by (auto intro!: finish simp: urls)
    have stuck: "pipeline_ok (set_terminal_error err p1)" for err by (rule finish [OF settles_error])
    show ?thesis
      using False pc(1) promote close stuck
      by (cases r) (simp_all add: on_vision_done_def same Let_def p1_def [symmetric] c_def [symmetric])
  qed
qed

section \<open>Runs\<close>

text \<open>The producer spawns each URL once, until its search is over; the selector delivers a result that is
  ready; the workflow can be cancelled at any time.\<close>

inductive pipeline_reachable :: "pipeline_env \<Rightarrow> pipeline \<Rightarrow> bool" for e where
  start: "pipeline_reachable e (restore_assets e restored aliases new_pipeline)"
| spawn: "pipeline_reachable e p \<Longrightarrow> \<not> pl_search_done p \<Longrightarrow> ce_url evidence \<notin> set (candidate_urls_of p) \<Longrightarrow>
    pipeline_reachable e (spawn_candidate e evidence p)"
| deliver: "pipeline_reachable e p \<Longrightarrow> f \<in> set (pl_futures p) \<Longrightarrow> callback e f r = Some step \<Longrightarrow> stages_apart p r \<Longrightarrow>
    pipeline_reachable e (step (take_future f p))"
| finish: "pipeline_reachable e p \<Longrightarrow> pipeline_reachable e (finish_search err p)"
| cancel: "pipeline_reachable e p \<Longrightarrow> pipeline_reachable e (p\<lparr> pl_canceled := True \<rparr>)"

fun_cases callback_cases: "callback e f r = Some step"

lemma new_pipeline_ok: "pipeline_ok new_pipeline"
proof -
  have "at_work new_pipeline = {#}" "settled_urls new_pipeline = []" "candidate_urls_of new_pipeline = []"
    by (simp_all add: at_work_def new_pipeline_def claims_urls_def settled_urls_def candidate_urls_of_def)
  then have "owned_ok [] new_pipeline"
    by (simp add: owned_ok_def once_def keyed_def) (simp add: new_pipeline_def)
  then show ?thesis
    by (simp add: pipeline_ok_def futures_ok_def clips_ok_def hashing_keys_def vision_places_def child_free_def staging_keys_def)
      (simp add: new_pipeline_def)
qed

lemma started_ok: "pipeline_ok (restore_assets e restored aliases new_pipeline)"
  using midway_quiet [OF _ keeps_work_settles [OF keeps_work_restore]] new_pipeline_ok
  by (simp add: pipeline_ok_midway)

lemma spawn_ok:
  assumes "service_ok e" "pipeline_ok p" "ce_url evidence \<notin> set (candidate_urls_of p)"
  shows "pipeline_ok (spawn_candidate e evidence p)"
proof (cases "pl_canceled p \<or> ce_url evidence = ''''")
  case True
  then show ?thesis using assms(2) by (auto simp: spawn_candidate_def Let_def)
next
  case False
  define url where "url = ce_url evidence"
  define own where "own = \<lparr> ow_evidence = evidence, ow_state = CandidateInFlight, ow_raw_md5 = '''' \<rparr>"
  define p1 where "p1 = p\<lparr> pl_candidates := pl_candidates p @ [(url, own)], pl_spawned := pl_spawned p + 1 \<rparr>"
  have new: "url \<notin> fst ` set (pl_candidates p)" using assms(3) by (simp add: url_def candidate_urls_of_def)
  have append: "k \<notin> fst ` set xs \<Longrightarrow> AList.update k v xs = xs @ [(k, v)]" for k v and xs :: "(go_string \<times> ownership) list"
    by (induction xs) auto
  obtain call where out: "spawn_candidate e evidence p = schedule call (DownloadFuture url) p1" "settled_by call = []"
    using False service_flags(1,2) [OF assms(1)] append [OF new, of own]
    by (simp add: spawn_candidate_def Let_def p1_def url_def own_def)
  have ok: "futures_ok p" "clips_ok p" "owned_ok [] p" using assms(2) by (simp_all add: pipeline_ok_def)
  have p1: "at_work p1 = at_work p" "settled_urls p1 = settled_urls p" "candidate_urls_of p1 = candidate_urls_of p @ [url]"
    "undisturbed p1 = undisturbed p"
    by (simp_all add: p1_def at_work_def settled_urls_def candidate_urls_of_def undisturbed_def)
  have kept: "candidate_done p u \<Longrightarrow> candidate_done p1 u" for u
    by (auto simp: candidate_done_def p1_def map_add_Some_iff)
  have fresh: "url \<notin># at_work p" "url \<notin> set (settled_urls p)" "url \<notin> set (candidate_urls_of p)"
    using ok(3) assms(3) by (auto simp: owned_ok_def url_def)
  have "owned_ok [url] p1"
    unfolding owned_ok_def p1
  proof (intro conjI impI)
    show "once (at_work p + mset [url] + mset (settled_urls p))"
      using ok(3) fresh unfolding owned_ok_def once_def
      by (auto simp: not_in_iff simp flip: count_mset_0_iff)
    show "set_mset (at_work p) \<union> set [url] \<union> set (settled_urls p) \<subseteq> set (candidate_urls_of p @ [url])"
      using ok(3) by (auto simp: owned_ok_def)
    show "keyed p1"
      using ok(3) False fresh(3) by (auto simp: owned_ok_def keyed_def p1(3)) (auto simp: p1_def url_def own_def)
    show "\<forall>u\<in>set (candidate_urls_of p @ [url]). u \<in># at_work p \<or> u \<in> set [url] \<or> candidate_done p1 u \<and> u \<in> set (settled_urls p)"
      if "undisturbed p"
      using ok(3) that kept by (auto simp: owned_ok_def)
  qed
  moreover have "owners_due [] [] p1" "clips_ok p1"
    using ok(1,2) by (simp_all add: owners_due_def futures_ok_def hashing_keys_def vision_places_def child_free_def p1_def clips_ok_def staging_keys_def)
  ultimately have "midway [] [] [url] p1" by (simp add: midway_def)
  then have "midway [] [] [] (schedule call (DownloadFuture url) p1)"
    using midway_schedule [of "DownloadFuture url" "[]" "[]" "[]" p1 call] out(2) by simp
  then show ?thesis by (simp add: out(1) pipeline_ok_midway)
qed

lemma finished_ok:
  assumes "pipeline_ok p"
  shows "pipeline_ok (finish_search err p)"
  unfolding pipeline_ok_midway
proof (rule midway_move [OF assms [unfolded pipeline_ok_midway]])
  show "owners_due [] [] (finish_search err p)" "clips_ok (finish_search err p)"
    using assms
    by (simp_all add: pipeline_ok_def futures_ok_def owners_due_def clips_ok_def finish_search_def hashing_keys_def
        vision_places_def child_free_def staging_keys_def)
qed (simp_all add: finish_search_def at_work_def settled_urls_def undisturbed_def)

lemma canceled_ok:
  assumes "pipeline_ok p"
  shows "pipeline_ok (p\<lparr> pl_canceled := True \<rparr>)"
  unfolding pipeline_ok_midway
proof (rule midway_move [OF assms [unfolded pipeline_ok_midway]])
  show "owners_due [] [] (p\<lparr> pl_canceled := True \<rparr>)" "clips_ok (p\<lparr> pl_canceled := True \<rparr>)"
    using assms by (simp_all add: pipeline_ok_def futures_ok_def owners_due_def clips_ok_def child_free_def staging_keys_def)
qed (simp_all add: at_work_def settled_urls_def undisturbed_def)

lemma delivered_ok:
  assumes "service_ok e" "pipeline_ok p" "f \<in> set (pl_futures p)" "callback e f r = Some step" "stages_apart p r"
  shows "pipeline_ok (step (take_future f p))"
  using assms(4)
proof (rule callback_cases)
  fix url x
  assume "f = DownloadFuture url" "r = DownloadReply x" "step = on_download_done e url x"
  then show ?thesis using on_download_done_ok assms by simp
next
  fix url x
  assume "f = VideoFuture url"
  then show ?thesis using assms(2,3) by (simp add: pipeline_ok_def futures_ok_def child_free_def)
next
  fix key x
  assume "f = HashFuture key" "step = on_hash_done e key x"
  then show ?thesis using on_hash_done_ok assms by simp
next
  fix c x
  assume "f = VisionFuture c" "step = on_vision_done e c x"
  then show ?thesis using on_vision_done_ok assms by simp
qed

lemma reachable_ok: "pipeline_reachable e p \<Longrightarrow> service_ok e \<Longrightarrow> pipeline_ok p"
  by (induction rule: pipeline_reachable.induct) (simp_all add: started_ok spawn_ok delivered_ok finished_ok canceled_ok)

section \<open>Drained workflows\<close>

lemma drained_idle:
  assumes "pipeline_ok p" "drained p" "\<not> pl_canceled p"
  shows "at_work p = {#}"
proof -
  have "pl_futures p = []" using assms(1,2) by (simp add: pipeline_ok_def futures_ok_def drained_def)
  then have "image_mset fst (mset (pl_hashing p)) = {#}" "image_mset clip_place (mset (pl_pending p)) = {#}"
    using assms(1,3) by (simp_all add: pipeline_ok_def futures_ok_def hashing_keys_def vision_places_def)
  then show ?thesis using \<open>pl_futures p = []\<close> by (simp add: at_work_def claims_urls_def)
qed

lemma drained_candidates:
  assumes "pipeline_ok p" "drained p" "undisturbed p"
  shows "set (candidate_urls_of p) = set (settled_urls p)" "\<forall>url\<in>set (candidate_urls_of p). candidate_done p url"
proof -
  have "at_work p = {#}" using drained_idle assms by (simp add: undisturbed_def)
  then show "set (candidate_urls_of p) = set (settled_urls p)" "\<forall>url\<in>set (candidate_urls_of p). candidate_done p url"
    using assms(1,3) by (auto simp: pipeline_ok_def owned_ok_def)
qed

lemma reachable_settled_distinct:
  assumes "pipeline_ok p"
  shows "distinct (settled_urls p)" "distinct (candidate_urls_of p)"
proof -
  have "once (at_work p + mset [] + mset (settled_urls p))" using assms by (simp add: pipeline_ok_def owned_ok_def)
  then have "once (mset (settled_urls p))" by (rule once_mono) simp
  then show "distinct (settled_urls p)" by (simp flip: once_mset)
  show "distinct (candidate_urls_of p)" using assms by (simp add: pipeline_ok_def owned_ok_def keyed_def)
qed

lemma reachable_hash_keys:
  assumes "pipeline_ok p" "\<not> pl_canceled p"
  shows "distinct (concat (map hash_keys (pl_futures p)))"
proof -
  have "mset (concat (map hash_keys (pl_futures p))) = mset (map fst (pl_hashing p))"
    using assms by (simp add: pipeline_ok_def futures_ok_def hashing_keys_def)
  from mset_eq_imp_distinct_iff [OF this] show ?thesis using assms(1) by (simp add: pipeline_ok_def clips_ok_def)
qed

lemma drained_settled:
  assumes "service_ok e" "pipeline_reachable e p" "drained p" "undisturbed p"
  shows "mset (settled_urls p) = mset (candidate_urls_of p)"
proof -
  have ok: "pipeline_ok p" by (rule reachable_ok [OF assms(2,1)])
  show ?thesis
    using reachable_settled_distinct [OF ok] drained_candidates(1) [OF ok assms(3,4)] by (simp add: set_eq_iff_mset_eq_distinct)
qed

lemma drained_result:
  assumes "service_ok e" "pipeline_reachable e p" "drained p" "undisturbed p"
  shows "run_result e p = pl_search_err p"
proof -
  have ok: "pipeline_ok p" by (rule reachable_ok [OF assms(2,1)])
  have distinct: "distinct (map fst (pl_candidates p))"
    using reachable_settled_distinct(2) [OF ok] by (simp add: candidate_urls_of_def)
  have "ow_state own = CandidateTerminal" if "(url, own) \<in> set (pl_candidates p)" for url own
  proof -
    have "candidate_done p url"
      using drained_candidates(2) [OF ok assms(3,4)] that by (force simp: candidate_urls_of_def)
    then show ?thesis using that distinct by (auto simp: candidate_done_def)
  qed
  then have "\<not> list_ex (\<lambda>(_, own). ow_state own \<noteq> CandidateTerminal) (pl_candidates p)"
    by (auto simp: list_ex_iff)
  then show ?thesis using assms(4) by (simp add: run_result_def undisturbed_def)
qed

section \<open>A run\<close>

definition run_config :: pipeline_config where
  "run_config = \<lparr> pg_max_hamming = 10, pg_min_run = 2, pg_max_gaps = 1, pg_long_max_hamming = 0, pg_long_min_run = 0,
     pg_long_max_gaps = 0, pg_terminal_video_failures = True, pg_pre_hash_claim = True, pg_durable_candidates = True,
     pg_durable_download_failures = True, pg_durable_vision_failures = True, pg_defer_followers = True,
     pg_atomic_placement = True, pg_canonical_aliases = True, pg_cadence = True, pg_variant_evidence = True,
     pg_preserve_incumbents = True, pg_durable_validation = False, pg_reversible_selection = False,
     pg_event_update_contract = True, pg_media_identity = True \<rparr>"

definition run_env :: pipeline_env where
  "run_env = \<lparr> pe_in = \<lparr> ei_event_id = 7, ei_fixture_id = 11, ei_player = ''Saka'', ei_team = ''Arsenal'', ei_team_id = 42,
       ei_minute = 23, ei_extra = None \<rparr>,
     pe_cfg = run_config, pe_act = (\<lambda>_ _. (None, False)),
     pe_commit = (\<lambda>_ cmd. (Inr \<lparr> po_winner = pq_winner cmd, po_share = ''s'', po_winner_created = True,
       po_observed_created = True, po_announce = True, po_event_removed = False, po_selection = None \<rparr>, False)),
     pe_promote = (\<lambda>_ _. (Inr \<lparr> mo_asset = 9, mo_minted = True \<rparr>, False)),
     pe_asset_uuid = (\<lambda>event md5. event + of_nat (length md5)), pe_selection_uuid = (\<lambda>_. 3), pe_uuid_text = (\<lambda>_. ''id''),
     pe_claim_order = (\<lambda>claims. claims) \<rparr>"

definition run_evidence :: "go_string \<Rightarrow> candidate_evidence" where
  "run_evidence url = \<lparr> ce_event_id = 7, ce_fixture_id = 11, ce_attempt = 1, ce_query = ''q'', ce_url = url, ce_text = '''',
     ce_page = '''', ce_duration = 0, ce_username = '''', ce_age = 0 \<rparr>"

definition run_download :: "go_string \<Rightarrow> download_output" where
  "run_download staging = \<lparr> do_outcome = ''passed'', do_reject_reason = '''', do_md5 = ''m'', do_fingerprint = '''',
     do_staging = staging, do_width = 1280, do_height = 720, do_duration_ms = 9000, do_bitrate = 0, do_frame_rate = 0,
     do_size = 100 \<rparr>"

definition run_hash :: hash_output where
  "run_hash = \<lparr> ho_outcome = ''passed'', ho_reject_reason = '''', ho_version = '''', ho_frames = [1, 2, 3] \<rparr>"

text \<open>Two posts of the same media, one hash, one verdict, one placement for both.\<close>

definition run_spawned :: pipeline where
  "run_spawned = spawn_candidate run_env (run_evidence ''b'') (spawn_candidate run_env (run_evidence ''a'')
     (restore_assets run_env [] [] new_pipeline))"

definition run_claimed :: pipeline where
  "run_claimed = on_download_done run_env ''b'' (Inr (run_download ''sb'')) (take_future (DownloadFuture ''b'')
     (on_download_done run_env ''a'' (Inr (run_download ''sa'')) (take_future (DownloadFuture ''a'') run_spawned)))"

definition run_hashed :: pipeline where
  "run_hashed = on_hash_done run_env ''m'' (Inr run_hash) (take_future (HashFuture ''m'') (finish_search None run_claimed))"

definition run_placed :: pipeline where
  "run_placed = (case pl_futures run_hashed of
     f # _ \<Rightarrow> (case callback run_env f (VisionReply (Inr (no_verdict\<lparr> vo_outcome := ''verified'' \<rparr>))) of
        Some step \<Rightarrow> step (take_future f run_hashed) | None \<Rightarrow> run_hashed)
   | [] \<Rightarrow> run_hashed)"

lemma run_env_ok: "service_ok run_env"
  by (simp add: service_ok_def current_history_def cancel_is_final_def claim_order_total_def run_env_def run_config_def)

lemma run_spawned_reachable: "pipeline_reachable run_env run_spawned"
  unfolding run_spawned_def
proof (rule spawn)
  show "pipeline_reachable run_env (spawn_candidate run_env (run_evidence ''a'') (restore_assets run_env [] [] new_pipeline))"
    by (rule spawn [OF start]) code_simp+
qed code_simp+

lemma run_claimed_reachable: "pipeline_reachable run_env run_claimed"
proof -
  have one: "pipeline_reachable run_env
      (on_download_done run_env ''a'' (Inr (run_download ''sa'')) (take_future (DownloadFuture ''a'') run_spawned))"
    by (rule deliver [OF run_spawned_reachable _ callback.simps(1)]) code_simp+
  show ?thesis
    unfolding run_claimed_def by (rule deliver [OF one _ callback.simps(1)]) code_simp+
qed

lemma run_hashed_reachable: "pipeline_reachable run_env run_hashed"
  unfolding run_hashed_def
  by (rule deliver [OF finish [OF run_claimed_reachable] _ callback.simps(3)]) code_simp+

lemma run_placed_reachable: "pipeline_reachable run_env run_placed"
proof -
  have "length (pl_futures run_hashed) = 1" by code_simp
  then obtain f where f: "pl_futures run_hashed = [f]" by (cases "pl_futures run_hashed") auto
  have "callback run_env (hd (pl_futures run_hashed)) (VisionReply (Inr (no_verdict\<lparr> vo_outcome := ''verified'' \<rparr>))) \<noteq> None"
    by code_simp
  then obtain step where step: "callback run_env f (VisionReply (Inr (no_verdict\<lparr> vo_outcome := ''verified'' \<rparr>))) = Some step"
    by (auto simp: f)
  have "run_placed = step (take_future f run_hashed)" by (simp add: run_placed_def f step)
  then show ?thesis using deliver [OF run_hashed_reachable _ step] f by simp
qed

lemma run_placed_facts: "drained run_placed" "undisturbed run_placed" "settled_urls run_placed = [''a'', ''b'']"
  "candidate_urls_of run_placed = [''a'', ''b'']" "run_result run_env run_placed = None" "pl_search_err run_placed = None"
  by code_simp+

section \<open>What a run promises\<close>

text \<open>C5: An event workflow that has drained, was not cancelled and met no durable error has settled every
  candidate it spawned by exactly one durable command: each URL spawned appears once among the outcomes
  recorded and the placements committed, whatever the order in which downloads, hashes and verdicts
  arrived and however the candidates were merged.\<close>

theorem drained_run_settles_each_candidate_once:
  assumes "service_ok e" "pipeline_reachable e p" "drained p" "undisturbed p"
  shows "mset (settled_urls p) = mset (candidate_urls_of p)"
  by (rule drained_settled [OF assms])

theorem drained_run_settles_each_candidate_once_witness:
  "mset (settled_urls run_placed) = mset (candidate_urls_of run_placed)"
  by (rule drained_run_settles_each_candidate_once [OF run_env_ok run_placed_reachable run_placed_facts(1,2)])

text \<open>The workflow then ends with what the search reported. The check for candidates left in a
  non-terminal state, which guards every other end, never fires on it.\<close>

theorem drained_run_reports_the_search:
  assumes "service_ok e" "pipeline_reachable e p" "drained p" "undisturbed p"
  shows "run_result e p = pl_search_err p"
  by (rule drained_result [OF assms])

theorem drained_run_reports_the_search_witness: "run_result run_env run_placed = pl_search_err run_placed"
  by (rule drained_run_reports_the_search [OF run_env_ok run_placed_reachable run_placed_facts(1,2)])

text \<open>C12: At every point of every run, cancelled or failing ones included, no candidate is settled by two
  commands: a copy that waits behind another, a claim that fails over and a clip that collapses onto a
  placed one all hand their URLs on without writing them twice.\<close>

theorem no_candidate_settled_twice:
  assumes "service_ok e" "pipeline_reachable e p"
  shows "distinct (settled_urls p)"
  by (rule reachable_settled_distinct(1) [OF reachable_ok [OF assms(2,1)]])

theorem no_candidate_settled_twice_witness: "distinct (settled_urls run_hashed) \<and> distinct (settled_urls run_placed)"
  using no_candidate_settled_twice [OF run_env_ok run_hashed_reachable]
    no_candidate_settled_twice [OF run_env_ok run_placed_reachable] by simp

text \<open>C16: While the workflow runs, at most one dense hash of a claimed media identity is under way, failover
  to a waiting copy included.\<close>

theorem one_hash_per_claim:
  assumes "service_ok e" "pipeline_reachable e p" "\<not> pl_canceled p"
  shows "distinct (concat (map hash_keys (pl_futures p)))"
  by (rule reachable_hash_keys [OF reachable_ok [OF assms(2,1)] assms(3)])

theorem one_hash_per_claim_witness: "distinct (concat (map hash_keys (pl_futures run_claimed)))"
  by (rule one_hash_per_claim [OF run_env_ok run_claimed_reachable]) code_simp

end
