(* ===== verification/PipelineKeys.thy ===== *)
theory PipelineKeys
  imports PipelineSafety
begin

text \<open>
  Every step of the consumer in \<open>internal/workflow/event_pipeline*.go\<close> works on candidates the workflow already
  has: only a spawn adds one, a cancellation is never taken back, and only the producer ends the search. These
  facts need no invariant, so they hold on every branch, those of older histories included.
\<close>

lemma keys_update: "map_of xs k = Some v \<Longrightarrow> map fst (AList.update k w xs) = map fst xs"
  by (induction xs) auto

lemma keys_mark: "map fst (mark_terminal url xs) = map fst xs"
  by (simp add: mark_terminal_def keys_update split: option.split)

lemma keys_mark_all: "map fst (fold mark_terminal urls xs) = map fst xs"
  by (induction urls arbitrary: xs) (simp_all add: keys_mark)

text \<open>A step that is steady.\<close>

definition steady :: "pipeline \<Rightarrow> pipeline \<Rightarrow> bool" where
  "steady p p' \<longleftrightarrow> candidate_urls_of p' = candidate_urls_of p \<and> (pl_canceled p \<longrightarrow> pl_canceled p') \<and>
     pl_search_done p' = pl_search_done p \<and> pl_search_err p' = pl_search_err p"

lemma steady_refl: "steady p p" by (simp add: steady_def)

lemma steady_trans: "steady p p1 \<Longrightarrow> steady p1 p2 \<Longrightarrow> steady p p2" by (simp add: steady_def)

lemma steady_same: "pl_candidates p' = pl_candidates p \<Longrightarrow> pl_canceled p' = pl_canceled p \<Longrightarrow>
  pl_search_done p' = pl_search_done p \<Longrightarrow> pl_search_err p' = pl_search_err p \<Longrightarrow> steady p p'"
  by (simp add: steady_def candidate_urls_of_def)

lemma steady_fold: "(\<And>x p. steady p (f x p)) \<Longrightarrow> steady p (fold f xs p)"
proof (induction xs arbitrary: p)
  case (Cons x xs)
  show ?case using steady_trans [OF Cons.prems Cons.IH [OF Cons.prems]] by simp
qed (simp add: steady_refl)

lemma steady_after: "steady p1 (f p1) \<Longrightarrow> pl_candidates p1 = pl_candidates p \<Longrightarrow> pl_canceled p1 = pl_canceled p \<Longrightarrow>
  pl_search_done p1 = pl_search_done p \<Longrightarrow> pl_search_err p1 = pl_search_err p \<Longrightarrow> steady p (f p1)"
  using steady_trans [OF steady_same] by blast

section \<open>Single effects\<close>

lemma steady_perform: "steady p (fst (perform e c p))"
  by (simp add: perform_def steady_def candidate_urls_of_def split: prod.split)

lemma steady_error: "steady p (set_terminal_error err p)"
  by (simp add: set_terminal_error_def steady_same)

lemma steady_schedule: "steady p (schedule c f p)"
  by (simp add: schedule_def steady_same)

lemma candidates_perform: "pl_candidates (fst (perform e c p)) = pl_candidates p"
  by (simp add: perform_def split: prod.split)

lemma steady_record: "steady p (record_outcome e url outcome reason detail p)"
proof (cases "map_of (pl_candidates p) url")
  case None
  then show ?thesis by (simp add: record_outcome_def steady_refl steady_error steady_perform)
next
  case (Some own)
  obtain p1 r where out: "perform e (UpsertCandidateOutcome (ow_evidence own) outcome reason detail) p = (p1, r)" by fastforce
  have "steady p p1" "pl_candidates p1 = pl_candidates p"
    using steady_perform [of p e "UpsertCandidateOutcome (ow_evidence own) outcome reason detail"]
      candidates_perform [of e "UpsertCandidateOutcome (ow_evidence own) outcome reason detail" p] by (simp_all add: out)
  moreover have "steady p (p1\<lparr> pl_candidates := AList.update url (own\<lparr> ow_state := CandidateTerminal \<rparr>) (pl_candidates p1) \<rparr>)"
    using calculation Some by (simp add: steady_def candidate_urls_of_def keys_update)
  ultimately show ?thesis
    using Some by (simp add: record_outcome_def out steady_refl steady_trans [OF _ steady_error] steady_perform split: option.split)
qed

lemma steady_record_after:
  "pl_candidates p1 = pl_candidates p \<Longrightarrow> pl_canceled p1 = pl_canceled p \<Longrightarrow>
  pl_search_done p1 = pl_search_done p \<Longrightarrow> pl_search_err p1 = pl_search_err p \<Longrightarrow> steady p (record_outcome e url outcome reason detail p1)"
  by (rule steady_after [OF steady_record])

lemma steady_delete: "steady p (delete_staging e key p)"
  by (simp add: delete_staging_def steady_refl steady_perform)

lemma steady_bump: "steady p (bump_asset_popularity e k n p)"
  by (simp add: bump_asset_popularity_def steady_refl steady_perform)

lemma steady_publish: "steady p (publish_event_update e p)"
  by (simp add: publish_event_update_def steady_refl steady_perform)

lemma steady_kept: "steady p (count_kept v p)" by (simp add: count_kept_def steady_same)

lemma steady_drop: "steady p (drop_assets ids p)" by (simp add: drop_assets_def steady_same)

lemma steady_remember: "steady p (remember_exact_root e md5 k p)" by (simp add: remember_exact_root_def steady_same)

lemma steady_redirect: "steady p (redirect_exact_roots e losers k p)" by (simp add: redirect_exact_roots_def steady_same)

lemma steady_raise: "steady p (raise_popularity i n p)" by (simp add: raise_popularity_def steady_same)

lemma steady_restore: "steady p (restore_assets e restored aliases p)"
proof -
  have asset: "steady q (restore_asset e a q)" for a q
    by (rule steady_same) (simp_all add: restore_asset_def remember_exact_root_def Let_def)
  have link: "steady q (restore_alias e a q)" for a q
    by (rule steady_same) (simp_all add: restore_alias_def remember_exact_root_def Let_def)
  show ?thesis
    unfolding restore_assets_def by (rule steady_trans [OF steady_fold [OF asset] steady_fold [OF link]])
qed

lemma steady_cluster: "steady p (record_cluster e c outcome reason detail p)"
  unfolding record_cluster_def by (intro steady_fold steady_record)

lemma steady_reject_cluster: "steady p (reject_exact_cluster e c reason detail p)"
  unfolding reject_exact_cluster_def by (rule steady_after [OF steady_cluster]) simp_all

lemma steady_fail_cluster: "steady p (fail_exact_cluster e c reason detail p)"
  unfolding fail_exact_cluster_def by (rule steady_after [OF steady_cluster]) simp_all

lemma steady_duplicate_cluster: "steady p (duplicate_exact_cluster e c winner p)"
  unfolding duplicate_exact_cluster_def by (rule steady_after [OF steady_cluster]) simp_all

lemmas steady_effects = steady_refl steady_perform steady_error steady_schedule steady_record steady_delete steady_bump
  steady_publish steady_kept steady_drop steady_remember steady_redirect steady_raise steady_restore steady_cluster
  steady_reject_cluster steady_fail_cluster steady_duplicate_cluster

section \<open>Composite effects\<close>

lemma steady_called:
  "steady p (p\<lparr> pl_calls := cs, pl_canceled := (pl_canceled p \<or> stop) \<rparr>)"
  by (simp add: steady_def candidate_urls_of_def)

lemma steady_promote: "steady p (fst (promote_clip e c v p))"
proof (cases "pl_canceled p")
  case False
  define cmd where "cmd = \<lparr> pm_event_id = ei_event_id (pe_in e), pm_fixture_id = ei_fixture_id (pe_in e), pm_staging = wk_staging c,
              pm_md5 = wk_md5 c, pm_hash_version = wk_hash_version c, pm_frames = wk_frames c, pm_width = wk_width c,
              pm_height = wk_height c, pm_duration_ms = wk_duration_ms c, pm_file_size = wk_file_size c,
              pm_bitrate = wk_bitrate c, pm_frame_rate = persisted_frame_rate e c, pm_popularity = wk_popularity c,
              pm_verified = wk_verified c, pm_minute = vo_matched_minute v \<rparr>"
  obtain r stop where act: "pe_promote e (pl_calls p) cmd = (r, stop)" by fastforce
  define p1 where "p1 = p\<lparr> pl_calls := pl_calls p @ [PromoteAndPersist cmd], pl_canceled := (pl_canceled p \<or> stop) \<rparr>"
  have p1: "steady p p1" unfolding p1_def by (rule steady_called)
  show ?thesis
  proof (cases r)
    case (Inl err)
    then show ?thesis
      using p1 steady_trans [OF p1 steady_fail_cluster]
      unfolding promote_clip_def Let_def cmd_def [symmetric] act prod.case p1_def [symmetric] by (simp add: steady_refl)
  next
    case (Inr out)
    define p2 where "p2 = count_kept (wk_verified c) (remember_exact_root e (wk_md5 c) (mo_asset out)
        (p1\<lparr> pl_assets := pl_assets p1 @ [c\<lparr> wk_asset := mo_asset out \<rparr>] \<rparr>))"
    define p3 where "p3 = record_outcome e (wk_tweet_url c) ''promoted'' ''''
        (Some (promoted_detail e (mo_asset out) (wk_verified c))) p2"
    define p4 where "p4 = fold (\<lambda>url. record_outcome e url ''duplicate'' '''' (Some (winner_detail e (mo_asset out))))
        (wk_followers c) (p3\<lparr> pl_duplicates := pl_duplicates p3 + int (length (wk_followers c)) \<rparr>)"
    have "steady p1 p2"
      unfolding p2_def
      by (rule steady_trans [OF _ steady_kept], rule steady_trans [OF _ steady_remember]) (simp add: steady_same)
    moreover have "steady p2 p3" unfolding p3_def by (rule steady_record)
    moreover have "steady p3 p4" unfolding p4_def by (rule steady_trans [OF steady_same steady_fold]) (simp_all add: steady_record)
    ultimately have p4: "steady p p4" using p1 steady_trans by blast
    then show ?thesis
      using steady_trans [OF p4 steady_publish]
      unfolding promote_clip_def Let_def cmd_def [symmetric] act prod.case p1_def [symmetric] Inr sum.case p2_def [symmetric]
        p3_def [symmetric] p4_def [symmetric]
      by (simp add: steady_refl)
  qed
qed (simp add: promote_clip_def steady_refl)

lemma steady_supersede: "steady p (supersede_assets e winner losers p)"
proof (cases "losers = [] \<or> pl_canceled p")
  case False
  obtain p1 r where out: "perform e (SupersedeAssets winner losers) p = (p1, r)" by fastforce
  have p1: "steady p p1" using steady_perform [of p e "SupersedeAssets winner losers"] by (simp add: out)
  define p2 where "p2 = publish_event_update e (redirect_exact_roots e losers winner
      (p1\<lparr> pl_superseded := pl_superseded p1 + int (length losers) \<rparr>))"
  have p2: "steady p1 p2"
    unfolding p2_def
    by (rule steady_trans [OF _ steady_publish], rule steady_trans [OF _ steady_redirect]) (simp add: steady_same)
  have p3: "steady p2 (drop_assets losers (fold (\<lambda>a. record_outcome e (wk_tweet_url a) ''superseded'' '''' (Some (winner_detail e winner)))
      (filter (\<lambda>a. wk_asset a \<in> set losers) (pl_assets p2)) p2))"
    by (rule steady_trans [OF steady_fold steady_drop]) (rule steady_record)
  show ?thesis
    using False p1 steady_trans [OF p1 steady_trans [OF p2 p3]]
    by (simp add: supersede_assets_def out Let_def p2_def [symmetric] split: option.split)
qed (auto simp: supersede_assets_def steady_refl)

lemma steady_replace: "replace_selection e out k p = Ok p' \<Longrightarrow> steady p p'"
  using steady_trans [OF steady_same steady_restore]
  by (auto simp: replace_selection_def Let_def bind_result_Ok_iff)

lemma steady_selected: "steady p (record_selected_placement c w n p)"
  unfolding record_selected_placement_def Let_def
  using steady_trans [OF steady_same steady_kept] by (auto simp: steady_same)

lemma steady_candidates: "steady p (fst (placement_candidates e c w k p))"
  by (simp add: placement_candidates_def Let_def steady_refl steady_error split: option.split result.split)

lemma steady_after_placement: "steady p (fst (after_placement e c losers out p))"
proof (cases "po_event_removed out")
  case False
  define remembered where "remembered = (if pe_flag e pg_reversible_selection
           then (case po_selection out of
                   None \<Rightarrow> Err ''selection state missing after placement''
                 | Some s \<Rightarrow> replace_selection e s (po_winner out) p)
           else
             let p1 = remember_exact_root e (wk_fingerprint c) (po_winner out) (remember_exact_root e (wk_md5 c) (po_winner out) p);
                 p2 = (if wk_fingerprint c \<noteq> '''' \<and> wk_reuse c = 0
                       then p1\<lparr> pl_media_observed := (pl_media_observed p1)(wk_fingerprint c \<mapsto>
                              pe_asset_uuid e (ei_event_id (pe_in e)) (wk_md5 c)) \<rparr> else p1)
             in Ok (redirect_exact_roots e losers (po_winner out) p2))"
  have same: "pl_candidates (remember_exact_root e m k q) = pl_candidates q" "pl_canceled (remember_exact_root e m k q) = pl_canceled q"
    "pl_candidates (redirect_exact_roots e ls k q) = pl_candidates q" "pl_canceled (redirect_exact_roots e ls k q) = pl_canceled q"
    "pl_search_done (remember_exact_root e m k q) = pl_search_done q" "pl_search_done (redirect_exact_roots e ls k q) = pl_search_done q"
    "pl_search_err (remember_exact_root e m k q) = pl_search_err q" "pl_search_err (redirect_exact_roots e ls k q) = pl_search_err q"
    for m k q ls by (simp_all add: remember_exact_root_def redirect_exact_roots_def)
  have "steady p p'" if "remembered = Ok p'" for p'
    using that steady_replace
    by (auto simp: remembered_def Let_def same intro!: steady_same split: if_splits option.splits)
  then show ?thesis
    using False steady_trans [OF _ steady_publish]
    by (simp add: after_placement_def Let_def remembered_def [symmetric] steady_error split: result.split)
qed (simp add: after_placement_def steady_refl steady_same)

lemma steady_commit: "steady p (fst (commit_clip_placement e c v w k losers p))"
proof (cases "pl_canceled p")
  case False
  obtain p0 found where cand: "placement_candidates e c w k p = (p0, found)" by fastforce
  have p0: "steady p p0" using steady_candidates [of p e c w k] by (simp add: cand)
  show ?thesis
  proof (cases found)
    case (Some cs)
    define cmd where "cmd = placement_command_of e c v w k losers cs"
    obtain r stop where act: "pe_commit e (pl_calls p0) cmd = (r, stop)" by fastforce
    define p1 where "p1 = p0\<lparr> pl_calls := pl_calls p0 @ [CommitClipPlacement cmd], pl_canceled := (pl_canceled p0 \<or> stop) \<rparr>"
    have p1: "steady p p1" unfolding p1_def by (rule steady_trans [OF p0 steady_called])
    define p2 where "p2 = p1\<lparr> pl_candidates := fold mark_terminal (map (ce_url \<circ> pc_evidence) cs) (pl_candidates p1) \<rparr>"
    have p2: "steady p p2" using p1 by (simp add: steady_def p2_def candidate_urls_of_def keys_mark_all)
    show ?thesis
      using p1 steady_trans [OF p1 steady_error] steady_trans [OF p2 steady_after_placement]
      unfolding commit_clip_placement_def cand Some prod.case option.case Let_def cmd_def [symmetric] act p1_def [symmetric]
        p2_def [symmetric]
      by (simp add: steady_refl split: sum.split)
  qed (simp add: commit_clip_placement_def cand False p0)
qed (simp add: commit_clip_placement_def steady_refl)

section \<open>Deduplication\<close>

lemma steady_keep: "steady p (keep_clip c w p)"
proof -
  have "steady p (count_kept (wk_verified c) (p\<lparr> pl_assets := pl_assets p @ [c\<lparr> wk_asset := w \<rparr>] \<rparr>))"
    by (rule steady_trans [OF steady_same steady_kept]) simp_all
  then show ?thesis unfolding keep_clip_def Let_def by (rule steady_trans) (simp add: steady_same)
qed

lemma steady_winner: "steady p (commit_winner e c v matched p)"
proof -
  obtain p1 found where out: "commit_clip_placement e c v True 0 (asset_ids_at matched p) p = (p1, found)" by fastforce
  have p1: "steady p p1" using steady_commit [of p e c v True 0 "asset_ids_at matched p"] by (simp add: out)
  have kept: "steady p1 ((keep_clip d w (drop_assets losers p1))\<lparr> pl_superseded := n \<rparr>)" for d w losers n
    by (rule steady_trans [OF steady_trans [OF steady_drop steady_keep] steady_same]) simp_all
  show ?thesis
    using p1 steady_trans [OF p1 steady_selected] steady_trans [OF p1 kept]
    by (simp add: commit_winner_def Let_def out split: option.split)
qed

lemma steady_loser: "steady p (commit_loser e c v matched best p)"
proof -
  define idxs where "idxs = (if pe_flag e pg_preserve_incumbents then [] else filter (\<lambda>i. i \<noteq> best) matched)"
  obtain p1 found where out: "commit_clip_placement e c v False (wk_asset (pl_assets p ! best)) (asset_ids_at idxs p) p = (p1, found)"
    by fastforce
  have p1: "steady p p1"
    using steady_commit [of p e c v False "wk_asset (pl_assets p ! best)" "asset_ids_at idxs p"] by (simp add: out)
  have raised: "steady p1 ((drop_assets losers (raise_popularity best n p1))\<lparr> pl_duplicates := k, pl_superseded := m \<rparr>)"
    for losers n k m
    by (rule steady_trans [OF steady_trans [OF steady_raise steady_drop] steady_same]) simp_all
  show ?thesis
    using p1 steady_trans [OF p1 steady_selected] steady_trans [OF p1 raised]
    unfolding commit_loser_def idxs_def [symmetric] Let_def out prod.case by (simp split: option.split)
qed

lemma steady_dedup_commit: "steady p (dedup_and_commit e c v p)"
proof (cases "match_assets e c p")
  case Nil
  obtain p1 found where out: "commit_clip_placement e c v True 0 [] p = (p1, found)" by fastforce
  have p1: "steady p p1" using steady_commit [of p e c v True 0 "[]"] by (simp add: out)
  then show ?thesis
    using Nil steady_trans [OF p1 steady_selected] steady_trans [OF p1 steady_keep]
    by (simp add: dedup_and_commit_def out split: option.split)
qed (simp add: dedup_and_commit_def Let_def steady_winner steady_loser)

lemma steady_dedup: "steady p (dedup_and_promote e c v p)"
proof -
  have promote: "steady p (case promote_clip e c v p of (p1, None) \<Rightarrow> p1 | (p1, Some w) \<Rightarrow> supersede_assets e w losers p1)" for losers
    using steady_promote [of p e c v] steady_trans [OF _ steady_supersede]
    by (cases "promote_clip e c v p") (auto split: option.split)
  have duplicate: "steady p (supersede_assets e w losers (delete_staging e k (bump_asset_popularity e w n
      (duplicate_exact_cluster e c w (remember_exact_root e m w p)))))" for w losers k n m
    by (rule steady_trans [OF steady_trans [OF steady_trans [OF steady_trans [OF steady_remember steady_duplicate_cluster]
          steady_bump] steady_delete] steady_supersede])
  show ?thesis
    using promote duplicate
    by (simp add: dedup_and_promote_def Let_def steady_dedup_commit steady_promote split: list.split)
qed

lemma steady_onto_asset: "steady p (collapse_onto_asset e c i p)"
proof -
  define loser where "loser = settle_fingerprint p (pl_assets p ! i) c"
  obtain p1 found where out: "commit_clip_placement e loser no_verdict False (wk_asset (pl_assets p ! i)) [] p = (p1, found)"
    by fastforce
  have p1: "steady p p1"
    using steady_commit [of p e loser no_verdict False "wk_asset (pl_assets p ! i)" "[]"] by (simp add: out)
  have counted: "steady p1 (p1\<lparr> pl_duplicates := n \<rparr>)" "steady p1 ((raise_popularity i k p1)\<lparr> pl_duplicates := n \<rparr>)" for n k
    using steady_trans [OF steady_raise steady_same] by (simp_all add: steady_same)
  have legacy: "steady p (delete_staging e s (duplicate_exact_cluster e d w (bump_asset_popularity e w n p)))" for s d w n
    by (rule steady_trans [OF steady_trans [OF steady_bump steady_duplicate_cluster] steady_delete])
  show ?thesis
    using p1 steady_trans [OF p1 counted(1)] steady_trans [OF p1 counted(2)] legacy steady_error
    by (simp add: collapse_onto_asset_def Let_def loser_def [symmetric] out split: option.split)
qed

lemma steady_onto_pending: "steady p (collapse_onto_pending e c i p)"
  unfolding collapse_onto_pending_def Let_def
  by (rule steady_trans [OF _ steady_delete]) (simp add: steady_same steady_record_after)

lemma steady_collapse: "steady p (collapse_exact e c m p)"
  by (simp add: collapse_exact_def steady_refl steady_onto_asset steady_onto_pending split: exact_match.split)

section \<open>Callbacks\<close>

lemma steady_fire_hash: "steady p (fire_hash key p)"
  by (simp add: fire_hash_def steady_refl steady_schedule split: option.split)

lemma steady_fire_vision: "steady p (fire_vision e c p)"
  by (simp add: fire_vision_def steady_refl steady_schedule)

lemma steady_fire_after:
  assumes "pl_candidates p1 = pl_candidates p" "pl_canceled p1 = pl_canceled p" "pl_search_done p1 = pl_search_done p"
    "pl_search_err p1 = pl_search_err p"
  shows "steady p (fire_hash key p1)" "steady p (fire_vision e c p1)"
  using steady_trans [OF steady_same [OF assms]] steady_fire_hash steady_fire_vision by blast+

lemma steady_wait: "steady p (wait_behind key c p)"
  by (simp add: wait_behind_def steady_refl steady_same split: option.split)

lemma steady_claim: "steady p (claim_or_collapse e c p)"
  by (simp add: claim_or_collapse_def Let_def steady_wait steady_collapse steady_fire_after split: exact_match.split option.split)

lemma steady_close_clip: "steady p (close_claim_clip e outcome reason c p)"
  unfolding close_claim_clip_def
  by (rule steady_trans [OF _ steady_delete]) (simp add: steady_record_after)

lemma steady_close: "steady p (close_claim e outcome key reason claim p)"
  unfolding close_claim_def Let_def
  by (rule steady_trans [OF steady_fold steady_same]) (simp_all add: steady_close_clip)

lemma steady_merge: "steady p (snd (merge_waiting e d (w, p)))"
  unfolding merge_waiting_def Let_def prod.case snd_conv
  by (rule steady_trans [OF _ steady_delete]) (simp add: steady_refl steady_record_after)

lemma steady_merge_all: "steady p (snd (fold (merge_waiting e) ds (w, p)))"
proof (induction ds arbitrary: w p)
  case (Cons d ds)
  obtain w1 p1 where out: "merge_waiting e d (w, p) = (w1, p1)" by fastforce
  show ?case using steady_trans [OF _ Cons.IH [of p1 w1]] steady_merge [of p e d w] by (simp add: out)
qed (simp add: steady_refl)

lemma steady_hash_failed: "steady p (hash_failed e key claim p)"
proof -
  define p1 where "p1 = delete_staging e (wk_staging (hc_primary claim)) (record_outcome e (wk_tweet_url (hc_primary claim)) ''failed'' ''hash_error'' None
                 (p\<lparr> pl_failed := pl_failed p + 1 \<rparr>))"
  have p1: "steady p p1" unfolding p1_def by (rule steady_trans [OF _ steady_delete]) (simp add: steady_record_after)
  have "steady p1 (p1\<lparr> pl_hashing := hs \<rparr>)" "steady p1 (fire_hash key (p1\<lparr> pl_hashing := hs \<rparr>))" for hs
    by (simp_all add: steady_same steady_fire_after)
  then show ?thesis
    using steady_trans [OF p1] by (simp add: hash_failed_def p1_def [symmetric] split: list.split)
qed

lemma steady_hash_passed: "steady p (hash_passed e key claim out p)"
proof -
  define w0 where "w0 = (hc_primary claim)\<lparr> wk_hash_version := normalize_frame_hash_version (ho_version out), wk_frames := ho_frames out \<rparr>"
  obtain w p1 where m: "fold (merge_waiting e) (hc_waiting claim) (w0, p\<lparr> pl_passed := pl_passed p + 1 \<rparr>) = (w, p1)" by fastforce
  have "steady (p\<lparr> pl_passed := pl_passed p + 1 \<rparr>) p1"
    using steady_merge_all [of "p\<lparr> pl_passed := pl_passed p + 1 \<rparr>" e "hc_waiting claim" w0] by (simp add: m)
  then have "steady p p1" by (rule steady_trans [rotated]) (simp add: steady_same)
  then show ?thesis
    using steady_trans [of p p1, OF _ steady_fire_after(2)]
    by (simp add: hash_passed_def w0_def [symmetric] m)
qed

lemma steady_download_done: "steady p (on_download_done e url r p)"
proof -
  define q where "q = p\<lparr> pl_in_flight := pl_in_flight p - 1 \<rparr>"
  have q: "steady p q" by (simp add: q_def steady_same)
  have out: "steady q (record_outcome e url oc rs d (q\<lparr> pl_failed := n \<rparr>))"
    "steady q (record_outcome e url oc rs d (q\<lparr> pl_rejected := n \<rparr>))" for oc rs d n
    by (simp_all add: steady_record_after)
  have claim: "steady q (claim_or_collapse e c (case map_of (pl_candidates q) url of
                        None \<Rightarrow> q
                      | Some own \<Rightarrow> q\<lparr> pl_candidates := AList.update url (own\<lparr> ow_raw_md5 := wk_md5 c \<rparr>) (pl_candidates q) \<rparr>))" for c
    by (rule steady_trans [OF _ steady_claim]) (simp add: steady_def candidate_urls_of_def keys_update split: option.split)
  have "steady q (on_download_done e url r p)"
    unfolding on_download_done_def q_def [symmetric] Let_def
    using out claim steady_trans [OF out(1) steady_delete] by (simp add: steady_refl split: sum.split)
  with q show ?thesis by (rule steady_trans)
qed

lemma steady_hash_done: "steady p (on_hash_done e key r p)"
proof -
  define q where "q = p\<lparr> pl_in_flight := pl_in_flight p - 1 \<rparr>"
  have q: "steady p q" by (simp add: q_def steady_same)
  have "steady q (on_hash_done e key r p)"
    unfolding on_hash_done_def q_def [symmetric] Let_def
    by (simp add: steady_refl steady_hash_failed steady_hash_passed reject_hash_claim_def fail_hash_claim_def steady_close
        split: option.split sum.split)
  with q show ?thesis by (rule steady_trans)
qed

lemma steady_video_done: "steady p (on_video_done e url r p)"
proof -
  define q where "q = p\<lparr> pl_in_flight := pl_in_flight p - 1 \<rparr>"
  have q: "steady p q" by (simp add: q_def steady_same)
  have out: "steady q (record_outcome e u oc rs d (q\<lparr> pl_failed := n \<rparr>))"
    "steady q (record_outcome e u oc rs d (q\<lparr> pl_rejected := n \<rparr>))" "steady q (q\<lparr> pl_failed := n \<rparr>)"
    "steady q (q\<lparr> pl_passed := n \<rparr>)" for u oc rs d n
    by (simp_all add: steady_record_after steady_same)
  have fire: "steady q (fire_vision e c (q\<lparr> pl_passed := n, pl_pending := cs \<rparr>))" for c n cs
    by (simp add: steady_fire_after)
  have "steady q (on_video_done e url r p)"
    unfolding on_video_done_def q_def [symmetric] Let_def
    using out fire steady_trans [OF out(1) steady_delete] steady_trans [OF out(4) steady_collapse]
    by (simp add: steady_refl split: sum.split exact_match.split)
  with q show ?thesis by (rule steady_trans)
qed

lemma steady_vision_done: "steady p (on_vision_done e c r p)"
proof -
  define q where "q = p\<lparr> pl_in_flight := pl_in_flight p - 1 \<rparr>"
  obtain found rest where pending: "remove_pending (wk_staging c) (pl_pending q) = (found, rest)" by fastforce
  define p1 where "p1 = q\<lparr> pl_pending := rest \<rparr>"
  define d where "d = (case found of None \<Rightarrow> c | Some pc \<Rightarrow> c\<lparr> wk_popularity := wk_popularity pc, wk_followers := wk_followers pc \<rparr>)"
  have q: "steady p q" "steady p p1" by (simp_all add: q_def p1_def steady_same)
  have "steady p (on_vision_done e c r p)"
    unfolding on_vision_done_def q_def [symmetric] Let_def pending prod.case p1_def [symmetric] d_def [symmetric]
    using q steady_trans [OF q(2) steady_error] steady_trans [OF q(2) steady_dedup]
      steady_trans [OF steady_trans [OF q(2) steady_fail_cluster] steady_delete]
      steady_trans [OF steady_trans [OF q(2) steady_reject_cluster] steady_delete]
    by (simp split: sum.split)
  then show ?thesis .
qed

text \<open>Each callback is steady.\<close>

lemma callback_steady:
  assumes "callback e f r = Some step"
  shows "steady p (step (take_future f p))"
proof -
  have "steady p (take_future f p)" by (simp add: take_future_def steady_same)
  moreover have "steady q (step q)" for q
    using assms by (rule callback_cases) (simp_all add: steady_download_done steady_hash_done steady_video_done steady_vision_done)
  ultimately show ?thesis by (rule steady_trans)
qed

end
