(* ===== verification/EventFlow.thy ===== *)
theory EventFlow
  imports EventSearch PipelineKeys
begin

text \<open>
  The frame of an event workflow, the rest of \<open>internal/workflow/event.go\<close>: settings, query, recovery, the
  producer beside the consumer, the outcome, and the exit ramp. The last part shows that the producer
  keeps to what the consumer expects of it and that its searches are bounded.
\<close>

section \<open>Versions\<close>

text \<open>Whether the history of this execution carries each version marker. The ones that only choose retry
  options or a task queue are left out.\<close>

record version_marks =
  vm_terminal_failures :: bool
  vm_pre_hash_claim :: bool
  vm_durable_candidates :: bool
  vm_download_failures :: bool
  vm_availability :: bool
  vm_defer_followers :: bool
  vm_atomic_placement :: bool
  vm_canonical_aliases :: bool
  vm_cadence :: bool
  vm_variant_evidence :: bool
  vm_vision_failures :: bool
  vm_preserve_incumbents :: bool
  vm_validation :: bool
  vm_reversible :: bool
  vm_media_identity :: bool
  vm_event_update :: bool
  vm_recovery :: bool
  vm_fixed_window :: bool

definition pipeline_config_of :: "search_settings \<Rightarrow> version_marks \<Rightarrow> pipeline_config" where
  "pipeline_config_of s v =
     \<lparr> pg_max_hamming = ss_max_hamming s, pg_min_run = ss_min_run s, pg_max_gaps = ss_max_gaps s,
       pg_long_max_hamming = ss_long_max_hamming s, pg_long_min_run = ss_long_min_run s,
       pg_long_max_gaps = ss_long_max_gaps s, pg_terminal_video_failures = vm_terminal_failures v,
       pg_pre_hash_claim = vm_pre_hash_claim v, pg_durable_candidates = vm_durable_candidates v,
       pg_durable_download_failures = vm_download_failures v, pg_durable_vision_failures = vm_vision_failures v,
       pg_defer_followers = vm_defer_followers v, pg_atomic_placement = vm_atomic_placement v,
       pg_canonical_aliases = vm_canonical_aliases v, pg_cadence = vm_cadence v,
       pg_variant_evidence = vm_variant_evidence v, pg_preserve_incumbents = vm_preserve_incumbents v,
       pg_durable_validation = (vm_validation v \<and> vm_atomic_placement v \<and> vm_variant_evidence v),
       pg_reversible_selection = (vm_reversible v \<and> vm_atomic_placement v \<and> vm_variant_evidence v \<and> vm_validation v \<and>
         vm_canonical_aliases v \<and> vm_preserve_incumbents v),
       pg_event_update_contract = vm_event_update v,
       pg_media_identity = (vm_media_identity v \<and> vm_atomic_placement v \<and> vm_variant_evidence v \<and> vm_canonical_aliases v) \<rparr>"

section \<open>Recovery\<close>

text \<open>The answers of the activities around the search: those of the start and those of the exit ramp.\<close>

record event_service =
  ev_config :: "unit activity_error + search_settings"
  ev_aliases :: "unit activity_error + go_string"
  ev_assets :: "unit activity_error + restored_asset list \<times> restored_alias list"
  ev_recovery :: "int \<Rightarrow> unit activity_error + search_recovery"
  ev_complete :: "go_string \<Rightarrow> unit activity_error option"

record event_output =
  eo_event_id :: uuid
  eo_completed :: bool
  eo_attempts :: int
  eo_candidates :: int
  eo_assets :: int
  eo_outcome :: go_string
  eo_unavailable :: int
  eo_exhausted :: bool
  eo_last_state :: result_state

definition no_event_output :: "uuid \<Rightarrow> event_output" where
  "no_event_output eid = \<lparr> eo_event_id = eid, eo_completed = False, eo_attempts = 0, eo_candidates = 0, eo_assets = 0,
     eo_outcome = '''', eo_unavailable = 0, eo_exhausted = False, eo_last_state = no_result_state \<rparr>"

definition recovery_lookback :: "search_settings \<Rightarrow> int" where
  "recovery_lookback s = (if ss_max_age s \<le> 0 then 3 else ss_max_age s)"

definition recovered_window :: "bool \<Rightarrow> search_recovery \<Rightarrow> search_window option result" where
  "recovered_window fixed r =
     (if \<not> fixed then Ok None
      else case rs_window r of
          None \<Rightarrow> Err ''fixed search window missing from recovery''
        | Some w \<Rightarrow> bind_result (validate_window w) (\<lambda>_. Ok (Some (w\<lparr> sw_seen_stop := False \<rparr>))))"

definition bare_evidence :: "event_input \<Rightarrow> go_string \<Rightarrow> candidate_evidence" where
  "bare_evidence i url = \<lparr> ce_event_id = ei_event_id i, ce_fixture_id = ei_fixture_id i, ce_attempt = 0, ce_query = '''',
     ce_url = url, ce_text = '''', ce_page = '''', ce_duration = 0, ce_username = '''', ce_age = 0 \<rparr>"

text \<open>The posts an earlier execution owned are not searched again; those it left without an outcome are
  spawned again.\<close>

definition respawned :: "event_input \<Rightarrow> bool \<Rightarrow> recovery_candidate list \<Rightarrow> candidate_evidence list" where
  "respawned i durable rs =
     map (\<lambda>r. if durable then rv_evidence r else bare_evidence i (ce_url (rv_evidence r)))
       (filter (\<lambda>r. ce_url (rv_evidence r) \<noteq> '''' \<and> \<not> rv_terminal r) rs)"

definition recovered_urls :: "recovery_candidate list \<Rightarrow> go_string list" where
  "recovered_urls rs = filter (\<lambda>u. u \<noteq> '''') (map (\<lambda>r. ce_url (rv_evidence r)) rs)"

definition start_producer :: "producer_env \<Rightarrow> search_recovery \<Rightarrow> search_window option \<Rightarrow> producer" where
  "start_producer e r w =
     \<lparr> pd_attempt = rs_attempts r + 1, pd_unavailable = rs_unavailable r,
       pd_exclude = recovered_urls (rs_candidates r), pd_seen = recovered_urls (rs_candidates r), pd_window = w,
       pd_found = int (length (rs_candidates r)), pd_attempts_run = rs_attempts r, pd_unavailable_out = rs_unavailable r,
       pd_exhausted = (se_availability e \<and> max_unavailable e \<le> rs_unavailable r), pd_last_state = rs_state r,
       pd_error = None, pd_calls = [] \<rparr>"

definition no_recovery :: search_recovery where
  "no_recovery = \<lparr> rs_attempts = 0, rs_unavailable = 0, rs_state = no_result_state, rs_evidence = no_evidence,
     rs_candidates = [], rs_window = None \<rparr>"

section \<open>The start of a workflow\<close>

text \<open>A workflow fails, finishes at once with an outcome, or starts its pipeline and its producer.\<close>

datatype prepared =
    PrepareFailed go_string
  | FinishedEarly search_settings go_string
  | Started search_settings pipeline_env producer_env pipeline producer

definition event_query ::
  "(go_string \<Rightarrow> go_string) \<Rightarrow> event_input \<Rightarrow> unit activity_error + go_string \<Rightarrow> query_error + go_string" where
  "event_query ascii i aliases =
     (let canonical = (case aliases of Inl _ \<Rightarrow> '''' | Inr name \<Rightarrow> name)
      in build_query ascii (ei_player i) (if canonical = '''' then ei_team i else canonical) [])"

definition load_recovery ::
  "event_service \<Rightarrow> version_marks \<Rightarrow> search_settings \<Rightarrow> (restored_asset list \<times> restored_alias list \<times> search_recovery) result" where
  "load_recovery svc v s =
     (if \<not> vm_recovery v then Ok ([], [], no_recovery)
      else (case ev_assets svc of
          Inl _ \<Rightarrow> Err ''load assets''
        | Inr (assets, aliases) \<Rightarrow>
            (case ev_recovery svc (if vm_fixed_window v then recovery_lookback s else 0) of
              Inl _ \<Rightarrow> Err ''load recovery''
            | Inr r \<Rightarrow> Ok (assets, aliases, r))))"

definition restored_pipeline ::
  "pipeline_env \<Rightarrow> restored_asset list \<Rightarrow> restored_alias list \<Rightarrow> candidate_evidence list \<Rightarrow> pipeline" where
  "restored_pipeline pe assets aliases again = fold (spawn_candidate pe) again (restore_assets pe assets aliases new_pipeline)"

text \<open>The arguments \<open>pe\<close> and \<open>se\<close> bring the services of the consumer and the producer; their settings are
  set here.\<close>

definition consumer_env :: "pipeline_env \<Rightarrow> version_marks \<Rightarrow> event_input \<Rightarrow> search_settings \<Rightarrow> pipeline_env" where
  "consumer_env pe v i s = pe\<lparr> pe_in := i, pe_cfg := pipeline_config_of s v \<rparr>"

definition searcher_env ::
  "(uuid \<Rightarrow> go_string) \<Rightarrow> producer_env \<Rightarrow> version_marks \<Rightarrow> event_input \<Rightarrow> search_settings \<Rightarrow> go_string \<Rightarrow> producer_env" where
  "searcher_env address se v i s query =
     se\<lparr> se_in := i, se_query := query, se_address := (if ss_fleet s then address (ei_event_id i) else ''''),
       se_cfg := s, se_availability := vm_availability v, se_durable := vm_durable_candidates v,
       se_recovery := vm_recovery v \<rparr>"

definition start_event ::
  "(go_string \<Rightarrow> go_string) \<Rightarrow> (uuid \<Rightarrow> go_string) \<Rightarrow> event_service \<Rightarrow> version_marks \<Rightarrow> pipeline_env \<Rightarrow> producer_env \<Rightarrow>
   event_input \<Rightarrow> search_settings \<Rightarrow> prepared" where
  "start_event ascii address svc v pe se i s =
     (case event_query ascii i (ev_aliases svc) of
        Inl _ \<Rightarrow> FinishedEarly s ''empty_query''
      | Inr query \<Rightarrow>
          let pe1 = consumer_env pe v i s; se1 = searcher_env address se v i s query
          in (case load_recovery svc v s of
              Err err \<Rightarrow> PrepareFailed err
            | Ok (assets, aliases, r) \<Rightarrow>
                (case recovered_window (vm_fixed_window v \<and> vm_recovery v) r of
                   Err err \<Rightarrow> PrepareFailed err
                 | Ok w \<Rightarrow> Started s pe1 se1
                     (restored_pipeline pe1 assets aliases (respawned i (vm_durable_candidates v) (rs_candidates r)))
                     (start_producer se1 r w))))"

definition prepare_event ::
  "(go_string \<Rightarrow> go_string) \<Rightarrow> (uuid \<Rightarrow> go_string) \<Rightarrow> event_service \<Rightarrow> version_marks \<Rightarrow> pipeline_env \<Rightarrow> producer_env \<Rightarrow>
   event_input \<Rightarrow> prepared" where
  "prepare_event ascii address svc v pe se i =
     (case ev_config svc of
        Inl _ \<Rightarrow> PrepareFailed ''config''
      | Inr s \<Rightarrow>
          if ei_player i = '''' then FinishedEarly s ''unknown_player''
          else (case ev_aliases svc of
              Inl f \<Rightarrow> if ae_canceled f then PrepareFailed ''canceled'' else start_event ascii address svc v pe se i s
            | Inr _ \<Rightarrow> start_event ascii address svc v pe se i s))"

section \<open>The end of a workflow\<close>

definition outcome_of :: "pipeline \<Rightarrow> producer \<Rightarrow> go_string" where
  "outcome_of p d =
     (if pl_assets p \<noteq> [] then ''assets_surfaced''
      else if pl_spawned p > 0 then ''candidates_no_assets''
      else if pd_exhausted d then ''twitter_unavailable''
      else ''no_candidates'')"

definition searched_output :: "event_input \<Rightarrow> producer \<Rightarrow> event_output" where
  "searched_output i d =
     (no_event_output (ei_event_id i))\<lparr> eo_attempts := pd_attempts_run d, eo_candidates := pd_found d,
       eo_unavailable := pd_unavailable_out d, eo_exhausted := pd_exhausted d, eo_last_state := pd_last_state d \<rparr>"

datatype exit_call = MarkDownstreamComplete go_string | PublishCompletion | ReleaseFirefox

text \<open>The exit ramp. Publishing the completion and releasing the browser are best effort.\<close>

definition finalize_event ::
  "event_service \<Rightarrow> version_marks \<Rightarrow> bool \<Rightarrow> event_output \<Rightarrow> event_output \<times> go_string option \<times> exit_call list" where
  "finalize_event svc v fleet out =
     (let first = MarkDownstreamComplete (eo_outcome out) in
      case ev_complete svc (eo_outcome out) of
        Some _ \<Rightarrow> (out, Some ''mark downstream complete'', [first])
      | None \<Rightarrow> (out\<lparr> eo_completed := True \<rparr>, None,
          first # (if vm_event_update v then [PublishCompletion] else []) @ (if fleet then [ReleaseFirefox] else [])))"

text \<open>What the workflow does once the consumer has returned with or without an error.\<close>

definition conclude_event ::
  "event_service \<Rightarrow> version_marks \<Rightarrow> search_settings \<Rightarrow> event_input \<Rightarrow> go_string option \<Rightarrow> pipeline \<Rightarrow> producer \<Rightarrow>
   event_output \<times> go_string option \<times> exit_call list" where
  "conclude_event svc v s i err p d =
     (case err of
        Some e \<Rightarrow> (searched_output i d, Some e, [])
      | None \<Rightarrow> finalize_event svc v (ss_fleet s)
          ((searched_output i d)\<lparr> eo_assets := int (length (pl_assets p)), eo_outcome := outcome_of p d \<rparr>))"

definition event_workflow ::
  "(go_string \<Rightarrow> go_string) \<Rightarrow> (uuid \<Rightarrow> go_string) \<Rightarrow> event_service \<Rightarrow> version_marks \<Rightarrow> pipeline_env \<Rightarrow> producer_env \<Rightarrow>
   (pipeline_env \<Rightarrow> producer \<Rightarrow> pipeline \<Rightarrow> go_string option \<times> pipeline) \<Rightarrow> event_input \<Rightarrow>
   event_output \<times> go_string option \<times> exit_call list" where
  "event_workflow ascii address svc v pe se consume i =
     (case prepare_event ascii address svc v pe se i of
        PrepareFailed err \<Rightarrow> (no_event_output (ei_event_id i), Some err, [])
      | FinishedEarly s outcome \<Rightarrow>
          finalize_event svc v (ss_fleet s) ((no_event_output (ei_event_id i))\<lparr> eo_outcome := outcome \<rparr>)
      | Started s pe1 se1 p0 d0 \<Rightarrow>
          let d = run_search se1 d0 in (case consume pe1 d p0 of (err, p) \<Rightarrow> conclude_event svc v s i err p d))"

section \<open>What a search asks of the services\<close>

fun spawned_by :: "producer_call \<Rightarrow> go_string list" where
  "spawned_by (SpawnCandidate ev) = [ce_url ev]"
| "spawned_by _ = []"

definition spawned_urls :: "producer \<Rightarrow> go_string list" where
  "spawned_urls d = concat (map spawned_by (pd_calls d))"



lemma spawned_urls_issue [simp]: "spawned_urls (issue c d) = spawned_urls d @ spawned_by c"
  by (simp add: spawned_urls_def)

lemma spawned_urls_fold [simp]:
  "spawned_urls (fold (\<lambda>x. issue (SpawnCandidate x)) xs d) = spawned_urls d @ map ce_url xs"
  "spawned_urls (fold (\<lambda>x. issue (StoreCandidate x)) xs d) = spawned_urls d"
  by (induction xs arbitrary: d) simp_all

lemma spawned_urls_update [simp]:
  "spawned_urls (d\<lparr> pd_error := x \<rparr>) = spawned_urls d" "spawned_urls (d\<lparr> pd_found := n \<rparr>) = spawned_urls d"
  "spawned_urls (d\<lparr> pd_exhausted := y \<rparr>) = spawned_urls d" "spawned_urls (mark_seen us d) = spawned_urls d"
  "spawned_urls (d\<lparr> pd_unavailable := n, pd_unavailable_out := m \<rparr>) = spawned_urls d"
  "spawned_urls (d\<lparr> pd_attempts_run := n, pd_attempt := m \<rparr>) = spawned_urls d"
  "spawned_urls (d\<lparr> pd_last_state := st, pd_window := w \<rparr>) = spawned_urls d"
  by (simp_all add: spawned_urls_def)

















section \<open>The order of the producer is kept\<close>






section \<open>The number of searches\<close>



section \<open>What an execution starts from\<close>






section \<open>The pipeline of an execution\<close>

lemma prepared_cases:
  assumes "prepare_event ascii address svc v pe se i = Started s pe1 se1 p0 d0"
  obtains assets aliases r w query where
    "pe1 = consumer_env pe v i s" "se1 = searcher_env address se v i s query"
    "p0 = restored_pipeline pe1 assets aliases (respawned i (vm_durable_candidates v) (rs_candidates r))"
    "d0 = start_producer se1 r w" "load_recovery svc v s = Ok (assets, aliases, r)"
    "recovered_window (vm_fixed_window v \<and> vm_recovery v) r = Ok w"
proof -
  have "start_event ascii address svc v pe se i s = Started s pe1 se1 p0 d0"
    using assms by (auto simp: prepare_event_def start_event_def Let_def split: sum.splits if_splits result.splits prod.splits)
  then show ?thesis using that
    by (auto simp: start_event_def Let_def split: sum.splits result.splits prod.splits)
qed












section \<open>Why a search stops\<close>

text \<open>A step either goes on with the same error and outage flags, or stops with an error.\<close>

definition goes_on :: "producer \<Rightarrow> producer \<times> bool \<Rightarrow> bool" where
  "goes_on d r \<longleftrightarrow> (if snd r then pd_error (fst r) = pd_error d \<and> pd_exhausted (fst r) = pd_exhausted d \<and>
     same_counters d (fst r) else pd_error (fst r) \<noteq> None)"

lemma goes_on_stop: "goes_on d (stop_with err t)"
  by (simp add: goes_on_def stop_with_def)

lemma goes_on_record: "goes_on d (record_progress e a u st ev d)"
  by (simp add: record_progress_def goes_on_def stop_with_def Let_def issue_def same_counters_def searches_of_def split: option.split)

lemma goes_on_sleep: "goes_on d (sleep_between e d)"
  by (simp add: sleep_between_def goes_on_def stop_with_def Let_def issue_def same_counters_def searches_of_def split: option.split)

lemma fold_issue_flags [simp]:
  "pd_error (fold (\<lambda>x. issue (f x)) xs d) = pd_error d" "pd_exhausted (fold (\<lambda>x. issue (f x)) xs d) = pd_exhausted d"
  by (induction xs arbitrary: d) (simp_all add: issue_def)

lemma mark_seen_flags: "pd_error (mark_seen us d) = pd_error d" "pd_exhausted (mark_seen us d) = pd_exhausted d"
  by (simp_all add: mark_seen_def)

lemma goes_on_durable: "goes_on d (observe_durably e evs d)"
  using counters_durable [of d e evs]
  by (auto simp: observe_durably_def goes_on_def stop_with_def Let_def split: option.splits prod.splits)

lemma goes_on_one: "goes_on d (observe_one e ev (mark_seen us d))"
  using counters_one [of "mark_seen us d" e ev]
  by (auto simp: observe_one_def goes_on_def stop_with_def Let_def issue_def mark_seen_def same_counters_def searches_of_def split: sum.splits)

lemma goes_on_trans:
  assumes "goes_on d r" "\<And>t. r = (t, True) \<Longrightarrow> goes_on t (f t)"
  shows "goes_on d (and_then r f)"
proof (cases r)
  case (Pair t b)
  then show ?thesis using assms by (cases b) (auto simp: and_then_def goes_on_def same_counters_def)
qed

lemma goes_on_one_by_one: "goes_on d (observe_one_by_one e evs d)"
proof -
  have "goes_on d (foldl (\<lambda>r ev. and_then r (\<lambda>d. observe_one e ev (mark_seen [ce_url ev] d))) r evs)" if "goes_on d r" for r
    using that
  proof (induction evs arbitrary: r)
    case (Cons ev evs)
    have "goes_on d (and_then r (\<lambda>d. observe_one e ev (mark_seen [ce_url ev] d)))"
      by (rule goes_on_trans [OF Cons.prems goes_on_one])
    from Cons.IH [OF this] show ?case by simp
  qed simp
  from this [of "(d, True)"] show ?thesis by (simp add: observe_one_by_one_def goes_on_def same_counters_def)
qed

lemma goes_on_observe: "goes_on d (observe_videos e vs d)"
proof -
  have "goes_on d (observe_durably e evs (mark_seen us d))" for evs us
    using goes_on_durable [of "mark_seen us d" e evs]
    by (auto simp: goes_on_def same_counters_def mark_seen_flags split: if_splits)
  then show ?thesis using goes_on_one_by_one by (simp add: observe_videos_def Let_def)
qed

text \<open>The flag of an outage is set exactly when no unavailable answer is left.\<close>

definition outage :: "producer_env \<Rightarrow> producer \<Rightarrow> bool" where
  "outage e d \<longleftrightarrow> se_availability e \<and> max_unavailable e \<le> pd_unavailable d"

definition flags_ok :: "producer_env \<Rightarrow> producer \<Rightarrow> bool" where
  "flags_ok e d \<longleftrightarrow> pd_error d = None \<and> (pd_exhausted d \<longleftrightarrow> outage e d)"

lemma flags_unavailable:
  assumes "flags_ok e d" "se_availability e" "pd_unavailable d < max_unavailable e"
  shows "case search_unavailable e out state d of (t, go_on) \<Rightarrow>
    (pd_error t = None \<longrightarrow> flags_ok e t \<and> (\<not> go_on \<longrightarrow> outage e t)) \<and> (go_on \<longrightarrow> pd_error t = None)"
proof -
  define d1 where "d1 = d\<lparr> pd_unavailable := pd_unavailable d + 1, pd_unavailable_out := pd_unavailable d + 1 \<rparr>"
  obtain d2 b where rec: "record_progress e (pd_attempt d1 - 1) (pd_unavailable d1) state (Some (su_evidence out)) d1 = (d2, b)"
    by fastforce
  have r: "goes_on d1 (d2, b)" using goes_on_record [of d1 e] rec by metis
  have d1: "pd_error d1 = None" "pd_exhausted d1 \<longleftrightarrow> outage e d" "\<not> outage e d"
    using assms by (simp_all add: d1_def flags_ok_def outage_def)
  show ?thesis
  proof (cases b)
    case False
    then show ?thesis using r by (auto simp: search_unavailable_def Let_def d1_def [symmetric] rec and_then_def goes_on_def)
  next
    case True
    have d2: "pd_error d2 = None" "\<not> pd_exhausted d2" "pd_unavailable d2 = pd_unavailable d1"
      using r True d1 by (simp_all add: goes_on_def same_counters_def)
    obtain t c where sleep: "sleep_between e d2 = (t, c)" by fastforce
    have "goes_on d2 (t, c)" using goes_on_sleep [of d2 e] sleep by simp
    then show ?thesis
      using True d2 assms(2)
      by (cases c) (auto simp: search_unavailable_def Let_def d1_def [symmetric] rec and_then_def sleep goes_on_def flags_ok_def
          outage_def same_counters_def)
  qed
qed

lemma flags_done:
  assumes "flags_ok e d" "\<not> outage e d"
  shows "case attempt_done e out state d of (t, go_on) \<Rightarrow> if go_on then flags_ok e t else pd_error t \<noteq> None"
proof -
  obtain t b where rec: "(if se_availability e
               then record_progress e (pd_attempt d) (pd_unavailable d) state (Some (su_evidence out)) d
               else record_progress e (pd_attempt d) 0 no_result_state None d) = (t, b)" by fastforce
  have r: "goes_on d (t, b)" using goes_on_record [of d e] rec by metis
  define t1 where "t1 = t\<lparr> pd_attempts_run := pd_attempt t, pd_attempt := pd_attempt t + 1 \<rparr>"
  obtain u c where sleep: "sleep_between e t1 = (u, c)" by fastforce
  have slept: "goes_on t1 (u, c)" using goes_on_sleep [of t1 e] sleep by simp
  have out: "attempt_done e out state d =
    (if b then (if pd_attempt t1 \<le> ss_max_attempts (se_cfg e) then (u, c) else (t1, True)) else (t, False))"
    unfolding attempt_done_def rec and_then_def prod.case Let_def t1_def [symmetric] sleep by (rule refl)
  have stay: "flags_ok e t1" if b
    using r that assms by (simp add: goes_on_def same_counters_def flags_ok_def outage_def t1_def)
  have "flags_ok e u" if b c
    using slept stay that by (simp add: goes_on_def same_counters_def flags_ok_def outage_def)
  moreover have "pd_error u \<noteq> None" if "\<not> c" using slept that by (simp add: goes_on_def)
  moreover have "pd_error t \<noteq> None" if "\<not> b" using r that by (simp add: goes_on_def)
  ultimately show ?thesis unfolding out using stay by (simp split: if_split)
qed

lemma flags_search:
  assumes "flags_ok e d" "may_search e d" "search_attempt e d = (t, go_on)"
  shows "(pd_error t = None \<longrightarrow> flags_ok e t \<and> (\<not> go_on \<longrightarrow> outage e t)) \<and> (go_on \<longrightarrow> pd_error t = None)"
proof -
  define i where "i = search_input_of e d"
  define r where "r = se_search e (pd_calls d) i"
  obtain out state usable where k: "classify_search (se_availability e) r = (out, state, usable)" by (metis prod_cases3)
  define d1 where "d1 = issue (SearchTweets i) d"
  define d2 where "d2 = d1\<lparr> pd_last_state := (if se_availability e then state else pd_last_state d1),
     pd_window := next_window (isl r) out state usable (pd_window d1) \<rparr>"
  have d2: "flags_ok e d2" "\<not> outage e d2" "pd_unavailable d2 = pd_unavailable d"
    using assms(1,2) by (auto simp: d2_def d1_def issue_def flags_ok_def outage_def may_search_def)
  have un: ?thesis if "se_availability e" "search_unavailable e out state d2 = (t, go_on)"
    using flags_unavailable [OF d2(1) that(1), of out state] d2 that by (auto simp: outage_def)
  have fin: ?thesis if "attempt_done e out state u = (t, go_on)" "flags_ok e u" "\<not> outage e u" for u
    using flags_done [OF that(2,3), of out state] that(1) by (auto simp: flags_ok_def split: if_splits)
  have seen: ?thesis if "and_then (observe_videos e (su_videos out) d2) (attempt_done e out state) = (t, go_on)"
  proof -
    obtain u b where o: "observe_videos e (su_videos out) d2 = (u, b)" by fastforce
    have "goes_on d2 (u, b)" using goes_on_observe [of d2 e "su_videos out"] o by simp
    then show ?thesis
      using that fin [of u] d2 by (cases b) (auto simp: o and_then_def goes_on_def flags_ok_def outage_def same_counters_def)
  qed
  show ?thesis
    using assms(3) un fin [of d2] seen d2(1,2)
    unfolding search_attempt_def Let_def i_def [symmetric] r_def [symmetric] k d1_def [symmetric] prod.case d2_def [symmetric]
    by (cases r) (auto simp: stop_with_def split: if_splits)
qed

lemma flags_run: "flags_ok e d \<Longrightarrow> pd_error (run_search e d) = None \<Longrightarrow>
  flags_ok e (run_search e d) \<and> \<not> may_search e (run_search e d)"
proof (induction e d rule: run_search.induct)
  case (1 e d)
  obtain t go_on where step: "search_attempt e d = (t, go_on)" by fastforce
  show ?case
  proof (cases "may_search e d")
    case True
    note flags = flags_search [OF "1.prems"(1) True step]
    show ?thesis
    proof (cases go_on)
      case True
      with \<open>may_search e d\<close> step have run: "run_search e d = run_search e t" by (subst run_search.simps) simp
      show ?thesis
        using "1.IH" [OF \<open>may_search e d\<close> step [symmetric] True] flags True "1.prems"(2) unfolding run by simp
    next
      case False
      with \<open>may_search e d\<close> step have run: "run_search e d = t" by (subst run_search.simps) simp
      show ?thesis using flags False "1.prems"(2) unfolding run by (simp add: may_search_def outage_def)
    qed
  next
    case False
    then show ?thesis using "1.prems" by (simp add: run_search.simps)
  qed
qed

section \<open>What an execution promises\<close>

definition spawned_evidence :: "producer \<Rightarrow> candidate_evidence list" where
  "spawned_evidence d = concat (map (\<lambda>c. case c of SpawnCandidate ev \<Rightarrow> [ev] | _ \<Rightarrow> []) (pd_calls d))"







section \<open>Bounds of a search\<close>


text \<open>C19: A search that reports no error stopped for one of two reasons, and says which: it made its last
  attempt, or, when the service counts outages, as many probes as allowed found it unavailable, and then
  alone the outage is reported as exhausted.\<close>

theorem search_stops_for_a_reason:
  assumes "prepare_event ascii address svc v pe se i = Started s pe1 se1 p0 d0" "pd_error (run_search se1 d0) = None"
  shows "(ss_max_attempts s < pd_attempt (run_search se1 d0) \<or> pd_exhausted (run_search se1 d0)) \<and>
    (pd_exhausted (run_search se1 d0) \<longleftrightarrow>
      vm_availability v \<and> max_unavailable se1 \<le> pd_unavailable (run_search se1 d0))"
proof -
  from assms(1) obtain r w query where parts: "se1 = searcher_env address se v i s query" "d0 = start_producer se1 r w"
    by (rule prepared_cases)
  have "flags_ok se1 d0" by (simp add: parts(2) flags_ok_def outage_def start_producer_def)
  from flags_run [OF this assms(2)] have "flags_ok se1 (run_search se1 d0)" "\<not> may_search se1 (run_search se1 d0)"
    by simp_all
  then show ?thesis
    by (auto simp: flags_ok_def outage_def may_search_def parts(1) searcher_env_def)
qed

section \<open>An execution\<close>

text \<open>An execution that recovers one post without an outcome and whose one search finds it again with a new
  one; both downloads fail.\<close>

definition demo_marks :: version_marks where
  "demo_marks = \<lparr> vm_terminal_failures = True, vm_pre_hash_claim = True, vm_durable_candidates = True,
     vm_download_failures = True, vm_availability = True, vm_defer_followers = True, vm_atomic_placement = True,
     vm_canonical_aliases = True, vm_cadence = True, vm_variant_evidence = True, vm_vision_failures = True,
     vm_preserve_incumbents = True, vm_validation = True, vm_reversible = True, vm_media_identity = True,
     vm_event_update = True, vm_recovery = True, vm_fixed_window = True \<rparr>"

definition demo_settings :: search_settings where
  "demo_settings = \<lparr> ss_max_attempts = 1, ss_max_unavailable = 2, ss_spacing = seconds 60, ss_max_age = 3,
     ss_timeout = minutes 2, ss_max_hamming = 12, ss_min_run = 30, ss_max_gaps = 3, ss_long_max_hamming = 16,
     ss_long_min_run = 50, ss_long_max_gaps = 5, ss_fleet = False \<rparr>"

definition demo_db :: search_db where
  "demo_db = \<lparr> vd_events = [new_event 7 11 \<lparr> et_id = 42, et_name = ''Arsenal'' \<rparr> no_player TypeGoal ''Normal Goal'' 23 None 1 5],
     vd_assets = [], vd_shares = [], vd_validations = [], sd_sources = [observation_row 1 6 (run_evidence ''a'')],
     kd_rows = [\<lparr> ck_event_id = 7, ck_type = ''discovery'', ck_workflow = ''w'', ck_attempts = None, ck_unavailable = Some 1,
       ck_state = None, ck_evidence = None, ck_window = None, ck_completed_at = None, ck_outcome = None \<rparr>] \<rparr>"

definition demo_failure :: "'d activity_error" where
  "demo_failure = \<lparr> ae_canceled = False, ae_application = None, ae_timeout = None \<rparr>"

definition demo_service :: event_service where
  "demo_service = \<lparr> ev_config = Inr demo_settings, ev_aliases = Inr '''', ev_assets = Inr ([], []),
     ev_recovery = (\<lambda>n. case load_recovery_state (\<lambda>_ _. True) 7 ''discovery'' ''w'' n demo_db of
       Ok (_, r) \<Rightarrow> Inr r | Err _ \<Rightarrow> Inl demo_failure), ev_complete = (\<lambda>_. None) \<rparr>"

definition demo_video :: "go_string \<Rightarrow> video_ref" where
  "demo_video url = \<lparr> vr_url = url, vr_text = '''', vr_page = '''', vr_duration = 0, vr_username = '''', vr_age = 0 \<rparr>"

definition demo_searcher :: producer_env where
  "demo_searcher = \<lparr> se_in = pe_in run_env, se_query = '''', se_address = '''', se_workflow = ''w'', se_cfg = demo_settings,
     se_availability = False, se_durable = False, se_recovery = False,
     se_search = (\<lambda>_ _. Inr (no_output\<lparr> su_videos := [demo_video ''b'', demo_video ''a''], su_count := 2,
       su_state := ResultRendered, su_stop := ''age'' \<rparr>)),
     se_store = (\<lambda>_ _. Inr True), se_record = (\<lambda>_ _. None), se_sleep = (\<lambda>_ _. None) \<rparr>"

definition demo_pipeline_env :: pipeline_env where
  "demo_pipeline_env = consumer_env run_env demo_marks (pe_in run_env) demo_settings"

definition demo_search_env :: producer_env where
  "demo_search_env = searcher_env (\<lambda>_. '''') demo_searcher demo_marks (pe_in run_env) demo_settings
     (case event_query (\<lambda>s. s) (pe_in run_env) (Inr '''') of Inl _ \<Rightarrow> '''' | Inr q \<Rightarrow> q)"

definition demo_recovery :: search_recovery where
  "demo_recovery = (case load_recovery_state (\<lambda>_ _. True) 7 ''discovery'' ''w'' 3 demo_db of Ok (_, r) \<Rightarrow> r | Err _ \<Rightarrow> no_recovery)"

definition demo_window :: "search_window option" where
  "demo_window = (case recovered_window True demo_recovery of Ok w \<Rightarrow> w | Err _ \<Rightarrow> None)"

definition demo_start :: pipeline where
  "demo_start = restored_pipeline demo_pipeline_env [] [] (respawned (pe_in run_env) True (rs_candidates demo_recovery))"

definition demo_producer :: producer where
  "demo_producer = start_producer demo_search_env demo_recovery demo_window"

lemma demo_facts:
  "\<exists>q. event_query (\<lambda>s. s) (pe_in run_env) (Inr '''') = Inr q"
  "\<exists>db r. load_recovery_state (\<lambda>_ _. True) 7 ''discovery'' ''w'' 3 demo_db = Ok (db, r)"
  "\<exists>w. recovered_window True demo_recovery = Ok w"
proof -
  have "case event_query (\<lambda>s. s) (pe_in run_env) (Inr '''') of Inl _ \<Rightarrow> False | Inr _ \<Rightarrow> True" by code_simp
  then show "\<exists>q. event_query (\<lambda>s. s) (pe_in run_env) (Inr '''') = Inr q" by (auto split: sum.splits)
  have "case load_recovery_state (\<lambda>_ _. True) 7 ''discovery'' ''w'' 3 demo_db of Ok _ \<Rightarrow> True | Err _ \<Rightarrow> False" by code_simp
  then show "\<exists>db r. load_recovery_state (\<lambda>_ _. True) 7 ''discovery'' ''w'' 3 demo_db = Ok (db, r)" by (auto split: result.splits)
  have "case recovered_window True demo_recovery of Ok _ \<Rightarrow> True | Err _ \<Rightarrow> False" by code_simp
  then show "\<exists>w. recovered_window True demo_recovery = Ok w" by (auto split: result.splits)
qed

lemma demo_prepared:
  "prepare_event (\<lambda>s. s) (\<lambda>_. '''') demo_service demo_marks run_env demo_searcher (pe_in run_env) =
     Started demo_settings demo_pipeline_env demo_search_env demo_start demo_producer"
proof -
  obtain q db r w where facts: "event_query (\<lambda>s. s) (pe_in run_env) (Inr '''') = Inr q"
    "load_recovery_state (\<lambda>_ _. True) 7 ''discovery'' ''w'' 3 demo_db = Ok (db, r)" "recovered_window True demo_recovery = Ok w"
    using demo_facts by blast
  have recovered: "demo_recovery = r" by (simp add: demo_recovery_def facts(2))
  have answers: "ev_config demo_service = Inr demo_settings" "ev_aliases demo_service = Inr ''''"
    "ev_assets demo_service = Inr ([], [])" "ev_recovery demo_service 3 = Inr r"
    by (simp_all add: demo_service_def facts(2))
  have marks: "vm_recovery demo_marks" "vm_fixed_window demo_marks" "vm_durable_candidates demo_marks"
    by (simp_all add: demo_marks_def)
  have named: "ei_player (pe_in run_env) \<noteq> ''''" by (simp add: run_env_def)
  have "recovery_lookback demo_settings = 3" by (simp add: recovery_lookback_def demo_settings_def)
  then have loaded: "load_recovery demo_service demo_marks demo_settings = Ok ([], [], r)"
    by (simp add: load_recovery_def marks answers)
  have window: "recovered_window True r = Ok w" using facts(3) recovered by simp
  show ?thesis
    by (simp add: prepare_event_def start_event_def Let_def answers named facts(1) loaded window marks demo_start_def demo_producer_def
        demo_window_def recovered demo_pipeline_env_def demo_search_env_def)
qed


definition demo_spawned :: pipeline where
  "demo_spawned = fold (spawn_candidate demo_pipeline_env) (spawned_evidence (run_search demo_search_env demo_producer)) demo_start"

definition demo_first :: pipeline where
  "demo_first = on_download_done demo_pipeline_env ''a'' (Inl demo_failure) (take_future (DownloadFuture ''a'') demo_spawned)"

definition demo_second :: pipeline where
  "demo_second = on_download_done demo_pipeline_env ''b'' (Inl demo_failure) (take_future (DownloadFuture ''b'') demo_first)"

definition demo_end :: pipeline where
  "demo_end = finish_search None demo_second"


lemma demo_run_values:
  "let d = run_search demo_search_env demo_producer;
       p1 = fold (spawn_candidate demo_pipeline_env) (spawned_evidence d) demo_start;
       p2 = on_download_done demo_pipeline_env ''a'' (Inl demo_failure) (take_future (DownloadFuture ''a'') p1);
       p3 = finish_search None (on_download_done demo_pipeline_env ''b'' (Inl demo_failure) (take_future (DownloadFuture ''b'') p2))
   in pd_error d = None \<and> spawned_urls d = [''b''] \<and> candidate_urls_of demo_start = [''a''] \<and> searches_of d = 1 \<and>
      turns_left demo_search_env demo_producer = 2 \<and> DownloadFuture ''a'' \<in> set (pl_futures p1) \<and>
      DownloadFuture ''b'' \<in> set (pl_futures p2) \<and> drained p3 \<and> undisturbed p3"
  by code_simp

lemma demo_values:
  "pd_error (run_search demo_search_env demo_producer) = None \<and>
   spawned_urls (run_search demo_search_env demo_producer) = [''b''] \<and> candidate_urls_of demo_start = [''a''] \<and>
   searches_of (run_search demo_search_env demo_producer) = 1 \<and> turns_left demo_search_env demo_producer = 2 \<and>
   DownloadFuture ''a'' \<in> set (pl_futures demo_spawned) \<and> DownloadFuture ''b'' \<in> set (pl_futures demo_first) \<and>
   drained demo_end \<and> undisturbed demo_end"
  using demo_run_values
  unfolding Let_def demo_spawned_def [symmetric] demo_first_def [symmetric] demo_second_def [symmetric] demo_end_def [symmetric] .

lemma demo_search:
  "pd_error (run_search demo_search_env demo_producer) = None"
  "spawned_urls (run_search demo_search_env demo_producer) = [''b'']" "candidate_urls_of demo_start = [''a'']"
  "turns_left demo_search_env demo_producer = 2" "drained demo_end" "undisturbed demo_end"
  using demo_values by blast+





theorem search_stops_for_a_reason_witness:
  "ss_max_attempts demo_settings < pd_attempt (run_search demo_search_env demo_producer) \<or>
   pd_exhausted (run_search demo_search_env demo_producer)"
  using search_stops_for_a_reason [OF demo_prepared demo_search(1)] by (rule conjunct1)

end
