(* ===== verification/PipelineProgress.thy ===== *)
theory PipelineProgress
  imports PipelineSafety
begin

text \<open>
  An event workflow drains: each result it takes leaves strictly less to wait for. A download can still
  cost a hash and a verdict, a clip that waits on a claim a hash of its own, should the ones before it
  fail, and a pending clip its verdict; what is scheduled besides is counted once more. The sum bounds the
  results a workflow still takes once its search is over.
\<close>

section \<open>What is left to do\<close>

definition work_load :: "pipeline \<Rightarrow> nat" where
  "work_load p = 3 * length (concat (map future_urls (pl_futures p))) +
     2 * length (entries claim_clips (pl_hashing p)) + length (pl_pending p)"








section \<open>Claims\<close>





lemma load_on_claims: "work_load p1 = work_load p \<Longrightarrow> pl_hashing p1 = pl_hashing p \<Longrightarrow>
  work_load (on_claims hs p1) = work_load (on_claims hs p)"
  by (simp add: work_load_def)

section \<open>Callbacks\<close>











section \<open>Runs end\<close>



end
