(* ===== verification/Reselection.thy ===== *)
theory Reselection
  imports Placement
begin

text \<open>
  Reversible selection inside the event's lock: the snapshot of \<open>video_selection_snapshot.go\<close>, its
  application and the standalone commit of \<open>video_selection_repo.go\<close>, the combined commit of
  \<open>video_placement_selection.go\<close>, and the entry point \<open>CommitClipPlacement\<close>. A receipt holds the
  decision it stored and not its JSON text.
\<close>

section \<open>Snapshots\<close>

definition earliest_validation :: "'a video_db_scheme \<Rightarrow> uuid \<Rightarrow> uuid \<Rightarrow> validation_evidence option" where
  "earliest_validation db eid k =
     (case sort_key (\<lambda>r. (vr_recorded_at r, vr_id r))
             (filter (\<lambda>r. vr_event_id r = eid \<and> vr_asset_id r = k) (vd_validations db)) of
        [] \<Rightarrow> None | r # _ \<Rightarrow> Some (vr_evidence r))"

definition event_assets :: "'a video_db_scheme \<Rightarrow> uuid \<Rightarrow> video_asset list" where
  "event_assets db eid = sort_key va_id (filter (\<lambda>a. va_event_id a = eid) (vd_assets db))"

definition event_shares :: "'a video_db_scheme \<Rightarrow> uuid \<Rightarrow> video_share list" where
  "event_shares db eid = sort_key vs_id (filter (\<lambda>s. vs_event_id s = eid) (vd_shares db))"

definition event_sources :: "'a source_db_scheme \<Rightarrow> uuid \<Rightarrow> selection_source list" where
  "event_sources db eid =
     map (\<lambda>r. \<lparr> ss_id = sr_id r,
                ss_observed = (case sr_observed r of None \<Rightarrow> 0 | Some k \<Rightarrow> k),
                ss_credited = (case sr_credited r of None \<Rightarrow> 0 | Some k \<Rightarrow> k) \<rparr>)
       (sort_key sr_id (filter (\<lambda>r. sr_event_id r = eid \<and> outcome_credited (sr_outcome r)) (sd_sources db)))"

definition load_selection :: "'a source_db_scheme \<Rightarrow> uuid \<Rightarrow> selection_snapshot result" where
  "load_selection db eid =
     (case find (\<lambda>e. ev_id e = eid) (vd_events db) of
        None \<Rightarrow> Err ''no rows''
      | Some e \<Rightarrow>
          let assets = event_assets db eid; shares = event_shares db eid in
          if \<not> set (map vs_asset_id shares) \<subseteq> set (map va_id assets) \<or> \<not> distinct (map vs_asset_id shares)
          then Err ''selection share has missing or repeated asset''
          else if \<not> set (map vr_asset_id (filter (\<lambda>r. vr_event_id r = eid) (vd_validations db))) \<subseteq> set (map va_id assets)
          then Err ''validation asset missing from snapshot''
          else Ok \<lparr> sl_event_id = eid, sl_fixture_id = ev_fixture_id e, sl_removed = ev_removed e,
            sl_nodes = map (\<lambda>a. Some \<lparr> sn_asset = a, sn_share = find (\<lambda>s. vs_asset_id s = va_id a) shares,
                              sn_validation = earliest_validation db eid (va_id a) \<rparr>) assets,
            sl_sources = event_sources db eid \<rparr>)"

section \<open>Digests\<close>

definition hex_digest :: "clip_env \<Rightarrow> go_string \<Rightarrow> go_string" where
  "hex_digest env text = hex_encode (en_sha256 env text)"

definition request_digest :: "clip_env \<Rightarrow> selection_request \<Rightarrow> go_string result" where
  "request_digest env r =
     (if rq_id r = 0 \<or> rq_event_id r = 0 \<or> rq_fixture_id r \<le> 0 \<or> \<not> digest_decodes 32 (rq_snapshot_hash r)
      then Err ''incomplete selection request''
      else if \<not> selection_policy_valid (rq_policy r) then Err ''invalid selection policy''
      else case en_request_json env (r\<lparr> rq_prepared := remdups_adj (sort (rq_prepared r)) \<rparr>) of
        None \<Rightarrow> Err ''json'' | Some text \<Rightarrow> Ok (hex_digest env text))"

definition forget_time :: "video_asset option \<Rightarrow> video_asset option" where
  "forget_time = map_option (\<lambda>a. a\<lparr> va_first_seen_at := 0 \<rparr>)"

definition placement_key :: "clip_placement \<Rightarrow> selection_request \<Rightarrow> clip_placement" where
  "placement_key p r =
     p\<lparr> cp_selection := Some (r\<lparr> rq_snapshot_hash := '''', rq_prepared := [] \<rparr>), cp_committed_at := 0,
        cp_winner := forget_time (cp_winner p), cp_variant := forget_time (cp_variant p) \<rparr>"

definition placement_digest :: "clip_env \<Rightarrow> clip_placement \<Rightarrow> selection_request \<Rightarrow> go_string result" where
  "placement_digest env p r =
     (if cp_observed p = 0 \<or> (cp_winner p \<noteq> None \<or> cp_variant p \<noteq> None) \<and> cp_validation p = None
      then Err ''selection placement requires exact attribution and new-variant validation''
      else if rq_event_id r \<noteq> cp_event_id p \<or> rq_fixture_id r \<noteq> cp_fixture_id p
      then Err ''selection placement scope mismatch''
      else bind_result (request_digest env r) (\<lambda>_.
        case en_placement_json env (placement_key p r) of
          None \<Rightarrow> Err ''json''
        | Some text \<Rightarrow> Ok (hex_digest env (''selected-placement-v1:'' @ text))))"

section \<open>Applying a plan\<close>

definition differs :: "'b option \<Rightarrow> 'b option \<Rightarrow> bool" where
  "differs a b \<longleftrightarrow> a \<noteq> b"

definition apply_owner :: "uuid \<Rightarrow> selection_owner \<Rightarrow> 'a source_db_scheme \<Rightarrow> 'a source_db_scheme" where
  "apply_owner eid owner db =
     (let successor = (if so_asset owner \<noteq> so_keeper owner then Some (so_keeper owner) else None);
          db1 = db\<lparr> vd_assets := map (\<lambda>a.
                  if va_event_id a = eid \<and> va_id a = so_asset owner \<and> differs (va_superseded_by a) successor
                  then a\<lparr> va_superseded_by := successor \<rparr> else a) (vd_assets db) \<rparr>
      in update_sources (\<lambda>r. sr_event_id r = eid \<and> sr_observed r = Some (so_asset owner) \<and>
             differs (sr_credited r) (Some (so_keeper owner)) \<and> outcome_credited (sr_outcome r))
           (\<lambda>r. r\<lparr> sr_credited := Some (so_keeper owner) \<rparr>) db1)"

definition node_of :: "selection_snapshot \<Rightarrow> uuid \<Rightarrow> selection_node option" where
  "node_of s k = find (\<lambda>n. va_id (sn_asset n) = k) (rev (map the (sl_nodes s)))"

definition apply_selected ::
  "clip_env \<Rightarrow> selection_snapshot \<Rightarrow> selected_clip \<Rightarrow> 'a source_db_scheme \<times> int \<times> (uuid \<times> go_string) list \<Rightarrow>
   ('a source_db_scheme \<times> int \<times> (uuid \<times> go_string) list) result" where
  "apply_selected env s c = (\<lambda>(db, rank, shares).
     let db1 = db\<lparr> vd_assets := map (\<lambda>a.
           if va_event_id a = sl_event_id s \<and> va_id a = sc_asset c then a\<lparr> va_popularity := sc_popularity c \<rparr> else a)
           (vd_assets db) \<rparr>
     in case Option.bind (node_of s (sc_asset c)) sn_share of
          Some sh \<Rightarrow>
            if vs_state sh = ShareActive then Ok (db1, rank, shares @ [(sc_asset c, vs_id sh)])
            else if vs_state sh \<noteq> ShareSuperseded then Err ''cannot restore removed share''
            else Ok (update_shares (\<lambda>t. vs_event_id t = sl_event_id s \<and> vs_asset_id t = sc_asset c \<and>
                       vs_state t = ShareSuperseded) (\<lambda>t. t\<lparr> vs_state := ShareActive, vs_rank := rank + 1 \<rparr>) db1,
                     rank + 1, shares @ [(sc_asset c, vs_id sh)])
        | None \<Rightarrow>
            bind_result (new_share (en_share_id env (sc_asset c)) (sc_asset c) (sl_event_id s) (sc_verified c)
                (sc_minute c) (rank + 1) (en_clock env)) (\<lambda>sh.
              if share_conflict db1 sh then Err ''video_shares: repeated key''
              else if \<not> asset_in_event db1 (sc_asset c) (sl_event_id s) then Err ''video_shares_asset_event_fkey''
              else Ok (db1\<lparr> vd_shares := vd_shares db1 @ [share_row sh] \<rparr>, rank + 1,
                       shares @ [(sc_asset c, vs_id sh)])))"

definition apply_selection ::
  "clip_env \<Rightarrow> selection_snapshot \<Rightarrow> selection_plan \<Rightarrow> 'a source_db_scheme \<Rightarrow>
   ('a source_db_scheme \<times> (uuid \<times> go_string) list) result" where
  "apply_selection env s plan db =
     (let db1 = fold (apply_owner (sl_event_id s)) (pn_owners plan) db in
      bind_result (fold_result (apply_selected env s) (pn_selected plan) (db1, max_rank db1 (sl_event_id s), []))
        (\<lambda>(db2, _, shares). Ok (db2, shares)))"

section \<open>Receipts\<close>

definition before_state :: "selection_snapshot \<Rightarrow> before_node list" where
  "before_state s =
     map (\<lambda>n. let a = sn_asset (the n) in
        \<lparr> bn_asset = va_id a, bn_superseded_by = va_superseded_by a, bn_popularity = va_popularity a,
          bn_exact_sources = int (length (filter (\<lambda>x. ss_observed x = va_id a) (sl_sources s))),
          bn_share = sn_share (the n), bn_validation = map_option ve_id (sn_validation (the n)) \<rparr>) (sl_nodes s)"

definition commit_receipt :: "clip_db \<Rightarrow> uuid \<Rightarrow> commit_row option" where
  "commit_receipt db k = find (\<lambda>c. cm_id c = k) (cl_commits db)"

definition lock_event :: "'a video_db_scheme \<Rightarrow> uuid \<Rightarrow> int \<Rightarrow> bool result" where
  "lock_event db eid fid =
     (case find (\<lambda>e. ev_id e = eid \<and> ev_fixture_id e = fid) (vd_events db) of
        None \<Rightarrow> Err ''event/fixture identity not found'' | Some e \<Rightarrow> Ok (ev_removed e))"

definition store_receipt ::
  "selection_request \<Rightarrow> go_string \<Rightarrow> go_string \<Rightarrow> selection_snapshot \<Rightarrow> selection_result \<Rightarrow>
   placement_result option \<Rightarrow> clip_db \<Rightarrow> clip_db" where
  "store_receipt r digest fingerprint s out placed db =
     db\<lparr> cl_commits := cl_commits db @ [\<lparr> cm_id = rq_id r, cm_event_id = rq_event_id r,
        cm_fixture_id = rq_fixture_id r, cm_request_hash = digest, cm_snapshot_hash = fingerprint,
        cm_policy = rq_policy r, cm_before = before_state s, cm_selection = out, cm_placement = placed \<rparr>] \<rparr>"

definition commit_selection :: "clip_env \<Rightarrow> selection_request \<Rightarrow> clip_db \<Rightarrow> (clip_db \<times> selection_result) result" where
  "commit_selection env r db =
     bind_result (request_digest env r) (\<lambda>digest.
     bind_result (lock_event db (rq_event_id r) (rq_fixture_id r)) (\<lambda>removed.
       if removed then Err ''selection event removed''
       else case commit_receipt db (rq_id r) of
         Some c \<Rightarrow>
           if cm_request_hash c \<noteq> digest then Err ''selection request ID reused with different content''
           else Ok (db, (cm_selection c)\<lparr> sx_replayed := True \<rparr>)
       | None \<Rightarrow>
           bind_result (load_selection db (rq_event_id r)) (\<lambda>snapshot.
           bind_result (selection_fingerprint (en_snapshot_json env) (en_sha256 env) snapshot) (\<lambda>fingerprint.
             if fingerprint \<noteq> rq_snapshot_hash r then Err ''stale selection snapshot''
             else
               bind_result (plan_selection (en_evidence_length env) snapshot (rq_policy r) (rq_prepared r)) (\<lambda>plan.
               bind_result (apply_selection env snapshot plan db) (\<lambda>(db1, shares).
                 let out = \<lparr> sx_plan = plan, sx_shares = shares, sx_replayed = False, sx_skipped = '''' \<rparr>
                 in Ok (store_receipt r digest fingerprint snapshot out None db1, out)))))))"

section \<open>Placement with selection\<close>

text \<open>A live asset that was reclaimed or has no active share stops the placement.\<close>

definition node_revoked :: "selection_node option \<Rightarrow> bool" where
  "node_revoked n =
     (case n of None \<Rightarrow> False
      | Some n \<Rightarrow> va_superseded_by (sn_asset n) = None \<and>
          (va_reclaimed_at (sn_asset n) \<noteq> None \<or>
           (case sn_share n of None \<Rightarrow> True | Some s \<Rightarrow> vs_state s \<noteq> ShareActive)))"

definition err_selection_credits :: go_string where
  "err_selection_credits = ''incomplete or inconsistent source attribution''"

definition incomplete_credits :: go_string where
  "incomplete_credits = ''incomplete_credits''"

definition empty_plan :: selection_plan where
  "empty_plan = \<lparr> pn_version = selection_version, pn_owners = [], pn_selected = [], pn_restored = [],
     pn_ineligible = [] \<rparr>"

text \<open>Missing attribution skips the repair and keeps the placement; any other error aborts.\<close>

definition repair_selection ::
  "clip_env \<Rightarrow> selection_request \<Rightarrow> clip_db \<Rightarrow> (clip_db \<times> selection_result) result" where
  "repair_selection env r db =
     bind_result (load_selection db (rq_event_id r)) (\<lambda>after.
       case plan_selection (en_evidence_length env) after (rq_policy r) (rq_prepared r) of
         Err e \<Rightarrow>
           if e = err_selection_credits
           then Ok (db, \<lparr> sx_plan = empty_plan, sx_shares = [], sx_replayed = False, sx_skipped = incomplete_credits \<rparr>)
           else Err e
       | Ok plan \<Rightarrow> bind_result (apply_selection env after plan db) (\<lambda>(db1, shares).
           Ok (db1, \<lparr> sx_plan = plan, sx_shares = shares, sx_replayed = False, sx_skipped = '''' \<rparr>)))"

definition place_and_select ::
  "clip_env \<Rightarrow> (uuid \<Rightarrow> go_string) \<Rightarrow> clip_placement \<Rightarrow> selection_request \<Rightarrow> clip_db \<Rightarrow>
   (clip_db \<times> placement_result) result" where
  "place_and_select env uuid_text p r db =
     bind_result (placement_digest env p r) (\<lambda>digest.
       case commit_receipt db (rq_id r) of
         Some c \<Rightarrow>
           if cm_request_hash c \<noteq> digest then Err ''selection placement ID reused with different content''
           else (case cm_placement c of
             None \<Rightarrow> Ok (db, \<lparr> px_winner = 0, px_share = '''', px_winner_created = False, px_observed_created = False,
                         px_event_removed = False, px_selection = Some ((cm_selection c)\<lparr> sx_replayed := True \<rparr>) \<rparr>)
           | Some placed \<Rightarrow> Ok (db, placed\<lparr> px_selection := Some ((cm_selection c)\<lparr> sx_replayed := True \<rparr>) \<rparr>))
       | None \<Rightarrow>
           bind_result (load_selection db (cp_event_id p)) (\<lambda>before.
           bind_result (selection_fingerprint (en_snapshot_json env) (en_sha256 env) before) (\<lambda>fingerprint.
             if fingerprint \<noteq> rq_snapshot_hash r then Err ''stale selection snapshot''
             else if list_ex node_revoked (sl_nodes before) then Err ''selected media not prepared''
             else
               bind_result (apply_placement env uuid_text p db) (\<lambda>(db1, placed).
                 if px_observed_created placed \<and> cp_observed p \<notin> set (rq_prepared r)
                 then Err ''selected media not prepared''
                 else bind_result (repair_selection env r db1) (\<lambda>(db2, selected).
                   Ok (store_receipt r digest fingerprint before selected (Some placed) db2,
                       placed\<lparr> px_selection := Some selected \<rparr>))))))"

section \<open>The entry point\<close>

definition with_commit_time :: "clip_env \<Rightarrow> clip_placement \<Rightarrow> clip_placement" where
  "with_commit_time env p = (if cp_committed_at p = 0 then p\<lparr> cp_committed_at := en_clock env \<rparr> else p)"

definition commit_placement ::
  "clip_env \<Rightarrow> (uuid \<Rightarrow> go_string) \<Rightarrow> clip_placement \<Rightarrow> clip_db \<Rightarrow> (clip_db \<times> placement_result) result" where
  "commit_placement env uuid_text raw db =
     (let p = with_commit_time env raw in
      bind_result (validate_placement (en_evidence_length env) p) (\<lambda>_.
      bind_result (lock_event db (cp_event_id p) (cp_fixture_id p)) (\<lambda>removed.
        if removed then bind_result (reject_removed env p db) (\<lambda>db'. Ok (db', removed_result))
        else case cp_selection p of
          Some r \<Rightarrow> place_and_select env uuid_text p r db
        | None \<Rightarrow> apply_placement env uuid_text p db)))"

end
