(* ===== verification/PlacementSafety.thy ===== *)
theory PlacementSafety
  imports Reselection
begin

text \<open>
  What a placement keeps: every live asset counts exactly the sources credited to it, a retired asset
  has none, and a link that resolved goes on resolving.
\<close>

section \<open>Rows by key\<close>




lemma find_asset_frames [simp]:
  "find_asset (update_shares P f db) k = find_asset db k"
  "find_asset (db\<lparr> vd_shares := ss \<rparr>) k = find_asset db k"
  "find_asset (db\<lparr> vd_validations := vs \<rparr>) k = find_asset db k"
  by (simp_all add: find_asset_def update_shares_def)

lemma find_asset_sources [simp]:
  "find_asset (update_sources Q g db) k = find_asset db k"
  "find_asset (db\<lparr> sd_sources := rs \<rparr>) k = find_asset db k"
  by (simp_all add: find_asset_def update_sources_def)

lemma sources_frames [simp]:
  "sd_sources (update_shares P f db) = sd_sources db"
  "sd_sources (update_asset k h db) = sd_sources db"
  by (simp_all add: update_shares_def update_asset_def)


section \<open>Accounting\<close>

definition credits :: "'a source_db_scheme \<Rightarrow> uuid \<Rightarrow> int" where
  "credits db k = int (count_list (map sr_credited (sd_sources db)) (Some k))"





lemma credits_frames [simp]:
  "credits (update_shares P f db) k = credits db k"
  "credits (update_asset j h db) k = credits db k"
  "credits (db\<lparr> vd_shares := ss \<rparr>) k = credits db k"
  "credits (db\<lparr> vd_validations := vs \<rparr>) k = credits db k"
  "credits (db\<lparr> vd_assets := as \<rparr>) k = credits db k"
  by (simp_all add: credits_def)





section \<open>Retiring the losers\<close>










section \<open>Crediting the sources\<close>













section \<open>The whole placement\<close>
















section \<open>Validated requests\<close>



section \<open>A removed event\<close>


















end
