(* ===== verification/PlacementLinks.thy ===== *)
theory PlacementLinks
  imports PlacementSafety
begin

text \<open>
  What a placement does to public links: a link that led to an asset still leads to it, or to the
  winner when the placement retired that asset.
\<close>

section \<open>How asset rows change\<close>

definition row_follows :: "uuid \<Rightarrow> bool \<Rightarrow> video_asset \<Rightarrow> video_asset \<Rightarrow> bool" where
  "row_follows w retired b b' \<longleftrightarrow> va_bucket b' = va_bucket b \<and> va_key b' = va_key b \<and> va_id b' = va_id b \<and>
     va_superseded_by b' = (if retired \<and> va_superseded_by b = None then Some w else va_superseded_by b)"

definition evolves :: "uuid \<Rightarrow> uuid set \<Rightarrow> 'a video_db_scheme \<Rightarrow> 'a video_db_scheme \<Rightarrow> bool" where
  "evolves w L db db' \<longleftrightarrow>
     (\<forall>j b. find_asset db j = Some b \<longrightarrow> (\<exists>b'. find_asset db' j = Some b' \<and> row_follows w (j \<in> L) b b'))"



lemma evolves_same: "find_asset db' = find_asset db \<Longrightarrow> evolves w {} db db'"
  by (simp add: evolves_def row_follows_def)

lemma evolves_refl [simp]: "evolves w {} db db"
  by (rule evolves_same) (rule refl)










section \<open>Following the chain\<close>









end
