(* ===== verification/PlacementRetry.thy ===== *)
theory PlacementRetry
  imports PlacementLinks
begin

text \<open>
  Retries: a placement leaves the tables settled for itself, and a settled placement changes nothing,
  whenever it is repeated.
\<close>

section \<open>Documents that settle\<close>


lemma map_of_put_key [simp]: "map_of (put_key k v kvs) k = Some v"
  by (induction kvs) auto

lemma key_in_put_key [simp]: "k \<in> fst ` set (put_key k v kvs)"
  using map_of_put_key [of k v kvs] by (metis domI dom_map_of_conv_image_fst)



section \<open>A settled placement\<close>




















section \<open>What later steps leave alone\<close>

text \<open>The columns of an asset that a placement never rewrites.\<close>

definition asset_core :: "video_asset \<Rightarrow> video_asset" where
  "asset_core a = a\<lparr> va_popularity := 0, va_superseded_by := None \<rparr>"

definition same_cores :: "'a video_db_scheme \<Rightarrow> 'a video_db_scheme \<Rightarrow> bool" where
  "same_cores db db' \<longleftrightarrow> map asset_core (vd_assets db') = map asset_core (vd_assets db)"



lemma same_cores_update:
  "(\<And>a. asset_core (f a) = asset_core a) \<Longrightarrow> same_cores db (update_asset k f db)"
  by (simp add: same_cores_def update_asset_def)











section \<open>What each step settles\<close>





















section \<open>The lock\<close>






section \<open>A removed event\<close>












section \<open>The retry\<close>








end
