(* ===== verification/ReconcileSafety.thy ===== *)
theory ReconcileSafety
  imports Reconcile MutationSafety "HOL-Library.Multiset"
begin

text \<open>
  What the reconciliation of a polled fixture guarantees: the planner and the mutation store agree
  on every plan, absences lead to exactly the votes, deletions and holds the code means, a retry of
  the activity repeats the committed result, and an error of one event's read is reported for the
  events after it. The first and the third combine the planner with the store's own theorems.
\<close>

section \<open>What the planner knows of the stored rows\<close>

lemma in_update: "x \<in> set (AList.update k v m) \<Longrightarrow> x \<in> set m \<or> x = (k, v)"
proof (induction m)
  case (Cons a m)
  then show ?case by (cases a) (auto split: if_splits)
qed simp

lemma rows_by_key_entry:
  "(k, e) \<in> set (rows_by_key rows) \<Longrightarrow> k = ev_natural_key e \<and> e \<in> set rows \<and> \<not> ev_removed e"
proof -
  let ?step = "\<lambda>m e. if ev_removed e then m else AList.update (ev_natural_key e) e m"
  let ?ok = "\<lambda>m. \<forall>x\<in>set m. fst x = ev_natural_key (snd x) \<and> snd x \<in> set rows \<and> \<not> ev_removed (snd x)"
  have "?ok (foldl ?step [] rows)"
  proof (rule foldl_invariant)
    fix m e assume m: "?ok m" and e: "e \<in> set rows"
    show "?ok (?step m e)"
    proof (cases "ev_removed e")
      case False
      then show ?thesis using m e in_update [of _ "ev_natural_key e" e m] by fastforce
    qed (use m in simp)
  qed simp
  then show "(k, e) \<in> set (rows_by_key rows) \<Longrightarrow> k = ev_natural_key e \<and> e \<in> set rows \<and> \<not> ev_removed e"
    unfolding rows_by_key_def by fastforce
qed

lemma rows_by_key_lookup:
  "map_of (rows_by_key rows) k = Some e \<Longrightarrow> k = ev_natural_key e \<and> e \<in> set rows \<and> \<not> ev_removed e"
  using rows_by_key_entry map_of_SomeD by fastforce

lemma rows_by_key_distinct: "distinct (map fst (rows_by_key rows))"
proof -
  have "distinct (map fst m) \<Longrightarrow>
    distinct (map fst (foldl (\<lambda>m e. if ev_removed e then m else AList.update (ev_natural_key e) e m) m rows))" for m
    by (induction rows arbitrary: m) (auto simp: distinct_update)
  then show ?thesis by (simp add: rows_by_key_def)
qed

lemma rows_by_key_complete:
  assumes "e \<in> set rows" "\<not> ev_removed e"
  shows "\<exists>e'. map_of (rows_by_key rows) (ev_natural_key e) = Some e'"
proof -
  have "(\<exists>e'. map_of m (ev_natural_key e) = Some e') \<or> e \<in> set rows \<and> \<not> ev_removed e \<Longrightarrow>
    \<exists>e'. map_of (foldl (\<lambda>m e. if ev_removed e then m else AList.update (ev_natural_key e) e m) m rows)
      (ev_natural_key e) = Some e'" for m
    by (induction rows arbitrary: m) (auto simp: update_conv)
  then show ?thesis using assms unfolding rows_by_key_def by blast
qed

section \<open>Every plan stays inside its fixture\<close>

text \<open>What each planned operation satisfies, as the plan grows.\<close>

definition plan_inv :: "int \<Rightarrow> event list \<Rightarrow> plan_state \<Rightarrow> bool" where
  "plan_inv fid rows st \<longleftrightarrow>
     (\<forall>p\<in>set (ps_inserts st). check_insert_scope fid p = Ok ()) \<and>
     (\<forall>p\<in>set (ps_presences st). check_audit_scope fid (pp_event_id p) (pp_audit p) = Ok () \<and>
        (\<exists>e\<in>set rows. pp_event_id p = ev_id e)) \<and>
     (\<forall>p\<in>set (ps_updates st). \<exists>e\<in>set rows. \<exists>fresh. pu_event_id p = ev_id e \<and> pu_fresh p = Some fresh \<and>
        ev_fixture_id fresh = fid \<and> ev_natural_key fresh = ev_natural_key e)"

lemma new_audit_scope: "new_audit k i fid p = Ok r \<Longrightarrow> au_fixture_id r = fid \<and> au_event_id r = i \<and> au_kind r = k"
  by (auto simp: new_audit_def split: if_splits)

lemma build_domain_event_fixture: "build_domain_event u f e t n at = Ok fresh \<Longrightarrow> ev_fixture_id fresh = fx_id f"
  by (auto simp: build_domain_event_def new_event_def split: if_splits)

lemma check_audit_scope_iff: "check_audit_scope fid i r = Ok () \<longleftrightarrow> au_fixture_id r = fid \<and> au_event_id r = i"
  by (simp add: check_audit_scope_def)

lemma check_insert_scope_iff:
  "check_insert_scope fid p = Ok () \<longleftrightarrow>
     (\<exists>e. pi_event p = Some e \<and> ev_fixture_id e = fid \<and>
        (\<forall>r. pi_audit p = Some r \<longrightarrow> au_fixture_id r = fid \<and> au_event_id r = ev_id e))"
  by (auto simp: check_insert_scope_def split: option.splits)

lemma plan_existing_inv:
  assumes "plan_inv fid rows st" "existing \<in> set rows" "ev_fixture_id fresh = fid"
    and "ev_natural_key fresh = ev_natural_key existing"
  shows "plan_inv fid rows (plan_existing fid existing fresh st)"
  using assms
  by (auto simp: plan_existing_def plan_inv_def plan_error_def event_stable_audit_def check_audit_scope_iff
      dest!: new_audit_scope split: result.splits)

lemma plan_new_inv:
  assumes "plan_inv fid rows st" "ev_fixture_id fresh = fid"
  shows "plan_inv fid rows (plan_new fid fresh st)"
  using assms
  by (auto simp: plan_new_def plan_inv_def plan_error_def event_detected_audit_def check_insert_scope_iff
      dest!: new_audit_scope split: result.splits)

lemma plan_inv_api_keys [simp]: "plan_inv fid rows (st\<lparr> ps_api_keys := ks \<rparr>) = plan_inv fid rows st"
  "plan_inv fid rows (plan_error msg st) = plan_inv fid rows st"
  by (simp_all add: plan_inv_def plan_error_def)

lemma plan_api_event_inv:
  assumes "plan_inv (fx_id candidate) rows st"
  shows "plan_inv (fx_id candidate) rows
    (plan_api_event fresh_id now candidate (rows_by_key rows) sequences st ie)"
  using assms
  by (auto simp: plan_api_event_def Let_def build_domain_event_fixture
      dest!: rows_by_key_lookup intro!: plan_existing_inv plan_new_inv
      split: prod.split option.split result.split)

lemma plan_api_events_inv:
  "plan_inv (fx_id candidate) rows (plan_api_events fresh_id now candidate rows sequences api)"
  unfolding plan_api_events_def
  by (rule foldl_invariant) (simp_all add: plan_inv_def [of _ _ "plan_state.make _ _ _ _ _ _"] plan_api_event_inv, simp add: plan_inv_def)


section \<open>Absences\<close>

definition score_holds :: "score_inventory \<Rightarrow> event \<Rightarrow> bool" where
  "score_holds inventory e \<longleftrightarrow> ev_type e = TypeGoal \<and> score_requires_missing_goal inventory (et_id (ev_team e))"

text \<open>The stored rows whose key the provider does not list, sorted by what happens to them.\<close>

definition gone :: "go_string set \<Rightarrow> (event \<Rightarrow> bool) \<Rightarrow> (go_string \<times> event) list \<Rightarrow> (go_string \<times> event) list" where
  "gone ks P entries = filter (\<lambda>ke. fst ke \<notin> ks \<and> P (snd ke)) entries"

lemma gone_simps [simp]:
  "gone ks P [] = []"
  "gone ks P ((k, e) # entries) = (if k \<notin> ks \<and> P e then (k, e) # gone ks P entries else gone ks P entries)"
  by (simp_all add: gone_def)

lemma removed_audit_ok: "fid \<noteq> 0 \<Longrightarrow> i \<noteq> 0 \<Longrightarrow> \<exists>r. event_removed_audit i fid now = Ok r"
  by (simp add: event_removed_audit_def new_audit_def)

lemma plan_missing_event_absences:
  "a \<in> set (as_absences (plan_missing_event fid now inventory ks st ke)) \<Longrightarrow>
     a \<in> set (as_absences st) \<or> event_removed_audit (pa_event_id a) fid now = Ok (pa_audit a)"
  by (cases ke) (auto simp: plan_missing_event_def split: result.splits if_splits)

lemma plan_missing_events_exact:
  fixes fid "now" inventory ks entries
  assumes "fid \<noteq> 0" "\<forall>ke\<in>set entries. ev_id (snd ke) \<noteq> 0"
  defines "st \<equiv> plan_missing_events fid now inventory ks entries"
  shows "map pa_event_id (as_absences st) = map (ev_id \<circ> snd)
      (gone (set ks) (\<lambda>e. player_known (ev_player e) \<and> \<not> score_holds inventory e) entries)"
    and "as_unknown_deletes st = map (ev_id \<circ> snd) (gone (set ks) (\<lambda>e. \<not> player_known (ev_player e)) entries)"
    and "as_held st = map fst
      (gone (set ks) (\<lambda>e. player_known (ev_player e) \<and> score_holds inventory e) entries)"
    and "as_errors st = []"
    and "\<forall>a\<in>set (as_absences st). check_audit_scope fid (pa_event_id a) (pa_audit a) = Ok ()"
proof -
  let ?run = "\<lambda>st. foldl (plan_missing_event fid now inventory ks) st"
  have "map pa_event_id (as_absences (?run st entries)) = map pa_event_id (as_absences st) @ map (ev_id \<circ> snd)
      (gone (set ks) (\<lambda>e. player_known (ev_player e) \<and> \<not> score_holds inventory e) entries) \<and>
    as_unknown_deletes (?run st entries) = as_unknown_deletes st @ map (ev_id \<circ> snd)
      (gone (set ks) (\<lambda>e. \<not> player_known (ev_player e)) entries) \<and>
    as_held (?run st entries) = as_held st @ map fst
      (gone (set ks) (\<lambda>e. player_known (ev_player e) \<and> score_holds inventory e) entries) \<and>
    as_errors (?run st entries) = as_errors st" for st
    using assms(2)
  proof (induction entries arbitrary: st)
    case (Cons ke entries)
    obtain k e where ke: "ke = (k, e)" by (cases ke)
    have "ev_id e \<noteq> 0" using Cons.prems ke by simp
    then obtain r where "event_removed_audit (ev_id e) fid now = Ok r"
      using removed_audit_ok [OF assms(1)] by blast
    then show ?case
      using Cons.IH Cons.prems unfolding ke by (simp add: plan_missing_event_def score_holds_def)
  qed simp
  then show "map pa_event_id (as_absences st) = map (ev_id \<circ> snd)
      (gone (set ks) (\<lambda>e. player_known (ev_player e) \<and> \<not> score_holds inventory e) entries)"
    and "as_unknown_deletes st = map (ev_id \<circ> snd) (gone (set ks) (\<lambda>e. \<not> player_known (ev_player e)) entries)"
    and "as_held st = map fst
      (gone (set ks) (\<lambda>e. player_known (ev_player e) \<and> score_holds inventory e) entries)"
    and "as_errors st = []"
    by (simp_all add: st_def plan_missing_events_def)
  show "\<forall>a\<in>set (as_absences st). check_audit_scope fid (pa_event_id a) (pa_audit a) = Ok ()"
    unfolding st_def plan_missing_events_def
  proof (rule foldl_invariant)
    fix st :: absence_state and ke
    assume "\<forall>a\<in>set (as_absences st). check_audit_scope fid (pa_event_id a) (pa_audit a) = Ok ()"
    moreover have "check_audit_scope fid (pa_event_id a) (pa_audit a) = Ok ()"
      if "event_removed_audit (pa_event_id a) fid now = Ok (pa_audit a)" for a
      using new_audit_scope [OF that [unfolded event_removed_audit_def]] by (simp add: check_audit_scope_iff)
    ultimately show "\<forall>a\<in>set (as_absences (plan_missing_event fid now inventory ks st ke)).
        check_audit_scope fid (pa_event_id a) (pa_audit a) = Ok ()"
      using plan_missing_event_absences by blast
  qed simp
qed

section \<open>The keys the provider lists\<close>

definition listed_keys :: "(nat \<Rightarrow> int option) \<Rightarrow> nat \<times> api_event \<Rightarrow> go_string set" where
  "listed_keys sequences ie = {compose_natural_key (aft_id (afe_team (snd ie))) (afp_id (afe_player (snd ie))) t n | t n.
     trackable_type (snd ie) = Some t \<and> sequences (fst ie) = Some n \<and> aft_id (afe_team (snd ie)) \<noteq> 0}"

lemma build_domain_event_key:
  "build_domain_event u f e t n at =
     (if aft_id (afe_team e) = 0 then Err ''apiEv missing team_id''
      else Ok (the_ok (build_domain_event u f e t n at)))"
  "aft_id (afe_team e) \<noteq> 0 \<Longrightarrow> ev_natural_key (the_ok (build_domain_event u f e t n at)) =
     compose_natural_key (aft_id (afe_team e)) (afp_id (afe_player e)) t n"
  by (simp_all add: build_domain_event_def new_event_def)

lemma plan_existing_keys [simp]: "ps_api_keys (plan_existing fid x fresh st) = ps_api_keys st"
  "ps_api_keys (plan_new fid fresh st) = ps_api_keys st"
  by (auto simp: plan_existing_def plan_new_def plan_error_def split: result.splits)

lemma plan_api_event_keys:
  "set (ps_api_keys (plan_api_event u now c by_key sequences st ie)) =
     set (ps_api_keys st) \<union> listed_keys sequences ie"
  using build_domain_event_key(2)
  by (cases ie) (auto simp: plan_api_event_def listed_keys_def plan_error_def Let_def build_domain_event_def
      new_event_def split: option.splits result.splits if_splits)

lemma plan_api_events_keys:
  "set (ps_api_keys (plan_api_events u now c rows sequences api)) =
     (\<Union>ie\<in>set (enumerate 0 api). listed_keys sequences ie)"
proof -
  have "set (ps_api_keys (foldl (plan_api_event u now c by_key sequences) st ies)) =
    set (ps_api_keys st) \<union> (\<Union>ie\<in>set ies. listed_keys sequences ie)" for by_key st ies
    by (induction ies arbitrary: st) (auto simp: plan_api_event_keys)
  then show ?thesis by (simp add: plan_api_events_def)
qed

section \<open>The plan as a whole\<close>

lemma candidate_fixture_fields [simp]:
  "fx_id (candidate_fixture f a at) = fx_id f"
  "fx_state (candidate_fixture f a at) = fx_state f"
  "fx_activated_at (candidate_fixture f a at) = fx_activated_at f"
  "fx_completed_at (candidate_fixture f a at) = fx_completed_at f"
  "fx_last_polled_at (candidate_fixture f a at) = Some at"
  by (simp_all add: candidate_fixture_def Let_def step_simps update_penalty_def update_metadata_from_api_def
      update_metadata_def)

lemma plan_reconcile_cases:
  assumes "plan_reconcile env inp db = Ok rp"
  obtains stored sequences where "mu_fixtures db (af_id (ri_fixture inp)) = Some stored"
    "ri_poll_id inp \<noteq> []" "ri_observed_at inp \<noteq> 0"
    "assign_event_sequences (af_events (ri_fixture inp)) (list_all_by_fixture db (fx_id stored))
       (incomplete_goal_teams (ri_fixture inp)) = Ok sequences"
    "rp_state rp = plan_api_events (re_fresh_id env) (re_now env)
       (candidate_fixture stored (ri_fixture inp) (ri_observed_at inp)) (list_all_by_fixture db (fx_id stored))
       sequences (af_events (ri_fixture inp))"
    "rp_missing rp = plan_missing_events (fx_id stored) (re_now env) (new_score_inventory (ri_fixture inp))
       (ps_api_keys (rp_state rp)) (re_visit env (rows_by_key (list_all_by_fixture db (fx_id stored))))"
    "rp_plan rp = make_active_plan env inp stored (fv_policy (rp_verdict rp)) (rp_state rp) (rp_missing rp)"
    "rp_verdict rp = assess_fixture (provider_fixture_comparison stored
       (list_all_by_fixture db (fx_id stored)) (ri_fixture inp) sequences)"
  using assms
  by (auto simp: plan_reconcile_def Let_def bind_result_Ok_iff locked_fixture_def split: if_splits option.splits)

lemma set_list_all_by_fixture:
  "set (list_all_by_fixture db fid) = {e \<in> set (ed_events db). ev_fixture_id e = fid}"
  by (auto simp: list_all_by_fixture_def)

lemma check_all_Ok: "check_all f xs = Ok () \<longleftrightarrow> (\<forall>x\<in>set xs. f x = Ok ())"
  by (induction xs) (auto simp: bind_result_Ok_iff)

lemma find_event_distinct:
  "distinct (map ev_id rows) \<Longrightarrow> e \<in> set rows \<Longrightarrow> find_event (ev_id e) rows = Some e"
  unfolding find_event_def by (induction rows) (auto simp: image_iff)

lemma update_keys_Some:
  "update_keys ups i = Some key \<Longrightarrow>
     \<exists>p\<in>set ups. \<exists>fresh. pu_event_id p = i \<and> pu_fresh p = Some fresh \<and> key = ev_natural_key fresh"
  unfolding update_keys_def by (drule map_of_SomeD) (force split: option.splits)


section \<open>The store accepts every plan\<close>

text \<open>The stored rows of a fixture, as the planner and the store both read them.\<close>

definition events_distinct :: "mutation_db \<Rightarrow> bool" where
  "events_distinct db \<longleftrightarrow> distinct (map ev_id (ed_events db)) \<and> 0 \<notin> ev_id ` set (ed_events db)"

lemma make_active_plan_fields [simp]:
  "ap_inserts (make_active_plan env inp f pol ps m) = ps_inserts ps"
  "ap_presences (make_active_plan env inp f pol ps m) = ps_presences ps"
  "ap_updates (make_active_plan env inp f pol ps m) = ps_updates ps"
  "ap_absences (make_active_plan env inp f pol ps m) = as_absences m"
  "ap_unknown_deletes (make_active_plan env inp f pol ps m) = as_unknown_deletes m"
  by (simp_all add: make_active_plan_def Let_def)

lemma normalize_active_fields [simp]:
  "ap_inserts (normalize_active p) = ap_inserts p"
  "ap_presences (normalize_active p) = ap_presences p"
  "ap_updates (normalize_active p) = ap_updates p"
  "ap_absences (normalize_active p) = ap_absences p"
  "ap_unknown_deletes (normalize_active p) = ap_unknown_deletes p"
  by (simp_all add: normalize_active_def)

lemma plan_ids_stored:
  assumes "plan_inv fid (list_all_by_fixture db fid) ps" "events_distinct db" "fid \<noteq> 0"
    and m: "m = plan_missing_events fid now inventory ks entries"
    and entries: "set entries = set (rows_by_key (list_all_by_fixture db fid))"
    and i: "i \<in> set (map pp_event_id (ps_presences ps) @ map pu_event_id (ps_updates ps) @
      map pa_event_id (as_absences m) @ as_unknown_deletes m)"
  shows "\<exists>e\<in>set (list_all_by_fixture db fid). i = ev_id e"
proof -
  let ?rows = "list_all_by_fixture db fid"
  have row: "snd ke \<in> set ?rows" if "ke \<in> set entries" for ke
    using that rows_by_key_entry [of "fst ke" "snd ke" ?rows] entries by simp
  then have "\<forall>ke\<in>set entries. ev_id (snd ke) \<noteq> 0"
    using assms(2) by (fastforce simp: set_list_all_by_fixture events_distinct_def)
  note exact = plan_missing_events_exact(1,2) [OF assms(3) this, of "now" inventory ks, folded m]
  have gone: "\<exists>e\<in>set ?rows. j = ev_id e" if "j \<in> set (map (ev_id \<circ> snd) (gone ks' P entries))" for j ks' P
    using that row by (auto simp: gone_def)
  consider "i \<in> set (map pp_event_id (ps_presences ps))" | "i \<in> set (map pu_event_id (ps_updates ps))"
    | "i \<in> set (map pa_event_id (as_absences m))" | "i \<in> set (as_unknown_deletes m)"
    using i by auto
  then show ?thesis
  proof cases
    case 1
    then show ?thesis using assms(1) unfolding plan_inv_def by auto
  next
    case 2
    then show ?thesis using assms(1) unfolding plan_inv_def by auto
  next
    case 3
    then show ?thesis unfolding exact(1) by (rule gone)
  next
    case 4
    then show ?thesis unfolding exact(2) by (rule gone)
  qed
qed

lemma planned_owned:
  assumes "plan_inv fid (list_all_by_fixture db fid) ps" "events_distinct db"
    and e: "e \<in> set (list_all_by_fixture db fid)"
  shows "check_owned db fid (ps_updates ps) (ev_id e) = Ok ()"
proof -
  have row: "e \<in> set (ed_events db)" "ev_fixture_id e = fid" using e by (simp_all add: set_list_all_by_fixture)
  have same: "e' = e" if "e' \<in> set (list_all_by_fixture db fid)" "ev_id e' = ev_id e" for e'
    using that row assms(2) by (auto simp: set_list_all_by_fixture events_distinct_def distinct_map dest: inj_onD)
  have "key = ev_natural_key e" if key: "update_keys (ps_updates ps) (ev_id e) = Some key" for key
  proof -
    obtain p fresh where p: "p \<in> set (ps_updates ps)" "pu_event_id p = ev_id e" "pu_fresh p = Some fresh"
      "key = ev_natural_key fresh" using update_keys_Some [OF key] by blast
    then obtain e' where "e' \<in> set (list_all_by_fixture db fid)" "ev_id e' = ev_id e"
      "ev_natural_key fresh = ev_natural_key e'" using assms(1) unfolding plan_inv_def by force
    then show ?thesis using same p(4) by blast
  qed
  then show ?thesis
    using find_event_distinct [of "ed_events db" e] row assms(2)
    by (auto simp: check_owned_def events_distinct_def split: option.splits)
qed

lemma validate_guard_Ok:
  "validate_guard g = Ok () \<longleftrightarrow> og_observation_id g \<noteq> [] \<and> length (og_observation_id g) \<le> 200 \<and>
     og_observed_at g \<noteq> 0 \<and> 0 \<le> og_expected_generation g"
  by (auto simp: validate_guard_def)

text \<open>C14: The planner and the store agree: from a stored, active and valid fixture and event rows with
  distinct ids, every plan the reconciliation of a well-formed observation builds passes the
  store's validation, and under every policy its operations stay inside the fixture: each insert
  and audit names it, each vote, correction and deletion names one of its stored rows, and no
  correction changes a natural key.\<close>

theorem reconcile_plan_is_accepted:
  assumes "plan_reconcile env inp db = Ok rp" "fixtures_keyed db" "events_distinct db"
    and "mu_fixtures db (af_id (ri_fixture inp)) = Some stored" "fx_state stored = StateActive"
    and "is_ok (validate_fixture stored)" "0 < af_id (ri_fixture inp)"
    and "length (ri_poll_id inp) \<le> 200" "1000 \<le> ri_observed_at inp" "0 \<le> ri_generation inp" "ri_workflow inp \<noteq> []"
    and "\<forall>m. set (re_visit env m) = set m"
  shows "is_ok (validate_active_plan (normalize_active (rp_plan rp))) \<and>
    validate_active_event_scope db (fx_id stored) (normalize_active (rp_plan rp)) pol = Ok ()"
  using assms(1)
proof (cases rule: plan_reconcile_cases)
  case (1 stored' sequences)
  have st: "stored' = stored" and fid: "fx_id stored = af_id (ri_fixture inp)" "fx_id stored \<noteq> 0"
    using 1(1) assms(2,4,7) by (auto simp: fixtures_keyed_def)
  note facts = 1 [unfolded st]
  let ?rows = "list_all_by_fixture db (fx_id stored)"
  have inv: "plan_inv (fx_id stored) ?rows (rp_state rp)"
    using plan_api_events_inv [of "candidate_fixture stored (ri_fixture inp) (ri_observed_at inp)" ?rows]
    unfolding facts(5) by simp
  have visit: "set (re_visit env (rows_by_key ?rows)) = set (rows_by_key ?rows)" using assms(12) by blast
  have owned: "check_owned db (fx_id stored) (ps_updates (rp_state rp)) i = Ok ()"
    if "i \<in> set (planned_ids (normalize_active (rp_plan rp)) b)" for i b
  proof -
    have "i \<in> set (map pp_event_id (ps_presences (rp_state rp)) @ map pu_event_id (ps_updates (rp_state rp)) @
      map pa_event_id (as_absences (rp_missing rp)) @ as_unknown_deletes (rp_missing rp))"
      using that unfolding facts(7) planned_ids_def by (auto split: if_splits)
    from plan_ids_stored [OF inv assms(3) fid(2) facts(6) visit this]
    show ?thesis using planned_owned [OF inv assms(3)] by blast
  qed
  have absences: "\<forall>a\<in>set (as_absences (rp_missing rp)).
      check_audit_scope (fx_id stored) (pa_event_id a) (pa_audit a) = Ok ()"
  proof -
    have "\<forall>ke\<in>set (re_visit env (rows_by_key ?rows)). ev_id (snd ke) \<noteq> 0"
      using assms(3) rows_by_key_entry [of _ _ ?rows] unfolding visit
      by (fastforce simp: set_list_all_by_fixture events_distinct_def)
    then show ?thesis using plan_missing_events_exact(5) [OF fid(2)] unfolding facts(6) by blast
  qed
  have updates: "\<forall>p\<in>set (ps_updates (rp_state rp)). check_update_scope (fx_id stored) p = Ok ()"
    using inv by (fastforce simp: plan_inv_def check_update_scope_def)
  have scope: "validate_active_event_scope db (fx_id stored) (normalize_active (rp_plan rp)) pol = Ok ()"
    using inv owned absences updates unfolding plan_inv_def
    by (auto simp: validate_active_event_scope_def Let_def bind_result_Ok_iff check_all_Ok facts(7))
  let ?c = "candidate_fixture stored (ri_fixture inp) (ri_observed_at inp)"
  have trunc: "truncate_microseconds (ri_observed_at inp) \<noteq> 0"
    using assms(9) by (simp add: truncate_microseconds_def)
  have "is_ok (validate_fixture (normalize_polled ?c))"
    using assms(5,6) by (simp add: validate_fixture_iff normalize_polled_def)
  then have "validate_active_plan (normalize_active (rp_plan rp)) = Ok (normalize_polled ?c)"
    using fid assms(7,8,10,11) facts(2) trunc assess_valid
    by (auto simp: validate_active_plan_def facts(7,8) make_active_plan_def normalize_active_def Let_def
        normalize_guard_def normalize_polled_def bind_result_Ok_iff validate_guard_Ok is_ok_iff)
  with scope show ?thesis by simp
qed


definition polled_live :: "int option \<Rightarrow> api_event list \<Rightarrow> api_fixture" where
  "polled_live home_goals es = \<lparr> af_id = 1, af_date = 0,
     af_status = \<lparr> afs_long = ''Second Half'', afs_short = ''2h'', afs_elapsed = Some 61, afs_extra = None \<rparr>,
     af_league = \<lparr> afl_id = 39, afl_name = ''Premier League'', afl_country = ''England'', afl_season = 2026,
       afl_round = ''1'' \<rparr>,
     af_home = \<lparr> aft_id = 40, aft_name = ''Liverpool'', aft_winner = None \<rparr>,
     af_away = \<lparr> aft_id = 50, aft_name = ''Everton'', aft_winner = None \<rparr>,
     af_goals_home = home_goals, af_goals_away = Some 0, af_penalty_home = None, af_penalty_away = None,
     af_events = es \<rparr>"

definition goal_of :: "int \<Rightarrow> int \<Rightarrow> api_event" where
  "goal_of team_id minute = (api_goal minute)\<lparr> afe_team := \<lparr> aft_id = team_id, aft_name = ''T'', aft_winner = None \<rparr> \<rparr>"

definition poll_input :: "api_fixture \<Rightarrow> reconcile_input" where
  "poll_input a = \<lparr> ri_fixture = a, ri_workflow = ''workflow-3'', ri_observed_at = 3000,
     ri_poll_id = ''poll-3'', ri_generation = 0 \<rparr>"

definition plain_env :: reconcile_env where
  "plain_env = \<lparr> re_now = 9000, re_grace = seconds 60, re_fresh_id = (\<lambda>i. 100 + of_nat i), re_uuid_text = (\<lambda>_. []),
     re_visit = (\<lambda>m. m), re_mode = EnforcementEnforce, re_tx_now = 9000, re_tx_clock = 9000 \<rparr>"

definition stored_goal :: event where
  "stored_goal = (new_event 5 1 \<lparr> et_id = 40, et_name = ''T'' \<rparr> sample_player TypeGoal ''normal goal'' 20 None 1 1000)
     \<lparr> ev_debounce_count := 2 \<rparr>"

definition watched_db :: mutation_db where
  "watched_db = live_db\<lparr> ed_events := [stored_goal] \<rparr>"

lemma watched_db_ok: "fixtures_keyed watched_db" "events_distinct watched_db"
  "mu_fixtures watched_db 1 = Some stored_live"
  using live_db_keyed
  by (simp_all add: watched_db_def fixtures_keyed_def events_distinct_def stored_goal_def new_event_def
      live_db_def mutation_db.defs event_db.defs)

lemma watched_plan_Ok:
  "plan_reconcile plain_env (poll_input (polled_live (Some 1) [goal_of 40 21])) watched_db =
     Ok (the_ok (plan_reconcile plain_env (poll_input (polled_live (Some 1) [goal_of 40 21])) watched_db))"
proof -
  have "is_ok (plan_reconcile plain_env (poll_input (polled_live (Some 1) [goal_of 40 21])) watched_db)"
    by code_simp
  then show ?thesis by (auto simp: is_ok_iff)
qed

theorem reconcile_plan_is_accepted_witness:
  "is_ok (validate_active_plan (normalize_active (rp_plan
     (the_ok (plan_reconcile plain_env (poll_input (polled_live (Some 1) [goal_of 40 21])) watched_db)))))"
proof -
  have "af_id (ri_fixture (poll_input (polled_live (Some 1) [goal_of 40 21]))) = 1"
    by (simp add: poll_input_def polled_live_def)
  moreover have "fx_state stored_live = StateActive" "is_ok (validate_fixture stored_live)" by code_simp+
  ultimately show ?thesis
    using reconcile_plan_is_accepted [OF watched_plan_Ok watched_db_ok(1,2), of stored_live PolicyTrusted] watched_db_ok(3)
    by (simp add: poll_input_def plain_env_def)
qed

text \<open>C3: What an absent event leads to is decided exactly: with rows that have ids, each stored and not
  removed row whose key is not among the keys of the provider's trackable, matched elements becomes
  a deletion if its player is unknown, is held if it is a goal the provider's own score still
  requires, and gets one absence vote otherwise; nothing else is deleted, held or voted on.\<close>

theorem absence_votes_are_exact:
  assumes "plan_reconcile env inp db = Ok rp" "fixtures_keyed db" "events_distinct db"
    and "af_id (ri_fixture inp) \<noteq> 0" "\<forall>m. mset (re_visit env m) = mset m"
  shows "\<exists>sequences. assign_event_sequences (af_events (ri_fixture inp))
      (list_all_by_fixture db (af_id (ri_fixture inp))) (incomplete_goal_teams (ri_fixture inp)) = Ok sequences \<and>
    (let entries = rows_by_key (list_all_by_fixture db (af_id (ri_fixture inp)));
         listed = (\<Union>ie\<in>set (enumerate 0 (af_events (ri_fixture inp))). listed_keys sequences ie);
         holds = score_holds (new_score_inventory (ri_fixture inp));
         vote = (\<lambda>P. mset (map (ev_id \<circ> snd) (gone listed P entries)))
     in mset (map pa_event_id (ap_absences (rp_plan rp))) = vote (\<lambda>e. player_known (ev_player e) \<and> \<not> holds e) \<and>
        mset (ap_unknown_deletes (rp_plan rp)) = vote (\<lambda>e. \<not> player_known (ev_player e)) \<and>
        mset (as_held (rp_missing rp)) =
          mset (map fst (gone listed (\<lambda>e. player_known (ev_player e) \<and> holds e) entries)))"
  using assms(1)
proof (cases rule: plan_reconcile_cases)
  case (1 stored sequences)
  have fid: "fx_id stored = af_id (ri_fixture inp)" "fx_id stored \<noteq> 0"
    using 1(1) assms(2,4) by (auto simp: fixtures_keyed_def)
  let ?entries = "rows_by_key (list_all_by_fixture db (fx_id stored))"
  let ?visited = "re_visit env ?entries"
  have visit: "mset ?visited = mset ?entries" using assms(5) by blast
  have "\<forall>ke\<in>set ?visited. ev_id (snd ke) \<noteq> 0"
    using assms(3) rows_by_key_entry [of _ _ "list_all_by_fixture db (fx_id stored)"] mset_eq_setD [OF visit]
    by (fastforce simp: set_list_all_by_fixture events_distinct_def)
  note exact = plan_missing_events_exact(1-3) [OF fid(2) this, of "re_now env" "new_score_inventory (ri_fixture inp)"
      "ps_api_keys (rp_state rp)", folded 1(6)]
  have listed: "set (ps_api_keys (rp_state rp)) =
      (\<Union>ie\<in>set (enumerate 0 (af_events (ri_fixture inp))). listed_keys sequences ie)"
    unfolding 1(5) by (rule plan_api_events_keys)
  have gone: "mset (gone ks P ?visited) = mset (gone ks P ?entries)" for ks P
    using visit by (simp add: gone_def mset_filter)
  show ?thesis
    by (rule exI [of _ sequences])
      (use 1(4) exact listed gone in \<open>simp add: Let_def 1(7) fid(1) [symmetric] mset_map\<close>)
qed

theorem absence_votes_are_exact_witness:
  "\<exists>sequences. assign_event_sequences [goal_of 40 21] (list_all_by_fixture watched_db 1)
     (incomplete_goal_teams (polled_live (Some 1) [goal_of 40 21])) = Ok sequences"
  using absence_votes_are_exact [OF watched_plan_Ok watched_db_ok(1,2)]
  by (simp add: poll_input_def polled_live_def plain_env_def) blast


section \<open>Retries of the activity\<close>

text \<open>After the commit only rows of the downstream checklist are added.\<close>

definition only_downstream :: "mutation_db \<Rightarrow> mutation_db \<Rightarrow> bool" where
  "only_downstream db db' \<longleftrightarrow> db' = db\<lparr> ed_downstream := ed_downstream db' \<rparr>"

lemma only_downstream_refl [simp]: "only_downstream db db"
  by (simp add: only_downstream_def)

lemma only_downstream_trans: "only_downstream a b \<Longrightarrow> only_downstream b c \<Longrightarrow> only_downstream a c"
  unfolding only_downstream_def
proof -
  assume b: "b = a\<lparr> ed_downstream := ed_downstream b \<rparr>" and c: "c = b\<lparr> ed_downstream := ed_downstream c \<rparr>"
  have "c = (a\<lparr> ed_downstream := ed_downstream b \<rparr>)\<lparr> ed_downstream := ed_downstream c \<rparr>"
    using b c by metis
  then show "c = a\<lparr> ed_downstream := ed_downstream c \<rparr>" by simp
qed

lemma only_downstream_fields:
  assumes "only_downstream db db'"
  shows "mu_receipts db' = mu_receipts db" "ed_events db' = ed_events db" "mu_fixtures db' = mu_fixtures db"
    "mu_provider_policy db' = mu_provider_policy db" "load_receipt db' = load_receipt db"
proof -
  have db': "db' = db\<lparr> ed_downstream := ed_downstream db' \<rparr>" using assms by (simp add: only_downstream_def)
  show "mu_receipts db' = mu_receipts db" "ed_events db' = ed_events db" "mu_fixtures db' = mu_fixtures db"
    "mu_provider_policy db' = mu_provider_policy db"
    by (subst db', simp)+
  then show "load_receipt db' = load_receipt db" by (intro ext) (simp add: load_receipt_def)
qed

lemma register_and_spawn_db:
  assumes "register_and_spawn txt spawn x e fid w = (w', r)"
  shows "only_downstream (wd_db w) (wd_db w')"
  using assms
  by (auto simp: register_and_spawn_def register_downstream_workflow_def insert_downstream_def Let_def
      only_downstream_def split: option.splits if_splits result.splits)

text \<open>The part of the output that tells what was committed.\<close>

definition committed_part :: "reconcile_output \<Rightarrow>
    mutation_policy option \<times> bool \<times> bool \<times> nat \<times> uuid list \<times> uuid list \<times> int \<times> bool \<times> feed_action \<times> status_projection option" where
  "committed_part out = (ro_policy out, ro_applied out, ro_stale out, ro_new_events out, ro_new_named out,
     ro_removed_ids out, ro_unknown_dropped out, ro_completed out, ro_feed out, ro_presentation out)"

lemma committed_part_simps [simp]:
  "committed_part (output_error m out) = committed_part out"
  "committed_part (out\<lparr> ro_became_stable := x \<rparr>) = committed_part out"
  "committed_part (out\<lparr> ro_removed := y \<rparr>) = committed_part out"
  by (simp_all add: committed_part_def output_error_def)

lemma spawn_stable_keeps:
  "only_downstream (wd_db (ss_world st)) (wd_db (ss_world (spawn_stable txt spawn fid ids st i))) \<and>
   committed_part (ss_output (spawn_stable txt spawn fid ids st i)) = committed_part (ss_output st)"
proof (cases "load_stable ids (wd_db (ss_world st)) i (ss_err st)")
  case (Pair found failure)
  show ?thesis
  proof (cases failure)
    case None
    show ?thesis
    proof (cases found)
      case (Some e)
      obtain w r where run: "register_and_spawn txt spawn e e fid (ss_world st) = (w, r)"
        by (cases "register_and_spawn txt spawn e e fid (ss_world st)")
      then show ?thesis
        using register_and_spawn_db [OF run] Pair None Some
        by (cases r) (simp_all add: spawn_stable_def)
    qed (simp add: spawn_stable_def Pair None)
  qed (simp add: spawn_stable_def Pair)
qed

lemma recover_spawn_keeps:
  assumes "recover_spawn txt spawn fid (w, out) e = (w', out')"
  shows "only_downstream (wd_db w) (wd_db w') \<and> committed_part out' = committed_part out"
proof -
  obtain w1 r where run: "register_and_spawn txt spawn e e fid w = (w1, r)"
    by (cases "register_and_spawn txt spawn e e fid w")
  then show ?thesis
    using register_and_spawn_db [OF run] assms by (cases r) (auto simp: recover_spawn_def)
qed

lemma classify_guarded_feed_part:
  "committed_part out = committed_part out' \<Longrightarrow>
     committed_part (classify_guarded_feed r out) = committed_part (classify_guarded_feed r out')"
  by (auto simp: committed_part_def classify_guarded_feed_def mark_update_def mark_status_def Let_def
      split: option.splits)

lemma after_commit_keeps:
  assumes "after_commit env spawn rp fid r out w = (w', out')"
  shows "only_downstream (wd_db w) (wd_db w') \<and>
    committed_part out' = committed_part (classify_guarded_feed r (record_effects r out))"
proof -
  let ?ids = "ps_by_id (rp_state rp)"
  let ?start = "\<lparr> ss_world = w, ss_output = record_effects r out, ss_err = None \<rparr>"
  define st where "st = foldl (spawn_stable (re_uuid_text env) spawn fid ?ids) ?start (mr_stable r)"
  have st: "only_downstream (wd_db w) (wd_db (ss_world st)) \<and>
    committed_part (ss_output st) = committed_part (record_effects r out)"
    unfolding st_def
  proof (rule foldl_invariant)
    fix s :: spawn_state and i
    assume "only_downstream (wd_db w) (wd_db (ss_world s)) \<and>
      committed_part (ss_output s) = committed_part (record_effects r out)"
    then show "only_downstream (wd_db w) (wd_db (ss_world (spawn_stable (re_uuid_text env) spawn fid ?ids s i))) \<and>
      committed_part (ss_output (spawn_stable (re_uuid_text env) spawn fid ?ids s i)) =
        committed_part (record_effects r out)"
      using spawn_stable_keeps only_downstream_trans by metis
  qed simp
  define out1 where "out1 = (ss_output st)\<lparr> ro_removed := removed_keys ?ids (mr_removed r) \<rparr>"
  define fin where "fin = foldl (recover_spawn (re_uuid_text env) spawn fid) (ss_world st, out1)
    (events_awaiting_discovery (wd_db (ss_world st)) fid)"
  have fin: "only_downstream (wd_db w) (wd_db (fst fin)) \<and>
    committed_part (snd fin) = committed_part (record_effects r out)"
    unfolding fin_def
  proof (rule foldl_invariant)
    show "only_downstream (wd_db w) (wd_db (fst (ss_world st, out1))) \<and>
      committed_part (snd (ss_world st, out1)) = committed_part (record_effects r out)"
      using st by (simp add: out1_def)
  next
    fix wo :: "world \<times> reconcile_output" and e
    assume "only_downstream (wd_db w) (wd_db (fst wo)) \<and> committed_part (snd wo) = committed_part (record_effects r out)"
    then show "only_downstream (wd_db w) (wd_db (fst (recover_spawn (re_uuid_text env) spawn fid wo e))) \<and>
      committed_part (snd (recover_spawn (re_uuid_text env) spawn fid wo e)) = committed_part (record_effects r out)"
      using recover_spawn_keeps [of "re_uuid_text env" spawn fid "fst wo" "snd wo" e
          "fst (recover_spawn (re_uuid_text env) spawn fid wo e)" "snd (recover_spawn (re_uuid_text env) spawn fid wo e)"]
      by (auto intro: only_downstream_trans)
  qed
  have "after_commit env spawn rp fid r out w = (fst fin, classify_guarded_feed r (snd fin))"
    unfolding after_commit_def Let_def st_def [symmetric] out1_def [symmetric] fin_def [symmetric]
    by (rule case_prod_beta)
  with assms fin classify_guarded_feed_part [of "snd fin" "record_effects r out" r] show ?thesis by simp
qed

text \<open>A finished activity, split into its commit and what follows.\<close>

lemma reconcile_guarded_cases:
  assumes "reconcile_guarded env spawn inp w = (w', Ok out)"
  obtains rp db r where "plan_reconcile env inp (wd_db w) = Ok rp"
    "apply_active (re_uuid_text env) (re_mode env) (re_tx_now env) (re_tx_clock env) (rp_plan rp) (wd_db w) = (db, Ok r)"
    "only_downstream db (wd_db w')"
    "committed_part out = committed_part (if mr_stale r then record_result r (empty_output 0)
       else classify_guarded_feed r (record_effects r (record_result r (empty_output 0))))"
proof -
  from assms obtain rp where rp: "plan_reconcile env inp (wd_db w) = Ok rp"
    by (auto simp: reconcile_guarded_def split: result.splits)
  obtain db rr where run: "apply_active (re_uuid_text env) (re_mode env) (re_tx_now env) (re_tx_clock env)
      (rp_plan rp) (wd_db w) = (db, rr)" by fastforce
  with assms rp obtain r where r: "rr = Ok r" by (cases rr) (auto simp: reconcile_guarded_def)
  let ?out = "record_result r (planned_output rp (af_id (ri_fixture inp)))"
  have part: "committed_part ?out = committed_part (record_result r (empty_output 0))"
    "committed_part (record_effects r ?out) = committed_part (record_effects r (record_result r (empty_output 0)))"
    by (simp_all add: committed_part_def record_result_def record_effects_def planned_output_def empty_output_def)
  show thesis
  proof (cases "mr_stale r")
    case True
    then have "w' = w\<lparr> wd_db := db \<rparr>" "out = ?out"
      using assms rp run r by (simp_all add: reconcile_guarded_def Let_def)
    then show ?thesis using that [OF rp run [unfolded r]] part(1) True by simp
  next
    case False
    obtain w2 out2 where ac: "after_commit env spawn rp (rp_fixture_id rp) r ?out (w\<lparr> wd_db := db \<rparr>) = (w2, out2)"
      by (cases "after_commit env spawn rp (rp_fixture_id rp) r ?out (w\<lparr> wd_db := db \<rparr>)")
    have "w' = w2" "out = out2" using assms rp run r False ac by (simp_all add: reconcile_guarded_def Let_def)
    with after_commit_keeps [OF ac] False show ?thesis
      using that [OF rp run [unfolded r]] classify_guarded_feed_part [OF part(2)] by simp
  qed
qed

text \<open>The row of the fixture carries its own id.\<close>

definition row_keyed :: "mutation_db \<Rightarrow> int \<Rightarrow> bool" where
  "row_keyed db k \<longleftrightarrow> (case mu_fixtures db k of None \<Rightarrow> True | Some f \<Rightarrow> fx_id f = k)"

lemma fixtures_keyed_row: "fixtures_keyed db \<Longrightarrow> row_keyed db k"
  by (simp add: fixtures_keyed_def row_keyed_def split: option.split)

lemma planned_guard:
  assumes "plan_reconcile env inp db = Ok rp" "row_keyed db (af_id (ri_fixture inp))"
  shows "ap_guard (rp_plan rp) = \<lparr> og_observation_id = ri_poll_id inp, og_observed_at = ri_observed_at inp,
      og_expected_generation = ri_generation inp, og_require_health = True \<rparr>"
    and "map_option fx_id (ap_fixture (rp_plan rp)) = Some (af_id (ri_fixture inp))"
  using assms
  by (auto elim!: plan_reconcile_cases simp: make_active_plan_def Let_def row_keyed_def)

lemma load_receipt_cong:
  "og_observation_id g = og_observation_id g' \<Longrightarrow> og_observed_at g = og_observed_at g' \<Longrightarrow>
     load_receipt db g fid = load_receipt db g' fid"
  by (simp add: load_receipt_def split: option.split)

lemma apply_active_observed:
  assumes "apply_active txt mode now clock raw db = (db', Ok out)" "map_option fx_id (ap_fixture raw) = Some fid"
  obtains observed where "validate_active_plan (normalize_active raw) = Ok observed" "fx_id observed = fid"
proof -
  from assms(1) obtain observed where ok: "validate_active_plan (normalize_active raw) = Ok observed"
    by (auto simp: apply_active_def Let_def split: if_splits result.splits)
  then have "ap_fixture (normalize_active raw) = Some observed"
    by (auto simp: validate_active_plan_def bind_result_Ok_iff split: option.splits if_splits)
  with assms(2) have "fx_id observed = fid"
    by (auto simp: normalize_active_def normalize_polled_def)
  with ok that show thesis by blast
qed

text \<open>C15: Reconciling the same observation again is harmless: once an activity has committed, an attempt
  with the same poll id, time and fixture, whatever it reads and plans by then, reports the same
  policy, effects and notification, and leaves every table as it was but for rows of the downstream
  checklist.\<close>

theorem reconcile_retry_repeats_result:
  assumes "reconcile_guarded env spawn inp w = (w1, Ok out1)"
    and "reconcile_guarded env' spawn' inp' w1 = (w2, Ok out2)"
    and "fixtures_keyed (wd_db w)" "row_keyed (wd_db w1) (af_id (ri_fixture inp))"
    and "ri_poll_id inp' = ri_poll_id inp" "ri_observed_at inp' = ri_observed_at inp"
    and "af_id (ri_fixture inp') = af_id (ri_fixture inp)"
  shows "committed_part out2 = committed_part out1 \<and> only_downstream (wd_db w1) (wd_db w2)"
proof -
  let ?fid = "af_id (ri_fixture inp)"
  let ?g = "normalize_guard \<lparr> og_observation_id = ri_poll_id inp, og_observed_at = ri_observed_at inp,
      og_expected_generation = ri_generation inp, og_require_health = True \<rparr>"
  let ?g' = "normalize_guard \<lparr> og_observation_id = ri_poll_id inp', og_observed_at = ri_observed_at inp',
      og_expected_generation = ri_generation inp', og_require_health = True \<rparr>"
  from assms(1) show ?thesis
  proof (cases rule: reconcile_guarded_cases)
    case first: (1 rp db1 r1)
    from assms(2) show ?thesis
    proof (cases rule: reconcile_guarded_cases)
      case second: (1 rp' db2 r2)
      note plan1 = planned_guard [OF first(1) fixtures_keyed_row [OF assms(3)]]
        and plan2 = planned_guard [OF second(1) assms(4) [folded assms(7)]]
      obtain o1 where o1: "validate_active_plan (normalize_active (rp_plan rp)) = Ok o1" "fx_id o1 = ?fid"
        using apply_active_observed [OF first(2) plan1(2)] by blast
      obtain o2 where o2: "validate_active_plan (normalize_active (rp_plan rp')) = Ok o2" "fx_id o2 = ?fid"
        using apply_active_observed [OF second(2) plan2(2)] assms(7) by metis
      have "active_receipt (re_uuid_text env, re_mode env, rp_plan rp) db1 = Some r1"
        using active_run_recorded [OF assms(3), of "(re_tx_now env, re_tx_clock env)"] first(2)
        by (simp add: active_run_def)
      then have "load_receipt db1 ?g ?fid = Ok (Some r1)"
        using o1 plan1(1) by (auto simp: active_receipt_def split: if_splits result.splits)
      moreover have "load_receipt db ?g' fid = load_receipt db ?g fid" for db fid
        using assms(5,6) by (intro load_receipt_cong) (simp_all add: normalize_guard_def)
      ultimately have receipt: "load_receipt (wd_db w1) ?g' ?fid = Ok (Some r1)"
        using only_downstream_fields(5) [OF first(3)] by simp
      have "db2 = wd_db w1 \<and> r2 = r1"
        using second(2) o2 receipt plan2(1)
        by (auto simp: apply_active_def Let_def normalize_active_def split: if_splits result.splits)
      with second(3,4) first(4) show ?thesis by simp
    qed
  qed
qed


definition live_world :: world where
  "live_world = \<lparr> wd_db = watched_db, wd_spawned = [] \<rparr>"

definition first_attempt :: "world \<times> reconcile_output result" where
  "first_attempt = reconcile_guarded plain_env None (poll_input (polled_live (Some 1) [])) live_world"

definition second_attempt :: "world \<times> reconcile_output result" where
  "second_attempt = reconcile_guarded plain_env None (poll_input (polled_live (Some 1) [])) (fst first_attempt)"

lemma first_attempt_ok: "is_ok (snd first_attempt)"
  by code_simp

lemma second_attempt_ok: "is_ok (snd second_attempt)"
  by code_simp

lemma first_attempt_row: "row_keyed (wd_db (fst first_attempt)) 1"
  by code_simp

lemma attempt_Ok: "is_ok (snd p) \<Longrightarrow> p = (fst p, Ok (the_ok (snd p)))"
  by (cases p; cases "snd p") auto

theorem reconcile_retry_repeats_result_witness:
  "committed_part (the_ok (snd second_attempt)) = committed_part (the_ok (snd first_attempt))"
proof -
  have one: "reconcile_guarded plain_env None (poll_input (polled_live (Some 1) [])) live_world =
      (fst first_attempt, Ok (the_ok (snd first_attempt)))"
    using attempt_Ok [OF first_attempt_ok] by (simp add: first_attempt_def)
  have two: "reconcile_guarded plain_env None (poll_input (polled_live (Some 1) [])) (fst first_attempt) =
      (fst second_attempt, Ok (the_ok (snd second_attempt)))"
    using attempt_Ok [OF second_attempt_ok] by (simp add: second_attempt_def)
  have "committed_part (the_ok (snd second_attempt)) = committed_part (the_ok (snd first_attempt)) \<and>
    only_downstream (wd_db (fst first_attempt)) (wd_db (fst second_attempt))"
    by (rule reconcile_retry_repeats_result [OF one two])
      (use watched_db_ok(1) first_attempt_row in \<open>simp_all add: live_world_def poll_input_def polled_live_def\<close>)
  then show ?thesis ..
qed


text \<open>C38: A failed read is reported for events it does not concern: the loop over the newly stable
  events reuses one error variable, so once the read of one of them has failed, every later one
  that the plan holds in memory is reported with that error too, is not listed as stable and is
  not started in this pass.\<close>

theorem failed_load_hides_later_events:
  assumes "map_of ids i = None" "find_event i (ed_events (wd_db (ss_world st))) = None"
    and "\<forall>j\<in>set js. map_of ids j \<noteq> None" "ss_err st = None"
  shows "ss_world (foldl (spawn_stable txt spawn fid ids) st (i # js)) = ss_world st \<and>
    ro_became_stable (ss_output (foldl (spawn_stable txt spawn fid ids) st (i # js))) = ro_became_stable (ss_output st) \<and>
    ro_errors (ss_output (foldl (spawn_stable txt spawn fid ids) st (i # js))) = ro_errors (ss_output st) @
      map (\<lambda>j. ''load stable event='' @ txt j @ '': '' @ ''event: not found'') (i # js)"
proof -
  have later: "spawn_stable txt spawn fid ids s j =
      s\<lparr> ss_err := Some msg, ss_output := output_error (''load stable event='' @ txt j @ '': '' @ msg) (ss_output s) \<rparr>"
    if "map_of ids j \<noteq> None" "ss_err s = Some msg" for s :: spawn_state and j msg
    using that by (auto simp: spawn_stable_def load_stable_def)
  have first: "spawn_stable txt spawn fid ids st i = st\<lparr> ss_err := Some ''event: not found'',
      ss_output := output_error (''load stable event='' @ txt i @ '': '' @ ''event: not found'') (ss_output st) \<rparr>"
    using assms(1,2) by (simp add: spawn_stable_def load_stable_def)
  have "ss_world (foldl (spawn_stable txt spawn fid ids) s js) = ss_world s \<and>
    ro_became_stable (ss_output (foldl (spawn_stable txt spawn fid ids) s js)) = ro_became_stable (ss_output s) \<and>
    ro_errors (ss_output (foldl (spawn_stable txt spawn fid ids) s js)) = ro_errors (ss_output s) @
      map (\<lambda>j. ''load stable event='' @ txt j @ '': '' @ msg) js"
    if "ss_err s = Some msg" for s :: spawn_state and msg
    using that assms(3)
  proof (induction js arbitrary: s)
    case (Cons j js)
    let ?s = "s\<lparr> ss_err := Some msg, ss_output := output_error (''load stable event='' @ txt j @ '': '' @ msg) (ss_output s) \<rparr>"
    have "spawn_stable txt spawn fid ids s j = ?s" using later Cons.prems by simp
    with Cons.IH [of ?s] Cons.prems show ?case by (simp add: output_error_def)
  qed simp
  from this [of "spawn_stable txt spawn fid ids st i"] first show ?thesis
    by (simp add: output_error_def)
qed

theorem failed_load_hides_later_events_witness:
  "ro_became_stable (ss_output (foldl (spawn_stable (\<lambda>_. []) None 1 [(5, stored_goal)])
     \<lparr> ss_world = live_world, ss_output = empty_output 1, ss_err = None \<rparr> [7, 5])) = []"
proof -
  have "find_event 7 (ed_events (wd_db (ss_world \<lparr> ss_world = live_world, ss_output = empty_output 1, ss_err = None \<rparr>))) = None"
    by code_simp
  from failed_load_hides_later_events [OF _ this, of "[(5, stored_goal)]" "[5]" "\<lambda>_. []" None 1]
  show ?thesis by (simp add: empty_output_def)
qed

end
