(* ===== verification/ScoreTimeline.thy ===== *)
theory ScoreTimeline
  imports Presentation "HOL-Library.Multiset"
begin

text \<open>
  The score boundaries of the public presentation, related to a specification that reads them off
  the inventory of a fixture's events: a boundary depends on the goals before a clock only, so the
  order in which events are listed is irrelevant. The walk over clock groups of
  \<open>contract/eventpresentation/presentation.go\<close> is shown to compute it one group at a time.
\<close>

section \<open>The clock order\<close>

definition clock_lt :: "event \<Rightarrow> event \<Rightarrow> bool" where
  "clock_lt a b \<longleftrightarrow> ev_minute a < ev_minute b \<or>
     ev_minute a = ev_minute b \<and> int_value (ev_extra a) < int_value (ev_extra b)"

lemma clock_lt_irrefl [simp]: "\<not> clock_lt a a"
  by (simp add: clock_lt_def)

lemma clock_cases: "same_clock a b \<or> clock_lt a b \<or> clock_lt b a"
  by (auto simp: clock_lt_def same_clock_def)

lemma same_clock_lt: "same_clock a b \<Longrightarrow> clock_lt a c = clock_lt b c" "same_clock a b \<Longrightarrow> clock_lt c a = clock_lt c b"
  by (auto simp: clock_lt_def same_clock_def)

lemma same_clock_sym: "same_clock a b = same_clock b a"
  by (auto simp: same_clock_def)

lemma same_clock_trans: "same_clock a b \<Longrightarrow> same_clock b c \<Longrightarrow> same_clock a c"
  by (auto simp: same_clock_def)

lemma clock_lt_not_same: "clock_lt a b \<Longrightarrow> \<not> same_clock a b"
  by (auto simp: clock_lt_def same_clock_def)

lemma clock_lt_asym: "clock_lt a b \<Longrightarrow> \<not> clock_lt b a"
  by (auto simp: clock_lt_def)

lemma clock_lt_le_trans: "clock_lt a b \<Longrightarrow> \<not> clock_lt c b \<Longrightarrow> clock_lt a c"
  by (auto simp: clock_lt_def)

lemma clock_not_lt_trans: "\<not> clock_lt b a \<Longrightarrow> \<not> clock_lt c b \<Longrightarrow> \<not> clock_lt c a"
  by (auto simp: clock_lt_def)

abbreviation clock_sorted :: "event list \<Rightarrow> bool" where
  "clock_sorted \<equiv> sorted_wrt (\<lambda>a b. \<not> clock_lt b a)"

lemma event_before_clock: "event_before q e \<Longrightarrow> \<not> clock_lt e q" "\<not> event_before q e \<Longrightarrow> \<not> clock_lt q e"
  by (auto simp: event_before_def clock_lt_def split: if_splits)

lemma mset_insert_ordered: "mset (insert_ordered e qs) = add_mset e (mset qs)"
  by (induction qs) auto

lemma set_insert_ordered: "set (insert_ordered e qs) = insert e (set qs)"
  by (induction qs) auto

lemma insert_ordered_sorted: "clock_sorted qs \<Longrightarrow> clock_sorted (insert_ordered e qs)"
proof (induction qs)
  case (Cons q qs)
  show ?case
  proof (cases "event_before q e")
    case True
    with Cons event_before_clock(1) [OF True] show ?thesis by (auto simp: set_insert_ordered)
  next
    case False
    then have "\<not> clock_lt q e" by (rule event_before_clock(2))
    then have "\<not> clock_lt x e" if "x \<in> set qs" for x
      using Cons.prems that clock_not_lt_trans [of q e x] by auto
    with False Cons.prems \<open>\<not> clock_lt q e\<close> show ?thesis by auto
  qed
qed simp

lemma mset_order_events: "mset (order_events es) = mset es"
  by (induction es) (simp_all add: order_events_def mset_insert_ordered)

lemma order_events_sorted: "clock_sorted (order_events es)"
  by (induction es) (simp_all add: order_events_def insert_ordered_sorted)

lemma set_order_events: "set (order_events es) = set es"
  using mset_order_events by (metis set_mset_mset)

lemma distinct_order_events: "distinct (map ev_id (order_events es)) = distinct (map ev_id es)"
  by (metis mset_order_events mset_map mset_eq_imp_distinct_iff)

section \<open>What the boundary should be\<close>

definition surviving_goal :: "event \<Rightarrow> bool" where
  "surviving_goal e \<longleftrightarrow> ev_type e = TypeGoal \<and> \<not> ev_removed e"

definition event_side :: "fixture \<Rightarrow> event \<Rightarrow> team_side option" where
  "event_side f e = side_of_team f (et_id (ev_team e))"

definition goals_before :: "fixture \<Rightarrow> event list \<Rightarrow> event \<Rightarrow> team_side \<Rightarrow> int" where
  "goals_before f es e side =
     int (length (filter (\<lambda>q. surviving_goal q \<and> clock_lt q e \<and> event_side f q = Some side) es))"

definition score_known_before :: "fixture \<Rightarrow> event list \<Rightarrow> event \<Rightarrow> bool" where
  "score_known_before f es e \<longleftrightarrow>
     \<not> list_ex (\<lambda>q. surviving_goal q \<and> clock_lt q e \<and> event_side f q = None) es"

definition goals_at_clock :: "event list \<Rightarrow> event \<Rightarrow> event list" where
  "goals_at_clock es e = filter (\<lambda>q. ev_type q = TypeGoal \<and> same_clock q e) es"

text \<open>A removed goal needs to be the only goal at its clock, a surviving one the only survivor.\<close>

definition sole_goal_at_clock :: "event list \<Rightarrow> event \<Rightarrow> bool" where
  "sole_goal_at_clock es e \<longleftrightarrow>
     (if ev_removed e then length (goals_at_clock es e) = 1
      else length (filter (\<lambda>q. \<not> ev_removed q) (goals_at_clock es e)) = 1)"

definition boundary_shown :: "fixture \<Rightarrow> event list \<Rightarrow> event \<Rightarrow> bool" where
  "boundary_shown f es e \<longleftrightarrow>
     ev_type e = TypeGoal \<and> score_known_before f es e \<and> sole_goal_at_clock es e"

definition boundary_from :: "int \<Rightarrow> int \<Rightarrow> fixture \<Rightarrow> event list \<Rightarrow> event \<Rightarrow> (score \<times> score) option" where
  "boundary_from home away f es e =
     (if \<not> boundary_shown f es e then None
      else map_option (\<lambda>side.
        (\<lparr> sc_home = home + goals_before f es e TeamSideHome, sc_away = away + goals_before f es e TeamSideAway \<rparr>,
         score_after (home + goals_before f es e TeamSideHome) (away + goals_before f es e TeamSideAway) side))
        (event_side f e))"

definition base_projection :: "fixture \<Rightarrow> event \<Rightarrow> event_projection" where
  "base_projection f e = (basic_projection e)\<lparr> ep_presentation :=
     (ep_presentation (basic_projection e))\<lparr> pr_team_side := event_side f e \<rparr> \<rparr>"

definition with_boundary :: "(score \<times> score) option \<Rightarrow> event_projection \<Rightarrow> event_projection" where
  "with_boundary b p = (case b of None \<Rightarrow> p
     | Some (s, t) \<Rightarrow> p\<lparr> ep_presentation := (ep_presentation p)\<lparr> pr_before := Some s, pr_after := Some t \<rparr> \<rparr>)"

lemma with_boundary_side [simp]:
  "pr_team_side (ep_presentation (with_boundary b p)) = pr_team_side (ep_presentation p)"
  by (auto simp: with_boundary_def split: option.splits)

lemma base_projection_side [simp]: "pr_team_side (ep_presentation (base_projection f e)) = event_side f e"
  by (simp add: base_projection_def)

section \<open>One clock group\<close>

text \<open>Every goal of the list still has its initial projection or one with a boundary.\<close>

definition sides_known :: "fixture \<Rightarrow> (uuid \<times> event_projection) list \<Rightarrow> event list \<Rightarrow> bool" where
  "sides_known f ps es \<longleftrightarrow> (\<forall>e\<in>set es. side_of ps e = event_side f e)"

lemma foldl_advance:
  assumes "sides_known f (st_projections st) goals"
  shows "st_projections (foldl advance_score st goals) = st_projections st"
    and "st_home (foldl advance_score st goals) =
      st_home st + int (length (filter (\<lambda>q. \<not> ev_removed q \<and> event_side f q = Some TeamSideHome) goals))"
    and "st_away (foldl advance_score st goals) =
      st_away st + int (length (filter (\<lambda>q. \<not> ev_removed q \<and> event_side f q = Some TeamSideAway) goals))"
    and "st_known (foldl advance_score st goals) =
      (st_known st \<and> \<not> list_ex (\<lambda>q. \<not> ev_removed q \<and> event_side f q = None) goals)"
proof -
  have "st_projections (foldl advance_score st goals) = st_projections st \<and>
    st_home (foldl advance_score st goals) =
      st_home st + int (length (filter (\<lambda>q. \<not> ev_removed q \<and> event_side f q = Some TeamSideHome) goals)) \<and>
    st_away (foldl advance_score st goals) =
      st_away st + int (length (filter (\<lambda>q. \<not> ev_removed q \<and> event_side f q = Some TeamSideAway) goals)) \<and>
    st_known (foldl advance_score st goals) =
      (st_known st \<and> \<not> list_ex (\<lambda>q. \<not> ev_removed q \<and> event_side f q = None) goals)"
    using assms
  proof (induction goals arbitrary: st)
    case (Cons g goals)
    have g: "side_of (st_projections st) g = event_side f g"
      using Cons.prems by (simp add: sides_known_def)
    have ps: "st_projections (advance_score st g) = st_projections st"
      by (auto simp: advance_score_def split: option.splits team_side.splits)
    then have "sides_known f (st_projections (advance_score st g)) goals"
      using Cons.prems by (simp add: sides_known_def)
    note IH = Cons.IH [OF this]
    show ?case
      using IH g ps
      by (cases "event_side f g") (auto simp: advance_score_def split: team_side.splits)
  qed simp
  then show "st_projections (foldl advance_score st goals) = st_projections st"
    and "st_home (foldl advance_score st goals) =
      st_home st + int (length (filter (\<lambda>q. \<not> ev_removed q \<and> event_side f q = Some TeamSideHome) goals))"
    and "st_away (foldl advance_score st goals) =
      st_away st + int (length (filter (\<lambda>q. \<not> ev_removed q \<and> event_side f q = Some TeamSideAway) goals))"
    and "st_known (foldl advance_score st goals) =
      (st_known st \<and> \<not> list_ex (\<lambda>q. \<not> ev_removed q \<and> event_side f q = None) goals)"
    by blast+
qed

definition placed_boundary :: "fixture \<Rightarrow> score_timeline \<Rightarrow> nat \<Rightarrow> nat \<Rightarrow> event \<Rightarrow> (score \<times> score) option" where
  "placed_boundary f st goals surviving e =
     (if \<not> st_known st \<or> \<not> (if ev_removed e then goals = 1 else surviving = 1) then None
      else map_option (\<lambda>side. (\<lparr> sc_home = st_home st, sc_away = st_away st \<rparr>,
             score_after (st_home st) (st_away st) side)) (event_side f e))"

lemma place_boundary_one:
  assumes "map_of (st_projections st) (ev_id e) = Some p" "pr_team_side (ep_presentation p) = event_side f e"
  shows "st_home (place_boundary st n m e) = st_home st" "st_away (place_boundary st n m e) = st_away st"
    "st_known (place_boundary st n m e) = st_known st"
    "map_of (st_projections (place_boundary st n m e)) i =
       (if i = ev_id e then Some (with_boundary (placed_boundary f st n m e) p) else map_of (st_projections st) i)"
proof -
  have "lookup_projection (st_projections st) e = p" "side_of (st_projections st) e = event_side f e"
    using assms by (simp_all add: lookup_projection_def side_of_def)
  then show "st_home (place_boundary st n m e) = st_home st" "st_away (place_boundary st n m e) = st_away st"
    "st_known (place_boundary st n m e) = st_known st"
    "map_of (st_projections (place_boundary st n m e)) i =
       (if i = ev_id e then Some (with_boundary (placed_boundary f st n m e) p) else map_of (st_projections st) i)"
    using assms(1)
    by (auto simp: place_boundary_def Let_def placed_boundary_def with_boundary_def update_conv split: option.splits)
qed

lemma foldl_place:
  assumes "distinct (map ev_id goals)"
    and "\<forall>e\<in>set goals. map_of (st_projections st) (ev_id e) = Some (base_projection f e)"
  shows "let st' = foldl (\<lambda>s e. place_boundary s n m e) st goals in
    st_home st' = st_home st \<and> st_away st' = st_away st \<and> st_known st' = st_known st \<and>
    (\<forall>e\<in>set goals. map_of (st_projections st') (ev_id e) =
       Some (with_boundary (placed_boundary f st n m e) (base_projection f e))) \<and>
    (\<forall>i. i \<notin> ev_id ` set goals \<longrightarrow> map_of (st_projections st') i = map_of (st_projections st) i)"
  using assms
proof (induction goals arbitrary: st)
  case (Cons g goals)
  let ?s = "place_boundary st n m g"
  have g: "map_of (st_projections st) (ev_id g) = Some (base_projection f g)" using Cons.prems by simp
  note one = place_boundary_one [OF g base_projection_side, of n m]
  have fresh: "ev_id g \<notin> ev_id ` set goals" using Cons.prems(1) by simp
  then have neq: "ev_id e \<noteq> ev_id g" if "e \<in> set goals" for e using that by (metis image_eqI)
  have "\<forall>e\<in>set goals. map_of (st_projections ?s) (ev_id e) = Some (base_projection f e)"
    using Cons.prems(2) neq by (simp add: one)
  with Cons.IH [of ?s] Cons.prems(1) have IH: "let st' = foldl (\<lambda>s e. place_boundary s n m e) ?s goals in
    st_home st' = st_home ?s \<and> st_away st' = st_away ?s \<and> st_known st' = st_known ?s \<and>
    (\<forall>e\<in>set goals. map_of (st_projections st') (ev_id e) =
       Some (with_boundary (placed_boundary f ?s n m e) (base_projection f e))) \<and>
    (\<forall>i. i \<notin> ev_id ` set goals \<longrightarrow> map_of (st_projections st') i = map_of (st_projections ?s) i)"
    by simp
  have same: "placed_boundary f ?s n m e = placed_boundary f st n m e" for e
    by (simp add: placed_boundary_def one)
  show ?case
    using IH fresh neq unfolding Let_def same by (simp add: one)
qed simp


definition side_goals :: "fixture \<Rightarrow> event list \<Rightarrow> team_side \<Rightarrow> int" where
  "side_goals f block side = int (length (filter (\<lambda>q. surviving_goal q \<and> event_side f q = Some side) block))"

definition sides_assignable :: "fixture \<Rightarrow> event list \<Rightarrow> bool" where
  "sides_assignable f block \<longleftrightarrow> \<not> list_ex (\<lambda>q. surviving_goal q \<and> event_side f q = None) block"

definition block_boundary :: "fixture \<Rightarrow> score_timeline \<Rightarrow> event list \<Rightarrow> event \<Rightarrow> (score \<times> score) option" where
  "block_boundary f st block e =
     (if ev_type e = TypeGoal
      then placed_boundary f st (length (filter (\<lambda>q. ev_type q = TypeGoal) block))
             (length (filter (\<lambda>q. \<not> ev_removed q) (filter (\<lambda>q. ev_type q = TypeGoal) block))) e
      else None)"

lemma score_block_effect:
  assumes "distinct (map ev_id block)"
    and base: "\<forall>e\<in>set block. map_of (st_projections st) (ev_id e) = Some (base_projection f e)"
  shows "st_home (score_block block st) = st_home st + side_goals f block TeamSideHome"
    and "st_away (score_block block st) = st_away st + side_goals f block TeamSideAway"
    and "st_known (score_block block st) = (st_known st \<and> sides_assignable f block)"
    and "e \<in> set block \<Longrightarrow> map_of (st_projections (score_block block st)) (ev_id e) =
      Some (with_boundary (block_boundary f st block e) (base_projection f e))"
    and "i \<notin> ev_id ` set block \<Longrightarrow>
      map_of (st_projections (score_block block st)) i = map_of (st_projections st) i"
proof -
  define goals where "goals = filter (\<lambda>e. ev_type e = TypeGoal) block"
  define m where "m = length (filter (\<lambda>e. \<not> ev_removed e) goals)"
  define placed where "placed = foldl (\<lambda>s e. place_boundary s (length goals) m e) st goals"
  have block: "score_block block st = foldl advance_score placed goals"
    by (simp add: score_block_def goals_def m_def placed_def Let_def)
  have goals_in: "set goals \<subseteq> set block" by (auto simp: goals_def)
  have "distinct (map ev_id goals)" using assms(1) unfolding goals_def by (rule distinct_map_filter)
  from foldl_place [OF this, of st f "length goals" m] base goals_in
  have placed: "st_home placed = st_home st" "st_away placed = st_away st" "st_known placed = st_known st"
    "\<forall>e\<in>set goals. map_of (st_projections placed) (ev_id e) =
       Some (with_boundary (placed_boundary f st (length goals) m e) (base_projection f e))"
    "\<forall>i. i \<notin> ev_id ` set goals \<longrightarrow> map_of (st_projections placed) i = map_of (st_projections st) i"
    unfolding placed_def Let_def by (meson subsetD)+
  have "sides_known f (st_projections placed) goals"
    using placed(4) by (simp add: sides_known_def side_of_def lookup_projection_def)
  note advance = foldl_advance [OF this]
  have count: "length (filter (\<lambda>q. \<not> ev_removed q \<and> event_side f q = Some side) goals) =
    length (filter (\<lambda>q. surviving_goal q \<and> event_side f q = Some side) block)" for side
    by (simp add: goals_def surviving_goal_def conj_ac)
  show "st_home (score_block block st) = st_home st + side_goals f block TeamSideHome"
    and "st_away (score_block block st) = st_away st + side_goals f block TeamSideAway"
    unfolding block advance(2,3) placed count side_goals_def by simp_all
  show "st_known (score_block block st) = (st_known st \<and> sides_assignable f block)"
    unfolding block advance(4) placed
    by (auto simp: sides_assignable_def surviving_goal_def goals_def list_ex_iff)
  show "map_of (st_projections (score_block block st)) i = map_of (st_projections st) i"
    if "i \<notin> ev_id ` set block"
    using placed(5) that goals_in unfolding block advance(1) by (metis image_mono subsetD)
  show "map_of (st_projections (score_block block st)) (ev_id e) =
      Some (with_boundary (block_boundary f st block e) (base_projection f e))" if e: "e \<in> set block"
  proof (cases "ev_type e = TypeGoal")
    case True
    then have "e \<in> set goals" using e by (simp add: goals_def)
    moreover have "block_boundary f st block e = placed_boundary f st (length goals) m e"
      using True by (simp add: block_boundary_def m_def goals_def)
    ultimately show ?thesis using placed(4) unfolding block advance(1) by simp
  next
    case False
    have "ev_id e \<notin> ev_id ` set goals"
    proof
      assume "ev_id e \<in> ev_id ` set goals"
      then obtain q where "q \<in> set goals" "ev_id q = ev_id e" by auto
      moreover have "inj_on ev_id (set block)" using assms(1) by (simp add: distinct_map)
      ultimately show False using False e by (auto simp: goals_def dest: inj_onD)
    qed
    with placed(5) base e False show ?thesis
      unfolding block advance(1) by (simp add: block_boundary_def with_boundary_def)
  qed
qed

section \<open>The whole timeline\<close>

lemma clock_block_split:
  assumes "clock_sorted (e # es)"
  shows "b \<in> set (e # takeWhile (same_clock e) es) \<Longrightarrow> same_clock e b"
    and "r \<in> set (dropWhile (same_clock e) es) \<Longrightarrow> clock_lt e r"
proof -
  show "same_clock e b" if "b \<in> set (e # takeWhile (same_clock e) es)"
    using that by (auto simp: same_clock_def dest: set_takeWhileD)
  show "clock_lt e r" if r: "r \<in> set (dropWhile (same_clock e) es)"
  proof -
    let ?d = "dropWhile (same_clock e) es"
    obtain h t where d: "?d = h # t" using r by (cases ?d) auto
    then have "\<not> same_clock e h" using hd_dropWhile [of "same_clock e" es] by auto
    moreover have "h \<in> set es" using d by (metis list.set_intros(1) set_dropWhileD)
    then have "\<not> clock_lt h e" using assms by simp
    ultimately have "clock_lt e h" using clock_cases by blast
    moreover have "clock_sorted ?d" using assms by (simp add: sorted_wrt_dropWhile)
    then have "\<not> clock_lt r h" using r unfolding d by auto
    ultimately show ?thesis by (rule clock_lt_le_trans)
  qed
qed

definition advanced :: "fixture \<Rightarrow> score_timeline \<Rightarrow> event list \<Rightarrow> event \<Rightarrow> (score \<times> score) option" where
  "advanced f st es e = (if st_known st then boundary_from (st_home st) (st_away st) f es e else None)"

lemma advanced_in_block:
  assumes block: "\<And>q. q \<in> set block \<Longrightarrow> same_clock e q"
    and later: "\<And>q. q \<in> set rest \<Longrightarrow> clock_lt e q" and e: "b \<in> set block"
  shows "advanced f st (block @ rest) b = block_boundary f st block b"
proof -
  have b: "same_clock e b" using block e by blast
  have same: "same_clock q b" "\<not> clock_lt q b" if "q \<in> set block" for q
    using block [OF that] b same_clock_lt(1) same_clock_lt(2) clock_lt_irrefl same_clock_sym same_clock_trans
    by metis+
  have after: "\<not> same_clock q b" "\<not> clock_lt q b" if "q \<in> set rest" for q
    using same_clock_lt(1) [OF b] later [OF that] clock_lt_not_same clock_lt_asym same_clock_sym by metis+
  have none: "filter (\<lambda>q. surviving_goal q \<and> clock_lt q b \<and> event_side f q = s) (block @ rest) = []" for s
    using same(2) after(2) by (auto simp: filter_empty_conv)
  have zero: "goals_before f (block @ rest) b s = 0" for s
    unfolding goals_before_def none by simp
  have known: "score_known_before f (block @ rest) b"
    using same(2) after(2) by (auto simp: score_known_before_def list_ex_iff)
  have at: "goals_at_clock (block @ rest) b = filter (\<lambda>q. ev_type q = TypeGoal) block"
    using same(1) after(1) by (auto simp: goals_at_clock_def filter_empty_conv cong: filter_cong)
  show ?thesis
    by (auto simp: advanced_def boundary_from_def boundary_shown_def block_boundary_def placed_boundary_def
        zero known at sole_goal_at_clock_def)
qed

lemma advanced_after_block:
  assumes block: "\<And>q. q \<in> set block \<Longrightarrow> same_clock e q"
    and later: "\<And>q. q \<in> set rest \<Longrightarrow> clock_lt e q" and r: "r \<in> set rest"
    and st': "st_home st' = st_home st + side_goals f block TeamSideHome"
      "st_away st' = st_away st + side_goals f block TeamSideAway"
      "st_known st' = (st_known st \<and> sides_assignable f block)"
  shows "advanced f st (block @ rest) r = advanced f st' rest r"
proof -
  have lt: "clock_lt q r" "\<not> same_clock q r" if "q \<in> set block" for q
    using same_clock_lt(1) [OF block [OF that]] later [OF r] clock_lt_not_same by metis+
  have goals: "goals_before f (block @ rest) r s = side_goals f block s + goals_before f rest r s" for s
    using lt(1) by (auto simp: goals_before_def side_goals_def cong: filter_cong)
  have known: "score_known_before f (block @ rest) r = (sides_assignable f block \<and> score_known_before f rest r)"
    using lt(1) by (auto simp: score_known_before_def sides_assignable_def list_ex_iff)
  have at: "goals_at_clock (block @ rest) r = goals_at_clock rest r"
    using lt(2) by (auto simp: goals_at_clock_def filter_empty_conv)
  show ?thesis
    by (simp add: advanced_def boundary_from_def boundary_shown_def goals known at sole_goal_at_clock_def st'
        add.assoc)
qed

lemma timeline_boundaries:
  assumes "clock_sorted es" "distinct (map ev_id es)"
    and "\<forall>e\<in>set es. map_of (st_projections st) (ev_id e) = Some (base_projection f e)"
  shows "(\<forall>e\<in>set es. map_of (st_projections (foldl (\<lambda>st g. score_block g st) st (clock_groups es))) (ev_id e) =
      Some (with_boundary (advanced f st es e) (base_projection f e))) \<and>
    (\<forall>i. i \<notin> ev_id ` set es \<longrightarrow>
      map_of (st_projections (foldl (\<lambda>st g. score_block g st) st (clock_groups es))) i = map_of (st_projections st) i)"
  using assms
proof (induction es arbitrary: st rule: clock_groups.induct)
  case 1
  show ?case by simp
next
  case (2 e es)
  define block where "block = e # takeWhile (same_clock e) es"
  define rest where "rest = dropWhile (same_clock e) es"
  have es: "e # es = block @ rest" by (simp add: block_def rest_def)
  note split = clock_block_split [OF "2.prems"(1), folded block_def rest_def]
  have ids: "distinct (map ev_id block)" "distinct (map ev_id rest)"
    "i \<in> ev_id ` set block \<Longrightarrow> i \<notin> ev_id ` set rest" for i
    using "2.prems"(2) unfolding es by auto
  have base: "\<forall>e\<in>set block. map_of (st_projections st) (ev_id e) = Some (base_projection f e)"
    "\<forall>e\<in>set rest. map_of (st_projections st) (ev_id e) = Some (base_projection f e)"
    using "2.prems"(3) unfolding es by auto
  note effect = score_block_effect [OF ids(1) base(1)]
  let ?st = "score_block block st"
  have "\<forall>e\<in>set rest. map_of (st_projections ?st) (ev_id e) = Some (base_projection f e)"
    using base(2) effect(5) ids(3) by (metis image_eqI)
  moreover have "clock_sorted rest" using "2.prems"(1) unfolding es by (simp add: sorted_wrt_append)
  ultimately have IH: "\<forall>e\<in>set rest. map_of (st_projections (foldl (\<lambda>st g. score_block g st) ?st (clock_groups rest))) (ev_id e) =
      Some (with_boundary (advanced f ?st rest e) (base_projection f e))"
    "\<forall>i. i \<notin> ev_id ` set rest \<longrightarrow>
      map_of (st_projections (foldl (\<lambda>st g. score_block g st) ?st (clock_groups rest))) i = map_of (st_projections ?st) i"
    using "2.IH" [of ?st] ids(2) unfolding rest_def by blast+
  have run: "foldl (\<lambda>st g. score_block g st) st (clock_groups (e # es)) =
    foldl (\<lambda>st g. score_block g st) ?st (clock_groups rest)"
    by (simp add: block_def rest_def)
  have "map_of (st_projections (foldl (\<lambda>st g. score_block g st) ?st (clock_groups rest))) (ev_id q) =
      Some (with_boundary (advanced f st (block @ rest) q) (base_projection f q))" if "q \<in> set (block @ rest)" for q
  proof (cases "q \<in> set block")
    case True
    then have "ev_id q \<notin> ev_id ` set rest" using ids(3) by (metis image_eqI)
    then have "map_of (st_projections (foldl (\<lambda>st g. score_block g st) ?st (clock_groups rest))) (ev_id q) =
      map_of (st_projections ?st) (ev_id q)" using IH(2) by blast
    with effect(4) [OF True] advanced_in_block [OF split True] show ?thesis by simp
  next
    case False
    then have "q \<in> set rest" using that by simp
    then show ?thesis
      using IH(1) advanced_after_block [OF split _ effect(1,2,3)] by simp
  qed
  moreover have "map_of (st_projections (foldl (\<lambda>st g. score_block g st) ?st (clock_groups rest))) i =
      map_of (st_projections st) i" if "i \<notin> ev_id ` set (block @ rest)" for i
  proof -
    have "i \<notin> ev_id ` set block" "i \<notin> ev_id ` set rest" using that by (simp_all add: image_Un)
    with IH(2) effect(5) [of i] show ?thesis by simp
  qed
  ultimately have "(\<forall>q\<in>set (block @ rest).
      map_of (st_projections (foldl (\<lambda>st g. score_block g st) ?st (clock_groups rest))) (ev_id q) =
        Some (with_boundary (advanced f st (block @ rest) q) (base_projection f q))) \<and>
    (\<forall>i. i \<notin> ev_id ` set (block @ rest) \<longrightarrow>
      map_of (st_projections (foldl (\<lambda>st g. score_block g st) ?st (clock_groups rest))) i =
        map_of (st_projections st) i)"
    by (intro conjI ballI allI impI)
  then show ?case unfolding es run [unfolded es] .
qed

lemma initial_projections_base:
  assumes "distinct (map ev_id es)" "e \<in> set es"
  shows "map_of (initial_projections f es) (ev_id e) = Some (base_projection f e)"
proof -
  have "map_of (foldl (\<lambda>ps e. AList.update (ev_id e) (base_projection f e) ps) ps es) i =
    (case find (\<lambda>e. ev_id e = i) es of Some e \<Rightarrow> Some (base_projection f e) | None \<Rightarrow> map_of ps i)"
    if "distinct (map ev_id es)" for ps i
    using that
  proof (induction es arbitrary: ps)
    case (Cons x es)
    have "find (\<lambda>e. ev_id e = ev_id x) es = None"
      using Cons.prems by (auto simp: find_None_iff image_iff)
    with Cons show ?case by (auto simp: update_conv split: option.splits)
  qed simp
  note run = this [OF assms(1), of "[]" "ev_id e"]
  have "find (\<lambda>q. ev_id q = ev_id e) es = Some e"
    using assms by (induction es) (auto simp: image_iff)
  then show ?thesis
    using run by (simp add: initial_projections_def base_projection_def event_side_def Let_def)
qed

lemma boundary_from_mset:
  assumes "mset es = mset es'"
  shows "boundary_from h a f es e = boundary_from h a f es' e"
proof -
  have len: "length (filter P es) = length (filter P es')" for P
    using assms by (metis mset_filter size_mset)
  have "goals_before f es e s = goals_before f es' e s" for s
    unfolding goals_before_def len ..
  moreover have "score_known_before f es e = score_known_before f es' e"
    using mset_eq_setD [OF assms] by (simp add: score_known_before_def list_ex_iff)
  moreover have "sole_goal_at_clock es e = sole_goal_at_clock es' e"
    unfolding sole_goal_at_clock_def goals_at_clock_def filter_filter len ..
  ultimately show ?thesis by (simp add: boundary_from_def boundary_shown_def)
qed

lemma order_boundary:
  assumes "distinct (map ev_id events)" "e \<in> set events"
  shows "map_of (build_presentations f events) (ev_id e) =
    Some (with_boundary (boundary_from 0 0 f events e) (base_projection f e))"
proof -
  let ?es = "order_events events"
  let ?st = "\<lparr> st_home = 0, st_away = 0, st_known = True, st_projections = initial_projections f ?es \<rparr>"
  have ids: "distinct (map ev_id ?es)" using assms(1) by (simp add: distinct_order_events)
  have "map_of (build_presentations f events) (ev_id e) =
    Some (with_boundary (advanced f ?st ?es e) (base_projection f e))"
    using timeline_boundaries [OF order_events_sorted ids, of ?st f] initial_projections_base [OF ids] assms(2)
    by (simp add: build_presentations_def Let_def set_order_events)
  then show ?thesis
    by (simp add: advanced_def boundary_from_mset [OF mset_order_events, of _ _ f events])
qed

text \<open>C22: For a fixture whose events have distinct ids, whatever order they are listed in, the timeline
  walk shows on every event its label and side, and exactly the score boundary the specification
  reads off the inventory: a goal whose side is known, that is the only goal at its clock (the only
  surviving one, if it stands), gets the count of surviving goals before its clock as the score
  before it, and one more for its side as the score after it, unless an earlier surviving goal has no
  known side.\<close>

theorem presentation_refines_score_inventory:
  assumes "distinct (map ev_id events)" "e \<in> set events"
  shows "map_of (build_presentations f events) (ev_id e) =
    Some (with_boundary (boundary_from 0 0 f events e) (base_projection f e))"
  using assms by (rule order_boundary)


definition late_goal :: event where
  "late_goal = (sample_event 6 2 70)\<lparr> ev_team := \<lparr> et_id = 2, et_name = ''A'' \<rparr> \<rparr>"

theorem presentation_refines_score_inventory_witness:
  "map_option (pr_after \<circ> ep_presentation)
     (map_of (build_presentations kickoff_fixture [late_goal, sample_event 5 1 20]) 6) =
   Some (Some \<lparr> sc_home = 1, sc_away = 1 \<rparr>)"
proof -
  have "distinct (map ev_id [late_goal, sample_event 5 1 20])" by code_simp
  from presentation_refines_score_inventory [OF this, of late_goal kickoff_fixture]
  have "map_of (build_presentations kickoff_fixture [late_goal, sample_event 5 1 20]) (ev_id late_goal) =
    Some (with_boundary (boundary_from 0 0 kickoff_fixture [late_goal, sample_event 5 1 20] late_goal)
      (base_projection kickoff_fixture late_goal))" by simp
  moreover have "ev_id late_goal = 6" by code_simp
  moreover have "pr_after (ep_presentation (with_boundary
      (boundary_from 0 0 kickoff_fixture [late_goal, sample_event 5 1 20] late_goal)
      (base_projection kickoff_fixture late_goal))) = Some \<lparr> sc_home = 1, sc_away = 1 \<rparr>" by code_simp
  ultimately show ?thesis by simp
qed

text \<open>So the order the caller lists the events in does not matter.\<close>

corollary presentation_ignores_order:
  assumes "distinct (map ev_id events)" "mset events' = mset events" "e \<in> set events"
  shows "map_of (build_presentations f events') (ev_id e) = map_of (build_presentations f events) (ev_id e)"
proof -
  have ids': "distinct (map ev_id events')"
    using assms(1,2) by (metis mset_map mset_eq_imp_distinct_iff)
  have e': "e \<in> set events'" using assms(2,3) by (metis set_mset_mset)
  show ?thesis
    unfolding order_boundary [OF ids' e'] order_boundary [OF assms(1,3)]
    by (simp add: boundary_from_mset [OF assms(2)])
qed

end
