(* ===== verification/Spawner.thy ===== *)
theory Spawner
  imports Prelude
begin

text \<open>
  The spawn boundary of event workflows, \<open>internal/activity/monitor/spawner.go\<close>: a start that is
  refused as a duplicate inspects the running execution, and only an execution seen twice without
  progress for the whole stale bound is terminated and started again. What the Temporal server
  answers to each call is an argument. A spawner is used under its mutex, so calls are a sequence.
\<close>

section \<open>Answers of the server\<close>


datatype run_status = RunRunning | RunClosed





section \<open>Observations\<close>



definition default_stale_after :: duration where
  "default_stale_after = 30 * 60 * 1000000000"

definition new_stale_after :: "duration \<Rightarrow> duration" where
  "new_stale_after stale_after = (if stale_after \<le> 0 then default_stale_after else stale_after)"

definition conservative_stale_after :: "duration \<Rightarrow> duration \<Rightarrow> duration" where
  "conservative_stale_after spacing query_timeout =
     (let s0 = default_stale_after;
          s1 = (if 2 * spacing > s0 then 2 * spacing else s0);
          search = 4 * query_timeout + 5 * 60 * 1000000000
      in if search > s1 then search else s1)"





section \<open>One spawn\<close>






section \<open>Where an observation comes from\<close>












section \<open>Nothing live is terminated\<close>



section \<open>A stuck execution is recovered\<close>








section \<open>Witnesses\<close>







end
