(* ===== verification/Spec2Isabelle.thy ===== *)
theory Spec2Isabelle
  imports Activation EventFlow HealthCollection Lifecycle PipelineProgress PlacementRetry ReconcileSafety ScoreTimeline Spawner
begin

text \<open>
  A verification development for found-footy, a service that follows football fixtures
  through a polled provider, records their events, and finds and verifies video clips of
  them. The development models the decision logic under \<open>src/internal\<close>.
\<close>

end
